(* ===== verification/Prelude.thy ===== *)
theory Prelude
  imports Complex_Main "HOL-Library.State_Monad"
begin

text \<open>
  Prelude of the Keyosk development: the names shared by every theory.  It holds the collections
  of hints, the type synonyms for time and results, and the generic lemmas about lists used as
  database tables (unique keys, updates of one row, look-ups of one row) and about the state monad
  in which the handlers are written.
\<close>

section \<open>Collections of hints\<close>

named_theorems exec \<comment> \<open>how one primitive step of a handler changes the world\<close>
named_theorems table \<comment> \<open>what a statement does to the rows of a table\<close>
named_theorems inv_step \<comment> \<open>operations that keep the schema invariant\<close>

section \<open>Time\<close>

text \<open>
  A point in time is a number of nanoseconds since the Unix epoch, as Go's \<open>time.Time\<close> holds it;
  a duration is a number of nanoseconds, as \<open>time.Duration\<close>.
\<close>

type_synonym time = int
type_synonym duration = int

abbreviation second :: duration where "second \<equiv> 1000000000"
abbreviation minute :: duration where "minute \<equiv> 60 * second"
abbreviation hour :: duration where "hour \<equiv> 60 * minute"
abbreviation day :: duration where "day \<equiv> 24 * hour"

text \<open>Go's integer division truncates towards zero.\<close>

definition trunc_div :: "int \<Rightarrow> int \<Rightarrow> int" where
  "trunc_div a b = (if a < 0 then - ((- a) div b) else a div b)"

lemma trunc_div_nonneg: "0 \<le> a \<Longrightarrow> trunc_div a b = a div b"
  by (simp add: trunc_div_def)

definition the_default :: "'a \<Rightarrow> 'a option \<Rightarrow> 'a" where
  "the_default z x = (case x of None \<Rightarrow> z | Some a \<Rightarrow> a)"

lemma the_default_simps [simp]: "the_default z None = z" "the_default z (Some a) = a"
  by (simp_all add: the_default_def)

section \<open>Tables as lists\<close>

text \<open>A table is the list of its rows in the order of their ids.\<close>

definition uniq_on :: "('a \<Rightarrow> 'k) \<Rightarrow> 'a list \<Rightarrow> bool" where
  "uniq_on f xs \<longleftrightarrow> distinct (map f xs)"

lemma uniq_on_Nil [simp]: "uniq_on f []"
  by (simp add: uniq_on_def)

lemma uniq_on_Cons [simp]: "uniq_on f (x # xs) \<longleftrightarrow> f x \<notin> f ` set xs \<and> uniq_on f xs"
  by (auto simp: uniq_on_def)

lemma uniq_on_append [simp]:
  "uniq_on f (xs @ ys) \<longleftrightarrow> uniq_on f xs \<and> uniq_on f ys \<and> f ` set xs \<inter> f ` set ys = {}"
  by (auto simp: uniq_on_def)

lemma uniq_on_filter: "uniq_on f xs \<Longrightarrow> uniq_on f (filter P xs)"
  by (simp add: uniq_on_def distinct_map_filter)

lemma uniq_on_inj: "uniq_on f xs \<Longrightarrow> x \<in> set xs \<Longrightarrow> y \<in> set xs \<Longrightarrow> f x = f y \<Longrightarrow> x = y"
  by (auto simp: uniq_on_def distinct_map inj_on_def)

lemma uniq_on_map: "(\<And>x. f (g x) = f x) \<Longrightarrow> uniq_on f (map g xs) = uniq_on f xs"
  by (simp add: uniq_on_def comp_def)

text \<open>\<open>UPDATE t SET \<dots> WHERE P\<close> and \<open>SELECT \<dots> WHERE P LIMIT 1\<close>.\<close>

definition update_where :: "('a \<Rightarrow> bool) \<Rightarrow> ('a \<Rightarrow> 'a) \<Rightarrow> 'a list \<Rightarrow> 'a list" where
  "update_where P f xs = map (\<lambda>x. if P x then f x else x) xs"

definition delete_where :: "('a \<Rightarrow> bool) \<Rightarrow> 'a list \<Rightarrow> 'a list" where
  "delete_where P xs = filter (\<lambda>x. \<not> P x) xs"

definition count_where :: "('a \<Rightarrow> bool) \<Rightarrow> 'a list \<Rightarrow> nat" where
  "count_where P xs = length (filter P xs)"

lemma set_update_where [table]:
  "set (update_where P f xs) = (\<lambda>x. if P x then f x else x) ` set xs"
  by (simp add: update_where_def)

lemma set_delete_where [table]: "set (delete_where P xs) = {x \<in> set xs. \<not> P x}"
  by (auto simp: delete_where_def)

lemma length_update_where [simp]: "length (update_where P f xs) = length xs"
  by (simp add: update_where_def)

lemma map_update_where: "(\<And>x. g (f x) = g x) \<Longrightarrow> map g (update_where P f xs) = map g xs"
  by (simp add: update_where_def)

lemma uniq_on_update_where:
  "(\<And>x. g (f x) = g x) \<Longrightarrow> uniq_on g (update_where P f xs) = uniq_on g xs"
  by (simp add: uniq_on_def map_update_where)

lemma uniq_on_delete_where: "uniq_on g xs \<Longrightarrow> uniq_on g (delete_where P xs)"
  by (simp add: delete_where_def uniq_on_filter)

lemma image_update_where:
  assumes "\<And>x. g (f x) = g x"
  shows "g ` set (update_where P f xs) = g ` set xs"
proof -
  have "g ` set (update_where P f xs) = (\<lambda>x. g (if P x then f x else x)) ` set xs"
    by (simp only: set_update_where image_image)
  also have "(\<lambda>x. g (if P x then f x else x)) = g"
    using assms by auto
  finally show ?thesis .
qed

text \<open>
  Facts about all rows and some row of a changed table, stated for any type so that no proof has to
  take a row of many columns apart.
\<close>

lemma bex_update_where:
  "(\<And>x. P (f x) = P x) \<Longrightarrow> (\<exists>x \<in> set (update_where Q f xs). P x) = (\<exists>x \<in> set xs. P x)"
  by (induction xs) (auto simp: update_where_def)

lemma ball_update_where:
  "(\<And>x. x \<in> set xs \<Longrightarrow> Q x \<Longrightarrow> P (f x)) \<Longrightarrow> (\<And>x. x \<in> set xs \<Longrightarrow> \<not> Q x \<Longrightarrow> P x)
     \<Longrightarrow> \<forall>x \<in> set (update_where Q f xs). P x"
  by (auto simp: update_where_def)

lemma update_whereE:
  assumes "y \<in> set (update_where Q f xs)"
  obtains x where "x \<in> set xs" "Q x" "y = f x" | "y \<in> set xs" "\<not> Q y"
  using assms by (auto simp: update_where_def split: if_splits)

lemma in_update_where: "x \<in> set xs \<Longrightarrow> (if Q x then f x else x) \<in> set (update_where Q f xs)"
  by (auto simp: update_where_def)

definition at_most_one :: "('a \<Rightarrow> 'k) \<Rightarrow> ('a \<Rightarrow> bool) \<Rightarrow> 'a list \<Rightarrow> bool" where
  "at_most_one k P xs \<longleftrightarrow> (\<forall>x \<in> set xs. \<forall>y \<in> set xs. P x \<longrightarrow> P y \<longrightarrow> k x = k y)"

lemma at_most_oneD: "at_most_one k P xs \<Longrightarrow> x \<in> set xs \<Longrightarrow> y \<in> set xs \<Longrightarrow> P x \<Longrightarrow> P y \<Longrightarrow> k x = k y"
  unfolding at_most_one_def by blast

lemma at_most_one_update:
  assumes "at_most_one k P xs" and "\<And>x. k (f x) = k x" and "\<And>x. P (f x) \<Longrightarrow> P x"
  shows "at_most_one k P (update_where Q f xs)"
proof -
  let ?g = "\<lambda>x. if Q x then f x else x"
  have "k (?g x) = k (?g y)" if "x \<in> set xs" "y \<in> set xs" "P (?g x)" "P (?g y)" for x y
  proof -
    have "P x" "P y" using that(3,4) assms(3) by (metis, metis)
    then have "k x = k y" using assms(1) that(1,2) by (metis at_most_oneD)
    then show ?thesis using assms(2) by simp
  qed
  then show ?thesis unfolding at_most_one_def set_update_where by (simp only: ball_simps) blast
qed

lemma at_most_one_delete: "at_most_one k P xs \<Longrightarrow> at_most_one k P (delete_where Q xs)"
  unfolding at_most_one_def set_delete_where by blast

lemma at_most_one_only:
  "(\<And>x. x \<in> set xs \<Longrightarrow> P x \<Longrightarrow> k x = c) \<Longrightarrow> at_most_one k P xs"
  by (simp add: at_most_one_def)

lemma count_where_0: "count_where P xs = 0 \<longleftrightarrow> (\<forall>x \<in> set xs. \<not> P x)"
  by (auto simp: count_where_def filter_empty_conv)

lemma count_where_pos: "0 < count_where P xs \<longleftrightarrow> (\<exists>x \<in> set xs. P x)"
  using count_where_0 [of P xs] by auto

lemma at_most_one_append:
  "at_most_one k P xs \<Longrightarrow> (P x \<Longrightarrow> \<not> (\<exists>y \<in> set xs. P y)) \<Longrightarrow> at_most_one k P (xs @ [x])"
  unfolding at_most_one_def set_append by (simp only: ball_Un list.set ball_simps) blast

lemma uniq_on_update_one:
  assumes "uniq_on k xs" and "uniq_on g xs" and "\<And>x. g (f x) = v"
    and "\<forall>x \<in> set xs. k x \<noteq> c \<longrightarrow> g x \<noteq> v"
  shows "uniq_on g (update_where (\<lambda>x. k x = c) f xs)"
  using assms
proof (induction xs)
  case Nil
  then show ?case by (simp add: update_where_def)
next
  case (Cons a xs)
  let ?t = "update_where (\<lambda>x. k x = c) f xs"
  have IH: "uniq_on g ?t" using Cons by simp
  show ?case
  proof (cases "k a = c")
    case True
    then have "\<forall>x \<in> set xs. k x \<noteq> c" using Cons.prems(1) by (auto simp: image_iff)
    then have "?t = xs" by (simp add: update_where_def map_idI)
    moreover have "v \<notin> g ` set xs" using Cons.prems(4) \<open>\<forall>x \<in> set xs. k x \<noteq> c\<close> by auto
    moreover have "update_where (\<lambda>x. k x = c) f (a # xs) = f a # ?t"
      using True by (simp add: update_where_def)
    ultimately show ?thesis using IH Cons.prems(3) by simp
  next
    case False
    then have "g a \<noteq> v" using Cons.prems(4) by simp
    moreover have "g a \<notin> g ` set xs" using Cons.prems(2) by simp
    ultimately have "g a \<notin> g ` set ?t"
      using Cons.prems(3) by (auto elim!: update_whereE)
    moreover have "update_where (\<lambda>x. k x = c) f (a # xs) = a # ?t"
      using False by (simp add: update_where_def)
    ultimately show ?thesis using IH by simp
  qed
qed

lemma at_most_one_update_one:
  assumes "at_most_one k P xs" and "\<And>x. k (f x) = k x" and "\<And>x. P (f x) = b"
    and "b \<Longrightarrow> \<forall>x \<in> set xs. k x \<noteq> c \<longrightarrow> \<not> P x"
  shows "at_most_one k P (update_where (\<lambda>x. k x = c) f xs)"
proof (cases b)
  case True
  then have "k y = c" if "y \<in> set (update_where (\<lambda>x. k x = c) f xs)" "P y" for y
    using that assms(2,4) by (elim update_whereE) auto
  then show ?thesis by (rule at_most_one_only)
next
  case False
  then show ?thesis using assms by (intro at_most_one_update) simp_all
qed

lemma at_most_one_key:
  assumes "uniq_on k xs" and "at_most_one k P xs"
  shows "at_most_one j P xs"
  unfolding at_most_one_def
proof (intro ballI impI)
  fix x y
  assume x: "x \<in> set xs" "y \<in> set xs" "P x" "P y"
  then have "k x = k y" using assms(2) by (metis at_most_oneD)
  then have "x = y" by (rule uniq_on_inj [OF assms(1) x(1,2)])
  then show "j x = j y" by simp
qed

lemma distinct_const: "distinct ks \<Longrightarrow> \<forall>x \<in> set ks. x = c \<Longrightarrow> length ks \<le> 1"
  by (cases ks; cases "tl ks") auto

lemma count_where_one:
  assumes "uniq_on k xs" and "at_most_one k P xs" and "\<exists>x \<in> set xs. P x"
  shows "count_where P xs = 1"
proof -
  obtain a where a: "a \<in> set xs" "P a" using assms(3) by blast
  have "\<forall>c \<in> set (map k (filter P xs)). c = k a"
    using at_most_oneD [OF assms(2) _ a(1) _ a(2)] by simp
  moreover have "distinct (map k (filter P xs))"
    using uniq_on_filter [OF assms(1), of P] by (simp only: uniq_on_def)
  ultimately have "length (filter P xs) \<le> 1"
    using distinct_const [of "map k (filter P xs)" "k a"] by simp
  moreover have "0 < length (filter P xs)"
    using assms(3) count_where_pos [of P xs] unfolding count_where_def by blast
  ultimately show ?thesis unfolding count_where_def by linarith
qed

lemma filter_update_where:
  "(\<And>x. P (f x) = P x) \<Longrightarrow> filter P (update_where Q f xs) = update_where Q f (filter P xs)"
  by (induction xs) (auto simp: update_where_def)

lemma uniq_on_pair: "uniq_on g xs \<Longrightarrow> uniq_on (\<lambda>x. (f x, g x)) xs"
  by (induction xs) auto

text \<open>The one row with a given key, where the key is unique.\<close>

lemma find_uniq:
  assumes "uniq_on f xs" and "x \<in> set xs" and "f x = k"
  shows "find (\<lambda>y. f y = k) xs = Some x"
  using assms by (induction xs) (auto simp: image_iff)

lemma find_SomeD: "find P xs = Some x \<Longrightarrow> x \<in> set xs \<and> P x"
  by (induction xs) (auto split: if_splits)

lemma find_NoneD: "find P xs = None \<Longrightarrow> x \<in> set xs \<Longrightarrow> \<not> P x"
  by (induction xs) (auto split: if_splits)

lemma find_update_where:
  "(\<And>x. k (f x) = k x) \<Longrightarrow> find (\<lambda>x. k x = c) (update_where Q f xs)
     = map_option (\<lambda>x. if Q x then f x else x) (find (\<lambda>x. k x = c) xs)"
  by (induction xs) (auto simp: update_where_def)

lemma filter_delete_where_other:
  "j \<noteq> i \<Longrightarrow> filter (\<lambda>x. k x = j) (delete_where (\<lambda>x. k x = i) xs) = filter (\<lambda>x. k x = j) xs"
  by (induction xs) (auto simp: delete_where_def)

lemma filter_delete_where_same [simp]:
  "filter (\<lambda>x. k x = i) (delete_where (\<lambda>x. k x = i) xs) = []"
  by (induction xs) (auto simp: delete_where_def)

lemma find_delete_where:
  "find (\<lambda>x. k x = c) (delete_where (\<lambda>x. k x = i) xs)
     = (if c = i then None else find (\<lambda>x. k x = c) xs)"
  by (induction xs) (auto simp: delete_where_def)

section \<open>The state monad of the handlers\<close>

text \<open>
  Handlers are written in the library's state monad, in the order of the code's calls.  Running a
  sequence is running its parts; these equations let \<open>simp\<close> execute a handler step by step.
\<close>

lemma run_state_bind [simp]:
  "run_state (State_Monad.bind m f) w = (case run_state m w of (a, w') \<Rightarrow> run_state (f a) w')"
  by (simp add: State_Monad.bind_def)

lemma run_state_return [simp]: "run_state (State_Monad.return a) w = (a, w)"
  by (simp add: State_Monad.return_def)

lemma run_state_get [simp]: "run_state State_Monad.get w = (w, w)"
  by (simp add: State_Monad.get_def)

lemma run_state_set [simp]: "run_state (State_Monad.set w') w = ((), w')"
  by (simp add: State_Monad.set_def)

end
