(* ===== verification/Calendar.thy ===== *)
theory Calendar
  imports GoText
begin

text \<open>
  The calendar operations of Go's package \<open>time\<close> that the program uses, in UTC: the day a point
  in time falls on, dates of the proleptic Gregorian calendar, \<open>AddDate\<close>, \<open>Weekday\<close>, the layouts
  2006-01-02 and 2006-01 for formatting and the first one for parsing.  A day is the number of
  days since 1970-01-01.
\<close>

section \<open>Days and dates\<close>

definition day_of :: "time \<Rightarrow> int" where
  "day_of t = t div day"

definition start_of_day :: "int \<Rightarrow> time" where
  "start_of_day d = d * day"

text \<open>\<open>t.AddDate(0, 0, n)\<close>, in a zone without clock changes.\<close>

definition add_days :: "time \<Rightarrow> int \<Rightarrow> time" where
  "add_days t n = t + n * day"

definition is_leap :: "int \<Rightarrow> bool" where
  "is_leap y \<longleftrightarrow> 4 dvd y \<and> (\<not> 100 dvd y \<or> 400 dvd y)"

definition days_in_month :: "int \<Rightarrow> int \<Rightarrow> int" where
  "days_in_month y m =
     (if m = 2 then (if is_leap y then 29 else 28)
      else if m \<in> {4, 6, 9, 11} then 30 else 31)"

text \<open>
  Years are counted from March, so that the leap day is the last one; 400 years are 146097 days.
\<close>

definition civil_of_day :: "int \<Rightarrow> int \<times> int \<times> int" where
  "civil_of_day d =
     (let z = d + 719468;
          era = z div 146097;
          doe = z mod 146097;
          yoe = (doe - doe div 1460 + doe div 36524 - doe div 146096) div 365;
          doy = doe - (365 * yoe + yoe div 4 - yoe div 100);
          mp = (5 * doy + 2) div 153;
          dd = doy - (153 * mp + 2) div 5 + 1;
          m = (if mp < 10 then mp + 3 else mp - 9)
      in ((yoe + era * 400) + (if m \<le> 2 then 1 else 0), m, dd))"

definition day_of_civil :: "int \<Rightarrow> int \<Rightarrow> int \<Rightarrow> int" where
  "day_of_civil y m d =
     (let y' = (if m \<le> 2 then y - 1 else y);
          era = y' div 400;
          yoe = y' mod 400;
          mp = (m + 9) mod 12;
          doy = (153 * mp + 2) div 5 + d - 1
      in era * 146097 + (365 * yoe + yoe div 4 - yoe div 100 + doy) - 719468)"

text \<open>\<open>t.Weekday()\<close>, with 0 for Sunday.  Day 0 was a Thursday.\<close>

definition weekday :: "int \<Rightarrow> int" where
  "weekday d = (d + 4) mod 7"

section \<open>Layouts\<close>

definition format_year :: "int \<Rightarrow> string" where
  "format_year y = (if y < 0 then CHR ''-'' # pad_nat 4 (nat (- y)) else pad_nat 4 (nat y))"

text \<open>Layout 2006-01-02.\<close>

definition format_day :: "int \<Rightarrow> string" where
  "format_day d = (case civil_of_day d of (y, m, dd) \<Rightarrow>
     format_year y @ ''-'' @ pad_nat 2 (nat m) @ ''-'' @ pad_nat 2 (nat dd))"

definition format_date :: "time \<Rightarrow> string" where
  "format_date t = format_day (day_of t)"

text \<open>Layout 2006-01.\<close>

definition format_month :: "int \<Rightarrow> string" where
  "format_month d = (case civil_of_day d of (y, m, dd) \<Rightarrow>
     format_year y @ ''-'' @ pad_nat 2 (nat m))"

text \<open>Layout 01-02 and layout 02.\<close>

definition format_month_day :: "int \<Rightarrow> string" where
  "format_month_day d = (case civil_of_day d of (y, m, dd) \<Rightarrow>
     pad_nat 2 (nat m) @ ''-'' @ pad_nat 2 (nat dd))"

definition format_dd :: "int \<Rightarrow> string" where
  "format_dd d = (case civil_of_day d of (y, m, dd) \<Rightarrow> pad_nat 2 (nat dd))"

text \<open>Layout 2006-01-02 15:04.\<close>

definition format_minute :: "time \<Rightarrow> string" where
  "format_minute t =
     (let m = (t mod day) div minute
      in format_date t @ '' '' @ pad_nat 2 (nat (m div 60)) @ '':'' @ pad_nat 2 (nat (m mod 60)))"

text \<open>
  \<open>Duration.String\<close>: hours, minutes and seconds with the fraction that is needed, or one smaller unit
  below a second.
\<close>

definition fraction_text :: "nat \<Rightarrow> int \<Rightarrow> string" where
  "fraction_text n v =
     (let ds = trim_right (\<lambda>c. c = CHR ''0'') (pad_nat n (nat v)) in if ds = [] then [] else CHR ''.'' # ds)"

definition duration_text :: "duration \<Rightarrow> string" where
  "duration_text d =
     (let u = abs d; secs = u div second; mins = secs div 60; hours = mins div 60;
          t = (if u = 0 then ''0s''
               else if u < 1000 then format_int u @ ''ns''
               else if u < 1000000 then format_int (u div 1000) @ fraction_text 3 (u mod 1000)
                      @ [CHR 0xC2, CHR 0xB5, CHR ''s'']
               else if u < second then format_int (u div 1000000) @ fraction_text 6 (u mod 1000000) @ ''ms''
               else (if hours > 0 then format_int hours @ ''h'' else [])
                      @ (if mins > 0 then format_int (mins mod 60) @ ''m'' else [])
                      @ format_int (secs mod 60) @ fraction_text 9 (u mod second) @ ''s'')
      in if d < 0 then CHR ''-'' # t else t)"

text \<open>\<open>time.Parse("2006-01-02", s)\<close>: the midnight that starts the day.\<close>

definition fixed_digits :: "nat \<Rightarrow> string \<Rightarrow> int option" where
  "fixed_digits n s = (if length s = n then map_option int (parse_nat s) else None)"

definition parse_date :: "string \<Rightarrow> time option" where
  "parse_date s =
     (case split_on (CHR ''-'') s of
        [ys, ms, ds] \<Rightarrow>
          (case (fixed_digits 4 ys, fixed_digits 2 ms, fixed_digits 2 ds) of
             (Some y, Some m, Some d) \<Rightarrow>
               (if 1 \<le> m \<and> m \<le> 12 \<and> 1 \<le> d \<and> d \<le> days_in_month y m
                then Some (start_of_day (day_of_civil y m d)) else None)
           | _ \<Rightarrow> None)
      | _ \<Rightarrow> None)"

section \<open>Lemmas\<close>

lemma day_of_start [simp]: "day_of (start_of_day d) = d"
  by (simp add: day_of_def start_of_day_def)

lemma day_of_add_days [simp]: "day_of (add_days t n) = day_of t + n"
  by (simp add: day_of_def add_days_def)

lemma add_days_le: "add_days t a \<le> add_days t b \<longleftrightarrow> a \<le> b"
  by (simp add: add_days_def)

text \<open>The end of the day that starts at midnight is still that day.\<close>

lemma day_of_end: "day_of (start_of_day d + (24 * hour - second)) = d"
  by (simp add: day_of_def start_of_day_def)

lemma calendar_examples:
  "civil_of_day 0 = (1970, 1, 1)" "civil_of_day 19782 = (2024, 2, 29)"
  "day_of_civil 2024 2 29 = 19782" "weekday 19782 = 4"
  "format_day 19782 = ''2024-02-29''" "parse_date ''2024-02-29'' = Some (19782 * day)"
  "parse_date ''2023-02-29'' = None" "duration_text (24 * hour) = ''24h0m0s''"
  "format_minute (19782 * day + 61 * minute) = ''2024-02-29 01:01''"
  by code_simp+

end
