(* ===== verification/KeyProvider.thy ===== *)
theory KeyProvider
  imports Calendar
begin

text \<open>
  Package \<open>internal/keyprovider\<close>: the vocabulary in which the portal talks about keys and limits,
  the interface of a gateway (\<open>provider\<close>), the alias of a key, and the in-memory provider of
  \<open>fake.go\<close>.  A provider is a record of operations over a state of its own, of type \<open>'g\<close>.
  Amounts of spend are the rational numbers that the code's \<open>float64\<close> values denote; the code only
  compares and copies them here.
\<close>

section \<open>Data\<close>

record quota_window =
  win_budget :: rat
  win_period :: string

record limits =
  lim_models :: "string list"
  lim_tpm :: "int option"
  lim_rpm :: "int option"
  lim_quotas :: "quota_window list"

text \<open>\<open>Limits{}\<close>.\<close>

definition no_limits :: limits where
  "no_limits = \<lparr>lim_models = [], lim_tpm = None, lim_rpm = None, lim_quotas = []\<rparr>"

record gw_user =
  gu_id :: string
  gu_name :: string
  gu_email :: string

record key_request =
  kr_alias :: string
  kr_user :: gw_user
  kr_expires_at :: time
  kr_limits :: limits

record key_result =
  res_secret :: string
  res_ref :: string

text \<open>\<open>Quota\<close>, with \<open>None\<close> for the zero time.\<close>

record quota =
  qt_used :: rat
  qt_limit :: rat
  qt_resets_at :: "time option"

record window_usage =
  wu_period :: string
  wu_used :: rat
  wu_limit :: rat
  wu_resets_at :: "time option"
  wu_used_known :: bool

record daily_usage =
  du_day :: string
  du_tokens :: int

record model_usage =
  mu_model :: string
  mu_requests :: int
  mu_prompt :: int
  mu_completion :: int
  mu_total :: int

record history =
  hist_days :: "daily_usage list"
  hist_models :: "model_usage list"

definition no_history :: history where
  "no_history = \<lparr>hist_days = [], hist_models = []\<rparr>"

text \<open>
  An error of a provider: one that wraps \<open>ErrKeyNotFound\<close>, which callers test with \<open>errors.Is\<close>,
  or another one; both with their text.
\<close>

datatype gw_error = KeyNotFound string | GwError string

fun gw_error_text :: "gw_error \<Rightarrow> string" where
  "gw_error_text (KeyNotFound s) = s"
| "gw_error_text (GwError s) = s"

fun is_key_not_found :: "gw_error \<Rightarrow> bool" where
  "is_key_not_found (KeyNotFound _) = True"
| "is_key_not_found (GwError _) = False"

section \<open>The interface\<close>

text \<open>
  \<open>Provider\<close>: operations take the current time where the adapter reads the clock.  An operation
  that only reports an error returns \<open>None\<close> when it succeeds.
\<close>

record 'g provider =
  prov_create :: "time \<Rightarrow> key_request \<Rightarrow> 'g \<Rightarrow> (gw_error + key_result) \<times> 'g"
  prov_delete :: "string \<Rightarrow> 'g \<Rightarrow> gw_error option \<times> 'g"
  prov_expiry :: "time \<Rightarrow> string \<Rightarrow> time \<Rightarrow> 'g \<Rightarrow> gw_error option \<times> 'g"
  prov_limits :: "string \<Rightarrow> gw_user \<Rightarrow> limits \<Rightarrow> 'g \<Rightarrow> gw_error option \<times> 'g"
  prov_alias :: "string \<Rightarrow> string \<Rightarrow> 'g \<Rightarrow> gw_error option \<times> 'g"
  prov_check :: "string \<Rightarrow> 'g \<Rightarrow> gw_error option \<times> 'g"

text \<open>\<open>UsageReporter\<close>.\<close>

record 'g reporter =
  rep_history :: "time \<Rightarrow> string \<Rightarrow> int \<Rightarrow> 'g \<Rightarrow> (gw_error + history) \<times> 'g"
  rep_windows :: "string \<Rightarrow> string \<Rightarrow> 'g \<Rightarrow> (gw_error + window_usage list) \<times> 'g"
  rep_quota :: "string \<Rightarrow> string \<Rightarrow> 'g \<Rightarrow> (gw_error + quota) \<times> 'g"

section \<open>Aliases\<close>

definition in_range :: "char \<Rightarrow> char \<Rightarrow> char \<Rightarrow> bool" where
  "in_range a b c \<longleftrightarrow> (of_char a :: nat) \<le> of_char c \<and> (of_char c :: nat) \<le> of_char b"

text \<open>
  The loop of \<open>sanitiseAlias\<close> is over runes; a rune outside ASCII matches no case and is dropped,
  and so is each of its bytes here.
\<close>

definition sanitise_char :: "char \<Rightarrow> string" where
  "sanitise_char r =
     (if in_range CHR ''a'' CHR ''z'' r \<or> in_range CHR ''0'' CHR ''9'' r \<or> r = CHR ''-'' \<or> r = CHR ''_''
      then [r]
      else if in_range CHR ''A'' CHR ''Z'' r then [char_of ((of_char r :: nat) + 32)]
      else if r = CHR '' '' \<or> r = CHR ''.'' \<or> r = CHR ''@'' then ''-''
      else [])"

definition sanitise_alias :: "string \<Rightarrow> string" where
  "sanitise_alias name = trim (\<lambda>c. c = CHR ''-'') (concat (map sanitise_char name))"

text \<open>\<open>NewAlias\<close>; \<open>b\<close> are the four random bytes, or the error of the random source.\<close>

definition new_alias :: "string + string \<Rightarrow> string \<Rightarrow> string \<Rightarrow> string + string" where
  "new_alias b sub username =
     (case b of
        Inl e \<Rightarrow> Inl (''generate key alias: '' @ e)
      | Inr bs \<Rightarrow>
          (let name = sanitise_alias username;
               label = (if name \<noteq> [] then sub @ ''-'' @ name else sub)
           in Inr (label @ ''-'' @ hex_encode bs)))"

section \<open>Lemmas on aliases\<close>

definition alias_char :: "char \<Rightarrow> bool" where
  "alias_char c \<longleftrightarrow> in_range CHR ''a'' CHR ''z'' c \<or> in_range CHR ''0'' CHR ''9'' c
                    \<or> c = CHR ''-'' \<or> c = CHR ''_''"

lemma sanitise_char_alias: "c \<in> set (sanitise_char r) \<Longrightarrow> alias_char c"
  by (auto simp: sanitise_char_def alias_char_def in_range_def split: if_splits)

lemma sanitise_char_id: "alias_char c \<Longrightarrow> sanitise_char c = [c]"
  by (auto simp: sanitise_char_def alias_char_def)

lemma sanitise_ids: "list_all alias_char s \<Longrightarrow> concat (map sanitise_char s) = s"
  by (induction s) (auto simp: sanitise_char_id)

lemma set_dropWhile_subset: "set (dropWhile P s) \<subseteq> set s"
  by (meson set_dropWhileD subsetI)

lemma set_trim_right: "set (trim_right P s) \<subseteq> set s"
  unfolding trim_right_def by (metis set_dropWhile_subset set_rev)

lemma set_trim: "set (trim P s) \<subseteq> set s"
  unfolding trim_def using set_trim_right [of P "dropWhile P s"] set_dropWhile_subset [of P s]
  by (rule subset_trans)

lemma hd_dropWhile_not: "dropWhile P s \<noteq> [] \<Longrightarrow> \<not> P (hd (dropWhile P s))"
  by (induction s) auto

lemma trim_last: "trim P s \<noteq> [] \<Longrightarrow> \<not> P (last (trim P s))"
  by (auto simp: trim_def trim_right_def last_rev hd_dropWhile_not)

lemma trim_right_hd: "trim_right P s \<noteq> [] \<Longrightarrow> hd (trim_right P s) = hd s"
proof -
  assume ne: "trim_right P s \<noteq> []"
  have "s = trim_right P s @ rev (takeWhile P (rev s))"
    unfolding trim_right_def
    by (metis rev_append rev_rev_ident takeWhile_dropWhile_id)
  then show ?thesis using ne by (metis hd_append2)
qed

lemma trim_hd: "trim P s \<noteq> [] \<Longrightarrow> \<not> P (hd (trim P s))"
proof -
  assume ne: "trim P s \<noteq> []"
  then have "hd (trim P s) = hd (dropWhile P s)"
    by (simp add: trim_def trim_right_hd)
  moreover have "dropWhile P s \<noteq> []"
    using ne by (cases "dropWhile P s = []") (simp_all add: trim_def trim_right_def)
  ultimately show ?thesis by (simp add: hd_dropWhile_not)
qed

lemma trim_idem:
  assumes "s \<noteq> [] \<Longrightarrow> \<not> P (hd s)" and "s \<noteq> [] \<Longrightarrow> \<not> P (last s)"
  shows "trim P s = s"
proof (cases s)
  case Nil
  then show ?thesis by (simp add: trim_def trim_right_def)
next
  case (Cons x xs)
  with assms have "dropWhile P s = s" by simp
  moreover have "dropWhile P (rev s) = rev s"
    using assms Cons by (metis dropWhile_eq_self_iff hd_rev list.distinct(1) rev_is_Nil_conv)
  ultimately show ?thesis by (simp add: trim_def trim_right_def)
qed

lemma sanitise_alias_chars: "list_all alias_char (sanitise_alias s)"
proof -
  have "set (sanitise_alias s) \<subseteq> set (concat (map sanitise_char s))"
    unfolding sanitise_alias_def by (rule set_trim)
  then show ?thesis
    by (auto simp: list_all_iff dest!: subsetD intro: sanitise_char_alias)
qed

lemma sanitise_alias_ends:
  "sanitise_alias s \<noteq> [] \<Longrightarrow> hd (sanitise_alias s) \<noteq> CHR ''-'' \<and> last (sanitise_alias s) \<noteq> CHR ''-''"
  using trim_hd trim_last unfolding sanitise_alias_def by blast

lemma sanitise_alias_idem: "sanitise_alias (sanitise_alias s) = sanitise_alias s"
proof -
  have "concat (map sanitise_char (sanitise_alias s)) = sanitise_alias s"
    by (rule sanitise_ids [OF sanitise_alias_chars])
  then have "sanitise_alias (sanitise_alias s) = trim (\<lambda>c. c = CHR ''-'') (sanitise_alias s)"
    by (simp add: sanitise_alias_def [of "sanitise_alias s"])
  also have "\<dots> = sanitise_alias s"
    by (rule trim_idem) (use sanitise_alias_ends in blast)+
  finally show ?thesis .
qed

lemma new_alias_inj:
  assumes "new_alias (Inr b) sub name = new_alias (Inr b') sub name" and "length b = length b'"
  shows "b = b'"
  using assms by (auto simp: new_alias_def Let_def split: if_splits dest: hex_encode_inj)

section \<open>What the limit sync relies on\<close>

text \<open>
  The contract of a gateway towards the sync: which refs it has issued, and which limits it holds for
  a ref (\<open>carried\<close>).  A successful create returns a ref that was never issued before and that carries
  the requested limits; a successful update makes a known ref carry the new limits; a failed call may
  leave the limits of its own ref in any state; every other ref keeps what it has.
\<close>

locale limit_gateway =
  fixes P :: "'g provider"
    and ginv :: "'g \<Rightarrow> bool"
    and issued :: "'g \<Rightarrow> string \<Rightarrow> bool"
    and carried :: "'g \<Rightarrow> string \<Rightarrow> limits option"
  assumes create_ok:
      "ginv g \<Longrightarrow> prov_create P now req g = (Inr r, g') \<Longrightarrow>
         ginv g' \<and> \<not> issued g (res_ref r) \<and> issued g' = (issued g)(res_ref r := True)
         \<and> carried g' = (carried g)(res_ref r \<mapsto> kr_limits req)"
    and create_err:
      "ginv g \<Longrightarrow> prov_create P now req g = (Inl e, g') \<Longrightarrow>
         ginv g' \<and> issued g' = issued g \<and> carried g' = carried g"
    and limits_ok:
      "ginv g \<Longrightarrow> issued g ref \<Longrightarrow> prov_limits P ref u l g = (None, g') \<Longrightarrow>
         carried g' ref = Some l"
    and limits_frame:
      "ginv g \<Longrightarrow> issued g ref \<Longrightarrow> prov_limits P ref u l g = (res, g') \<Longrightarrow>
         ginv g' \<and> issued g' = issued g \<and> (\<forall>x. x \<noteq> ref \<longrightarrow> carried g' x = carried g x)"
    and delete_frame:
      "ginv g \<Longrightarrow> prov_delete P ref g = (res, g') \<Longrightarrow>
         ginv g' \<and> issued g' = issued g \<and> (\<forall>x. x \<noteq> ref \<longrightarrow> carried g' x = carried g x)"
    and expiry_frame:
      "ginv g \<Longrightarrow> prov_expiry P now ref t g = (res, g') \<Longrightarrow>
         ginv g' \<and> issued g' = issued g \<and> carried g' = carried g"
    and alias_frame:
      "ginv g \<Longrightarrow> prov_alias P ref a g = (res, g') \<Longrightarrow>
         ginv g' \<and> issued g' = issued g \<and> carried g' = carried g"
    and check_frame:
      "ginv g \<Longrightarrow> prov_check P ref g = (res, g') \<Longrightarrow>
         ginv g' \<and> issued g' = issued g \<and> carried g' = carried g"

end
