(* ===== verification/Schema.thy ===== *)
theory Schema
  imports KeyProvider
begin

text \<open>
  The tables of \<open>internal/database\<close> (\<open>models.go\<close> and the migrations): one record per row type, the
  database as the lists of the rows of each table with its AUTOINCREMENT counter, the errors of a
  store method, and the constraints the schema enforces (\<open>schema_inv\<close>).
\<close>

section \<open>Rows\<close>

record profile_quota =
  pq_id :: int
  pq_profile :: int
  pq_budget :: rat
  pq_period :: string

text \<open>
  \<open>pf_quotas\<close> is the relation \<open>Quotas\<close>: empty in the table, filled by a query that asks for it.
\<close>

record profile =
  pf_id :: int
  pf_name :: string
  pf_description :: string
  pf_models :: "string list"
  pf_tpm :: "int option"
  pf_rpm :: "int option"
  pf_max_budget :: "rat option"
  pf_budget_duration :: "string option"
  pf_key_days :: int
  pf_quotas :: "profile_quota list"
  pf_default :: bool
  pf_rev :: int
  pf_created :: time
  pf_updated :: time

record user =
  us_id :: int
  us_sub :: string
  us_email :: string
  us_name :: string
  us_profile :: "int option"
  us_expires :: "time option"
  us_after :: "int option"
  us_revoke :: bool
  us_admin :: bool
  us_created :: time
  us_updated :: time

record api_key =
  ak_id :: int
  ak_user :: int
  ak_ref :: string
  ak_prefix :: string
  ak_expires :: time
  ak_created :: time
  ak_synced_profile :: "int option"
  ak_synced_rev :: "int option"
  ak_synced_name :: "string option"
  ak_synced_email :: "string option"
  ak_sync_error :: string
  ak_failed_at :: "time option"
  ak_missing :: "time option"

record session_row =
  se_id :: int
  se_user :: int
  se_token :: string
  se_id_token :: string
  se_expires :: time
  se_created :: time

record audit_event =
  au_id :: int
  au_created :: time
  au_action :: string
  au_actor :: string
  au_subject :: string
  au_subject_id :: "int option"
  au_detail :: string

record expiry_notice =
  en_id :: int
  en_key :: int
  en_days :: int
  en_sent :: time

record database =
  profiles :: "profile list"
  quotas :: "profile_quota list"
  users :: "user list"
  api_keys :: "api_key list"
  sessions :: "session_row list"
  audit_log :: "audit_event list"
  notices :: "expiry_notice list"
  next_profile :: int
  next_quota :: int
  next_user :: int
  next_key :: int
  next_session :: int
  next_audit :: int
  next_notice :: int

definition empty_db :: database where
  "empty_db = \<lparr>profiles = [], quotas = [], users = [], api_keys = [], sessions = [], audit_log = [],
     notices = [], next_profile = 1, next_quota = 1, next_user = 1, next_key = 1, next_session = 1,
     next_audit = 1, next_notice = 1\<rparr>"

section \<open>Errors and transactions\<close>

datatype db_error =
    IOError string \<comment> \<open>the driver could not run the statement\<close>
  | NoRows \<comment> \<open>\<open>sql.ErrNoRows\<close>\<close>
  | UniqueViolation
  | ForeignKeyViolation
  | ErrDefaultProfile
  | ProfileInUse nat
  | NoDefaultToPromote

text \<open>
  The text of an error.  To that of a violated constraint the driver adds the columns.
\<close>

fun db_error_text :: "db_error \<Rightarrow> string" where
  "db_error_text (IOError s) = s"
| "db_error_text NoRows = ''sql: no rows in result set''"
| "db_error_text UniqueViolation = ''UNIQUE constraint failed''"
| "db_error_text ForeignKeyViolation = ''FOREIGN KEY constraint failed''"
| "db_error_text ErrDefaultProfile = ''the default profile cannot be deleted or un-defaulted''"
| "db_error_text (ProfileInUse n) = ''profile is assigned to '' @ format_nat n @ '' user(s)''"
| "db_error_text NoDefaultToPromote =
     ''no default profile, and none named \"default\" to promote: '' @
     ''mark one as default, e.g. UPDATE profiles SET is_default = 1 WHERE name = '' @
     [CHR 0x27] @ ''<name>'' @ [CHR 0x27]"

text \<open>
  A store method that ran: its result and the new database, or an error and no change.  SQLite runs a
  statement and a transaction either completely or not at all.
\<close>

type_synonym 'a tx = "database \<Rightarrow> db_error + ('a \<times> database)"

definition db_after :: "database \<Rightarrow> db_error + ('a \<times> database) \<Rightarrow> database" where
  "db_after d r = (case r of Inl _ \<Rightarrow> d | Inr (_, d') \<Rightarrow> d')"

lemma db_after_simps [simp]: "db_after d (Inl e) = d" "db_after d (Inr (a, d')) = d'"
  by (simp_all add: db_after_def)

section \<open>Limits of a profile\<close>

text \<open>\<open>Profile.Limits\<close>; no profile means no restriction.\<close>

definition windows_of :: "profile_quota list \<Rightarrow> quota_window list" where
  "windows_of qs = map (\<lambda>q. \<lparr>win_budget = pq_budget q, win_period = pq_period q\<rparr>) qs"

definition profile_limits :: "profile option \<Rightarrow> limits" where
  "profile_limits po =
     (case po of
        None \<Rightarrow> no_limits
      | Some p \<Rightarrow> \<lparr>lim_models = pf_models p, lim_tpm = pf_tpm p, lim_rpm = pf_rpm p,
                   lim_quotas = windows_of (pf_quotas p)\<rparr>)"

section \<open>The constraints of the schema\<close>

definition ids_below :: "('a \<Rightarrow> int) \<Rightarrow> int \<Rightarrow> 'a list \<Rightarrow> bool" where
  "ids_below f n xs \<longleftrightarrow> uniq_on f xs \<and> f ` set xs \<subseteq> {1..<n} \<and> 1 \<le> n"

text \<open>At most one row of \<open>profiles\<close> is the default: the partial unique index on \<open>is_default\<close>.\<close>

definition one_default :: "profile list \<Rightarrow> bool" where
  "one_default ps \<longleftrightarrow> at_most_one pf_id pf_default ps"

definition profiles_ok :: "profile list \<Rightarrow> int \<Rightarrow> bool" where
  "profiles_ok ps n \<longleftrightarrow> ids_below pf_id n ps \<and> uniq_on pf_name ps \<and> one_default ps
     \<and> (\<forall>p \<in> set ps. pf_quotas p = [])"

definition quotas_ok :: "profile_quota list \<Rightarrow> int \<Rightarrow> int set \<Rightarrow> bool" where
  "quotas_ok qs n pids \<longleftrightarrow> ids_below pq_id n qs \<and> uniq_on (\<lambda>q. (pq_profile q, pq_period q)) qs
     \<and> pq_profile ` set qs \<subseteq> pids"

definition users_ok :: "user list \<Rightarrow> int \<Rightarrow> int set \<Rightarrow> bool" where
  "users_ok us n pids \<longleftrightarrow> ids_below us_id n us \<and> uniq_on us_sub us
     \<and> (\<forall>u \<in> set us. \<forall>p. us_profile u = Some p \<longrightarrow> p \<in> pids)"

definition keys_ok :: "api_key list \<Rightarrow> int \<Rightarrow> int set \<Rightarrow> bool" where
  "keys_ok ks n uids \<longleftrightarrow> ids_below ak_id n ks \<and> uniq_on ak_user ks \<and> ak_user ` set ks \<subseteq> uids"

definition sessions_ok :: "session_row list \<Rightarrow> int \<Rightarrow> int set \<Rightarrow> bool" where
  "sessions_ok ss n uids \<longleftrightarrow> ids_below se_id n ss \<and> uniq_on se_token ss \<and> se_user ` set ss \<subseteq> uids"

definition audit_ok :: "audit_event list \<Rightarrow> int \<Rightarrow> bool" where
  "audit_ok es n \<longleftrightarrow> ids_below au_id n es"

definition notices_ok :: "expiry_notice list \<Rightarrow> int \<Rightarrow> int set \<Rightarrow> bool" where
  "notices_ok ns n kids \<longleftrightarrow> ids_below en_id n ns \<and> uniq_on (\<lambda>x. (en_key x, en_days x)) ns
     \<and> en_key ` set ns \<subseteq> kids"

abbreviation profile_ids :: "database \<Rightarrow> int set" where
  "profile_ids d \<equiv> pf_id ` set (profiles d)"

abbreviation user_ids :: "database \<Rightarrow> int set" where
  "user_ids d \<equiv> us_id ` set (users d)"

abbreviation key_ids :: "database \<Rightarrow> int set" where
  "key_ids d \<equiv> ak_id ` set (api_keys d)"

definition schema_inv :: "database \<Rightarrow> bool" where
  "schema_inv d \<longleftrightarrow>
     profiles_ok (profiles d) (next_profile d)
     \<and> quotas_ok (quotas d) (next_quota d) (profile_ids d)
     \<and> users_ok (users d) (next_user d) (profile_ids d)
     \<and> keys_ok (api_keys d) (next_key d) (user_ids d)
     \<and> sessions_ok (sessions d) (next_session d) (user_ids d)
     \<and> audit_ok (audit_log d) (next_audit d)
     \<and> notices_ok (notices d) (next_notice d) (key_ids d)"

lemma schema_inv_empty: "schema_inv empty_db"
  by (simp add: schema_inv_def empty_db_def profiles_ok_def quotas_ok_def users_ok_def keys_ok_def
      sessions_ok_def audit_ok_def notices_ok_def ids_below_def one_default_def at_most_one_def)

section \<open>Lemmas on tables\<close>

text \<open>Appending a row with the next id, changing rows without their id, deleting rows.\<close>

lemma ids_below_append:
  "ids_below f n xs \<Longrightarrow> f x = n \<Longrightarrow> ids_below f (n + 1) (xs @ [x])"
  by (fastforce simp: ids_below_def)

lemma ids_below_append_block:
  assumes "ids_below f n xs" and "uniq_on f ys" and "f ` set ys = {n..<n + int k}"
  shows "ids_below f (n + int k) (xs @ ys)"
proof -
  have xs: "uniq_on f xs" "f ` set xs \<subseteq> {1..<n}" "1 \<le> n"
    using assms(1) by (simp_all add: ids_below_def)
  then have "f ` set xs \<inter> f ` set ys = {}" using assms(3) by force
  moreover have "f ` set (xs @ ys) \<subseteq> {1..<n + int k}"
    using xs assms(3) by (simp add: image_Un) force
  ultimately show ?thesis using xs assms(2) by (simp add: ids_below_def)
qed

lemma ids_below_update [simp]:
  assumes "\<And>x. f (g x) = f x"
  shows "ids_below f n (update_where P g xs) = ids_below f n xs"
  using assms by (simp only: ids_below_def uniq_on_update_where image_update_where)

lemma ids_below_delete: "ids_below f n xs \<Longrightarrow> ids_below f n (delete_where P xs)"
  by (auto simp: ids_below_def uniq_on_delete_where set_delete_where)

lemma ids_below_fresh: "ids_below f n xs \<Longrightarrow> n \<notin> f ` set xs"
  by (force simp: ids_below_def)

lemma profiles_okD:
  "profiles_ok ps n \<Longrightarrow> uniq_on pf_id ps" "profiles_ok ps n \<Longrightarrow> uniq_on pf_name ps"
  "profiles_ok ps n \<Longrightarrow> one_default ps" "profiles_ok ps n \<Longrightarrow> ids_below pf_id n ps"
  by (auto simp: profiles_ok_def ids_below_def)

lemma schema_invD:
  assumes "schema_inv d"
  shows "profiles_ok (profiles d) (next_profile d)" "users_ok (users d) (next_user d) (profile_ids d)"
    "keys_ok (api_keys d) (next_key d) (user_ids d)" "quotas_ok (quotas d) (next_quota d) (profile_ids d)"
    "sessions_ok (sessions d) (next_session d) (user_ids d)" "audit_ok (audit_log d) (next_audit d)"
    "notices_ok (notices d) (next_notice d) (key_ids d)"
  using assms by (simp_all add: schema_inv_def)

end
