(* ===== verification/DbProfileFacts.thy ===== *)
theory DbProfileFacts
  imports DbProfiles
begin

text \<open>
  What the profile methods of \<open>DbProfiles\<close> guarantee: each keeps the schema's constraints, a database
  with a default profile keeps exactly one, the revision of a profile's limits rises exactly when its
  limits change, and a deleted profile leaves nothing behind that names it.
\<close>

section \<open>Steps of the schema invariant\<close>

definition has_default :: "profile list \<Rightarrow> bool" where
  "has_default ps \<longleftrightarrow> (\<exists>p \<in> set ps. pf_default p)"

definition default_count :: "database \<Rightarrow> nat" where
  "default_count d = count_where pf_default (profiles d)"

lemma default_count_1:
  assumes "profiles_ok (profiles d) n" and "has_default (profiles d)"
  shows "default_count d = 1"
  unfolding default_count_def
proof (rule count_where_one)
  show "uniq_on pf_id (profiles d)" using assms(1) by (rule profiles_okD)
  show "at_most_one pf_id pf_default (profiles d)"
    using profiles_okD(3) [OF assms(1)] by (simp only: one_default_def)
  show "\<exists>p \<in> set (profiles d). pf_default p" using assms(2) by (simp only: has_default_def)
qed

lemma profiles_ok_update:
  assumes "profiles_ok ps n"
    and "\<And>x. pf_id (f x) = pf_id x" "\<And>x. pf_name (f x) = pf_name x"
    and "\<And>x. pf_quotas (f x) = pf_quotas x" "\<And>x. pf_default (f x) \<longrightarrow> pf_default x"
  shows "profiles_ok (update_where P f ps) n"
proof -
  have "one_default (update_where P f ps)"
    unfolding one_default_def using assms(1,2,5)
    by (intro at_most_one_update) (simp_all add: profiles_ok_def one_default_def)
  moreover have "\<forall>p \<in> set (update_where P f ps). pf_quotas p = []"
    by (rule ball_update_where) (use assms(1,4) in \<open>simp_all add: profiles_ok_def\<close>)
  ultimately show ?thesis
    using assms(1-3) by (simp add: profiles_ok_def uniq_on_update_where)
qed

lemma profiles_ok_bump [simp]: "profiles_ok ps n \<Longrightarrow> profiles_ok (bump_rev pid ps) n"
  unfolding bump_rev_def by (rule profiles_ok_update) simp_all

lemma profiles_ok_clear [simp]: "profiles_ok ps n \<Longrightarrow> profiles_ok (clear_default k ps) n"
  unfolding clear_default_def by (rule profiles_ok_update) simp_all

lemma profile_ids_bump [simp]: "pf_id ` set (bump_rev pid ps) = pf_id ` set ps"
  unfolding bump_rev_def by (rule image_update_where) simp

lemma profile_ids_clear [simp]: "pf_id ` set (clear_default k ps) = pf_id ` set ps"
  unfolding clear_default_def by (rule image_update_where) simp

lemma profile_names_clear [simp]: "pf_name ` set (clear_default k ps) = pf_name ` set ps"
  unfolding clear_default_def by (rule image_update_where) simp

lemma has_default_bump [simp]: "has_default (bump_rev pid ps) = has_default ps"
  unfolding has_default_def bump_rev_def by (rule bex_update_where) simp

lemma schema_inv_profiles:
  assumes "schema_inv d" and "profiles_ok ps n" and "pf_id ` set ps = profile_ids d"
  shows "schema_inv (d\<lparr>profiles := ps, next_profile := n\<rparr>)"
  using assms by (simp add: schema_inv_def)

lemma schema_inv_profiles_same:
  assumes "schema_inv d" and "profiles_ok ps (next_profile d)" and "pf_id ` set ps = profile_ids d"
  shows "schema_inv (d\<lparr>profiles := ps\<rparr>)"
  using assms by (simp add: schema_inv_def)

lemma quotas_ok_mono: "quotas_ok qs n A \<Longrightarrow> A \<subseteq> B \<Longrightarrow> quotas_ok qs n B"
  by (auto simp: quotas_ok_def)

lemma users_ok_mono: "users_ok us n A \<Longrightarrow> A \<subseteq> B \<Longrightarrow> users_ok us n B"
  by (auto simp: users_ok_def)

section \<open>Windows\<close>

lemma quotas_ok_delete: "quotas_ok qs n A \<Longrightarrow> quotas_ok (delete_where P qs) n A"
  by (auto simp: quotas_ok_def ids_below_delete uniq_on_delete_where set_delete_where)

lemma ids_below_number:
  "ids_below pq_id n qs \<Longrightarrow> ids_below pq_id (n + int (length rows)) (qs @ number_quotas n rows)"
  by (rule ids_below_append_block [OF _ number_quotas_uniq number_quotas_ids])

lemma pair_disjoint:
  assumes "\<forall>x \<in> A. \<not> (f x = a \<and> g x \<in> C)" and "\<And>x. x \<in> B \<Longrightarrow> f x = a" and "g ` B = C"
  shows "(\<lambda>x. (f x, g x)) ` A \<inter> (\<lambda>x. (f x, g x)) ` B = {}"
  using assms by force

lemma insert_quotas_ok:
  assumes "insert_quotas pid (quota_rows pid qs) d = Inr (u, d')"
    and "quotas_ok (quotas d) (next_quota d) (profile_ids d)"
  shows "quotas_ok (quotas d') (next_quota d') (profile_ids d)
    \<and> d' = d\<lparr>quotas := quotas d @ number_quotas (next_quota d) (quota_rows pid qs),
             next_quota := next_quota d + int (length (quota_rows pid qs))\<rparr>"
proof -
  let ?rows = "quota_rows pid qs" and ?new = "number_quotas (next_quota d) (quota_rows pid qs)"
  let ?k = "\<lambda>q. (pq_profile q, pq_period q)"
  have pid: "pid \<in> profile_ids d" and dist: "distinct (map pq_period ?rows)"
    and fresh: "\<forall>q \<in> set (quotas d). \<not> (pq_profile q = pid \<and> pq_period q \<in> pq_period ` set ?rows)"
    and d': "d' = d\<lparr>quotas := quotas d @ ?new, next_quota := next_quota d + int (length ?rows)\<rparr>"
    using assms(1) by (simp_all add: insert_quotas_def split: if_splits)
  have prof: "pq_profile q = pid" if "q \<in> set ?new" for q
    using that by (rule number_quotas_profile)
  have per: "pq_period ` set ?new = pq_period ` set ?rows"
    by (metis list.set_map number_quotas_maps(1))
  have "uniq_on pq_period ?new"
    using dist by (simp add: uniq_on_def)
  then have "uniq_on ?k ?new" by (rule uniq_on_pair)
  moreover have "?k ` set (quotas d) \<inter> ?k ` set ?new = {}"
    using fresh prof per by (rule pair_disjoint)
  moreover have "pq_profile ` set ?new \<subseteq> profile_ids d" using prof pid by blast
  ultimately show ?thesis
    using assms(2) unfolding d'
    by (simp add: quotas_ok_def ids_below_number image_Un)
qed

lemma set_profile_quotas_cases:
  assumes "set_profile_quotas pid qs d = Inr (u, d')" and "schema_inv d"
  obtains "d' = d" and "same_quota_windows (filter (\<lambda>q. pq_profile q = pid) (quotas d)) (quota_rows pid qs)"
  | "\<not> same_quota_windows (filter (\<lambda>q. pq_profile q = pid) (quotas d)) (quota_rows pid qs)"
      "d' = d\<lparr>quotas := delete_where (\<lambda>q. pq_profile q = pid) (quotas d)
                  @ number_quotas (next_quota d) (quota_rows pid qs),
              next_quota := next_quota d + int (length (quota_rows pid qs)),
              profiles := bump_rev pid (profiles d)\<rparr>"
      "quotas_ok (quotas d') (next_quota d') (profile_ids d)"
proof (cases "same_quota_windows (filter (\<lambda>q. pq_profile q = pid) (quotas d)) (quota_rows pid qs)")
  case True
  with assms(1) have "d' = d" by (simp add: set_profile_quotas_def)
  with True that(1) show ?thesis by simp
next
  case False
  let ?rows = "quota_rows pid qs"
  let ?d1 = "d\<lparr>quotas := delete_where (\<lambda>q. pq_profile q = pid) (quotas d)\<rparr>"
  have q1: "quotas_ok (quotas ?d1) (next_quota ?d1) (profile_ids ?d1)"
    using schema_invD(4) [OF assms(2)] by (simp add: quotas_ok_delete)
  show ?thesis
  proof (cases "?rows = []")
    case True
    with False assms(1) have "d' = ?d1\<lparr>profiles := bump_rev pid (profiles ?d1)\<rparr>"
      by (simp add: set_profile_quotas_def Let_def)
    then show ?thesis using True q1 by (intro that(2) [OF False]) simp_all
  next
    case ne: False
    with False assms(1) obtain d2 where ins: "insert_quotas pid ?rows ?d1 = Inr ((), d2)"
      and d': "d' = d2\<lparr>profiles := bump_rev pid (profiles d2)\<rparr>"
      by (auto simp: set_profile_quotas_def Let_def split: sum.splits)
    note ok = insert_quotas_ok [OF ins q1, THEN conjunct2]
    note q2 = insert_quotas_ok [OF ins q1, THEN conjunct1]
    have "d' = d\<lparr>quotas := delete_where (\<lambda>q. pq_profile q = pid) (quotas d)
                  @ number_quotas (next_quota d) ?rows,
              next_quota := next_quota d + int (length ?rows),
              profiles := bump_rev pid (profiles d)\<rparr>"
      using ok by (simp add: d')
    moreover have "quotas_ok (quotas d') (next_quota d') (profile_ids d)"
      using q2 unfolding d' by (simp add: ok)
    ultimately show ?thesis by (rule that(2) [OF False])
  qed
qed

lemma set_profile_quotas_inv [inv_step]:
  assumes "set_profile_quotas pid qs d = Inr (u, d')" and "schema_inv d"
  shows "schema_inv d'"
  using assms
proof (cases rule: set_profile_quotas_cases)
  case 1
  with assms show ?thesis by simp
next
  case 2
  then show ?thesis using assms(2) by (simp add: schema_inv_def)
qed

lemma set_profile_quotas_default:
  assumes "set_profile_quotas pid qs d = Inr (u, d')" and "schema_inv d"
  shows "has_default (profiles d') = has_default (profiles d)"
  using assms by (cases rule: set_profile_quotas_cases) simp_all

section \<open>Creating\<close>

lemma insert_profile_cases:
  assumes "insert_profile p d = Inr (p', d')"
  shows "p' = p\<lparr>pf_id := next_profile d, pf_quotas := []\<rparr>"
    and "d' = d\<lparr>profiles := profiles d @ [p'], next_profile := next_profile d + 1\<rparr>"
    and "pf_name p \<notin> pf_name ` set (profiles d)"
    and "pf_default p \<Longrightarrow> \<not> has_default (profiles d)"
  using assms by (auto simp: insert_profile_def Let_def has_default_def split: if_splits)

lemma one_default_append:
  "one_default ps \<Longrightarrow> (pf_default p \<Longrightarrow> \<not> has_default ps) \<Longrightarrow> one_default (ps @ [p])"
  unfolding one_default_def has_default_def by (rule at_most_one_append)

lemma insert_profile_inv [inv_step]:
  assumes "insert_profile p d = Inr (p', d')" and "schema_inv d"
  shows "schema_inv d'"
proof -
  note c = insert_profile_cases [OF assms(1)]
  have ok: "profiles_ok (profiles d) (next_profile d)" using assms(2) by (rule schema_invD)
  have "ids_below pf_id (next_profile d + 1) (profiles d @ [p'])"
    using ok by (intro ids_below_append) (simp_all add: profiles_ok_def c(1))
  moreover have "one_default (profiles d @ [p'])"
    using c(4) profiles_okD(3) [OF ok] by (intro one_default_append) (simp_all add: c(1))
  ultimately have ok': "profiles_ok (profiles d @ [p']) (next_profile d + 1)"
    using ok c(3) by (simp add: profiles_ok_def c(1))
  have "profile_ids d \<subseteq> insert (pf_id p') (profile_ids d)" by blast
  note mono = quotas_ok_mono [OF _ this] users_ok_mono [OF _ this]
  show ?thesis
    using assms(2) ok' unfolding c(2) by (simp add: schema_inv_def mono)
qed

lemma clear_none: "\<not> has_default (clear_default 0 ps)"
  by (auto simp: has_default_def clear_default_def elim!: update_whereE)

lemma create_profile_tx_inv [inv_step]:
  assumes "create_profile_tx now p d = Inr (p', d')" and "schema_inv d"
  shows "schema_inv d'"
proof -
  let ?d1 = "if pf_default p then d\<lparr>profiles := clear_default 0 (profiles d)\<rparr> else d"
  have "schema_inv ?d1"
    using assms(2) schema_invD(1) [OF assms(2)] by (simp add: schema_inv_profiles_same)
  moreover obtain q where "insert_profile q ?d1 = Inr (p', d')"
    using assms(1) by (simp add: create_profile_tx_def Let_def)
  ultimately show ?thesis by (rule insert_profile_inv [rotated])
qed

lemma create_profile_cases:
  assumes "create_profile now p qs d = Inr ((demoted, p'), d')"
  obtains d1 where "create_profile_tx now p d = Inr (p', d1)" "demoted = demoted_defaults p d"
    "set_profile_quotas (pf_id p') qs d1 = Inr ((), d')"
  using assms by (auto simp: create_profile_def split: sum.splits)

lemma create_profile_inv [inv_step]:
  assumes "create_profile now p qs d = Inr (r, d')" and "schema_inv d"
  shows "schema_inv d'"
proof -
  obtain demoted p' where r: "r = (demoted, p')" by (cases r)
  show ?thesis
    using assms(1) unfolding r
    by (rule create_profile_cases) (metis assms(2) create_profile_tx_inv set_profile_quotas_inv)
qed

lemma create_profile_tx_default:
  assumes "create_profile_tx now p d = Inr (p', d')" and "has_default (profiles d)"
  shows "has_default (profiles d')"
proof -
  let ?d1 = "if pf_default p then d\<lparr>profiles := clear_default 0 (profiles d)\<rparr> else d"
  obtain q where q: "insert_profile q ?d1 = Inr (p', d')" and "pf_default q = pf_default p"
    using assms(1) by (simp add: create_profile_tx_def Let_def)
  then have "profiles d' = profiles ?d1 @ [p']" "pf_default p' = pf_default p"
    using insert_profile_cases(1,2) [OF q] by simp_all
  then show ?thesis using assms(2) by (simp add: has_default_def)
qed

lemma create_profile_default:
  assumes "create_profile now p qs d = Inr (r, d')" and "schema_inv d" and "has_default (profiles d)"
  shows "has_default (profiles d')"
proof -
  obtain demoted p' where r: "r = (demoted, p')" by (cases r)
  show ?thesis
    using assms(1) unfolding r
    by (rule create_profile_cases)
      (metis assms(2,3) create_profile_tx_inv create_profile_tx_default set_profile_quotas_default)
qed

section \<open>Updating\<close>

text \<open>Whether two profiles restrict a key differently: what \<open>LimitsRev\<close> counts.\<close>

definition same_limits :: "profile \<Rightarrow> profile \<Rightarrow> bool" where
  "same_limits p q \<longleftrightarrow> pf_models p = pf_models q \<and> pf_tpm p = pf_tpm q \<and> pf_rpm p = pf_rpm q
     \<and> mset (map window_key (pf_quotas p)) = mset (map window_key (pf_quotas q))"

lemma same_limit_eq: "same_limit a b \<longleftrightarrow> a = b"
  by (cases a; cases b) (simp_all add: same_limit_def)

lemma saved_row_simps [simp]:
  "pf_id (saved_row p1 q) = pf_id q" "pf_name (saved_row p1 q) = pf_name p1"
  "pf_models (saved_row p1 q) = pf_models p1" "pf_tpm (saved_row p1 q) = pf_tpm p1"
  "pf_rpm (saved_row p1 q) = pf_rpm p1" "pf_default (saved_row p1 q) = pf_default p1"
  "pf_rev (saved_row p1 q) = pf_rev p1" "pf_quotas (saved_row p1 q) = pf_quotas q"
  by (simp_all add: saved_row_def)

lemma update_profile_tx_cases:
  assumes "update_profile_tx now p d = Inr ((prev, p1), d')"
  defines "ps1 \<equiv> if pf_default p then clear_default (pf_id p) (profiles d) else profiles d"
  shows "get_profile (pf_id p) d = Inr prev"
    and "pf_default prev \<Longrightarrow> pf_default p"
    and "p1 = p\<lparr>pf_updated := now,
           pf_rev := (if pf_models prev \<noteq> pf_models p \<or> pf_tpm prev \<noteq> pf_tpm p \<or> pf_rpm prev \<noteq> pf_rpm p
                      then pf_rev prev + 1 else pf_rev prev)\<rparr>"
    and "\<forall>q \<in> set ps1. pf_id q \<noteq> pf_id p \<longrightarrow> pf_name q \<noteq> pf_name p"
    and "d' = d\<lparr>profiles := update_where (\<lambda>q. pf_id q = pf_id p) (saved_row p1) ps1\<rparr>"
proof -
  obtain current where cur: "get_profile (pf_id p) d = Inr current"
    using assms(1) by (simp add: update_profile_tx_def split: sum.splits)
  note u = assms(1) [unfolded update_profile_tx_def cur sum.case Let_def same_limit_eq not_not]
  have def': "\<not> (pf_default current \<and> \<not> pf_default p)"
    by (rule notI) (use u in simp)
  note u1 = u [unfolded if_not_P [OF def'], folded ps1_def]
  have names: "\<not> (\<exists>q \<in> set ps1. pf_id q \<noteq> pf_id p \<and> pf_name q = pf_name p)"
    by (rule notI) (use u1 in simp)
  note u2 = u1 [unfolded if_not_P [OF names] sum.inject prod.inject]
  show "get_profile (pf_id p) d = Inr prev" "pf_default prev \<Longrightarrow> pf_default p"
    using cur def' u2 by simp_all
  show "p1 = p\<lparr>pf_updated := now,
           pf_rev := (if pf_models prev \<noteq> pf_models p \<or> pf_tpm prev \<noteq> pf_tpm p \<or> pf_rpm prev \<noteq> pf_rpm p
                      then pf_rev prev + 1 else pf_rev prev)\<rparr>"
    using u2 by blast
  show "\<forall>q \<in> set ps1. pf_id q \<noteq> pf_id p \<longrightarrow> pf_name q \<noteq> pf_name p" using names by blast
  show "d' = d\<lparr>profiles := update_where (\<lambda>q. pf_id q = pf_id p) (saved_row p1) ps1\<rparr>"
    using u2 by blast
qed

lemma update_profile_tx_inv [inv_step]:
  assumes "update_profile_tx now p d = Inr ((prev, p1), d')" and "schema_inv d"
  shows "schema_inv d'"
proof -
  define ps1 where "ps1 = (if pf_default p then clear_default (pf_id p) (profiles d) else profiles d)"
  note c = update_profile_tx_cases [OF assms(1), folded ps1_def]
  let ?ps = "update_where (\<lambda>q. pf_id q = pf_id p) (saved_row p1) ps1"
  have ok: "profiles_ok ps1 (next_profile d)" and ids: "pf_id ` set ps1 = profile_ids d"
    using schema_invD(1) [OF assms(2)] by (simp_all add: ps1_def)
  have p1: "pf_name p1 = pf_name p" "pf_default p1 = pf_default p" by (simp_all add: c(3))
  have "uniq_on pf_name ?ps"
    by (rule uniq_on_update_one [where v = "pf_name p"])
      (use ok c(4) in \<open>simp_all add: profiles_okD p1\<close>)
  moreover have "one_default ?ps"
    unfolding one_default_def
  proof (rule at_most_one_update_one [where b = "pf_default p"])
    show "at_most_one pf_id pf_default ps1" using profiles_okD(3) [OF ok] by (simp only: one_default_def)
    show "\<forall>q \<in> set ps1. pf_id q \<noteq> pf_id p \<longrightarrow> \<not> pf_default q" if "pf_default p"
      using that unfolding ps1_def clear_default_def
      by simp (rule ball_update_where, simp, blast)
  qed (simp_all add: p1)
  moreover have "\<forall>q \<in> set ?ps. pf_quotas q = []"
    by (rule ball_update_where) (use ok in \<open>simp_all add: profiles_ok_def\<close>)
  ultimately have "profiles_ok ?ps (next_profile d)"
    using ok by (simp add: profiles_ok_def)
  moreover have "pf_id ` set ?ps = profile_ids d"
    unfolding ids [symmetric] by (rule image_update_where) simp
  ultimately show ?thesis
    unfolding c(5) using assms(2) by (intro schema_inv_profiles_same)
qed

lemma update_profile_cases:
  assumes "update_profile now p qs d = Inr ((prev, demoted, p1), d')"
  obtains d1 where "update_profile_tx now p d = Inr ((prev, p1), d1)" "demoted = demoted_defaults p d"
    "set_profile_quotas (pf_id p) qs d1 = Inr ((), d')"
  using assms by (auto simp: update_profile_def split: sum.splits)

lemma update_profile_inv [inv_step]:
  assumes "update_profile now p qs d = Inr (r, d')" and "schema_inv d"
  shows "schema_inv d'"
proof -
  obtain prev demoted p1 where r: "r = (prev, demoted, p1)" by (cases r)
  show ?thesis
    using assms(1) unfolding r
    by (rule update_profile_cases) (metis assms(2) update_profile_tx_inv set_profile_quotas_inv)
qed

lemma get_profile_row:
  assumes "get_profile i d = Inr p"
  obtains q where "q \<in> set (profiles d)" "pf_id q = i" "p = load_quotas d q"
  using assms by (auto simp: get_profile_def dest!: find_SomeD split: option.splits)

lemma load_quotas_simps [simp]:
  "pf_id (load_quotas d p) = pf_id p" "pf_name (load_quotas d p) = pf_name p"
  "pf_models (load_quotas d p) = pf_models p" "pf_tpm (load_quotas d p) = pf_tpm p"
  "pf_rpm (load_quotas d p) = pf_rpm p" "pf_default (load_quotas d p) = pf_default p"
  "pf_rev (load_quotas d p) = pf_rev p" "pf_key_days (load_quotas d p) = pf_key_days p"
  "pf_quotas (load_quotas d p) = filter (\<lambda>q. pq_profile q = pf_id p) (quotas d)"
  by (simp_all add: load_quotas_def)

lemma update_profile_tx_default:
  assumes "update_profile_tx now p d = Inr ((prev, p1), d')" and "schema_inv d"
    and "has_default (profiles d)"
  shows "has_default (profiles d')"
proof -
  define ps1 where "ps1 = (if pf_default p then clear_default (pf_id p) (profiles d) else profiles d)"
  note c = update_profile_tx_cases [OF assms(1), folded ps1_def]
  obtain row where row: "row \<in> set (profiles d)" "pf_id row = pf_id p" "prev = load_quotas d row"
    using c(1) by (rule get_profile_row)
  have p1: "pf_default p1 = pf_default p" by (simp add: c(3))
  show ?thesis
  proof (cases "pf_default p")
    case True
    have "pf_id ` set ps1 = profile_ids d" by (simp add: ps1_def)
    then have "pf_id p \<in> pf_id ` set ps1" using row(1,2) by (metis imageI)
    then obtain q where q: "q \<in> set ps1" "pf_id q = pf_id p" by (metis imageE)
    then have "saved_row p1 q \<in> set (profiles d')"
      using in_update_where [OF q(1), of "\<lambda>q. pf_id q = pf_id p" "saved_row p1"] by (simp add: c(5))
    then show ?thesis using True p1 unfolding has_default_def by (metis saved_row_simps(6))
  next
    case False
    then have ps1: "ps1 = profiles d" by (simp add: ps1_def)
    obtain q where q: "q \<in> set (profiles d)" "pf_default q"
      using assms(3) by (auto simp: has_default_def)
    have "pf_id q \<noteq> pf_id p"
    proof
      assume "pf_id q = pf_id p"
      then have "q = row" using q row schema_invD(1) [OF assms(2)]
        by (metis profiles_okD(1) uniq_on_inj)
      then show False using q(2) row(3) c(2) False by simp
    qed
    then have "q \<in> set (profiles d')"
      using in_update_where [OF q(1), of "\<lambda>q. pf_id q = pf_id p" "saved_row p1"] by (simp add: c(5) ps1)
    then show ?thesis using q(2) unfolding has_default_def by blast
  qed
qed

lemma update_profile_default:
  assumes "update_profile now p qs d = Inr (r, d')" and "schema_inv d" and "has_default (profiles d)"
  shows "has_default (profiles d')"
proof -
  obtain prev demoted p1 where r: "r = (prev, demoted, p1)" by (cases r)
  show ?thesis
    using assms(1) unfolding r
    by (rule update_profile_cases)
      (metis assms(2,3) update_profile_tx_inv update_profile_tx_default set_profile_quotas_default)
qed

section \<open>Deleting and seeding\<close>

lemma delete_profile_cases:
  assumes "delete_profile i d = Inr (u, d')"
  shows "\<forall>p \<in> set (profiles d). pf_id p = i \<longrightarrow> \<not> pf_default p"
    and "\<forall>x \<in> set (users d). us_profile x \<noteq> Some i"
    and "d' = d\<lparr>quotas := delete_where (\<lambda>q. pq_profile q = i) (quotas d),
                users := update_where (\<lambda>u. us_after u = Some i) (\<lambda>u. u\<lparr>us_after := None\<rparr>) (users d),
                profiles := delete_where (\<lambda>p. pf_id p = i) (profiles d)\<rparr>"
proof -
  note u = assms [unfolded delete_profile_def Let_def]
  have a: "\<not> (\<exists>p \<in> set (profiles d). pf_id p = i \<and> pf_default p)"
    by (rule notI) (use u in simp)
  note u1 = u [unfolded if_not_P [OF a]]
  have b: "\<not> 0 < count_where (\<lambda>u. us_profile u = Some i) (users d)"
    by (rule notI) (use u1 in simp)
  note u2 = u1 [unfolded if_not_P [OF b] sum.inject prod.inject]
  show "\<forall>p \<in> set (profiles d). pf_id p = i \<longrightarrow> \<not> pf_default p" using a by blast
  show "\<forall>x \<in> set (users d). us_profile x \<noteq> Some i" using b unfolding count_where_pos by blast
  show "d' = d\<lparr>quotas := delete_where (\<lambda>q. pq_profile q = i) (quotas d),
                users := update_where (\<lambda>u. us_after u = Some i) (\<lambda>u. u\<lparr>us_after := None\<rparr>) (users d),
                profiles := delete_where (\<lambda>p. pf_id p = i) (profiles d)\<rparr>"
    using u2 by blast
qed

lemma profiles_ok_delete: "profiles_ok ps n \<Longrightarrow> profiles_ok (delete_where P ps) n"
  by (simp add: profiles_ok_def ids_below_delete uniq_on_delete_where one_default_def
      at_most_one_delete set_delete_where)

lemma image_delete_key: "f ` set (delete_where (\<lambda>x. f x = k) xs) = f ` set xs - {k}"
  by (auto simp: set_delete_where)

lemma delete_profile_inv [inv_step]:
  assumes "delete_profile i d = Inr (u, d')" and "schema_inv d"
  shows "schema_inv d'"
proof -
  note c = delete_profile_cases [OF assms(1)]
  let ?us = "update_where (\<lambda>u. us_after u = Some i) (\<lambda>u. u\<lparr>us_after := None\<rparr>) (users d)"
  let ?qs = "delete_where (\<lambda>q. pq_profile q = i) (quotas d)"
  have "pq_profile ` set ?qs \<subseteq> profile_ids d - {i}"
    unfolding image_delete_key using schema_invD(4) [OF assms(2)] by (auto simp only: quotas_ok_def)
  then have qs: "quotas_ok ?qs (next_quota d) (profile_ids d - {i})"
    using quotas_ok_delete [OF schema_invD(4) [OF assms(2)]] by (simp only: quotas_ok_def)
  have ref: "\<forall>u \<in> set (users d). \<forall>p. us_profile u = Some p \<longrightarrow> p \<in> profile_ids d"
    using schema_invD(2) [OF assms(2)] by (simp add: users_ok_def)
  have "\<forall>u \<in> set ?us. \<forall>p. us_profile u = Some p \<longrightarrow> p \<in> profile_ids d - {i}"
    by (rule ball_update_where) (use c(2) ref in \<open>simp_all, blast+\<close>)
  then have us: "users_ok ?us (next_user d) (profile_ids d - {i})"
    using schema_invD(2) [OF assms(2)] by (simp add: users_ok_def uniq_on_update_where)
  have "us_id ` set ?us = user_ids d" by (rule image_update_where) simp
  moreover have "profile_ids d' = profile_ids d - {i}" by (simp add: c(3) image_delete_key)
  ultimately show ?thesis
    using assms(2) qs us unfolding c(3) by (simp add: schema_inv_def profiles_ok_delete)
qed

lemma delete_profile_default:
  assumes "delete_profile i d = Inr (u, d')" and "has_default (profiles d)"
  shows "has_default (profiles d')"
  using assms(2) delete_profile_cases(1,3) [OF assms(1)]
  unfolding has_default_def by (simp add: set_delete_where) blast

lemma seed_cases:
  assumes "seed_default_profile now d = Inr (u, d')"
  obtains "d' = d" "has_default (profiles d)"
  | p p' where "insert_profile p d = Inr (p', d')" "pf_default p"
  | "\<not> has_default (profiles d)" "\<exists>p \<in> set (profiles d). pf_name p = ''default''"
    "d' = d\<lparr>profiles := update_where (\<lambda>p. pf_name p = ''default'')
                     (\<lambda>p. p\<lparr>pf_default := True, pf_updated := now\<rparr>) (profiles d)\<rparr>"
proof (cases "\<exists>p \<in> set (profiles d). pf_default p")
  case True
  with assms show ?thesis by (intro that(1)) (simp_all add: seed_default_profile_def has_default_def)
next
  case no: False
  note u = assms [unfolded seed_default_profile_def Let_def if_not_P [OF no]]
  show ?thesis
  proof (cases "length (profiles d) = 0")
    case True
    with u show ?thesis by (auto intro: that(2) split: sum.splits)
  next
    case False
    note u1 = u [unfolded if_not_P [OF False]]
    have "count_where (\<lambda>p. pf_name p = ''default'') (profiles d) \<noteq> 0"
      by (rule notI) (use u1 in simp)
    then have "\<exists>p \<in> set (profiles d). pf_name p = ''default''"
      unfolding count_where_0 by blast
    then show ?thesis
      using u1 no \<open>count_where _ _ \<noteq> 0\<close> by (intro that(3)) (simp_all add: has_default_def)
  qed
qed

lemma seed_default_profile_inv [inv_step]:
  assumes "seed_default_profile now d = Inr (u, d')" and "schema_inv d"
  shows "schema_inv d'"
  using assms(1)
proof (cases rule: seed_cases)
  case 1
  with assms(2) show ?thesis by simp
next
  case (2 p p')
  then show ?thesis using assms(2) by (auto intro: insert_profile_inv)
next
  case 3
  let ?f = "\<lambda>p. p\<lparr>pf_default := True, pf_updated := now\<rparr>"
  let ?ps = "update_where (\<lambda>p. pf_name p = ''default'') ?f (profiles d)"
  have ok: "profiles_ok (profiles d) (next_profile d)" using assms(2) by (rule schema_invD)
  have "at_most_one pf_name pf_default (profiles d)"
    using 3(1) by (simp add: has_default_def at_most_one_def)
  then have "at_most_one pf_name pf_default ?ps"
    by (rule at_most_one_update_one [where b = True])
      (use 3(1) in \<open>simp_all add: has_default_def\<close>)
  moreover have names: "uniq_on pf_name ?ps" using ok by (simp add: uniq_on_update_where profiles_okD)
  ultimately have "one_default ?ps"
    unfolding one_default_def by (rule at_most_one_key [rotated])
  moreover have "\<forall>p \<in> set ?ps. pf_quotas p = []"
    by (rule ball_update_where) (use ok in \<open>simp_all add: profiles_ok_def\<close>)
  ultimately have "profiles_ok ?ps (next_profile d)"
    using ok names by (simp add: profiles_ok_def)
  moreover have "pf_id ` set ?ps = profile_ids d" by (rule image_update_where) simp
  ultimately show ?thesis
    unfolding 3(3) using assms(2) by (intro schema_inv_profiles_same)
qed

lemma seed_default_profile_default:
  assumes "seed_default_profile now d = Inr (u, d')"
  shows "has_default (profiles d')"
  using assms
proof (cases rule: seed_cases)
  case 1
  then show ?thesis by simp
next
  case (2 p p')
  then have "profiles d' = profiles d @ [p']" "pf_default p'"
    using insert_profile_cases(1,2) [OF 2(1)] by simp_all
  then show ?thesis by (simp add: has_default_def)
next
  case 3
  then obtain p where p: "p \<in> set (profiles d)" "pf_name p = ''default''" by blast
  let ?f = "\<lambda>p. p\<lparr>pf_default := True, pf_updated := now\<rparr>"
  have "?f p \<in> set (profiles d')"
    using in_update_where [OF p(1), of "\<lambda>p. pf_name p = ''default''" ?f] p(2) by (simp add: 3(3))
  moreover have "pf_default (?f p)" by simp
  ultimately show ?thesis unfolding has_default_def by (rule bexI [rotated])
qed

section \<open>What a save changes\<close>

lemma get_profile_bump:
  "get_profile j (d\<lparr>profiles := bump_rev i (profiles d)\<rparr>)
     = map_sum id (\<lambda>q. if j = i then q\<lparr>pf_rev := pf_rev q + 1\<rparr> else q) (get_profile j d)"
proof -
  have "find (\<lambda>p. pf_id p = j) (bump_rev i (profiles d))
      = map_option (\<lambda>q. if pf_id q = i then q\<lparr>pf_rev := pf_rev q + 1\<rparr> else q)
          (find (\<lambda>p. pf_id p = j) (profiles d))"
    unfolding bump_rev_def by (rule find_update_where) simp
  then show ?thesis
    by (auto simp: get_profile_def load_quotas_def dest: find_SomeD split: option.split)
qed

lemma get_profile_quotas:
  "get_profile j (d\<lparr>quotas := qs, next_quota := n\<rparr>)
     = map_sum id (\<lambda>q. q\<lparr>pf_quotas := filter (\<lambda>w. pq_profile w = pf_id q) qs\<rparr>) (get_profile j d)"
  by (simp add: get_profile_def load_quotas_def split: option.split)

lemma filter_number_quotas:
  "filter (\<lambda>w. pq_profile w = j) (number_quotas n (quota_rows i qs))
     = (if j = i then number_quotas n (quota_rows i qs) else [])"
  using number_quotas_profile [of _ n i qs] by (auto simp: filter_id_conv filter_empty_conv)

lemma set_profile_quotas_get:
  assumes "set_profile_quotas i qs d = Inr (u, d')" and "schema_inv d"
  shows "j \<noteq> i \<Longrightarrow> get_profile j d' = get_profile j d"
    and "get_profile i d = Inr q \<Longrightarrow>
      get_profile i d' =
        (if mset (map window_key (pf_quotas q)) = mset (map window_key (quota_rows i qs)) then Inr q
         else Inr (q\<lparr>pf_quotas := number_quotas (next_quota d) (quota_rows i qs), pf_rev := pf_rev q + 1\<rparr>))"
proof -
  have loaded: "pf_quotas p = filter (\<lambda>w. pq_profile w = k) (quotas d)" "pf_id p = k"
    if "get_profile k d = Inr p" for k p
    using that by (auto elim!: get_profile_row)
  show "get_profile j d' = get_profile j d" if "j \<noteq> i"
    using assms
  proof (cases rule: set_profile_quotas_cases)
    case 2
    let ?qs = "delete_where (\<lambda>q. pq_profile q = i) (quotas d) @ number_quotas (next_quota d) (quota_rows i qs)"
    let ?n = "next_quota d + int (length (quota_rows i qs))"
    show ?thesis
      using get_profile_bump [of j i "d\<lparr>quotas := ?qs, next_quota := ?n\<rparr>"] that loaded [of j]
      by (cases "get_profile j d")
        (simp_all add: 2(2) get_profile_quotas filter_delete_where_other filter_number_quotas)
  qed simp
  show "get_profile i d' =
        (if mset (map window_key (pf_quotas q)) = mset (map window_key (quota_rows i qs)) then Inr q
         else Inr (q\<lparr>pf_quotas := number_quotas (next_quota d) (quota_rows i qs), pf_rev := pf_rev q + 1\<rparr>))"
    if q: "get_profile i d = Inr q"
    using assms
  proof (cases rule: set_profile_quotas_cases)
    case 1
    then show ?thesis using q loaded [OF q] by (simp add: same_quota_windows_iff)
  next
    case 2
    let ?qs = "delete_where (\<lambda>q. pq_profile q = i) (quotas d) @ number_quotas (next_quota d) (quota_rows i qs)"
    let ?n = "next_quota d + int (length (quota_rows i qs))"
    have "get_profile i d' = Inr (q\<lparr>pf_quotas := number_quotas (next_quota d) (quota_rows i qs), pf_rev := pf_rev q + 1\<rparr>)"
      using get_profile_bump [of i i "d\<lparr>quotas := ?qs, next_quota := ?n\<rparr>"] q loaded [OF q]
      by (simp add: 2(2) get_profile_quotas filter_number_quotas)
    moreover have "mset (map window_key (pf_quotas q)) \<noteq> mset (map window_key (quota_rows i qs))"
      using 2(1) loaded [OF q] by (simp add: same_quota_windows_iff)
    ultimately show ?thesis by simp
  qed
qed

lemma get_profile_saved:
  assumes "update_profile_tx now p d = Inr ((prev, p1), d1)"
  shows "get_profile (pf_id p) d1 = Inr ((saved_row p1 prev)\<lparr>pf_quotas := pf_quotas prev\<rparr>)"
    and "j \<noteq> pf_id p \<Longrightarrow>
      get_profile j d1 = map_sum id (\<lambda>q. q\<lparr>pf_default := pf_default q \<and> \<not> pf_default p\<rparr>) (get_profile j d)"
proof -
  define ps1 where "ps1 = (if pf_default p then clear_default (pf_id p) (profiles d) else profiles d)"
  note c = update_profile_tx_cases [OF assms, folded ps1_def]
  have find1: "find (\<lambda>q. pf_id q = k) ps1 = map_option (\<lambda>q. if pf_default p \<and> pf_default q
      \<and> (pf_id p = 0 \<or> pf_id q \<noteq> pf_id p) then q\<lparr>pf_default := False\<rparr> else q)
      (find (\<lambda>q. pf_id q = k) (profiles d))" for k
    unfolding ps1_def clear_default_def
    by (cases "pf_default p") (simp_all add: find_update_where option.map_ident)
  have find2: "find (\<lambda>q. pf_id q = k) (profiles d1)
      = map_option (\<lambda>q. if pf_id q = pf_id p then saved_row p1 q else q) (find (\<lambda>q. pf_id q = k) ps1)" for k
    unfolding c(5) by (simp add: find_update_where)
  have quotas: "quotas d1 = quotas d" by (simp add: c(5))
  have p1: "pf_default p1 = pf_default p" by (simp add: c(3))
  show "get_profile (pf_id p) d1 = Inr ((saved_row p1 prev)\<lparr>pf_quotas := pf_quotas prev\<rparr>)"
    using c(1) find2 [of "pf_id p"] find1 [of "pf_id p"]
    by (auto simp: get_profile_def load_quotas_def quotas saved_row_def p1
        dest!: find_SomeD split: option.splits if_splits)
  show "get_profile j d1 = map_sum id (\<lambda>q. q\<lparr>pf_default := pf_default q \<and> \<not> pf_default p\<rparr>) (get_profile j d)"
    if "j \<noteq> pf_id p"
    using find2 [of j] find1 [of j] that
    by (auto simp: get_profile_def load_quotas_def quotas
        dest!: find_SomeD split: option.splits if_splits)
qed

lemma mset_number_quotas [simp]:
  "image_mset window_key (mset (number_quotas n qs)) = image_mset window_key (mset qs)"
  by (induction qs arbitrary: n) (simp_all add: window_key_def)

text \<open>
  The saved profile is what was asked for, with the windows that are well formed, and its revision is
  raised by what changed of its limits.
\<close>

lemma update_profile_get:
  assumes "update_profile now p qs d = Inr ((prev, demoted, p1), d')" and "schema_inv d"
  shows "\<exists>new. get_profile (pf_id p) d' = Inr new \<and> get_profile (pf_id p) d = Inr prev
    \<and> pf_models new = pf_models p \<and> pf_tpm new = pf_tpm p \<and> pf_rpm new = pf_rpm p
    \<and> mset (map window_key (pf_quotas new)) = mset (map window_key (quota_rows (pf_id p) qs))
    \<and> pf_rev prev \<le> pf_rev new \<and> (pf_rev new = pf_rev prev \<longleftrightarrow> same_limits prev new)"
proof -
  obtain d1 where d1: "update_profile_tx now p d = Inr ((prev, p1), d1)"
      "set_profile_quotas (pf_id p) qs d1 = Inr ((), d')"
    using assms(1) by (rule update_profile_cases)
  note c = update_profile_tx_cases(1,3) [OF d1(1)]
  let ?row = "(saved_row p1 prev)\<lparr>pf_quotas := pf_quotas prev\<rparr>"
  have row: "get_profile (pf_id p) d1 = Inr ?row" using d1(1) by (rule get_profile_saved)
  have inv: "schema_inv d1" using d1(1) assms(2) by (rule update_profile_tx_inv)
  show ?thesis
    using set_profile_quotas_get(2) [OF d1(2) inv row] c
    by (auto simp: same_limits_def split: if_splits)
qed

lemma update_profile_others:
  assumes "update_profile now p qs d = Inr ((prev, demoted, p1), d')" and "schema_inv d"
    and "j \<noteq> pf_id p"
  shows "get_profile j d' = map_sum id (\<lambda>q. q\<lparr>pf_default := pf_default q \<and> \<not> pf_default p\<rparr>) (get_profile j d)"
proof -
  obtain d1 where d1: "update_profile_tx now p d = Inr ((prev, p1), d1)"
      "set_profile_quotas (pf_id p) qs d1 = Inr ((), d')"
    using assms(1) by (rule update_profile_cases)
  have inv: "schema_inv d1" using d1(1) assms(2) by (rule update_profile_tx_inv)
  show ?thesis
    using set_profile_quotas_get(1) [OF d1(2) inv assms(3)] get_profile_saved(2) [OF d1(1) assms(3)]
    by simp
qed

section \<open>Properties\<close>

text \<open>
  C18.  Saving a profile raises the revision of its limits exactly when the saved limits differ from the
  former ones: in the models, the tokens or requests per minute, or the multiset of quota windows.
  The saved profile has the limits that were asked for, without the malformed windows.
\<close>

theorem update_profile_revision:
  assumes "update_profile now p qs d = Inr ((prev, demoted, p1), d')" and "schema_inv d"
  shows "\<exists>new. get_profile (pf_id p) d' = Inr new \<and> get_profile (pf_id p) d = Inr prev
    \<and> pf_models new = pf_models p \<and> pf_tpm new = pf_tpm p \<and> pf_rpm new = pf_rpm p
    \<and> mset (map window_key (pf_quotas new)) = mset (map window_key (quota_rows (pf_id p) qs))
    \<and> pf_rev prev \<le> pf_rev new \<and> (pf_rev new = pf_rev prev \<longleftrightarrow> same_limits prev new)"
  using assms by (rule update_profile_get)

definition plain_profile :: "int \<Rightarrow> string \<Rightarrow> bool \<Rightarrow> profile" where
  "plain_profile i name dflt =
     \<lparr>pf_id = i, pf_name = name, pf_description = [], pf_models = [], pf_tpm = None, pf_rpm = None,
      pf_max_budget = None, pf_budget_duration = None, pf_key_days = 0, pf_quotas = [],
      pf_default = dflt, pf_rev = 1, pf_created = 0, pf_updated = 0\<rparr>"

definition two_profiles :: database where
  "two_profiles = empty_db\<lparr>profiles := [plain_profile 1 ''a'' True, plain_profile 2 ''b'' False], next_profile := 3\<rparr>"

lemma two_profiles_inv: "schema_inv two_profiles"
  by (simp add: two_profiles_def plain_profile_def empty_db_def schema_inv_def profiles_ok_def quotas_ok_def
      users_ok_def keys_ok_def sessions_ok_def audit_ok_def notices_ok_def ids_below_def one_default_def at_most_one_def)

definition saved_profile :: profile where
  "saved_profile = (plain_profile 2 ''b'' True)\<lparr>pf_tpm := Some 5\<rparr>"

definition saved_windows :: "profile_quota list" where
  "saved_windows = [\<lparr>pq_id = 0, pq_profile = 0, pq_budget = 3, pq_period = ''24h''\<rparr>]"

definition saved_db :: database where
  "saved_db = snd (projr (update_profile 9 saved_profile saved_windows two_profiles))"

lemma saved_run:
  "update_profile 9 saved_profile saved_windows two_profiles
     = Inr ((plain_profile 2 ''b'' False, [''a''], saved_profile\<lparr>pf_updated := 9, pf_rev := 2\<rparr>), saved_db)"
  unfolding saved_db_def by code_simp

lemma update_profile_revision_witness:
  "\<exists>new. get_profile 2 saved_db = Inr new \<and> get_profile 2 two_profiles = Inr (plain_profile 2 ''b'' False)
    \<and> pf_tpm new = Some 5 \<and> pf_rev new \<noteq> 1"
proof -
  obtain new where n: "get_profile (pf_id saved_profile) saved_db = Inr new"
    "get_profile (pf_id saved_profile) two_profiles = Inr (plain_profile 2 ''b'' False)"
    "pf_tpm new = pf_tpm saved_profile"
    "pf_rev new = pf_rev (plain_profile 2 ''b'' False) \<longleftrightarrow> same_limits (plain_profile 2 ''b'' False) new"
    using update_profile_revision [OF saved_run two_profiles_inv] by blast
  then show ?thesis by (auto simp: saved_profile_def plain_profile_def same_limits_def)
qed

text \<open>
  Saving a profile leaves every other profile as it was, with its windows and its revision, but for
  the mark of being the default, which a profile saved as the default takes from the others.
\<close>

theorem update_profile_frame:
  assumes "update_profile now p qs d = Inr ((prev, demoted, p1), d')" and "schema_inv d" and "j \<noteq> pf_id p"
  shows "get_profile j d' = map_sum id (\<lambda>q. q\<lparr>pf_default := pf_default q \<and> \<not> pf_default p\<rparr>) (get_profile j d)"
  using assms by (rule update_profile_others)

lemma update_profile_frame_witness:
  "get_profile 1 saved_db = map_sum id (\<lambda>q. q\<lparr>pf_default := pf_default q \<and> \<not> True\<rparr>) (get_profile 1 two_profiles)"
  using update_profile_frame [OF saved_run two_profiles_inv, of 1] by (simp add: saved_profile_def plain_profile_def)

text \<open>
  A deleted profile is not the default, no user is assigned to it, and nothing names it afterwards:
  no profile, no quota window, no user's profile and no user's destination after a deadline.
\<close>

theorem delete_profile_clean:
  assumes "delete_profile i d = Inr (u, d')"
  shows "i \<notin> profile_ids d' \<and> i \<notin> pq_profile ` set (quotas d')
    \<and> (\<forall>x \<in> set (users d'). us_profile x \<noteq> Some i \<and> us_after x \<noteq> Some i)
    \<and> \<not> (\<exists>p \<in> set (profiles d). pf_id p = i \<and> pf_default p)"
proof -
  note c = delete_profile_cases [OF assms]
  have "\<forall>x \<in> set (users d'). us_profile x \<noteq> Some i \<and> us_after x \<noteq> Some i"
    unfolding c(3) by simp (rule ball_update_where; use c(2) in simp)
  moreover have "i \<notin> profile_ids d'" "i \<notin> pq_profile ` set (quotas d')"
    by (simp_all add: c(3) image_delete_key)
  ultimately show ?thesis using c(1) by blast
qed

lemma delete_profile_clean_witness:
  "2 \<notin> profile_ids (snd (projr (delete_profile 2 two_profiles)))"
proof -
  have "delete_profile 2 two_profiles = Inr ((), snd (projr (delete_profile 2 two_profiles)))"
    by code_simp
  from delete_profile_clean [OF this] show ?thesis by blast
qed

text \<open>
  C32.  The comparison of window sets by counting is the equality of the multisets of their windows.
\<close>

theorem same_quota_windows_multiset:
  "same_quota_windows a b \<longleftrightarrow> mset (map window_key a) = mset (map window_key b)"
  by (rule same_quota_windows_iff)

end
