(* ===== verification/DbUsers.thy ===== *)
theory DbUsers
  imports DbProfileFacts
begin

text \<open>
  The user methods of \<open>internal/database\<close> (\<open>db.go\<close> and \<open>admins.go\<close>): look-ups, the assignment of a
  profile with or without a deadline, the end of a deadline, and the administrator flag.
\<close>

section \<open>Look-ups\<close>

definition get_user_by_id :: "int \<Rightarrow> database \<Rightarrow> db_error + user" where
  "get_user_by_id i d = (case find (\<lambda>u. us_id u = i) (users d) of None \<Rightarrow> Inl NoRows | Some u \<Rightarrow> Inr u)"

definition get_user_by_sub :: "string \<Rightarrow> database \<Rightarrow> db_error + user" where
  "get_user_by_sub s d = (case find (\<lambda>u. us_sub u = s) (users d) of None \<Rightarrow> Inl NoRows | Some u \<Rightarrow> Inr u)"

text \<open>\<open>ListUsers\<close>: by email, each with the profile it is assigned.\<close>

definition list_users :: "database \<Rightarrow> (user \<times> profile option) list" where
  "list_users d =
     map (\<lambda>u. (u, case us_profile u of None \<Rightarrow> None | Some i \<Rightarrow> find (\<lambda>p. pf_id p = i) (profiles d)))
       (sort_key us_email (users d))"

definition users_with_passed_deadline :: "time \<Rightarrow> database \<Rightarrow> user list" where
  "users_with_passed_deadline now d =
     sort_key us_id (filter (\<lambda>u. case us_expires u of None \<Rightarrow> False | Some t \<Rightarrow> t \<le> now) (users d))"

definition list_admins :: "database \<Rightarrow> user list" where
  "list_admins d = sort_key us_id (filter us_admin (users d))"

definition count_admins :: "database \<Rightarrow> nat" where
  "count_admins d = count_where us_admin (users d)"

section \<open>Statements\<close>

text \<open>The two writes of \<open>GetOrCreateUser\<close>.\<close>

definition insert_user :: "user \<Rightarrow> user tx" where
  "insert_user u d =
     (let u' = u\<lparr>us_id := next_user d\<rparr>
      in if us_sub u \<in> us_sub ` set (users d) then Inl UniqueViolation
         else Inr (u', d\<lparr>users := users d @ [u'], next_user := next_user d + 1\<rparr>))"

definition update_identity :: "int \<Rightarrow> string \<Rightarrow> string \<Rightarrow> time \<Rightarrow> unit tx" where
  "update_identity i email name now d =
     Inr ((), d\<lparr>users := update_where (\<lambda>u. us_id u = i)
       (\<lambda>u. u\<lparr>us_email := email, us_name := name, us_updated := now\<rparr>) (users d)\<rparr>)"

text \<open>
  An update of \<open>users.profile_id\<close>: the foreign key is checked when a row takes the new value.
  \<open>profile_after_expiry\<close> has no foreign key.
\<close>

definition assign_users :: "int \<Rightarrow> int option \<Rightarrow> (user \<Rightarrow> user) \<Rightarrow> unit tx" where
  "assign_users i p f d =
     (if (\<exists>u \<in> set (users d). us_id u = i) \<and> (case p of None \<Rightarrow> False | Some j \<Rightarrow> j \<notin> profile_ids d)
      then Inl ForeignKeyViolation
      else Inr ((), d\<lparr>users := update_where (\<lambda>u. us_id u = i) (\<lambda>u. f (u\<lparr>us_profile := p\<rparr>)) (users d)\<rparr>))"

definition set_user_profile :: "time \<Rightarrow> int \<Rightarrow> int option \<Rightarrow> unit tx" where
  "set_user_profile now i p = assign_users i p (\<lambda>u. u\<lparr>us_updated := now\<rparr>)"

definition set_user_profile_until ::
    "time \<Rightarrow> int \<Rightarrow> int option \<Rightarrow> time option \<Rightarrow> int option \<Rightarrow> bool \<Rightarrow> unit tx" where
  "set_user_profile_until now i p expires after revoke =
     (let after' = (if expires = None then None else after);
          revoke' = (if expires = None then False else revoke)
      in assign_users i p (\<lambda>u. u\<lparr>us_expires := expires, us_after := after', us_revoke := revoke',
                                 us_updated := now\<rparr>))"

definition apply_profile_expiry :: "time \<Rightarrow> int \<Rightarrow> int option \<Rightarrow> unit tx" where
  "apply_profile_expiry now i p =
     assign_users i p (\<lambda>u. u\<lparr>us_expires := None, us_after := None, us_revoke := False, us_updated := now\<rparr>)"

definition set_user_admin :: "time \<Rightarrow> int \<Rightarrow> bool \<Rightarrow> unit tx" where
  "set_user_admin now i admin d =
     (if \<exists>u \<in> set (users d). us_id u = i
      then Inr ((), d\<lparr>users := update_where (\<lambda>u. us_id u = i)
             (\<lambda>u. u\<lparr>us_admin := admin, us_updated := now\<rparr>) (users d)\<rparr>)
      else Inl NoRows)"

section \<open>The constraints stay\<close>

lemma users_ok_update:
  assumes "users_ok us n pids" and "\<And>u. us_id (f u) = us_id u" and "\<And>u. us_sub (f u) = us_sub u"
    and "\<And>u. u \<in> set us \<Longrightarrow> P u \<Longrightarrow> us_profile (f u) = us_profile u \<or> us_profile (f u) \<in> insert None (Some ` pids)"
  shows "users_ok (update_where P f us) n pids"
proof -
  have ref: "\<forall>u \<in> set us. \<forall>p. us_profile u = Some p \<longrightarrow> p \<in> pids"
    using assms(1) by (simp add: users_ok_def)
  have "\<forall>u \<in> set (update_where P f us). \<forall>p. us_profile u = Some p \<longrightarrow> p \<in> pids"
  proof (rule ball_update_where)
    fix u assume u: "u \<in> set us" "P u"
    show "\<forall>p. us_profile (f u) = Some p \<longrightarrow> p \<in> pids"
      using assms(4) [OF u] ref u(1) by auto
  qed (use ref in blast)
  then show ?thesis using assms(1-3) by (simp add: users_ok_def uniq_on_update_where)
qed

lemma schema_inv_users_same:
  assumes "schema_inv d" and "users_ok us (next_user d) (profile_ids d)" and "us_id ` set us = user_ids d"
  shows "schema_inv (d\<lparr>users := us\<rparr>)"
  using assms by (simp add: schema_inv_def)

lemma insert_user_inv [inv_step]:
  assumes "insert_user u d = Inr (r, d')" and "us_profile u = None" and "schema_inv d"
  shows "schema_inv d'"
proof -
  let ?u = "u\<lparr>us_id := next_user d\<rparr>"
  have d': "d' = d\<lparr>users := users d @ [?u], next_user := next_user d + 1\<rparr>"
    and sub: "us_sub u \<notin> us_sub ` set (users d)"
    using assms(1) by (auto simp: insert_user_def Let_def split: if_splits)
  have "users_ok (users d @ [?u]) (next_user d + 1) (profile_ids d)"
    using schema_invD(2) [OF assms(3)] sub assms(2)
    by (simp add: users_ok_def ids_below_append ball_Un)
  moreover have "keys_ok (api_keys d) (next_key d) (insert (next_user d) (user_ids d))"
    "sessions_ok (sessions d) (next_session d) (insert (next_user d) (user_ids d))"
    using schema_invD(3,5) [OF assms(3)] by (auto simp: keys_ok_def sessions_ok_def)
  ultimately show ?thesis
    using assms(3) unfolding d' by (simp add: schema_inv_def)
qed

lemma update_identity_inv [inv_step]:
  assumes "update_identity i e n now d = Inr (r, d')" and "schema_inv d"
  shows "schema_inv d'"
proof -
  have d': "d' = d\<lparr>users := update_where (\<lambda>u. us_id u = i)
       (\<lambda>u. u\<lparr>us_email := e, us_name := n, us_updated := now\<rparr>) (users d)\<rparr>"
    using assms(1) by (simp add: update_identity_def)
  show ?thesis unfolding d'
    by (rule schema_inv_users_same [OF assms(2)])
      (use schema_invD(2) [OF assms(2)] in \<open>simp_all add: users_ok_update image_update_where\<close>)
qed

lemma assign_users_cases:
  assumes "assign_users i p f d = Inr (r, d')"
  shows "d' = d\<lparr>users := update_where (\<lambda>u. us_id u = i) (\<lambda>u. f (u\<lparr>us_profile := p\<rparr>)) (users d)\<rparr>"
    and "(\<exists>u \<in> set (users d). us_id u = i) \<Longrightarrow> p \<in> insert None (Some ` profile_ids d)"
proof -
  have c: "\<not> ((\<exists>u \<in> set (users d). us_id u = i) \<and> (case p of None \<Rightarrow> False | Some j \<Rightarrow> j \<notin> profile_ids d))"
    by (rule notI) (use assms in \<open>simp add: assign_users_def\<close>)
  show "d' = d\<lparr>users := update_where (\<lambda>u. us_id u = i) (\<lambda>u. f (u\<lparr>us_profile := p\<rparr>)) (users d)\<rparr>"
    using assms [unfolded assign_users_def if_not_P [OF c]] by simp
  show "p \<in> insert None (Some ` profile_ids d)" if "\<exists>u \<in> set (users d). us_id u = i"
    using c that by (cases p) auto
qed

lemma assign_users_inv:
  assumes "assign_users i p f d = Inr (r, d')" and "schema_inv d"
    and "\<And>u. us_id (f u) = us_id u" "\<And>u. us_sub (f u) = us_sub u" "\<And>u. us_profile (f u) = us_profile u"
  shows "schema_inv d'"
proof -
  note c = assign_users_cases [OF assms(1)]
  let ?us = "update_where (\<lambda>u. us_id u = i) (\<lambda>u. f (u\<lparr>us_profile := p\<rparr>)) (users d)"
  have "users_ok ?us (next_user d) (profile_ids d)"
    using schema_invD(2) [OF assms(2)]
  proof (rule users_ok_update)
    fix u assume "u \<in> set (users d)" "us_id u = i"
    then have "p \<in> insert None (Some ` profile_ids d)" by (intro c(2)) blast
    then show "us_profile (f (u\<lparr>us_profile := p\<rparr>)) = us_profile u
        \<or> us_profile (f (u\<lparr>us_profile := p\<rparr>)) \<in> insert None (Some ` profile_ids d)"
      by (simp add: assms(5))
  qed (simp_all add: assms(3,4))
  moreover have "us_id ` set ?us = user_ids d" by (rule image_update_where) (simp add: assms(3))
  ultimately show ?thesis unfolding c(1) using assms(2) by (intro schema_inv_users_same)
qed

lemma user_assignments_inv [inv_step]:
  assumes "schema_inv d"
  shows "set_user_profile now i p d = Inr (r, d') \<Longrightarrow> schema_inv d'"
    and "set_user_profile_until now i p t a b d = Inr (r, d') \<Longrightarrow> schema_inv d'"
    and "apply_profile_expiry now i p d = Inr (r, d') \<Longrightarrow> schema_inv d'"
  unfolding set_user_profile_def set_user_profile_until_def apply_profile_expiry_def Let_def
  by (erule assign_users_inv [OF _ assms]; simp)+

lemma set_user_admin_inv [inv_step]:
  assumes "set_user_admin now i a d = Inr (r, d')" and "schema_inv d"
  shows "schema_inv d'"
proof -
  have d': "d' = d\<lparr>users := update_where (\<lambda>u. us_id u = i)
             (\<lambda>u. u\<lparr>us_admin := a, us_updated := now\<rparr>) (users d)\<rparr>"
    using assms(1) by (simp add: set_user_admin_def split: if_splits)
  show ?thesis unfolding d'
    by (rule schema_inv_users_same [OF assms(2)])
      (use schema_invD(2) [OF assms(2)] in \<open>simp_all add: users_ok_update image_update_where\<close>)
qed

end
