(* ===== verification/DbKeys.thy ===== *)
theory DbKeys
  imports DbUsers
begin

text \<open>
  The key methods of \<open>internal/database/db.go\<close>: replacing, extending and deleting a key, and the
  life of a key that the gateway no longer has (marked, unmarked, removed after the grace period),
  each with its audit entry in the same transaction.
\<close>

section \<open>Audit entries\<close>

definition add_audit :: "audit_event \<Rightarrow> database \<Rightarrow> database" where
  "add_audit e d =
     d\<lparr>audit_log := audit_log d @ [e\<lparr>au_id := next_audit d\<rparr>], next_audit := next_audit d + 1\<rparr>"

definition insert_audit :: "audit_event \<Rightarrow> unit tx" where
  "insert_audit e d = Inr ((), add_audit e d)"

lemma add_audit_simps [simp]:
  "profiles (add_audit e d) = profiles d" "quotas (add_audit e d) = quotas d"
  "users (add_audit e d) = users d" "api_keys (add_audit e d) = api_keys d"
  "sessions (add_audit e d) = sessions d" "notices (add_audit e d) = notices d"
  "next_profile (add_audit e d) = next_profile d" "next_key (add_audit e d) = next_key d"
  by (simp_all add: add_audit_def)

text \<open>\<open>RecordAudit\<close>.\<close>

definition record_audit :: "time \<Rightarrow> audit_event \<Rightarrow> unit tx" where
  "record_audit now e = insert_audit (e\<lparr>au_created := now\<rparr>)"

definition system_actor :: string where
  "system_actor = ''system''"

definition record_key_audit :: "time \<Rightarrow> string \<Rightarrow> int \<Rightarrow> string \<Rightarrow> string \<Rightarrow> unit tx" where
  "record_key_audit now action owner email detail =
     insert_audit \<lparr>au_id = 0, au_created = now, au_action = action, au_actor = system_actor,
       au_subject = email, au_subject_id = Some owner, au_detail = detail\<rparr>"

text \<open>\<open>ListAuditEvents\<close>: the newest first; of two with one time, the one recorded last.\<close>

definition list_audit_events :: "int \<Rightarrow> database \<Rightarrow> audit_event list" where
  "list_audit_events limit d =
     (let limit' = (if limit \<le> 0 then 100 else limit)
      in take (nat limit') (rev (sort_key au_created (sort_key au_id (audit_log d)))))"

section \<open>Keys\<close>

definition get_api_key_by_user :: "int \<Rightarrow> database \<Rightarrow> api_key option" where
  "get_api_key_by_user i d = find (\<lambda>k. ak_user k = i) (api_keys d)"

text \<open>A deleted key takes its notices with it: \<open>ON DELETE CASCADE\<close>.\<close>

definition delete_keys :: "(api_key \<Rightarrow> bool) \<Rightarrow> database \<Rightarrow> database" where
  "delete_keys P d =
     (let gone = ak_id ` set (filter P (api_keys d))
      in d\<lparr>api_keys := delete_where P (api_keys d),
           notices := delete_where (\<lambda>n. en_key n \<in> gone) (notices d)\<rparr>)"

definition insert_key :: "api_key \<Rightarrow> api_key tx" where
  "insert_key k d =
     (let k' = k\<lparr>ak_id := next_key d\<rparr>
      in if ak_user k \<notin> user_ids d then Inl ForeignKeyViolation
         else if ak_user k \<in> ak_user ` set (api_keys d) then Inl UniqueViolation
         else Inr (k', d\<lparr>api_keys := api_keys d @ [k'], next_key := next_key d + 1\<rparr>))"

text \<open>\<open>CreateAPIKey\<close> and \<open>ReplaceAPIKey\<close>.\<close>

definition create_api_key :: "time \<Rightarrow> api_key \<Rightarrow> api_key tx" where
  "create_api_key now k d = insert_key (k\<lparr>ak_created := now\<rparr>) d"

definition replace_api_key :: "time \<Rightarrow> api_key \<Rightarrow> api_key tx" where
  "replace_api_key now k d =
     insert_key (k\<lparr>ak_created := now\<rparr>) (delete_keys (\<lambda>x. ak_user x = ak_user k) d)"

definition update_api_key_expiry :: "int \<Rightarrow> time \<Rightarrow> unit tx" where
  "update_api_key_expiry i t d =
     Inr ((), d\<lparr>api_keys := update_where (\<lambda>k. ak_id k = i) (\<lambda>k. k\<lparr>ak_expires := t\<rparr>) (api_keys d),
               notices := delete_where (\<lambda>n. en_key n = i) (notices d)\<rparr>)"

definition delete_api_key :: "int \<Rightarrow> unit tx" where
  "delete_api_key i d = Inr ((), delete_keys (\<lambda>k. ak_id k = i) d)"

section \<open>Keys the gateway does not have\<close>

definition audit_key_missing :: string where "audit_key_missing = ''key.missing''"
definition audit_key_found :: string where "audit_key_found = ''key.found''"
definition audit_key_gone :: string where "audit_key_gone = ''key.gone''"

text \<open>
  \<open>MarkKeyMissing\<close>: \<open>now\<close> is the clock when the marker is set, \<open>now2\<close> when the audit entry is made.
\<close>

definition mark_key_missing :: "time \<Rightarrow> time \<Rightarrow> int \<Rightarrow> int \<Rightarrow> string \<Rightarrow> string \<Rightarrow> bool tx" where
  "mark_key_missing now now2 i owner email detail d =
     (if \<exists>k \<in> set (api_keys d). ak_id k = i \<and> ak_missing k = None
      then (case record_key_audit now2 audit_key_missing owner email detail
                   (d\<lparr>api_keys := update_where (\<lambda>k. ak_id k = i \<and> ak_missing k = None)
                        (\<lambda>k. k\<lparr>ak_missing := Some now\<rparr>) (api_keys d)\<rparr>) of
              Inl e \<Rightarrow> Inl e
            | Inr (_, d') \<Rightarrow> Inr (True, d'))
      else Inr (False, d))"

definition clear_key_missing :: "time \<Rightarrow> int \<Rightarrow> int \<Rightarrow> string \<Rightarrow> string \<Rightarrow> bool tx" where
  "clear_key_missing now i owner email detail d =
     (if \<exists>k \<in> set (api_keys d). ak_id k = i \<and> ak_missing k \<noteq> None
      then (case record_key_audit now audit_key_found owner email detail
                   (d\<lparr>api_keys := update_where (\<lambda>k. ak_id k = i \<and> ak_missing k \<noteq> None)
                        (\<lambda>k. k\<lparr>ak_missing := None, ak_synced_rev := None\<rparr>) (api_keys d)\<rparr>) of
              Inl e \<Rightarrow> Inl e
            | Inr (_, d') \<Rightarrow> Inr (True, d'))
      else Inr (False, d))"

definition missing_before :: "time \<Rightarrow> api_key \<Rightarrow> bool" where
  "missing_before t k = (case ak_missing k of None \<Rightarrow> False | Some s \<Rightarrow> s \<le> t)"

definition remove_missing_key :: "time \<Rightarrow> int \<Rightarrow> int \<Rightarrow> string \<Rightarrow> string \<Rightarrow> time \<Rightarrow> bool tx" where
  "remove_missing_key now i owner email detail before d =
     (if \<exists>k \<in> set (api_keys d). ak_id k = i \<and> missing_before before k
      then (case record_key_audit now audit_key_gone owner email detail
                   (delete_keys (\<lambda>k. ak_id k = i \<and> missing_before before k) d) of
              Inl e \<Rightarrow> Inl e
            | Inr (_, d') \<Rightarrow> Inr (True, d'))
      else Inr (False, d))"

lemma mark_key_missing_cases:
  assumes "mark_key_missing now now2 i ow em de d = Inr (b, d')"
  obtains "b" "\<exists>k \<in> set (api_keys d). ak_id k = i \<and> ak_missing k = None"
    "\<exists>e. d' = add_audit e (d\<lparr>api_keys := update_where (\<lambda>k. ak_id k = i \<and> ak_missing k = None)
                        (\<lambda>k. k\<lparr>ak_missing := Some now\<rparr>) (api_keys d)\<rparr>)"
  | "\<not> b" "\<forall>k \<in> set (api_keys d). ak_id k = i \<longrightarrow> ak_missing k \<noteq> None" "d' = d"
proof (cases "\<exists>k \<in> set (api_keys d). ak_id k = i \<and> ak_missing k = None")
  case True
  note a = assms [unfolded mark_key_missing_def if_P [OF True] record_key_audit_def insert_audit_def
      sum.case prod.case sum.inject prod.inject]
  from a have "b" by blast
  then show ?thesis using True by (rule that(1)) (intro exI, rule sym, rule a [THEN conjunct2])
next
  case False
  note a = assms [unfolded mark_key_missing_def if_not_P [OF False] sum.inject prod.inject]
  have "\<not> b" "d' = d" using a by blast+
  then show ?thesis using False by (intro that(2)) simp_all
qed

lemma clear_key_missing_cases:
  assumes "clear_key_missing now i ow em de d = Inr (b, d')"
  obtains "b" "\<exists>k \<in> set (api_keys d). ak_id k = i \<and> ak_missing k \<noteq> None"
    "\<exists>e. d' = add_audit e (d\<lparr>api_keys := update_where (\<lambda>k. ak_id k = i \<and> ak_missing k \<noteq> None)
                        (\<lambda>k. k\<lparr>ak_missing := None, ak_synced_rev := None\<rparr>) (api_keys d)\<rparr>)"
  | "\<not> b" "\<forall>k \<in> set (api_keys d). ak_id k = i \<longrightarrow> ak_missing k = None" "d' = d"
proof (cases "\<exists>k \<in> set (api_keys d). ak_id k = i \<and> ak_missing k \<noteq> None")
  case True
  note a = assms [unfolded clear_key_missing_def if_P [OF True] record_key_audit_def insert_audit_def
      sum.case prod.case sum.inject prod.inject]
  from a have "b" by blast
  then show ?thesis using True by (rule that(1)) (intro exI, rule sym, rule a [THEN conjunct2])
next
  case False
  note a = assms [unfolded clear_key_missing_def if_not_P [OF False] sum.inject prod.inject]
  have "\<not> b" "d' = d" using a by blast+
  then show ?thesis using False by (intro that(2)) simp_all
qed

lemma remove_missing_key_cases:
  assumes "remove_missing_key now i ow em de t d = Inr (b, d')"
  obtains "b" "\<exists>k \<in> set (api_keys d). ak_id k = i \<and> missing_before t k"
    "\<exists>e. d' = add_audit e (delete_keys (\<lambda>k. ak_id k = i \<and> missing_before t k) d)"
  | "\<not> b" "\<forall>k \<in> set (api_keys d). ak_id k = i \<longrightarrow> \<not> missing_before t k" "d' = d"
proof (cases "\<exists>k \<in> set (api_keys d). ak_id k = i \<and> missing_before t k")
  case True
  note a = assms [unfolded remove_missing_key_def if_P [OF True] record_key_audit_def insert_audit_def
      sum.case prod.case sum.inject prod.inject]
  from a have "b" by blast
  then show ?thesis using True by (rule that(1)) (intro exI, rule sym, rule a [THEN conjunct2])
next
  case False
  note a = assms [unfolded remove_missing_key_def if_not_P [OF False] sum.inject prod.inject]
  have "\<not> b" "d' = d" using a by blast+
  then show ?thesis using False by (intro that(2)) simp_all
qed

text \<open>\<open>MissingKey\<close> and \<open>ListMissingKeys\<close>, the oldest first.\<close>

record missing_key =
  mk_id :: int
  mk_ref :: string
  mk_prefix :: string
  mk_since :: time
  mk_user :: int
  mk_email :: string

definition missing_row :: "database \<Rightarrow> api_key \<Rightarrow> missing_key list" where
  "missing_row d k =
     (case (ak_missing k, find (\<lambda>u. us_id u = ak_user k) (users d)) of
        (Some t, Some u) \<Rightarrow> [\<lparr>mk_id = ak_id k, mk_ref = ak_ref k, mk_prefix = ak_prefix k,
                             mk_since = t, mk_user = us_id u, mk_email = us_email u\<rparr>]
      | _ \<Rightarrow> [])"

definition list_missing_keys :: "database \<Rightarrow> missing_key list" where
  "list_missing_keys d =
     sort_key mk_since (sort_key mk_id (concat (map (missing_row d) (api_keys d))))"

definition count_missing_keys :: "database \<Rightarrow> nat" where
  "count_missing_keys d = count_where (\<lambda>k. ak_missing k \<noteq> None) (api_keys d)"

text \<open>\<open>CountAPIKeys\<close>: all keys, and those that expire within the next days.\<close>

definition count_api_keys :: "time \<Rightarrow> int \<Rightarrow> database \<Rightarrow> nat \<times> nat" where
  "count_api_keys now days d =
     (length (api_keys d),
      count_where (\<lambda>k. ak_expires k > now \<and> ak_expires k \<le> add_days now days) (api_keys d))"

section \<open>The constraints stay\<close>

lemma schema_inv_audit:
  assumes "schema_inv d"
  shows "schema_inv (d\<lparr>audit_log := audit_log d @ [e\<lparr>au_id := next_audit d\<rparr>], next_audit := next_audit d + 1\<rparr>)"
  using assms by (simp add: schema_inv_def audit_ok_def ids_below_append)

lemma insert_audit_inv [inv_step]:
  "insert_audit e d = Inr (r, d') \<Longrightarrow> schema_inv d \<Longrightarrow> schema_inv d'"
  unfolding insert_audit_def add_audit_def using schema_inv_audit [of d e] by simp

lemma record_audit_inv [inv_step]:
  "record_audit now e d = Inr (r, d') \<Longrightarrow> schema_inv d \<Longrightarrow> schema_inv d'"
  unfolding record_audit_def by (rule insert_audit_inv)

lemma record_key_audit_inv [inv_step]:
  "record_key_audit now a i em de d = Inr (r, d') \<Longrightarrow> schema_inv d \<Longrightarrow> schema_inv d'"
  unfolding record_key_audit_def by (rule insert_audit_inv)

lemma keys_ok_update:
  assumes "keys_ok ks n uids" and "\<And>k. ak_id (f k) = ak_id k" and "\<And>k. ak_user (f k) = ak_user k"
  shows "keys_ok (update_where P f ks) n uids"
  using assms by (simp add: keys_ok_def uniq_on_update_where image_update_where)

lemma schema_inv_update_keys:
  assumes "schema_inv d" and "\<And>k. ak_id (f k) = ak_id k" and "\<And>k. ak_user (f k) = ak_user k"
  shows "schema_inv (d\<lparr>api_keys := update_where P f (api_keys d)\<rparr>)"
  using assms by (simp add: schema_inv_def keys_ok_update image_update_where)

lemma notices_ok_delete: "notices_ok ns n A \<Longrightarrow> notices_ok (delete_where P ns) n A"
  by (auto simp: notices_ok_def ids_below_delete uniq_on_delete_where set_delete_where)

lemma image_diff_filter:
  "uniq_on f xs \<Longrightarrow> f ` set (delete_where P xs) = f ` set xs - f ` set (filter P xs)"
  by (induction xs) (auto simp: delete_where_def)

lemma image_delete_subset: "f ` set xs \<subseteq> A \<Longrightarrow> f ` set (delete_where P xs) \<subseteq> A"
  by (auto simp: delete_where_def)

lemma image_delete_disjoint:
  "f ` set xs \<subseteq> A \<Longrightarrow> f ` set (delete_where (\<lambda>x. f x \<in> B) xs) \<subseteq> A - B"
  by (auto simp: delete_where_def)

lemma delete_keys_inv:
  assumes "schema_inv d"
  shows "schema_inv (delete_keys P d)"
proof -
  let ?gone = "ak_id ` set (filter P (api_keys d))"
  let ?ns = "delete_where (\<lambda>n. en_key n \<in> ?gone) (notices d)"
  have k: "keys_ok (api_keys d) (next_key d) (user_ids d)" using assms by (rule schema_invD)
  then have "uniq_on ak_id (api_keys d)" by (simp add: keys_ok_def ids_below_def)
  then have ids: "ak_id ` set (delete_where P (api_keys d)) = key_ids d - ?gone"
    by (rule image_diff_filter)
  have "keys_ok (delete_where P (api_keys d)) (next_key d) (user_ids d)"
    using k image_delete_subset [of ak_user "api_keys d" "user_ids d" P]
    by (simp add: keys_ok_def ids_below_delete uniq_on_delete_where)
  moreover have "notices_ok ?ns (next_notice d) (key_ids d - ?gone)"
  proof -
    have "en_key ` set ?ns \<subseteq> key_ids d - ?gone"
      using schema_invD(7) [OF assms] by (intro image_delete_disjoint) (simp add: notices_ok_def)
    then show ?thesis
      using notices_ok_delete [OF schema_invD(7) [OF assms]] by (simp add: notices_ok_def)
  qed
  ultimately show ?thesis
    using assms ids by (simp add: schema_inv_def delete_keys_def Let_def)
qed

lemma insert_key_inv [inv_step]:
  assumes "insert_key k d = Inr (r, d')" and "schema_inv d"
  shows "schema_inv d'"
proof -
  let ?k = "k\<lparr>ak_id := next_key d\<rparr>"
  have d': "d' = d\<lparr>api_keys := api_keys d @ [?k], next_key := next_key d + 1\<rparr>"
    and user: "ak_user k \<in> user_ids d" "ak_user k \<notin> ak_user ` set (api_keys d)"
    using assms(1) by (auto simp: insert_key_def Let_def split: if_splits)
  have "keys_ok (api_keys d @ [?k]) (next_key d + 1) (user_ids d)"
    using schema_invD(3) [OF assms(2)] user by (simp add: keys_ok_def ids_below_append)
  moreover have "notices_ok (notices d) (next_notice d) (insert (next_key d) (key_ids d))"
    using schema_invD(7) [OF assms(2)] by (auto simp: notices_ok_def)
  ultimately show ?thesis
    using assms(2) unfolding d' by (simp add: schema_inv_def)
qed

lemma key_writes_inv [inv_step]:
  assumes "schema_inv d"
  shows "create_api_key now k d = Inr (r1, d') \<Longrightarrow> schema_inv d'"
    and "replace_api_key now k d = Inr (r1, d') \<Longrightarrow> schema_inv d'"
    and "delete_api_key i d = Inr (r, d') \<Longrightarrow> schema_inv d'"
    and "update_api_key_expiry i t d = Inr (r, d') \<Longrightarrow> schema_inv d'"
proof -
  show "schema_inv d'" if "create_api_key now k d = Inr (r1, d')"
    using that assms unfolding create_api_key_def by (rule insert_key_inv)
  show "schema_inv d'" if "replace_api_key now k d = Inr (r1, d')"
    using that delete_keys_inv [OF assms] unfolding replace_api_key_def by (rule insert_key_inv)
  show "schema_inv d'" if "delete_api_key i d = Inr (r, d')"
    using that delete_keys_inv [OF assms] by (auto simp: delete_api_key_def)
  show "schema_inv d'" if "update_api_key_expiry i t d = Inr (r, d')"
  proof -
    let ?ks = "update_where (\<lambda>k. ak_id k = i) (\<lambda>k. k\<lparr>ak_expires := t\<rparr>) (api_keys d)"
    have "schema_inv (d\<lparr>api_keys := ?ks\<rparr>)"
      using assms by (rule schema_inv_update_keys) simp_all
    then have "schema_inv (d\<lparr>api_keys := ?ks, notices := delete_where (\<lambda>n. en_key n = i) (notices d)\<rparr>)"
      by (simp add: schema_inv_def notices_ok_delete)
    then show ?thesis using that by (simp add: update_api_key_expiry_def)
  qed
qed

lemma missing_writes_inv [inv_step]:
  assumes "schema_inv d"
  shows "mark_key_missing now now2 i ow em de d = Inr (r, d') \<Longrightarrow> schema_inv d'"
    and "clear_key_missing now i ow em de d = Inr (r, d') \<Longrightarrow> schema_inv d'"
    and "remove_missing_key now i ow em de bef d = Inr (r, d') \<Longrightarrow> schema_inv d'"
proof -
  note up = schema_inv_update_keys [OF assms] and del = delete_keys_inv [OF assms]
  show "schema_inv d'" if "mark_key_missing now now2 i ow em de d = Inr (r, d')"
    using that assms record_key_audit_inv [OF _ up]
    by (auto simp: mark_key_missing_def split: if_splits sum.splits)
  show "schema_inv d'" if "clear_key_missing now i ow em de d = Inr (r, d')"
    using that assms record_key_audit_inv [OF _ up]
    by (auto simp: clear_key_missing_def split: if_splits sum.splits)
  show "schema_inv d'" if "remove_missing_key now i ow em de bef d = Inr (r, d')"
    using that assms record_key_audit_inv [OF _ del]
    by (auto simp: remove_missing_key_def split: if_splits sum.splits)
qed

end
