(* ===== verification/DbLimitSync.thy ===== *)
theory DbLimitSync
  imports DbKeys "HOL-Library.Product_Lexorder"
begin

text \<open>
  \<open>internal/database/limitsync.go\<close>: which keys are out of date in the gateway, in which order the sync
  takes them, and how a push is recorded.
\<close>

section \<open>Pending keys\<close>

text \<open>\<open>COALESCE(u.profile_id, (SELECT id FROM profiles WHERE is_default <> 0 ORDER BY id LIMIT 1))\<close>.\<close>

definition default_id :: "database \<Rightarrow> int option" where
  "default_id d =
     (case sort_key pf_id (filter pf_default (profiles d)) of [] \<Rightarrow> None | p # _ \<Rightarrow> Some (pf_id p))"

definition effective_id :: "database \<Rightarrow> user \<Rightarrow> int option" where
  "effective_id d u = (case us_profile u of Some i \<Rightarrow> Some i | None \<Rightarrow> default_id d)"

definition effective_profile :: "database \<Rightarrow> user \<Rightarrow> profile option" where
  "effective_profile d u =
     (case effective_id d u of None \<Rightarrow> None | Some i \<Rightarrow> find (\<lambda>p. pf_id p = i) (profiles d))"

text \<open>Whether a key does not carry what its owner is due: the \<open>WHERE\<close> of \<open>pending\<close>.\<close>

definition out_of_date :: "database \<Rightarrow> user \<Rightarrow> api_key \<Rightarrow> bool" where
  "out_of_date d u k =
     (case effective_profile d u of
        None \<Rightarrow> True
      | Some p \<Rightarrow> ak_synced_profile k \<noteq> effective_id d u
                 \<or> ak_synced_rev k \<noteq> Some (pf_rev p)
                 \<or> ak_synced_name k \<noteq> Some (us_name u)
                 \<or> ak_synced_email k \<noteq> Some (us_email u))"

definition is_pending :: "time \<Rightarrow> database \<Rightarrow> user \<Rightarrow> api_key \<Rightarrow> bool" where
  "is_pending now d u k \<longleftrightarrow> ak_expires k > now \<and> ak_missing k = None \<and> out_of_date d u k"

text \<open>\<open>LimitSyncTarget\<close>.\<close>

record sync_target =
  ts_key :: int
  ts_ref :: string
  ts_prefix :: string
  ts_user :: int
  ts_sub :: string
  ts_email :: string
  ts_name :: string
  ts_synced_name :: "string option"
  ts_profile :: "int option"
  ts_error :: string
  ts_failed_at :: "time option"

definition target_of :: "database \<Rightarrow> user \<Rightarrow> api_key \<Rightarrow> sync_target" where
  "target_of d u k =
     \<lparr>ts_key = ak_id k, ts_ref = ak_ref k, ts_prefix = ak_prefix k, ts_user = us_id u,
      ts_sub = us_sub u, ts_email = us_email u, ts_name = us_name u,
      ts_synced_name = ak_synced_name k, ts_profile = effective_id d u,
      ts_error = ak_sync_error k, ts_failed_at = ak_failed_at k\<rparr>"

definition pending_row :: "time \<Rightarrow> database \<Rightarrow> api_key \<Rightarrow> sync_target list" where
  "pending_row now d k =
     (case find (\<lambda>u. us_id u = ak_user k) (users d) of
        None \<Rightarrow> []
      | Some u \<Rightarrow> if is_pending now d u k then [target_of d u k] else [])"

definition pending_targets :: "time \<Rightarrow> database \<Rightarrow> sync_target list" where
  "pending_targets now d = concat (map (pending_row now d) (api_keys d))"

text \<open>\<open>ORDER BY sync_failed_at IS NOT NULL, sync_failed_at, key_id\<close>.\<close>

definition sync_order :: "sync_target \<Rightarrow> nat \<times> time \<times> int" where
  "sync_order t = (case ts_failed_at t of None \<Rightarrow> (0, 0, ts_key t) | Some f \<Rightarrow> (1, f, ts_key t))"

definition not_failed_since :: "time \<Rightarrow> sync_target \<Rightarrow> bool" where
  "not_failed_since t x = (case ts_failed_at x of None \<Rightarrow> True | Some f \<Rightarrow> f < t)"

definition pending_limit_syncs :: "time \<Rightarrow> time \<Rightarrow> nat \<Rightarrow> database \<Rightarrow> sync_target list" where
  "pending_limit_syncs now since limit d =
     take limit (sort_key sync_order (filter (not_failed_since since) (pending_targets now d)))"

section \<open>Recording a push\<close>

definition mark_limits_synced :: "int \<Rightarrow> int \<Rightarrow> int \<Rightarrow> string \<Rightarrow> string \<Rightarrow> unit tx" where
  "mark_limits_synced i pid r name email d =
     Inr ((), d\<lparr>api_keys := update_where (\<lambda>k. ak_id k = i)
       (\<lambda>k. k\<lparr>ak_synced_profile := Some pid, ak_synced_rev := Some r, ak_synced_name := Some name,
              ak_synced_email := Some email, ak_sync_error := [], ak_failed_at := None\<rparr>) (api_keys d)\<rparr>)"

definition mark_limit_sync_failed :: "int \<Rightarrow> string \<Rightarrow> time \<Rightarrow> unit tx" where
  "mark_limit_sync_failed i reason t d =
     Inr ((), d\<lparr>api_keys := update_where (\<lambda>k. ak_id k = i)
       (\<lambda>k. k\<lparr>ak_sync_error := reason, ak_failed_at := Some t\<rparr>) (api_keys d)\<rparr>)"

definition mark_all_limits_pending :: "nat tx" where
  "mark_all_limits_pending d =
     Inr (length (api_keys d), d\<lparr>api_keys := update_where (\<lambda>k. True) (\<lambda>k. k\<lparr>ak_synced_rev := None\<rparr>) (api_keys d)\<rparr>)"

section \<open>Status\<close>

record sync_failure =
  sf_prefix :: string
  sf_email :: string
  sf_error :: string
  sf_failed_at :: time

record sync_status =
  st_pending :: nat
  st_failed :: nat
  st_by_profile :: "(int \<times> nat) list"
  st_failures :: "sync_failure list"

definition max_listed_failures :: nat where "max_listed_failures = 20"

text \<open>One row per effective profile (\<open>GROUP BY profile_id\<close>): the pending keys and the failed ones.\<close>

definition profile_groups :: "sync_target list \<Rightarrow> (int option \<times> nat \<times> nat) list" where
  "profile_groups ts =
     map (\<lambda>g. (g, count_where (\<lambda>t. ts_profile t = g) ts,
                  count_where (\<lambda>t. ts_profile t = g \<and> ts_failed_at t \<noteq> None) ts))
       (remdups (map ts_profile ts))"

definition failure_rows :: "sync_target list \<Rightarrow> sync_failure list" where
  "failure_rows ts =
     take max_listed_failures
       (map (\<lambda>t. \<lparr>sf_prefix = ts_prefix t, sf_email = ts_email t, sf_error = ts_error t,
                  sf_failed_at = the_default 0 (ts_failed_at t)\<rparr>)
         (sort_key (\<lambda>t. (- the_default 0 (ts_failed_at t), ts_key t))
           (filter (\<lambda>t. ts_failed_at t \<noteq> None) ts)))"

text \<open>\<open>GetLimitSyncStatus\<close>; its two queries read the clock one after the other.\<close>

definition get_limit_sync_status :: "time \<Rightarrow> time \<Rightarrow> database \<Rightarrow> sync_status" where
  "get_limit_sync_status now1 now2 d =
     (let gs = profile_groups (pending_targets now1 d);
          failed = sum_list (map (\<lambda>(_, _, f). f) gs)
      in \<lparr>st_pending = sum_list (map (\<lambda>(_, n, _). n) gs),
          st_failed = failed,
          st_by_profile = concat (map (\<lambda>(g, n, _). case g of None \<Rightarrow> [] | Some i \<Rightarrow> [(i, n)]) gs),
          st_failures = (if failed > 0 then failure_rows (pending_targets now2 d) else [])\<rparr>)"

section \<open>Lemmas\<close>

lemma sync_marks_inv [inv_step]:
  assumes "schema_inv d"
  shows "mark_limits_synced i pid rv name email d = Inr (u, d') \<Longrightarrow> schema_inv d'"
    and "mark_limit_sync_failed i reason t d = Inr (u, d') \<Longrightarrow> schema_inv d'"
    and "mark_all_limits_pending d = Inr (n, d') \<Longrightarrow> schema_inv d'"
  using schema_inv_update_keys [OF assms]
  by (auto simp: mark_limits_synced_def mark_limit_sync_failed_def mark_all_limits_pending_def)

end
