(* ===== verification/DbRest.thy ===== *)
theory DbRest
  imports DbLimitSync
begin

text \<open>
  The remaining methods of \<open>internal/database/db.go\<close>: login sessions and expiry notices.
\<close>

section \<open>Sessions\<close>

definition create_session :: "time \<Rightarrow> int \<Rightarrow> string \<Rightarrow> string \<Rightarrow> time \<Rightarrow> unit tx" where
  "create_session now uid token id_token expires d =
     (if uid \<notin> user_ids d then Inl ForeignKeyViolation
      else if token \<in> se_token ` set (sessions d) then Inl UniqueViolation
      else Inr ((), d\<lparr>sessions := sessions d @
             [\<lparr>se_id = next_session d, se_user = uid, se_token = token, se_id_token = id_token,
               se_expires = expires, se_created = now\<rparr>], next_session := next_session d + 1\<rparr>))"

definition get_session_by_token :: "string \<Rightarrow> database \<Rightarrow> db_error + session_row" where
  "get_session_by_token token d =
     (case find (\<lambda>s. se_token s = token) (sessions d) of None \<Rightarrow> Inl NoRows | Some s \<Rightarrow> Inr s)"

definition delete_session :: "int \<Rightarrow> unit tx" where
  "delete_session i d = Inr ((), d\<lparr>sessions := delete_where (\<lambda>s. se_id s = i) (sessions d)\<rparr>)"

definition delete_sessions_by_sub :: "string \<Rightarrow> unit tx" where
  "delete_sessions_by_sub sub d =
     (let ids = us_id ` set (filter (\<lambda>u. us_sub u = sub) (users d))
      in Inr ((), d\<lparr>sessions := delete_where (\<lambda>s. se_user s \<in> ids) (sessions d)\<rparr>))"

definition delete_expired_sessions :: "time \<Rightarrow> unit tx" where
  "delete_expired_sessions now d =
     Inr ((), d\<lparr>sessions := delete_where (\<lambda>s. se_expires s < now) (sessions d)\<rparr>)"

definition get_session_id_token :: "int \<Rightarrow> database \<Rightarrow> db_error + string" where
  "get_session_id_token i d =
     (case find (\<lambda>s. se_id s = i) (sessions d) of None \<Rightarrow> Inl NoRows | Some s \<Rightarrow> Inr (se_id_token s))"

section \<open>Expiry notices\<close>

text \<open>\<open>KeysExpiringWithin\<close>: \<open>now1\<close> is the clock the cutoff is computed from, \<open>now2\<close> the lower bound.\<close>

definition keys_expiring_within :: "time \<Rightarrow> time \<Rightarrow> int \<Rightarrow> database \<Rightarrow> (api_key \<times> string \<times> string) list" where
  "keys_expiring_within now1 now2 days d =
     concat (map (\<lambda>k. case find (\<lambda>u. us_id u = ak_user k) (users d) of
         None \<Rightarrow> []
       | Some u \<Rightarrow>
           if ak_expires k \<le> add_days now1 days \<and> ak_expires k > now2 \<and> ak_missing k = None
              \<and> \<not> list_ex (\<lambda>n. en_key n = ak_id k \<and> en_days n = days) (notices d)
           then [(k, us_email u, us_name u)] else [])
       (api_keys d))"

definition mark_expiry_notice_sent :: "time \<Rightarrow> int \<Rightarrow> int \<Rightarrow> unit tx" where
  "mark_expiry_notice_sent now key days d =
     (if key \<notin> key_ids d then Inl ForeignKeyViolation
      else if (key, days) \<in> (\<lambda>n. (en_key n, en_days n)) ` set (notices d) then Inl UniqueViolation
      else Inr ((), d\<lparr>notices := notices d @
             [\<lparr>en_id = next_notice d, en_key = key, en_days = days, en_sent = now\<rparr>],
             next_notice := next_notice d + 1\<rparr>))"

section \<open>The constraints stay\<close>

lemma sessions_ok_delete: "sessions_ok ss n A \<Longrightarrow> sessions_ok (delete_where P ss) n A"
  by (simp add: sessions_ok_def ids_below_delete uniq_on_delete_where image_delete_subset)

lemma schema_inv_delete_sessions:
  "schema_inv d \<Longrightarrow> schema_inv (d\<lparr>sessions := delete_where P (sessions d)\<rparr>)"
  by (simp add: schema_inv_def sessions_ok_delete)

lemma create_session_inv [inv_step]:
  assumes "create_session now uid token idt ex d = Inr (r, d')" and "schema_inv d"
  shows "schema_inv d'"
proof -
  let ?s = "\<lparr>se_id = next_session d, se_user = uid, se_token = token, se_id_token = idt,
               se_expires = ex, se_created = now\<rparr>"
  have d': "d' = d\<lparr>sessions := sessions d @ [?s], next_session := next_session d + 1\<rparr>"
    and ref: "uid \<in> user_ids d" "token \<notin> se_token ` set (sessions d)"
    using assms(1) by (auto simp: create_session_def split: if_splits)
  have "sessions_ok (sessions d @ [?s]) (next_session d + 1) (user_ids d)"
    using schema_invD(5) [OF assms(2)] ref by (simp add: sessions_ok_def ids_below_append)
  then show ?thesis using assms(2) unfolding d' by (simp add: schema_inv_def)
qed

lemma session_deletes_inv [inv_step]:
  assumes "schema_inv d"
  shows "delete_session i d = Inr (r, d') \<Longrightarrow> schema_inv d'"
    and "delete_sessions_by_sub sub d = Inr (r, d') \<Longrightarrow> schema_inv d'"
    and "delete_expired_sessions now d = Inr (r, d') \<Longrightarrow> schema_inv d'"
  using schema_inv_delete_sessions [OF assms]
  by (auto simp: delete_session_def delete_sessions_by_sub_def delete_expired_sessions_def Let_def)

lemma mark_expiry_notice_sent_inv [inv_step]:
  assumes "mark_expiry_notice_sent now key days d = Inr (r, d')" and "schema_inv d"
  shows "schema_inv d'"
proof -
  let ?n = "\<lparr>en_id = next_notice d, en_key = key, en_days = days, en_sent = now\<rparr>"
  have d': "d' = d\<lparr>notices := notices d @ [?n], next_notice := next_notice d + 1\<rparr>"
    and ref: "key \<in> key_ids d" "(key, days) \<notin> (\<lambda>n. (en_key n, en_days n)) ` set (notices d)"
    using assms(1) by (auto simp: mark_expiry_notice_sent_def split: if_splits)
  have "notices_ok (notices d @ [?n]) (next_notice d + 1) (key_ids d)"
    using schema_invD(7) [OF assms(2)] ref by (simp add: notices_ok_def ids_below_append)
  then show ?thesis using assms(2) unfolding d' by (simp add: schema_inv_def)
qed

end
