(* ===== verification/DbInvariant.thy ===== *)
theory DbInvariant
  imports DbRest
begin

text \<open>
  Every write of the store as one step of the database (\<open>db_step\<close>), the databases a running portal
  can have (\<open>db_reachable\<close>), and what holds of all of them: the schema's constraints, exactly one
  default profile, and an effective profile for every user.
\<close>

section \<open>Steps\<close>

inductive db_step :: "database \<Rightarrow> database \<Rightarrow> bool" where
  seed: "seed_default_profile now d = Inr (u, d') \<Longrightarrow> db_step d d'"
| create_profile: "create_profile now p qs d = Inr (r, d') \<Longrightarrow> db_step d d'"
| update_profile: "update_profile now p qs d = Inr (r, d') \<Longrightarrow> db_step d d'"
| delete_profile: "delete_profile i d = Inr (u, d') \<Longrightarrow> db_step d d'"
| insert_user: "insert_user x d = Inr (r, d') \<Longrightarrow> us_profile x = None \<Longrightarrow> db_step d d'"
| identity: "update_identity i email name now d = Inr (u, d') \<Longrightarrow> db_step d d'"
| assign: "set_user_profile now i p d = Inr (u, d') \<Longrightarrow> db_step d d'"
| assign_until: "set_user_profile_until now i p t a b d = Inr (u, d') \<Longrightarrow> db_step d d'"
| expiry: "apply_profile_expiry now i p d = Inr (u, d') \<Longrightarrow> db_step d d'"
| admin: "set_user_admin now i a d = Inr (u, d') \<Longrightarrow> db_step d d'"
| audit: "record_audit now e d = Inr (u, d') \<Longrightarrow> db_step d d'"
| create_key: "create_api_key now k d = Inr (k', d') \<Longrightarrow> db_step d d'"
| replace_key: "replace_api_key now k d = Inr (k', d') \<Longrightarrow> db_step d d'"
| extend_key: "update_api_key_expiry i t d = Inr (u, d') \<Longrightarrow> db_step d d'"
| delete_key: "delete_api_key i d = Inr (u, d') \<Longrightarrow> db_step d d'"
| mark_missing: "mark_key_missing now now2 i ow em de d = Inr (b, d') \<Longrightarrow> db_step d d'"
| clear_missing: "clear_key_missing now i ow em de d = Inr (b, d') \<Longrightarrow> db_step d d'"
| remove_missing: "remove_missing_key now i ow em de bef d = Inr (b, d') \<Longrightarrow> db_step d d'"
| synced: "mark_limits_synced i pid r name email d = Inr (u, d') \<Longrightarrow> db_step d d'"
| sync_failed: "mark_limit_sync_failed i reason t d = Inr (u, d') \<Longrightarrow> db_step d d'"
| all_pending: "mark_all_limits_pending d = Inr (n, d') \<Longrightarrow> db_step d d'"
| create_session: "create_session now i tok idt t d = Inr (u, d') \<Longrightarrow> db_step d d'"
| delete_session: "delete_session i d = Inr (u, d') \<Longrightarrow> db_step d d'"
| delete_by_sub: "delete_sessions_by_sub sub d = Inr (u, d') \<Longrightarrow> db_step d d'"
| delete_expired: "delete_expired_sessions now d = Inr (u, d') \<Longrightarrow> db_step d d'"
| notice: "mark_expiry_notice_sent now i days d = Inr (u, d') \<Longrightarrow> db_step d d'"

text \<open>A portal starts by seeding the default profile of an empty database.\<close>

inductive db_reachable :: "database \<Rightarrow> bool" where
  start: "seed_default_profile now empty_db = Inr (u, d) \<Longrightarrow> db_reachable d"
| step: "db_reachable d \<Longrightarrow> db_step d d' \<Longrightarrow> db_reachable d'"

section \<open>Invariants\<close>

lemma db_step_inv:
  assumes "db_step d d'" and "schema_inv d"
  shows "schema_inv d'"
  using assms by (induction rule: db_step.induct) (rule inv_step; assumption)+

text \<open>Only the profile methods touch the profiles.\<close>

lemma insert_audit_profiles [simp]: "insert_audit e d = Inr (u, d') \<Longrightarrow> profiles d' = profiles d"
  by (simp add: insert_audit_def) (metis add_audit_simps(1))

lemma insert_key_profiles [simp]: "insert_key k d = Inr (r, d') \<Longrightarrow> profiles d' = profiles d"
  by (auto simp: insert_key_def Let_def split: if_splits)

lemma delete_keys_profiles [simp]: "profiles (delete_keys P d) = profiles d"
  by (simp add: delete_keys_def Let_def)

lemma assign_users_profiles [simp]: "assign_users i p f d = Inr (u, d') \<Longrightarrow> profiles d' = profiles d"
  by (drule assign_users_cases(1)) simp

lemma missing_profiles:
  "mark_key_missing now now2 i ow em de d = Inr (b, d') \<Longrightarrow> profiles d' = profiles d"
  "clear_key_missing now i ow em de d = Inr (b, d') \<Longrightarrow> profiles d' = profiles d"
  "remove_missing_key now i ow em de bef d = Inr (b, d') \<Longrightarrow> profiles d' = profiles d"
  by (erule mark_key_missing_cases clear_key_missing_cases remove_missing_key_cases; auto)+

lemma user_writes_profiles:
  "insert_user x d = Inr (r, d') \<Longrightarrow> profiles d' = profiles d"
  "update_identity i email name now d = Inr (u, d') \<Longrightarrow> profiles d' = profiles d"
  "set_user_admin now i a d = Inr (u, d') \<Longrightarrow> profiles d' = profiles d"
  by (auto simp: insert_user_def update_identity_def set_user_admin_def Let_def split: if_splits)

lemma assignment_profiles:
  "set_user_profile now i p d = Inr (u, d') \<Longrightarrow> profiles d' = profiles d"
  "set_user_profile_until now i p t a b d = Inr (u, d') \<Longrightarrow> profiles d' = profiles d"
  "apply_profile_expiry now i p d = Inr (u, d') \<Longrightarrow> profiles d' = profiles d"
  "record_audit now e d = Inr (u, d') \<Longrightarrow> profiles d' = profiles d"
  by (auto simp: set_user_profile_def set_user_profile_until_def apply_profile_expiry_def
      record_audit_def Let_def dest!: assign_users_profiles insert_audit_profiles)

lemma key_writes_profiles:
  "create_api_key now k d = Inr (k', d') \<Longrightarrow> profiles d' = profiles d"
  "replace_api_key now k d = Inr (k', d') \<Longrightarrow> profiles d' = profiles d"
  "update_api_key_expiry i t d = Inr (u, d') \<Longrightarrow> profiles d' = profiles d"
  "delete_api_key i d = Inr (u, d') \<Longrightarrow> profiles d' = profiles d"
  by (auto simp: create_api_key_def replace_api_key_def update_api_key_expiry_def delete_api_key_def
      dest!: insert_key_profiles)

lemma sync_writes_profiles:
  "mark_limits_synced i pid rv name email d = Inr (u, d') \<Longrightarrow> profiles d' = profiles d"
  "mark_limit_sync_failed i reason t d = Inr (u, d') \<Longrightarrow> profiles d' = profiles d"
  "mark_all_limits_pending d = Inr (n, d') \<Longrightarrow> profiles d' = profiles d"
  by (auto simp: mark_limits_synced_def mark_limit_sync_failed_def mark_all_limits_pending_def)

lemma session_writes_profiles:
  "create_session now i tok idt t d = Inr (u, d') \<Longrightarrow> profiles d' = profiles d"
  "delete_session i d = Inr (u, d') \<Longrightarrow> profiles d' = profiles d"
  "delete_sessions_by_sub sub d = Inr (u, d') \<Longrightarrow> profiles d' = profiles d"
  "delete_expired_sessions now d = Inr (u, d') \<Longrightarrow> profiles d' = profiles d"
  "mark_expiry_notice_sent now i days d = Inr (u, d') \<Longrightarrow> profiles d' = profiles d"
  by (auto simp: create_session_def delete_session_def delete_sessions_by_sub_def
      delete_expired_sessions_def mark_expiry_notice_sent_def Let_def split: if_splits)

lemmas other_writes_profiles = missing_profiles user_writes_profiles key_writes_profiles
  assignment_profiles sync_writes_profiles session_writes_profiles

lemma default_frame:
  "profiles d' = profiles d \<Longrightarrow> has_default (profiles d) \<Longrightarrow> has_default (profiles d')"
  by simp

lemma db_step_default:
  assumes "db_step d d'" and "schema_inv d" and "has_default (profiles d)"
  shows "has_default (profiles d')"
  using assms(1)
  apply (cases rule: db_step.cases)
  apply (rule seed_default_profile_default, assumption)
  apply (erule create_profile_default [OF _ assms(2,3)])
  apply (erule update_profile_default [OF _ assms(2,3)])
  apply (erule delete_profile_default [OF _ assms(3)])
  apply (rule default_frame [OF _ assms(3)], erule other_writes_profiles)+
  done

lemma reachable_inv:
  assumes "db_reachable d"
  shows "schema_inv d \<and> has_default (profiles d)"
  using assms
proof (induction rule: db_reachable.induct)
  case (start now u d)
  then show ?case
    using seed_default_profile_inv [OF start schema_inv_empty] seed_default_profile_default by blast
next
  case (step d d')
  then show ?case using db_step_inv db_step_default by blast
qed

section \<open>Effective profiles\<close>

lemma default_id_find:
  assumes "profiles_ok (profiles d) n" and "has_default (profiles d)"
  shows "\<exists>p \<in> set (profiles d). pf_default p \<and> default_id d = Some (pf_id p)"
proof -
  let ?ds = "sort_key pf_id (filter pf_default (profiles d))"
  have "set ?ds = {p \<in> set (profiles d). pf_default p}" by simp
  moreover then obtain p rest where "?ds = p # rest"
    using assms(2) by (cases ?ds) (auto simp: has_default_def)
  ultimately show ?thesis by (auto simp: default_id_def)
qed

lemma effective_profile_total:
  assumes "schema_inv d" and "has_default (profiles d)" and "u \<in> set (users d)"
  shows "\<exists>p \<in> set (profiles d). effective_profile d u = Some p \<and> effective_id d u = Some (pf_id p)"
proof -
  have ok: "profiles_ok (profiles d) (next_profile d)" and us: "users_ok (users d) (next_user d) (profile_ids d)"
    using assms(1) by (simp_all add: schema_invD)
  obtain p where p: "p \<in> set (profiles d)" "effective_id d u = Some (pf_id p)"
  proof (cases "us_profile u")
    case None
    then show ?thesis using that default_id_find [OF ok assms(2)] by (auto simp: effective_id_def)
  next
    case (Some i)
    then have "i \<in> profile_ids d" using us assms(3) by (simp add: users_ok_def)
    then obtain p where "p \<in> set (profiles d)" "i = pf_id p" by (rule imageE)
    then show ?thesis using that Some by (simp add: effective_id_def)
  qed
  then have "find (\<lambda>q. pf_id q = pf_id p) (profiles d) = Some p"
    using profiles_okD(1) [OF ok] by (intro find_uniq) simp_all
  then have "effective_profile d u = Some p" by (simp add: effective_profile_def p(2))
  with p show ?thesis by blast
qed

section \<open>Properties\<close>

text \<open>
  C9.  In every database that the store's methods can produce from a seeded one, the constraints of the
  schema hold (unique ids, names, subjects, keys per user and notices; foreign keys that resolve) and
  there is exactly one default profile.
\<close>

theorem reachable_databases:
  assumes "db_reachable d"
  shows "schema_inv d \<and> default_count d = 1"
  using reachable_inv [OF assms] schema_invD(1) default_count_1 by blast

lemma seeded_reachable: "db_reachable (snd (projr (seed_default_profile 7 empty_db)))"
proof -
  have "seed_default_profile 7 empty_db = Inr ((), snd (projr (seed_default_profile 7 empty_db)))"
    by (simp add: seed_default_profile_def empty_db_def insert_profile_def Let_def)
  then show ?thesis by (rule db_reachable.start)
qed

lemma reachable_databases_witness:
  "schema_inv (snd (projr (seed_default_profile 7 empty_db)))
   \<and> default_count (snd (projr (seed_default_profile 7 empty_db))) = 1"
  by (rule reachable_databases [OF seeded_reachable])

text \<open>
  Every user of a reachable database has an effective profile: the assigned one, which exists, or
  the default.  The sync never finds a key whose owner has none.
\<close>

theorem everyone_has_a_profile:
  assumes "db_reachable d" and "u \<in> set (users d)"
  shows "\<exists>p \<in> set (profiles d). effective_profile d u = Some p \<and> effective_id d u = Some (pf_id p)
    \<and> (us_profile u = None \<longrightarrow> pf_default p)"
proof -
  have inv: "schema_inv d" "has_default (profiles d)" using reachable_inv [OF assms(1)] by simp_all
  from effective_profile_total [OF this assms(2)] obtain p
    where p: "p \<in> set (profiles d)" "effective_profile d u = Some p" "effective_id d u = Some (pf_id p)"
    by (elim bexE conjE)
  have dflt: "pf_default p" if none: "us_profile u = None"
  proof -
    have ok: "profiles_ok (profiles d) (next_profile d)" using inv(1) by (rule schema_invD)
    obtain q where q: "q \<in> set (profiles d)" "pf_default q" "default_id d = Some (pf_id q)"
      using default_id_find [OF ok inv(2)] by (elim bexE conjE)
    then have "pf_id q = pf_id p" using p(3) none by (simp add: effective_id_def)
    then have "q = p" using uniq_on_inj [OF profiles_okD(1) [OF ok] q(1) p(1)] by simp
    then show ?thesis using q(2) by simp
  qed
  show ?thesis by (rule bexI [OF _ p(1)]) (use p dflt in simp)
qed

definition witness_user :: user where
  "witness_user = \<lparr>us_id = 0, us_sub = ''s'', us_email = ''e'', us_name = ''n'', us_profile = None,
     us_expires = None, us_after = None, us_revoke = False, us_admin = False, us_created = 0, us_updated = 0\<rparr>"

definition witness_db :: database where
  "witness_db = snd (projr (insert_user witness_user (snd (projr (seed_default_profile 7 empty_db)))))"

lemma witness_db_reachable: "db_reachable witness_db"
proof (rule db_reachable.step [OF seeded_reachable])
  have "insert_user witness_user (snd (projr (seed_default_profile 7 empty_db)))
      = Inr (fst (projr (insert_user witness_user (snd (projr (seed_default_profile 7 empty_db))))), witness_db)"
    by (simp add: witness_db_def insert_user_def seed_default_profile_def empty_db_def insert_profile_def Let_def)
  then show "db_step (snd (projr (seed_default_profile 7 empty_db))) witness_db"
    by (rule db_step.insert_user) (simp add: witness_user_def)
qed

lemma everyone_has_a_profile_witness:
  "\<exists>p \<in> set (profiles witness_db). effective_profile witness_db (witness_user\<lparr>us_id := 1\<rparr>) = Some p
    \<and> effective_id witness_db (witness_user\<lparr>us_id := 1\<rparr>) = Some (pf_id p) \<and> pf_default p"
proof -
  have "witness_user\<lparr>us_id := 1\<rparr> \<in> set (users witness_db)"
    by (simp add: witness_db_def insert_user_def seed_default_profile_def empty_db_def insert_profile_def Let_def)
  from everyone_has_a_profile [OF witness_db_reachable this] show ?thesis by (simp add: witness_user_def)
qed

text \<open>Rules whose premise does not determine the former database are not for later proofs.\<close>

declare insert_audit_profiles [simp del] insert_key_profiles [simp del] assign_users_profiles [simp del]

end
