(* ===== verification/Http.thy ===== *)
theory Http
  imports KeyProvider
begin

text \<open>
  What the handlers see of a request and leave of a response (\<open>net/http\<close>), the URL-safe base64 of
  \<open>encoding/base64\<close>, and two functions of \<open>internal/handlers\<close> that write responses.
\<close>

section \<open>Requests and responses\<close>

datatype form_error = BodyTooLarge | FormMalformed

text \<open>
  \<open>rq_form\<close> is what \<open>ParseForm\<close> collects, the body before the query; \<open>rq_form_error\<close> is its error.
  \<open>rq_length\<close> is the declared length, -1 without one; \<open>rq_id\<close> the id the request logger gave it.
\<close>

record request =
  rq_method :: string
  rq_path :: string
  rq_host :: string
  rq_remote :: string
  rq_id :: string
  rq_length :: int
  rq_query :: "(string \<times> string) list"
  rq_form :: "(string \<times> string) list"
  rq_form_error :: "form_error option"
  rq_cookies :: "(string \<times> string) list"
  rq_headers :: "(string \<times> string) list"

record cookie =
  ck_name :: string
  ck_value :: string
  ck_path :: string
  ck_max_age :: int
  ck_http_only :: bool
  ck_secure :: bool
  ck_lax :: bool

datatype 'p reply =
    Redirect string \<comment> \<open>302 to a location\<close>
  | HttpError nat string
  | Status nat
  | Page 'p

record 'p response =
  rs_cookies :: "cookie list"
  rs_headers :: "(string \<times> string) list"
  rs_reply :: "'p reply"

definition plain :: "'p reply \<Rightarrow> 'p response" where
  "plain r = \<lparr>rs_cookies = [], rs_headers = [], rs_reply = r\<rparr>"

definition header_of :: "request \<Rightarrow> string \<Rightarrow> string" where
  "header_of r h = the_default [] (map_of (rq_headers r) h)"

definition cookie_of :: "request \<Rightarrow> string \<Rightarrow> string option" where
  "cookie_of r c = map_of (rq_cookies r) c"

definition form_value :: "request \<Rightarrow> string \<Rightarrow> string" where
  "form_value r k = the_default [] (map_of (rq_form r) k)"

definition form_values :: "request \<Rightarrow> string \<Rightarrow> string list" where
  "form_values r k = map snd (filter (\<lambda>(n, _). n = k) (rq_form r))"

definition query_value :: "request \<Rightarrow> string \<Rightarrow> string" where
  "query_value r k = the_default [] (map_of (rq_query r) k)"

definition safe_method :: "string \<Rightarrow> bool" where
  "safe_method m \<longleftrightarrow> m \<in> {''GET'', ''HEAD'', ''OPTIONS'', ''TRACE''}"

text \<open>\<open>httpError\<close>: the message and the id of the request, never the error itself.\<close>

definition http_error :: "request \<Rightarrow> nat \<Rightarrow> string \<Rightarrow> 'p response" where
  "http_error r status msg =
     plain (HttpError status (if rq_id r \<noteq> [] then msg @ '' (request ID: '' @ rq_id r @ '')'' else msg))"

section \<open>Cross-origin requests\<close>

text \<open>
  \<open>http.CrossOriginProtection.Check\<close> without exempted origins or patterns.  \<open>url_host\<close> is the host of
  an absolute URL as \<open>url.Parse\<close> finds it, empty for a text without an authority such as ``null''.
\<close>

fun after_slashes :: "string \<Rightarrow> string" where
  "after_slashes (a # b # c # s) =
     (if a = CHR '':'' \<and> b = CHR ''/'' \<and> c = CHR ''/'' then s else after_slashes (b # c # s))"
| "after_slashes s = []"

definition url_host :: "string \<Rightarrow> string" where
  "url_host s =
     (let auth = takeWhile (\<lambda>c. c \<notin> {CHR ''/'', CHR ''?'', CHR ''#''}) (after_slashes s)
      in last (split_on (CHR ''@'') auth))"

definition cross_origin_ok :: "request \<Rightarrow> bool" where
  "cross_origin_ok r =
     (if rq_method r \<in> {''GET'', ''HEAD'', ''OPTIONS''} then True
      else let site = header_of r ''Sec-Fetch-Site'' in
        if site = [] then
          (let origin = header_of r ''Origin'' in origin = [] \<or> url_host origin = rq_host r)
        else site = ''same-origin'' \<or> site = ''none'')"

section \<open>Package encoding/base64\<close>

definition b64_digit :: "nat \<Rightarrow> char" where
  "b64_digit n =
     (if n < 26 then char_of (65 + n) else if n < 52 then char_of (71 + n)
      else if n < 62 then char_of (n - 4) else if n = 62 then CHR ''-'' else CHR ''_'')"

text \<open>\<open>RawURLEncoding.EncodeToString\<close>: three bytes give four digits, the rest as many as needed.\<close>

fun b64_url :: "string \<Rightarrow> string" where
  "b64_url (a # b # c # s) =
     (let x = of_char a :: nat; y = of_char b :: nat; z = of_char c :: nat
      in b64_digit (x div 4) # b64_digit (x mod 4 * 16 + y div 16) # b64_digit (y mod 16 * 4 + z div 64)
         # b64_digit (z mod 64) # b64_url s)"
| "b64_url [a, b] =
     (let x = of_char a :: nat; y = of_char b :: nat
      in [b64_digit (x div 4), b64_digit (x mod 4 * 16 + y div 16), b64_digit (y mod 16 * 4)])"
| "b64_url [a] = (let x = of_char a :: nat in [b64_digit (x div 4), b64_digit (x mod 4 * 16)])"
| "b64_url [] = []"

fun b64_value :: "char \<Rightarrow> nat" where
  "b64_value c =
     (let n = of_char c :: nat
      in if 65 \<le> n \<and> n \<le> 90 then n - 65
         else if 97 \<le> n \<and> n \<le> 122 then n - 71
         else if 48 \<le> n \<and> n \<le> 57 then n + 4
         else if n = 45 then 62 else 63)"

text \<open>The decoder, for the round trip.\<close>

fun b64_decode :: "string \<Rightarrow> string" where
  "b64_decode (p # q # r # t # s) =
     (let i = b64_value p; j = b64_value q; k = b64_value r; l = b64_value t
      in char_of (i * 4 + j div 16) # char_of (j mod 16 * 16 + k div 4) # char_of (k mod 4 * 64 + l)
         # b64_decode s)"
| "b64_decode [p, q, r] =
     (let i = b64_value p; j = b64_value q; k = b64_value r
      in [char_of (i * 4 + j div 16), char_of (j mod 16 * 16 + k div 4)])"
| "b64_decode [p, q] = (let i = b64_value p; j = b64_value q in [char_of (i * 4 + j div 16)])"
| "b64_decode s = []"

lemma b64_value_digit [simp]: "n < 64 \<Longrightarrow> b64_value (b64_digit n) = n"
  by (auto simp: b64_digit_def Let_def)

lemma char_div [simp]: "(of_char (c :: char) :: nat) div 4 < 64" "(of_char c :: nat) div 16 < 16"
    "(of_char c :: nat) div 64 < 4"
  by (rule less_mult_imp_div_less, simp)+

lemma unpack [simp]:
  fixes q k m :: nat
  assumes "q < k"
  shows "(m * k + q) div k = m" "(m * k + q) mod k = q"
  using assms by simp_all

lemma b64_bounds [simp]:
  fixes x y :: nat
  shows "y < 16 \<Longrightarrow> x mod 4 * 16 + y < 64" "y < 4 \<Longrightarrow> x mod 16 * 4 + y < 64" "x mod 64 < 64"
    "x mod 4 * 16 < 64" "x mod 16 * 4 < 64"
proof -
  have "x mod 4 < 4" "x mod 16 < 16" by simp_all
  then show "y < 16 \<Longrightarrow> x mod 4 * 16 + y < 64" "y < 4 \<Longrightarrow> x mod 16 * 4 + y < 64" "x mod 64 < 64"
    "x mod 4 * 16 < 64" "x mod 16 * 4 < 64" by simp_all
qed

lemma b64_decode_encode: "b64_decode (b64_url s) = s"
proof (induction s rule: b64_url.induct)
  case (1 a b c s)
  then show ?case
    by (simp add: Let_def del: b64_value.simps mult.commute)
next
  case (2 a b)
  show ?case by (simp add: Let_def del: b64_value.simps)
next
  case (3 a)
  show ?case by (simp add: Let_def del: b64_value.simps)
qed simp

lemma b64_url_inj: "b64_url a = b64_url b \<Longrightarrow> a = b"
  by (metis b64_decode_encode)

lemma b64_url_nonempty [simp]: "b64_url s = [] \<longleftrightarrow> s = []"
  by (cases s rule: b64_url.cases) (simp_all add: Let_def)

end
