(* ===== verification/NetIp.thy ===== *)
theory NetIp
  imports Http
begin

text \<open>
  The part of \<open>net/netip\<close> and \<open>net\<close> that the configuration and the request log use: IP addresses and
  prefixes as their width and value, their parsers, and host and port of an address; and
  \<open>internal/handlers/clientip.go\<close>, which asks whether a peer is a trusted proxy.
\<close>

section \<open>Addresses\<close>

text \<open>\<open>ip_bits\<close> is 32 or 128.\<close>

record ip_addr =
  ip_bits :: nat
  ip_value :: int
  ip_zone :: string

record ip_prefix =
  px_addr :: ip_addr
  px_len :: nat

text \<open>A decimal number below 256 without leading zeros, and a hexadecimal group of at most four digits.\<close>

definition parse_octet :: "string \<Rightarrow> int option" where
  "parse_octet s =
     (case parse_nat s of
        None \<Rightarrow> None
      | Some n \<Rightarrow> if length s \<le> 3 \<and> int n \<le> 255 \<and> (length s = 1 \<or> hd s \<noteq> CHR ''0'') then Some (int n) else None)"

definition parse_v4 :: "string \<Rightarrow> int option" where
  "parse_v4 s =
     (case map parse_octet (split_on (CHR ''.'') s) of
        [Some a, Some b, Some c, Some d] \<Rightarrow> Some (((a * 256 + b) * 256 + c) * 256 + d)
      | _ \<Rightarrow> None)"

definition hex_val :: "char \<Rightarrow> int option" where
  "hex_val c =
     (let n = of_char c :: int
      in if 48 \<le> n \<and> n \<le> 57 then Some (n - 48)
         else if 97 \<le> n \<and> n \<le> 102 then Some (n - 87)
         else if 65 \<le> n \<and> n \<le> 70 then Some (n - 55) else None)"

fun hex_number :: "int \<Rightarrow> string \<Rightarrow> int option" where
  "hex_number acc [] = Some acc"
| "hex_number acc (c # cs) =
     (case hex_val c of None \<Rightarrow> None | Some v \<Rightarrow> hex_number (16 * acc + v) cs)"

definition parse_group :: "string \<Rightarrow> int option" where
  "parse_group s = (if s = [] \<or> length s > 4 then None else hex_number 0 s)"

text \<open>A colon-separated list of groups, the last of which may be an IPv4 address.\<close>

fun parse_groups :: "string list \<Rightarrow> int list option" where
  "parse_groups [] = Some []"
| "parse_groups [s] =
     (if CHR ''.'' \<in> set s
      then (case parse_v4 s of None \<Rightarrow> None | Some v \<Rightarrow> Some [v div 65536, v mod 65536])
      else (case parse_group s of None \<Rightarrow> None | Some g \<Rightarrow> Some [g]))"
| "parse_groups (s # ss) =
     (case parse_group s of
        None \<Rightarrow> None
      | Some g \<Rightarrow> (case parse_groups ss of None \<Rightarrow> None | Some gs \<Rightarrow> Some (g # gs)))"

definition groups_of :: "string \<Rightarrow> int list option" where
  "groups_of s = (if s = [] then Some [] else parse_groups (split_on (CHR '':'') s))"

text \<open>The parts before and after the first double colon.\<close>

fun cut_gap :: "string \<Rightarrow> string \<Rightarrow> (string \<times> string) option" where
  "cut_gap acc (a # b # s) =
     (if a = CHR '':'' \<and> b = CHR '':'' then Some (rev acc, s) else cut_gap (a # acc) (b # s))"
| "cut_gap acc s = None"

definition value_of_groups :: "int list \<Rightarrow> int" where
  "value_of_groups gs = foldl (\<lambda>a g. a * 65536 + g) 0 gs"

definition parse_v6 :: "string \<Rightarrow> int option" where
  "parse_v6 s =
     (case cut_gap [] s of
        None \<Rightarrow>
          (case groups_of s of
             Some gs \<Rightarrow> if length gs = 8 then Some (value_of_groups gs) else None
           | None \<Rightarrow> None)
      | Some (l, r) \<Rightarrow>
          (case (groups_of l, groups_of r) of
             (Some ls, Some rs) \<Rightarrow>
               if CHR ''.'' \<notin> set l \<and> length ls + length rs < 8
               then Some (value_of_groups (ls @ replicate (8 - length ls - length rs) 0 @ rs)) else None
           | _ \<Rightarrow> None))"

text \<open>\<open>netip.ParseAddr\<close>: the first of dot, colon and percent sign decides.\<close>

definition parse_addr :: "string \<Rightarrow> ip_addr option" where
  "parse_addr s =
     (case dropWhile (\<lambda>c. c \<notin> {CHR ''.'', CHR '':'', CHR ''%''}) s of
        [] \<Rightarrow> None
      | c # _ \<Rightarrow>
          if c = CHR ''.'' then map_option (\<lambda>v. \<lparr>ip_bits = 32, ip_value = v, ip_zone = []\<rparr>) (parse_v4 s)
          else if c = CHR ''%'' then None
          else (case cut_at (CHR ''%'') s of
                  None \<Rightarrow> map_option (\<lambda>v. \<lparr>ip_bits = 128, ip_value = v, ip_zone = []\<rparr>) (parse_v6 s)
                | Some (a, z) \<Rightarrow>
                    if z = [] then None
                    else map_option (\<lambda>v. \<lparr>ip_bits = 128, ip_value = v, ip_zone = z\<rparr>) (parse_v6 a)))"

text \<open>\<open>Unmap\<close>: an IPv4 address written as ::ffff:a.b.c.d.\<close>

definition unmap :: "ip_addr \<Rightarrow> ip_addr" where
  "unmap a =
     (if ip_bits a = 128 \<and> ip_value a div 4294967296 = 65535
      then \<lparr>ip_bits = 32, ip_value = ip_value a mod 4294967296, ip_zone = []\<rparr> else a)"

text \<open>\<open>netip.ParsePrefix\<close>: no zone, and a length without leading zeros that fits the address.\<close>

definition parse_prefix :: "string \<Rightarrow> ip_prefix option" where
  "parse_prefix s =
     (case split_on (CHR ''/'') s of
        [] \<Rightarrow> None
      | ps \<Rightarrow>
          if length ps < 2 then None
          else (case (parse_addr (join ''/'' (butlast ps)), parse_nat (last ps)) of
                  (Some a, Some n) \<Rightarrow>
                    if ip_zone a = [] \<and> (length (last ps) = 1 \<or> hd (last ps) \<noteq> CHR ''0'') \<and> n \<le> ip_bits a
                    then Some \<lparr>px_addr = a, px_len = n\<rparr> else None
                | _ \<Rightarrow> None))"

definition masked :: "ip_prefix \<Rightarrow> ip_prefix" where
  "masked p =
     (let a = px_addr p; k = 2 ^ (ip_bits a - px_len p)
      in p\<lparr>px_addr := a\<lparr>ip_value := ip_value a div k * k\<rparr>\<rparr>)"

text \<open>\<open>Prefix.Contains\<close>: never for an address with a zone or of the other family.\<close>

definition px_contains :: "ip_prefix \<Rightarrow> ip_addr \<Rightarrow> bool" where
  "px_contains p a \<longleftrightarrow> ip_zone a = [] \<and> ip_bits a = ip_bits (px_addr p)
     \<and> (let k = 2 ^ (ip_bits a - px_len p) in ip_value a div k = ip_value (px_addr p) div k)"

lemma px_contains_masked [simp]: "px_contains (masked p) a \<longleftrightarrow> px_contains p a"
  by (auto simp: px_contains_def masked_def Let_def)

section \<open>Host and port\<close>

text \<open>
  \<open>net.SplitHostPort\<close>: the host up to the last colon, without its brackets; brackets nowhere else.
\<close>

definition split_host_port :: "string \<Rightarrow> (string \<times> string) option" where
  "split_host_port s =
     (let ps = split_on (CHR '':'') s; port = last ps; host = join '':'' (butlast ps);
          clean = (\<lambda>t. CHR ''['' \<notin> set t \<and> CHR '']'' \<notin> set t)
      in if length ps < 2 then None
         else if s \<noteq> [] \<and> hd s = CHR ''['' then
           (if host \<noteq> [] \<and> last host = CHR '']'' \<and> length host \<ge> 2
               \<and> clean (butlast (tl host)) \<and> clean port
            then Some (butlast (tl host), port) else None)
         else if CHR '':'' \<in> set host \<or> \<not> clean s then None
         else Some (host, port))"

definition join_host_port :: "string \<Rightarrow> string \<Rightarrow> string" where
  "join_host_port host port =
     (if CHR '':'' \<in> set host then ''['' @ host @ '']:'' @ port else host @ '':'' @ port)"

section \<open>Trusted peers\<close>

text \<open>\<open>peerTrusted\<close>.\<close>

definition peer_trusted :: "string \<Rightarrow> ip_prefix list \<Rightarrow> bool" where
  "peer_trusted remote trusted =
     (let host = (case split_host_port remote of Some (h, _) \<Rightarrow> h | None \<Rightarrow> remote)
      in case parse_addr host of
           None \<Rightarrow> False
         | Some a \<Rightarrow> list_ex (\<lambda>p. px_contains p (unmap a)) trusted)"

text \<open>
  \<open>ClientIP\<close>: which of the router's two address middlewares, the one that reads X-Forwarded-For or the
  one that takes the peer's address, handles a request.
\<close>

datatype ip_source = FromForwardedFor "ip_prefix list" | FromPeer

definition client_ip :: "ip_prefix list \<Rightarrow> request \<Rightarrow> ip_source" where
  "client_ip trusted r =
     (if trusted = [] then FromPeer
      else if peer_trusted (rq_remote r) trusted then FromForwardedFor trusted
      else FromPeer)"

text \<open>\<open>healthcheckURL\<close> of \<open>cmd/server\<close>: the address the container's own probe asks.\<close>

definition unspecified_ip :: "string \<Rightarrow> bool" where
  "unspecified_ip host = (case parse_addr host of Some a \<Rightarrow> ip_zone a = [] \<and> ip_value (unmap a) = 0 | None \<Rightarrow> False)"

definition healthcheck_url :: "string \<Rightarrow> string option" where
  "healthcheck_url listen =
     (case split_host_port listen of
        None \<Rightarrow> None
      | Some (host, port) \<Rightarrow>
          (let host' = (if host = [] \<or> unspecified_ip host then ''127.0.0.1'' else host)
           in Some (''http://'' @ join_host_port host' port @ ''/healthz'')))"

lemma healthcheck_examples:
  "healthcheck_url '':8080'' = Some ''http://127.0.0.1:8080/healthz''"
  "healthcheck_url ''0.0.0.0:8080'' = Some ''http://127.0.0.1:8080/healthz''"
  "healthcheck_url ''[::]:8080'' = Some ''http://127.0.0.1:8080/healthz''"
  "healthcheck_url ''10.1.2.3:8080'' = Some ''http://10.1.2.3:8080/healthz''"
  "healthcheck_url ''localhost:8080'' = Some ''http://localhost:8080/healthz''"
  "healthcheck_url ''[::1]:8080'' = Some ''http://[::1]:8080/healthz''"
  "healthcheck_url ''8080'' = None"
  by code_simp+

definition ten_slash_8 :: ip_prefix where
  "ten_slash_8 = \<lparr>px_addr = \<lparr>ip_bits = 32, ip_value = 167772160, ip_zone = []\<rparr>, px_len = 8\<rparr>"

lemma peer_examples:
  "peer_trusted ''10.1.2.3:4000'' [ten_slash_8]"
  "\<not> peer_trusted ''11.1.2.3:4000'' [ten_slash_8]"
  "peer_trusted ''[::ffff:10.1.2.3]:4000'' [ten_slash_8]"
  by code_simp+

end
