(* ===== verification/Config.thy ===== *)
theory Config
  imports NetIp
begin

text \<open>
  \<open>internal/config/config.go\<close>: the configuration, how it is read from the environment, and the name of
  a person's user in the gateway.  The environment is a function from names to values, empty for a
  variable that is not set; \<open>files\<close> reads a file.  A missing required variable ends the process.
\<close>

section \<open>The configuration\<close>

record config =
  cf_base_url :: string
  cf_master_key :: string
  cf_user_prefix :: string
  cf_user_email :: bool
  cf_issuer :: string
  cf_client_id :: string
  cf_client_secret :: string
  cf_redirect_url :: string
  cf_extra_scopes :: "string list"
  cf_frontend :: string
  cf_admin_group :: string
  cf_admin_claim :: string
  cf_obsolete :: "(string \<times> string) list"
  cf_db_path :: string
  cf_smtp_host :: string
  cf_smtp_from :: string
  cf_smtp_user :: string
  cf_smtp_password :: string
  cf_metrics_token :: string
  cf_listen :: string
  cf_cookie_secure :: bool
  cf_session :: duration
  cf_key_days :: int
  cf_history_days :: int
  cf_successor :: string
  cf_unit :: string
  cf_notice_de :: string
  cf_notice_en :: string
  cf_workers :: int
  cf_sync_interval :: duration
  cf_missing_grace :: duration
  cf_proxies :: "ip_prefix list"

datatype config_error = MissingEnv string | InvalidSetting string

section \<open>Durations and booleans\<close>

text \<open>\<open>strconv.ParseBool\<close>.\<close>

definition parse_bool :: "string \<Rightarrow> bool option" where
  "parse_bool s =
     (if s \<in> {''1'', ''t'', ''T'', ''true'', ''TRUE'', ''True''} then Some True
      else if s \<in> {''0'', ''f'', ''F'', ''false'', ''FALSE'', ''False''} then Some False else None)"

definition unit_ns :: "string \<Rightarrow> int option" where
  "unit_ns u =
     (if u = ''ns'' then Some 1
      else if u = ''us'' \<or> u = [CHR 0xC2, CHR 0xB5, CHR ''s''] \<or> u = [CHR 0xCE, CHR 0xBC, CHR ''s''] then Some 1000
      else if u = ''ms'' then Some 1000000
      else if u = ''s'' then Some second
      else if u = ''m'' then Some minute
      else if u = ''h'' then Some hour else None)"

text \<open>
  \<open>time.ParseDuration\<close>: a sequence of decimal numbers with units.  The code scales a fraction in
  \<open>float64\<close> and truncates; the model truncates the exact product.
\<close>

definition next_duration :: "string \<Rightarrow> (int \<times> string) option" where
  "next_duration s =
     (let whole = takeWhile is_digit s; r1 = dropWhile is_digit s;
          dot = (r1 \<noteq> [] \<and> hd r1 = CHR ''.''); r2 = (if dot then tl r1 else r1);
          frac = (if dot then takeWhile is_digit r2 else []); r3 = (if dot then dropWhile is_digit r2 else r2);
          u = takeWhile (\<lambda>c. c \<noteq> CHR ''.'' \<and> \<not> is_digit c) r3
      in if (whole = [] \<and> frac = []) \<or> u = [] then None
         else case unit_ns u of
           None \<Rightarrow> None
         | Some k \<Rightarrow> Some (int (digits_val 0 whole) * k + int (digits_val 0 frac) * k div 10 ^ length frac,
                          drop (length u) r3))"

lemma next_duration_shorter:
  assumes "next_duration s = Some (v, r)"
  shows "length r < length s"
proof -
  define r1 where "r1 = dropWhile is_digit s"
  define r2 where "r2 = (if r1 \<noteq> [] \<and> hd r1 = CHR ''.'' then tl r1 else r1)"
  define r3 where "r3 = (if r1 \<noteq> [] \<and> hd r1 = CHR ''.'' then dropWhile is_digit r2 else r2)"
  define u where "u = takeWhile (\<lambda>c. c \<noteq> CHR ''.'' \<and> \<not> is_digit c) r3"
  have u: "u \<noteq> []" and r: "r = drop (length u) r3"
    using assms unfolding next_duration_def Let_def r1_def [symmetric] r2_def [symmetric] r3_def [symmetric]
      u_def [symmetric] by (auto split: if_splits option.splits)
  have "length r1 \<le> length s" unfolding r1_def by (rule length_dropWhile_le)
  moreover have "length r2 \<le> length r1" by (simp add: r2_def)
  moreover have "length r3 \<le> length r2" unfolding r3_def by (simp add: length_dropWhile_le)
  moreover have "length u \<le> length r3" unfolding u_def by (rule length_takeWhile_le)
  ultimately show ?thesis using u unfolding r by (cases u) auto
qed

function duration_parts :: "int \<Rightarrow> string \<Rightarrow> int option" where
  "duration_parts acc s =
     (if s = [] then Some acc
      else case next_duration s of
        None \<Rightarrow> None
      | Some (v, r) \<Rightarrow> if acc + v > max_int64 + 1 then None else duration_parts (acc + v) r)"
  by pat_completeness auto

termination
  by (relation "measure (length \<circ> snd)") (auto dest: next_duration_shorter)

declare duration_parts.simps [simp del]

definition parse_duration :: "string \<Rightarrow> duration option" where
  "parse_duration s =
     (let neg = (s \<noteq> [] \<and> hd s = CHR ''-'');
          t = (if s \<noteq> [] \<and> (hd s = CHR ''-'' \<or> hd s = CHR ''+'') then tl s else s)
      in if t = ''0'' then Some 0
         else if t = [] then None
         else case duration_parts 0 t of
                None \<Rightarrow> None
              | Some v \<Rightarrow> if neg then Some (- v) else if v > max_int64 then None else Some v)"

lemma parse_duration_examples:
  "parse_duration ''24h'' = Some day" "parse_duration ''1h30m'' = Some (90 * minute)"
  "parse_duration ''1.5s'' = Some 1500000000" "parse_duration ''5'' = None" "parse_duration [] = None"
  "parse_duration ''-2ms'' = Some (- 2000000)"
  by code_simp+

section \<open>Reading the environment\<close>

definition env_or :: "(string \<Rightarrow> string) \<Rightarrow> string \<Rightarrow> string \<Rightarrow> string" where
  "env_or env key dflt = (if env key \<noteq> [] then env key else dflt)"

definition db_path :: "(string \<Rightarrow> string) \<Rightarrow> string" where
  "db_path env = env_or env ''DB_PATH'' ''./data.db''"

definition listen_addr :: "(string \<Rightarrow> string) \<Rightarrow> string" where
  "listen_addr env = env_or env ''LISTEN_ADDR'' '':8080''"

definition admin_group_set :: "(string \<Rightarrow> string) \<Rightarrow> bool" where
  "admin_group_set env \<longleftrightarrow> trim_space (env ''ADMIN_GROUP'') \<noteq> []"

definition prefix_char :: "char \<Rightarrow> bool" where
  "prefix_char c \<longleftrightarrow> in_range CHR ''a'' CHR ''z'' c \<or> in_range CHR ''A'' CHR ''Z'' c
     \<or> in_range CHR ''0'' CHR ''9'' c \<or> c = CHR ''-'' \<or> c = CHR ''_'' \<or> c = CHR ''.''"

definition valid_user_id_prefix :: "string \<Rightarrow> bool" where
  "valid_user_id_prefix p = list_all prefix_char p"

definition required_settings :: "string list" where
  "required_settings = [''LITELLM_BASE_URL'', ''LITELLM_MASTER_KEY'', ''OIDC_ISSUER_URL'', ''OIDC_CLIENT_ID'',
     ''OIDC_CLIENT_SECRET'', ''OIDC_REDIRECT_URL'', ''FRONTEND_URL'']"

text \<open>\<open>requireEnv\<close>, in the order of the settings: the first one that is missing ends the process.\<close>

definition missing_setting :: "(string \<Rightarrow> string) \<Rightarrow> string option" where
  "missing_setting env = find (\<lambda>k. env k = []) required_settings"

definition admin_recorded_on_account :: string where
  "admin_recorded_on_account =
     ''admin rights are recorded on the account, see https://virtuos.github.io/keyosk/administrators/''"

definition obsolete_settings :: "(string \<times> string) list" where
  "obsolete_settings = [(''ADMIN_IDS'', admin_recorded_on_account), (''ADMIN_EMAILS'', admin_recorded_on_account),
     (''ADMIN_ROLE'', admin_recorded_on_account),
     (''COOKIE_SECURE'', ''cookies are secure when OIDC_REDIRECT_URL is https'')]"

definition fields :: "string \<Rightarrow> string list" where
  "fields s = filter (\<lambda>w. w \<noteq> []) (split_on (CHR '' '') (map (\<lambda>c. if is_space c then CHR '' '' else c) s))"

text \<open>
  Whether \<open>url.Parse\<close> accepts the redirect URL with the scheme https: the scheme is what precedes the
  first colon, in any case.  Of the errors of \<open>url.Parse\<close> that can follow such a scheme, the model has
  the one for control characters.
\<close>

definition https_url :: "string \<Rightarrow> bool" where
  "https_url u =
     (case cut_at (CHR '':'') u of
        None \<Rightarrow> False
      | Some (scheme, _) \<Rightarrow>
          to_lower scheme = ''https'' \<and> list_all (\<lambda>c. 32 \<le> (of_char c :: int) \<and> (of_char c :: int) \<noteq> 127) u)"

definition default_trusted_proxies :: "string list" where
  "default_trusted_proxies =
     [''127.0.0.0/8'', ''::1/128'', ''10.0.0.0/8'', ''172.16.0.0/12'', ''192.168.0.0/16'', ''fc00::/7'']"

text \<open>One entry: a prefix, or a single address without a zone as the prefix of its full length.\<close>

definition proxy_entry :: "string \<Rightarrow> ip_prefix option" where
  "proxy_entry e =
     (case parse_prefix e of
        Some p \<Rightarrow> Some p
      | None \<Rightarrow>
          (case parse_addr e of
             Some a \<Rightarrow> if ip_zone a = [] then Some \<lparr>px_addr = unmap a, px_len = ip_bits (unmap a)\<rparr> else None
           | None \<Rightarrow> None))"

fun proxy_entries :: "string list \<Rightarrow> config_error + ip_prefix list" where
  "proxy_entries [] = Inr []"
| "proxy_entries (e # es) =
     (let e' = trim_space e
      in if e' = [] then proxy_entries es
         else case proxy_entry e' of
           None \<Rightarrow> Inl (InvalidSetting ''TRUSTED_PROXIES must be a comma-separated list of CIDRs or IPs'')
         | Some p \<Rightarrow> (case proxy_entries es of Inl x \<Rightarrow> Inl x | Inr ps \<Rightarrow> Inr (masked p # ps)))"

definition parse_trusted_proxies :: "string \<Rightarrow> config_error + ip_prefix list" where
  "parse_trusted_proxies raw =
     (let raw' = trim_space raw
      in if equal_fold raw' ''none'' then Inr []
         else proxy_entries (if raw' = [] then default_trusted_proxies else split_on (CHR '','') raw'))"

definition read_notice :: "(string \<Rightarrow> string + string) \<Rightarrow> string \<Rightarrow> string + string" where
  "read_notice files path =
     (if path = [] then Inr []
      else case files path of
             Inl e \<Rightarrow> Inl e
           | Inr text \<Rightarrow> if trim_space text = [] then Inl (path @ '' is empty'') else Inr text)"

text \<open>A setting that has to be an integer of at least one, and a duration above zero.\<close>

definition positive_int :: "string \<Rightarrow> int option" where
  "positive_int s = (case parse_int64 s of Some n \<Rightarrow> if n < 1 then None else Some n | None \<Rightarrow> None)"

definition positive_duration :: "string \<Rightarrow> duration option" where
  "positive_duration s = (case parse_duration s of Some n \<Rightarrow> if n \<le> 0 then None else Some n | None \<Rightarrow> None)"

text \<open>A setting's value, or the error that names it.\<close>

definition setting :: "'a option \<Rightarrow> string \<Rightarrow> ('a \<Rightarrow> config_error + 'b) \<Rightarrow> config_error + 'b" where
  "setting v msg k = (case v of None \<Rightarrow> Inl (InvalidSetting msg) | Some a \<Rightarrow> k a)"

text \<open>The settings that are copied, before any is checked.\<close>

definition plain_settings :: "(string \<Rightarrow> string) \<Rightarrow> config" where
  "plain_settings env =
     \<lparr>cf_base_url = env ''LITELLM_BASE_URL'', cf_master_key = env ''LITELLM_MASTER_KEY'',
      cf_user_prefix = trim_space (env ''LITELLM_USER_ID_PREFIX''), cf_user_email = False,
      cf_issuer = env ''OIDC_ISSUER_URL'', cf_client_id = env ''OIDC_CLIENT_ID'',
      cf_client_secret = env ''OIDC_CLIENT_SECRET'', cf_redirect_url = env ''OIDC_REDIRECT_URL'',
      cf_extra_scopes = fields (env ''OIDC_EXTRA_SCOPES''), cf_frontend = env ''FRONTEND_URL'',
      cf_admin_group = trim_space (env ''ADMIN_GROUP''), cf_admin_claim = [],
      cf_obsolete = filter (\<lambda>(n, _). trim_space (env n) \<noteq> []) obsolete_settings,
      cf_db_path = db_path env, cf_smtp_host = env ''SMTP_HOST'',
      cf_smtp_from = env_or env ''SMTP_FROM'' ''noreply@example.com'', cf_smtp_user = env ''SMTP_USERNAME'',
      cf_smtp_password = env ''SMTP_PASSWORD'', cf_metrics_token = trim_space (env ''METRICS_TOKEN''),
      cf_listen = listen_addr env, cf_cookie_secure = https_url (env ''OIDC_REDIRECT_URL''),
      cf_session = 0, cf_key_days = 0, cf_history_days = 0,
      cf_successor = trim_space (env ''SUCCESSOR_URL''), cf_unit = env_or env ''BUDGET_UNIT'' ''$'',
      cf_notice_de = [], cf_notice_en = [], cf_workers = 0, cf_sync_interval = 0, cf_missing_grace = 0,
      cf_proxies = []\<rparr>"

text \<open>The two privacy notices.\<close>

definition load_notices :: "(string \<Rightarrow> string) \<Rightarrow> (string \<Rightarrow> string + string) \<Rightarrow> config \<Rightarrow> config_error + config" where
  "load_notices env files c =
     (case read_notice files (trim_space (env ''PRIVACY_NOTICE_FILE_DE'')) of
        Inl e \<Rightarrow> Inl (InvalidSetting (''PRIVACY_NOTICE_FILE_DE: '' @ e))
      | Inr de \<Rightarrow>
          (case read_notice files (trim_space (env ''PRIVACY_NOTICE_FILE_EN'')) of
             Inl e \<Rightarrow> Inl (InvalidSetting (''PRIVACY_NOTICE_FILE_EN: '' @ e))
           | Inr en \<Rightarrow> Inr (c\<lparr>cf_notice_de := de, cf_notice_en := en\<rparr>)))"

text \<open>The numbers, durations and proxies, in the order in which \<open>Load\<close> checks them.\<close>

definition load_numbers :: "(string \<Rightarrow> string) \<Rightarrow> (string \<Rightarrow> string + string) \<Rightarrow> config \<Rightarrow> config_error + config" where
  "load_numbers env files c =
     setting (parse_duration (env_or env ''SESSION_DURATION'' ''24h''))
       ''SESSION_DURATION must be a valid duration'' (\<lambda>dur.
     setting (positive_int (env_or env ''USAGE_HISTORY_DAYS'' ''30''))
       ''USAGE_HISTORY_DAYS must be a positive integer'' (\<lambda>history.
     setting (parse_int64 (env_or env ''KEY_DURATION_DAYS'' ''90''))
       ''KEY_DURATION_DAYS must be an integer'' (\<lambda>days.
     setting (positive_int (env_or env ''LIMIT_SYNC_WORKERS'' ''1''))
       ''LIMIT_SYNC_WORKERS must be a positive integer'' (\<lambda>workers.
     setting (positive_duration (env_or env ''LIMIT_SYNC_INTERVAL'' ''5m''))
       ''LIMIT_SYNC_INTERVAL must be a positive duration such as 5m'' (\<lambda>interval.
     setting (positive_duration (env_or env ''KEY_MISSING_GRACE_PERIOD'' ''24h''))
       ''KEY_MISSING_GRACE_PERIOD must be a positive duration such as 24h'' (\<lambda>grace.
     case parse_trusted_proxies (env ''TRUSTED_PROXIES'') of
       Inl e \<Rightarrow> Inl e
     | Inr proxies \<Rightarrow>
         load_notices env files
           (c\<lparr>cf_session := dur, cf_history_days := history, cf_key_days := days, cf_workers := workers,
              cf_sync_interval := interval, cf_missing_grace := grace, cf_proxies := proxies\<rparr>)))))))"

text \<open>\<open>Load\<close>.\<close>

definition load_config :: "(string \<Rightarrow> string) \<Rightarrow> (string \<Rightarrow> string + string) \<Rightarrow> config_error + config" where
  "load_config env files =
     (case missing_setting env of
        Some k \<Rightarrow> Inl (MissingEnv k)
      | None \<Rightarrow>
          (let c = plain_settings env; claim = trim_space (env ''ADMIN_GROUP_CLAIM'')
           in if \<not> valid_user_id_prefix (cf_user_prefix c) then
                Inl (InvalidSetting ''LITELLM_USER_ID_PREFIX may only contain letters, digits, hyphen, underscore and dot'')
              else setting (parse_bool (env_or env ''LITELLM_USER_EMAIL'' ''false''))
                ''LITELLM_USER_EMAIL must be true or false'' (\<lambda>email.
                if claim \<noteq> [] \<and> cf_admin_group c = [] then
                  Inl (InvalidSetting ''ADMIN_GROUP_CLAIM is set but ADMIN_GROUP is not'')
                else load_numbers env files
                  (c\<lparr>cf_user_email := email,
                     cf_admin_claim := (if claim = [] then ''groups'' else claim)\<rparr>))))"

definition admin_from_groups :: "config \<Rightarrow> bool" where
  "admin_from_groups c \<longleftrightarrow> cf_admin_group c \<noteq> []"

section \<open>The gateway's users\<close>

definition litellm_user_id :: "config \<Rightarrow> string \<Rightarrow> string" where
  "litellm_user_id c sub = (if cf_user_prefix c = [] then sub else cf_user_prefix c @ '':'' @ sub)"

definition litellm_user :: "config \<Rightarrow> string \<Rightarrow> string \<Rightarrow> string \<Rightarrow> gw_user" where
  "litellm_user c sub name email =
     \<lparr>gu_id = litellm_user_id c sub, gu_name = name, gu_email = (if cf_user_email c then email else [])\<rparr>"

section \<open>What a loaded configuration guarantees\<close>

definition config_ok :: "config \<Rightarrow> bool" where
  "config_ok c \<longleftrightarrow> valid_user_id_prefix (cf_user_prefix c) \<and> cf_history_days c \<ge> 1 \<and> cf_workers c \<ge> 1
     \<and> cf_sync_interval c > 0 \<and> cf_missing_grace c > 0 \<and> cf_admin_claim c \<noteq> []
     \<and> cf_base_url c \<noteq> [] \<and> cf_master_key c \<noteq> [] \<and> cf_issuer c \<noteq> [] \<and> cf_client_id c \<noteq> []
     \<and> cf_client_secret c \<noteq> [] \<and> cf_redirect_url c \<noteq> [] \<and> cf_frontend c \<noteq> []"

lemma setting_Inr [simp]: "setting v msg k = Inr r \<longleftrightarrow> (\<exists>a. v = Some a \<and> k a = Inr r)"
  by (simp add: setting_def split: option.split)

lemma positive_int_Some: "positive_int s = Some n \<Longrightarrow> 1 \<le> n"
  by (auto simp: positive_int_def split: option.splits if_splits)

lemma positive_duration_Some: "positive_duration s = Some n \<Longrightarrow> 0 < n"
  by (auto simp: positive_duration_def split: option.splits if_splits)

lemma load_notices_Inr:
  "load_notices env files c = Inr r \<Longrightarrow> \<exists>de en. r = c\<lparr>cf_notice_de := de, cf_notice_en := en\<rparr>"
  by (auto simp: load_notices_def split: sum.splits)

lemma load_numbers_Inr:
  assumes "load_numbers env files c = Inr r"
  obtains dur history days workers interval grace proxies de en where
    "r = c\<lparr>cf_session := dur, cf_history_days := history, cf_key_days := days, cf_workers := workers,
           cf_sync_interval := interval, cf_missing_grace := grace, cf_proxies := proxies,
           cf_notice_de := de, cf_notice_en := en\<rparr>"
    "1 \<le> history" "1 \<le> workers" "0 < interval" "0 < grace"
proof (cases "parse_trusted_proxies (env ''TRUSTED_PROXIES'')")
  case (Inl e)
  then show thesis using assms by (simp add: load_numbers_def)
next
  case (Inr ps)
  then show thesis
    using assms unfolding load_numbers_def setting_Inr Inr sum.case
    by (elim exE conjE) (drule load_notices_Inr, elim exE, drule positive_int_Some, drule positive_int_Some,
      drule positive_duration_Some, drule positive_duration_Some, erule that)
qed

lemma load_config_ok:
  assumes "load_config env files = Inr c"
  shows "config_ok c"
proof -
  have req: "\<forall>k \<in> set required_settings. env k \<noteq> []"
    using assms by (auto simp: load_config_def missing_setting_def find_None_iff split: option.splits)
  obtain email where v: "valid_user_id_prefix (trim_space (env ''LITELLM_USER_ID_PREFIX''))"
    and l: "load_numbers env files ((plain_settings env)\<lparr>cf_user_email := email,
       cf_admin_claim := (if trim_space (env ''ADMIN_GROUP_CLAIM'') = [] then ''groups''
                          else trim_space (env ''ADMIN_GROUP_CLAIM''))\<rparr>) = Inr c"
    using assms by (auto simp: load_config_def Let_def plain_settings_def split: option.splits if_splits)
  from load_numbers_Inr [OF l] show ?thesis
    by cases (use req v in \<open>simp add: config_ok_def plain_settings_def required_settings_def\<close>)
qed

text \<open>The separator keeps the people of two portals apart: the prefix ends where the subject starts.\<close>

lemma cut_at_prefix: "c \<notin> set p \<Longrightarrow> cut_at c (p @ c # s) = Some (p, s)"
  by (induction p) auto

lemma valid_prefix_no_colon: "valid_user_id_prefix p \<Longrightarrow> CHR '':'' \<notin> set p"
  by (auto simp: valid_user_id_prefix_def list_all_iff prefix_char_def in_range_def)

lemma litellm_user_id_inj:
  assumes "valid_user_id_prefix (cf_user_prefix c)" and "valid_user_id_prefix (cf_user_prefix c')"
    and "cf_user_prefix c \<noteq> []" and "cf_user_prefix c' \<noteq> []"
    and "litellm_user_id c sub = litellm_user_id c' sub'"
  shows "cf_user_prefix c = cf_user_prefix c' \<and> sub = sub'"
proof -
  have "cf_user_prefix c @ CHR '':'' # sub = cf_user_prefix c' @ CHR '':'' # sub'"
    using assms(3-5) by (simp add: litellm_user_id_def)
  then have "cut_at (CHR '':'') (cf_user_prefix c @ CHR '':'' # sub) =
      cut_at (CHR '':'') (cf_user_prefix c' @ CHR '':'' # sub')" by (rule arg_cong)
  then have "Some (cf_user_prefix c, sub) = Some (cf_user_prefix c', sub')"
    unfolding cut_at_prefix [OF valid_prefix_no_colon [OF assms(1)]]
      cut_at_prefix [OF valid_prefix_no_colon [OF assms(2)]] .
  then show ?thesis by simp
qed

end
