(* ===== verification/Memory.thy ===== *)
theory Memory
  imports Config
begin

text \<open>
  What the portal keeps in memory between requests: the one-time secrets of \<open>internal/handlers/flash.go\<close>,
  the model lists of \<open>modelcache.go\<close> and the usage reports of \<open>usagecache.go\<close>, each with the pure part
  of its operations.
\<close>

section \<open>One-time secrets\<close>

record flash_entry =
  fe_user :: int
  fe_key :: string
  fe_expires :: time

type_synonym flash = "(string \<times> flash_entry) list"

definition flash_ttl :: duration where "flash_ttl = 2 * minute"

text \<open>\<open>gcLocked\<close>.\<close>

definition flash_gc :: "time \<Rightarrow> flash \<Rightarrow> flash" where
  "flash_gc now f = filter (\<lambda>(_, e). \<not> now > fe_expires e) f"

text \<open>The part of \<open>Put\<close> under the lock; \<open>now1\<close> is the clock of the collection, \<open>now2\<close> that of the entry.\<close>

definition flash_store :: "time \<Rightarrow> time \<Rightarrow> string \<Rightarrow> int \<Rightarrow> string \<Rightarrow> flash \<Rightarrow> flash" where
  "flash_store now1 now2 token uid key f =
     al_put token \<lparr>fe_user = uid, fe_key = key, fe_expires = now2 + flash_ttl\<rparr> (flash_gc now1 f)"

text \<open>The part of \<open>Take\<close> under the lock: the secret, or nothing, and what is left.\<close>

definition flash_redeem :: "time \<Rightarrow> time \<Rightarrow> int \<Rightarrow> string \<Rightarrow> flash \<Rightarrow> string \<times> flash" where
  "flash_redeem now1 now2 uid token f =
     (let f' = flash_gc now1 f
      in case map_of f' token of
           None \<Rightarrow> ([], f')
         | Some e \<Rightarrow> if fe_user e \<noteq> uid \<or> now2 > fe_expires e then ([], f')
                     else (fe_key e, al_del token f'))"

lemma flash_redeem_once:
  assumes "flash_redeem t1 t2 uid token f = (s, f')" and "s \<noteq> []"
  shows "fst (flash_redeem t3 t4 uid' token f') = []"
proof -
  have "map_of f' token = None"
    using assms by (auto simp: flash_redeem_def Let_def split: option.splits if_splits)
  then have "map_of (flash_gc t3 f') token = None"
    by (auto simp: flash_gc_def map_of_eq_None_iff)
  then show ?thesis by (simp add: flash_redeem_def)
qed

lemma flash_redeem_owner:
  assumes "flash_redeem t1 t2 uid token f = (s, f')" and "s \<noteq> []"
  shows "\<exists>e. (token, e) \<in> set f \<and> fe_user e = uid \<and> fe_key e = s \<and> t2 \<le> fe_expires e"
  using assms by (auto simp: flash_redeem_def Let_def flash_gc_def split: option.splits if_splits
      dest!: map_of_SomeD)

lemma flash_redeem_stored:
  assumes "t1 \<le> now2 + flash_ttl" and "t2 \<le> now2 + flash_ttl"
  shows "fst (flash_redeem t1 t2 uid token (flash_store now1 now2 token uid key f)) = key"
  using assms by (simp add: flash_redeem_def flash_store_def flash_gc_def al_put_def)

section \<open>Model lists\<close>

text \<open>
  \<open>ModelLister\<close> and \<open>EmbeddingLister\<close>.  A list is \<open>None\<close> for Go's nil slice, which the cache takes for no
  list; a fetch time is \<open>None\<close> for the zero time.
\<close>

type_synonym 'g model_lister = "'g \<Rightarrow> (gw_error + string list option) \<times> 'g"
type_synonym 'g embedding_lister = "'g \<Rightarrow> (gw_error + (string \<times> bool) list option) \<times> 'g"

definition model_cache_ttl :: duration where "model_cache_ttl = 5 * minute"

record model_cache =
  mc_models :: "string list option"
  mc_embeddings :: "(string \<times> bool) list option"
  mc_fetched :: "time option"
  mc_emb_fetched :: "time option"

definition new_model_cache :: model_cache where
  "new_model_cache = \<lparr>mc_models = None, mc_embeddings = None, mc_fetched = None, mc_emb_fetched = None\<rparr>"

text \<open>\<open>time.Since(t) < ttl\<close>.\<close>

definition fresh :: "duration \<Rightarrow> time \<Rightarrow> time option \<Rightarrow> bool" where
  "fresh ttl now t = (case t of None \<Rightarrow> False | Some s \<Rightarrow> now - s < ttl)"

section \<open>Usage reports\<close>

definition usage_window_days :: int where "usage_window_days = 30"
definition usage_cache_ttl :: duration where "usage_cache_ttl = 60 * second"

record usage_entry =
  ue_history :: history
  ue_fetched :: time

type_synonym usage_cache = "(string \<times> usage_entry) list"

text \<open>The user pages and the admin panel each have a model cache of their own.\<close>

record memory =
  m_flash :: flash
  m_models :: model_cache
  m_admin_models :: model_cache
  m_usage :: usage_cache

definition new_memory :: memory where
  "new_memory = \<lparr>m_flash = [], m_models = new_model_cache, m_admin_models = new_model_cache, m_usage = []\<rparr>"

end
