(* ===== verification/World.thy ===== *)
theory World
  imports DbInvariant Memory
begin

text \<open>
  The world a handler or a background job runs in: the database, the gateway, the clock, the store's
  faults, the cancellation of its context, the random source, and the effects seen outside (metrics,
  kicks of the sync, mails).  Handlers are sequences of primitive actions on it in the state monad.
\<close>

section \<open>The world\<close>

text \<open>What a handler does besides changing the database and the gateway, in order.\<close>

datatype effect =
    KeyOperation string string \<comment> \<open>\<open>metrics.KeyOperations\<close>: action and outcome\<close>
  | KeyMarkedMissing string \<comment> \<open>\<open>metrics.KeysMarkedMissing\<close>: where it was noticed\<close>
  | KeyMissingRemoved
  | SyncKick
  | Mailed string string string \<comment> \<open>to, subject, body\<close>

text \<open>Where a missing key is noticed.\<close>

definition source_dashboard :: string where "source_dashboard = ''dashboard''"
definition source_extend :: string where "source_extend = ''extend''"
definition source_sync :: string where "source_sync = ''sync''"

text \<open>
  The clock, the faults, the cancellation and the random source are arbitrary sequences; the counters
  say how much of each was consumed.  The n-th call of the store fails with a text when \<open>wfault n\<close> has
  one.  \<open>wcancel n\<close> is what the n-th look at \<open>ctx.Err()\<close> sees.
\<close>

record 'g world =
  wdb :: database
  wgw :: 'g
  wmem :: memory
  wclock :: "nat \<Rightarrow> time"
  wtick :: nat
  wfault :: "nat \<Rightarrow> string option"
  wstmt :: nat
  wcancel :: "nat \<Rightarrow> bool"
  wlook :: nat
  wrand :: "nat \<Rightarrow> string + string"
  wdraw :: nat
  wlog :: "effect list"

type_synonym ('g, 'a) act = "('g world, 'a) state"

section \<open>Primitive actions\<close>

definition time_now :: "('g, time) act" where
  "time_now = State (\<lambda>w. (wclock w (wtick w), w\<lparr>wtick := Suc (wtick w)\<rparr>))"

definition ctx_err :: "('g, bool) act" where
  "ctx_err = State (\<lambda>w. (wcancel w (wlook w), w\<lparr>wlook := Suc (wlook w)\<rparr>))"

definition random :: "('g, string + string) act" where
  "random = State (\<lambda>w. (wrand w (wdraw w), w\<lparr>wdraw := Suc (wdraw w)\<rparr>))"

definition emit :: "effect \<Rightarrow> ('g, unit) act" where
  "emit e = State (\<lambda>w. ((), w\<lparr>wlog := wlog w @ [e]\<rparr>))"

text \<open>A store method: it fails without a change, or runs as its model says.\<close>

definition store :: "'a tx \<Rightarrow> ('g, db_error + 'a) act" where
  "store f = State (\<lambda>w.
     let w' = w\<lparr>wstmt := Suc (wstmt w)\<rparr>
     in case wfault w (wstmt w) of
          Some s \<Rightarrow> (Inl (IOError s), w')
        | None \<Rightarrow>
            (case f (wdb w) of
               Inl e \<Rightarrow> (Inl e, w')
             | Inr (a, d) \<Rightarrow> (Inr a, w'\<lparr>wdb := d\<rparr>)))"

text \<open>A query that may have its own error, and one that always has a result.\<close>

definition query :: "(database \<Rightarrow> db_error + 'a) \<Rightarrow> ('g, db_error + 'a) act" where
  "query q = State (\<lambda>w.
     (case wfault w (wstmt w) of Some s \<Rightarrow> Inl (IOError s) | None \<Rightarrow> q (wdb w),
      w\<lparr>wstmt := Suc (wstmt w)\<rparr>))"

definition select :: "(database \<Rightarrow> 'a) \<Rightarrow> ('g, db_error + 'a) act" where
  "select q = query (\<lambda>d. Inr (q d))"

definition gateway :: "('g \<Rightarrow> 'a \<times> 'g) \<Rightarrow> ('g, 'a) act" where
  "gateway f = State (\<lambda>w. case f (wgw w) of (a, g) \<Rightarrow> (a, w\<lparr>wgw := g\<rparr>))"

text \<open>A step on what the portal keeps in memory.\<close>

definition remember :: "(memory \<Rightarrow> 'a \<times> memory) \<Rightarrow> ('g, 'a) act" where
  "remember f = State (\<lambda>w. case f (wmem w) of (a, m) \<Rightarrow> (a, w\<lparr>wmem := m\<rparr>))"

text \<open>A store method that reads the clock first, once or twice.\<close>

definition store_now :: "(time \<Rightarrow> 'a tx) \<Rightarrow> ('g, db_error + 'a) act" where
  "store_now f = do { t \<leftarrow> time_now; store (f t) }"

definition store_now2 :: "(time \<Rightarrow> time \<Rightarrow> 'a tx) \<Rightarrow> ('g, db_error + 'a) act" where
  "store_now2 f = do { t1 \<leftarrow> time_now; t2 \<leftarrow> time_now; store (f t1 t2) }"

lemma run_time_now [simp]:
  "run_state time_now w = (wclock w (wtick w), w\<lparr>wtick := Suc (wtick w)\<rparr>)"
  by (simp add: time_now_def)

lemma run_ctx_err [simp]:
  "run_state ctx_err w = (wcancel w (wlook w), w\<lparr>wlook := Suc (wlook w)\<rparr>)"
  by (simp add: ctx_err_def)

lemma run_random [simp]:
  "run_state random w = (wrand w (wdraw w), w\<lparr>wdraw := Suc (wdraw w)\<rparr>)"
  by (simp add: random_def)

lemma run_emit [simp]: "run_state (emit e) w = ((), w\<lparr>wlog := wlog w @ [e]\<rparr>)"
  by (simp add: emit_def)

lemma run_gateway: "run_state (gateway f) w = (case f (wgw w) of (a, g) \<Rightarrow> (a, w\<lparr>wgw := g\<rparr>))"
  by (simp add: gateway_def)

lemma run_remember: "run_state (remember f) w = (case f (wmem w) of (a, m) \<Rightarrow> (a, w\<lparr>wmem := m\<rparr>))"
  by (simp add: remember_def)

lemma run_store:
  "run_state (store f) w =
     (case wfault w (wstmt w) of
        Some s \<Rightarrow> (Inl (IOError s), w\<lparr>wstmt := Suc (wstmt w)\<rparr>)
      | None \<Rightarrow> (case f (wdb w) of
                   Inl e \<Rightarrow> (Inl e, w\<lparr>wstmt := Suc (wstmt w)\<rparr>)
                 | Inr (a, d) \<Rightarrow> (Inr a, w\<lparr>wstmt := Suc (wstmt w), wdb := d\<rparr>)))"
  by (simp add: store_def Let_def)

lemma run_query:
  "run_state (query q) w =
     (case wfault w (wstmt w) of Some s \<Rightarrow> Inl (IOError s) | None \<Rightarrow> q (wdb w), w\<lparr>wstmt := Suc (wstmt w)\<rparr>)"
  by (simp add: query_def)

lemma run_store_now:
  "run_state (store_now f) w = run_state (store (f (wclock w (wtick w)))) (w\<lparr>wtick := Suc (wtick w)\<rparr>)"
  by (simp add: store_now_def)

lemma run_store_now2:
  "run_state (store_now2 f) w =
     run_state (store (f (wclock w (wtick w)) (wclock w (Suc (wtick w))))) (w\<lparr>wtick := Suc (Suc (wtick w))\<rparr>)"
  by (simp add: store_now2_def)

section \<open>What every action keeps\<close>

text \<open>
  \<open>db_steps m\<close>: whatever \<open>m\<close> does to the database is a sequence of store writes, so everything that holds
  of all reachable databases holds after it.  The rules below go through a handler's text.
\<close>

definition db_steps :: "('g, 'a) act \<Rightarrow> bool" where
  "db_steps m \<longleftrightarrow> (\<forall>w. db_step\<^sup>*\<^sup>* (wdb w) (wdb (snd (run_state m w))))"

named_theorems steps \<comment> \<open>handlers whose effect on the database is a sequence of store writes\<close>

lemma db_steps_bind [steps]:
  assumes "db_steps m" and "\<And>a. db_steps (f a)"
  shows "db_steps (State_Monad.bind m f)"
  unfolding db_steps_def
proof
  fix w
  obtain a w' where m: "run_state m w = (a, w')" by fastforce
  have "db_step\<^sup>*\<^sup>* (wdb w) (wdb w')"
    using assms(1) [unfolded db_steps_def, rule_format, of w] m by simp
  also have "db_step\<^sup>*\<^sup>* (wdb w') (wdb (snd (run_state (f a) w')))"
    using assms(2) by (simp add: db_steps_def)
  finally show "db_step\<^sup>*\<^sup>* (wdb w) (wdb (snd (run_state (State_Monad.bind m f) w)))"
    by (simp add: m)
qed

lemma db_steps_return [steps]: "db_steps (State_Monad.return a)"
  by (simp add: db_steps_def)

lemma db_steps_prims [steps]:
  "db_steps time_now" "db_steps ctx_err" "db_steps random" "db_steps (emit e)"
  "db_steps (gateway f)" "db_steps (remember m)" "db_steps (query q)" "db_steps (select s)"
  by (simp_all add: db_steps_def run_gateway run_remember run_query select_def split: prod.split)

lemma db_steps_store:
  assumes "\<And>d a d'. f d = Inr (a, d') \<Longrightarrow> db_step d d'"
  shows "db_steps (store f)"
  unfolding db_steps_def run_store
  using assms by (auto split: option.split sum.split)

lemma db_steps_store_now:
  assumes "\<And>t d a d'. f t d = Inr (a, d') \<Longrightarrow> db_step d d'"
  shows "db_steps (store_now f)"
  unfolding store_now_def by (intro steps db_steps_store) (rule assms)

lemma db_steps_store_now2:
  assumes "\<And>t u d a d'. f t u d = Inr (a, d') \<Longrightarrow> db_step d d'"
  shows "db_steps (store_now2 f)"
  unfolding store_now2_def by (intro steps db_steps_store) (rule assms)

lemma db_steps_split [steps]:
  "(b \<Longrightarrow> db_steps m) \<Longrightarrow> (\<not> b \<Longrightarrow> db_steps n) \<Longrightarrow> db_steps (if b then m else n)"
  "db_steps m1 \<Longrightarrow> (\<And>x. db_steps (f1 x)) \<Longrightarrow> db_steps (case o1 of None \<Rightarrow> m1 | Some x \<Rightarrow> f1 x)"
  "(\<And>x. db_steps (g x)) \<Longrightarrow> (\<And>x. db_steps (h x)) \<Longrightarrow> db_steps (case s of Inl x \<Rightarrow> g x | Inr x \<Rightarrow> h x)"
  "(\<And>x y. db_steps (k x y)) \<Longrightarrow> db_steps (case p of (x, y) \<Rightarrow> k x y)"
  "db_steps m \<Longrightarrow> db_steps n \<Longrightarrow> db_steps (case b of True \<Rightarrow> m | False \<Rightarrow> n)"
  by (simp_all split: option.split sum.split prod.split bool.split)

lemma db_steps_reachable:
  assumes "db_steps m" and "db_reachable (wdb w)"
  shows "db_reachable (wdb (snd (run_state m w)))"
proof -
  have "db_step\<^sup>*\<^sup>* (wdb w) (wdb (snd (run_state m w)))"
    using assms(1) by (simp add: db_steps_def)
  then show ?thesis using assms(2)
    by (induction rule: rtranclp_induct) (auto intro: db_reachable.step)
qed

end
