(* ===== verification/Session.thy ===== *)
theory Session
  imports World
begin

text \<open>
  Package \<open>internal/session\<close>: the login sessions of \<open>session.go\<close> and the protection against forged
  requests of \<open>csrf.go\<close>.  SHA-256 and HMAC are parameters: \<open>sha\<close> is the hash, \<open>mac\<close> the keyed hash
  in its base64 form.
\<close>

section \<open>Cookies\<close>

definition session_cookie_name :: string where "session_cookie_name = ''session_token''"

definition cookie_name :: "string \<Rightarrow> bool \<Rightarrow> string" where
  "cookie_name name secure = (if secure then ''__Host-'' @ name else name)"

lemma cookie_name_inj: "cookie_name a s = cookie_name b s \<longleftrightarrow> a = b"
  by (simp add: cookie_name_def)

section \<open>Sessions\<close>

record manager =
  sm_duration :: duration
  sm_secure :: bool
  sm_cookie :: string

definition new_manager :: "duration \<Rightarrow> bool \<Rightarrow> manager" where
  "new_manager d secure =
     \<lparr>sm_duration = d, sm_secure = secure, sm_cookie = cookie_name session_cookie_name secure\<rparr>"

record session_user =
  su_session :: int
  su_id_token :: string
  su_user :: user

text \<open>\<open>Create\<close>: the token is 32 random bytes in hexadecimal.\<close>

definition session_create :: "manager \<Rightarrow> int \<Rightarrow> string \<Rightarrow> ('g, string + string) act" where
  "session_create m uid id_token = do {
     b \<leftarrow> random;
     case b of
       Inl e \<Rightarrow> State_Monad.return (Inl (''generate token: '' @ e))
     | Inr bs \<Rightarrow> do {
         now \<leftarrow> time_now;
         r \<leftarrow> store_now (\<lambda>t. create_session t uid (hex_encode bs) id_token (now + sm_duration m));
         State_Monad.return (case r of
             Inl e \<Rightarrow> Inl (''store session: '' @ db_error_text e)
           | Inr _ \<Rightarrow> Inr (hex_encode bs)) } }"

text \<open>\<open>Get\<close>: a session past its end is deleted, and whether that worked does not matter.\<close>

definition session_get :: "manager \<Rightarrow> string \<Rightarrow> ('g, string + session_user) act" where
  "session_get m token = do {
     r \<leftarrow> query (get_session_by_token token);
     case r of
       Inl e \<Rightarrow> State_Monad.return (Inl (db_error_text e))
     | Inr s \<Rightarrow> do {
         now \<leftarrow> time_now;
         if now > se_expires s then do {
           _ \<leftarrow> store (delete_session (se_id s));
           State_Monad.return (Inl ''session expired'') }
         else do {
           u \<leftarrow> query (get_user_by_id (se_user s));
           State_Monad.return (case u of
               Inl e \<Rightarrow> Inl (''get user: '' @ db_error_text e)
             | Inr u \<Rightarrow> Inr \<lparr>su_session = se_id s, su_id_token = se_id_token s, su_user = u\<rparr>) } } }"

definition session_delete :: "int \<Rightarrow> ('g, db_error + unit) act" where
  "session_delete i = store (delete_session i)"

definition session_delete_by_sub :: "string \<Rightarrow> ('g, db_error + unit) act" where
  "session_delete_by_sub sub = store (delete_sessions_by_sub sub)"

text \<open>\<open>SetCookie\<close> and \<open>ClearCookie\<close>; the maximal age is in whole seconds.\<close>

definition session_set_cookie :: "manager \<Rightarrow> string \<Rightarrow> cookie" where
  "session_set_cookie m token =
     \<lparr>ck_name = sm_cookie m, ck_value = token, ck_path = ''/'', ck_max_age = trunc_div (sm_duration m) second,
      ck_http_only = True, ck_secure = sm_secure m, ck_lax = True\<rparr>"

definition session_clear_cookie :: "manager \<Rightarrow> cookie" where
  "session_clear_cookie m =
     \<lparr>ck_name = sm_cookie m, ck_value = [], ck_path = ''/'', ck_max_age = -1,
      ck_http_only = False, ck_secure = sm_secure m, ck_lax = False\<rparr>"

definition token_from_request :: "manager \<Rightarrow> request \<Rightarrow> string" where
  "token_from_request m r = the_default [] (cookie_of r (sm_cookie m))"

section \<open>Forged requests\<close>

definition csrf_cookie_name :: string where "csrf_cookie_name = ''csrf_token''"
definition csrf_form_field :: string where "csrf_form_field = ''csrf_token''"
definition csrf_header :: string where "csrf_header = ''X-Csrf-Token''"
definition csrf_cookie_max_age :: int where "csrf_cookie_max_age = 12 * 60 * 60"

record csrf =
  cs_sign :: "string \<Rightarrow> string"
  cs_secure :: bool
  cs_cookie :: string

text \<open>\<open>NewCSRF\<close> and \<open>newCSRF\<close>: a secret derived from the seed, or a random one without a seed.\<close>

definition csrf_of :: "(string \<Rightarrow> string \<Rightarrow> string) \<Rightarrow> string \<Rightarrow> bool \<Rightarrow> csrf" where
  "csrf_of mac secret secure =
     \<lparr>cs_sign = mac secret, cs_secure = secure, cs_cookie = cookie_name csrf_cookie_name secure\<rparr>"

definition new_csrf :: "(string \<Rightarrow> string \<Rightarrow> string) \<Rightarrow> (string \<Rightarrow> string) \<Rightarrow> bool \<Rightarrow> string \<Rightarrow> ('g, string + csrf) act" where
  "new_csrf mac sha secure seed =
     (if seed = [] then do {
        b \<leftarrow> random;
        State_Monad.return (case b of
            Inl e \<Rightarrow> Inl (''generate CSRF secret: '' @ e)
          | Inr secret \<Rightarrow> Inr (csrf_of mac secret secure)) }
      else State_Monad.return (Inr (csrf_of mac (sha (''keyosk/csrf'' @ [CHR 0x00] @ seed)) secure)))"

definition csrf_set_cookie :: "csrf \<Rightarrow> string \<Rightarrow> cookie" where
  "csrf_set_cookie c v =
     \<lparr>ck_name = cs_cookie c, ck_value = v, ck_path = ''/'', ck_max_age = csrf_cookie_max_age,
      ck_http_only = True, ck_secure = cs_secure c, ck_lax = True\<rparr>"

text \<open>\<open>Token\<close>: the value for the forms of a page, and the cookie to set with it.\<close>

definition csrf_token :: "csrf \<Rightarrow> request \<Rightarrow> ('g, string \<times> cookie list) act" where
  "csrf_token c r =
     (let have = the_default [] (cookie_of r (cs_cookie c))
      in if have \<noteq> [] then State_Monad.return (cs_sign c have, [])
         else do {
           b \<leftarrow> random;
           State_Monad.return (case b of
               Inl _ \<Rightarrow> ([], [])
             | Inr bs \<Rightarrow> (cs_sign c (b64_url bs), [csrf_set_cookie c (b64_url bs)])) })"

text \<open>The token a request presents, or that its body is too large to look.\<close>

definition presented_token :: "request \<Rightarrow> string option" where
  "presented_token r =
     (if header_of r csrf_header \<noteq> [] then Some (header_of r csrf_header)
      else if rq_form_error r = Some BodyTooLarge then None
      else Some (form_value r csrf_form_field))"

text \<open>\<open>Protect\<close>.\<close>

definition csrf_protect :: "csrf \<Rightarrow> (request \<Rightarrow> ('g, 'p response) act) \<Rightarrow> request \<Rightarrow> ('g, 'p response) act" where
  "csrf_protect c next r =
     (if safe_method (rq_method r) then next r
      else if \<not> cross_origin_ok r then
        State_Monad.return (plain (HttpError 403 ''Cross-origin request blocked. Open the page on this site and try again.''))
      else let v = the_default [] (cookie_of r (cs_cookie c)) in
        if v = [] then
          State_Monad.return (plain (HttpError 403 ''Missing CSRF cookie. Reload the page and try again.''))
        else case presented_token r of
          None \<Rightarrow> State_Monad.return (plain (HttpError 413 ''Request too large.''))
        | Some presented \<Rightarrow>
            if presented \<noteq> cs_sign c v then
              State_Monad.return (plain (HttpError 403 ''Invalid CSRF token. Reload the page and try again.''))
            else next r)"

section \<open>Lemmas\<close>

lemma session_steps [steps]:
  "db_steps (session_create m uid t)" "db_steps (session_get m tok)"
  "db_steps (session_delete i)" "db_steps (session_delete_by_sub sub)"
  unfolding session_create_def session_get_def session_delete_def session_delete_by_sub_def
  by (intro steps db_steps_store_now db_steps_store; erule db_step.intros)+

lemma csrf_steps [steps]:
  "db_steps (new_csrf mac sha s seed)" "db_steps (csrf_token c r)"
  "(\<And>r. db_steps (next r)) \<Longrightarrow> db_steps (csrf_protect c next r)"
  unfolding new_csrf_def csrf_token_def csrf_protect_def Let_def by (intro steps; assumption?)+

text \<open>A request that the protection lets through is safe or carries the signature of its own cookie.\<close>

definition request_authentic :: "csrf \<Rightarrow> request \<Rightarrow> bool" where
  "request_authentic c r \<longleftrightarrow>
     safe_method (rq_method r) \<or>
     (cross_origin_ok r \<and> the_default [] (cookie_of r (cs_cookie c)) \<noteq> []
      \<and> presented_token r = Some (cs_sign c (the_default [] (cookie_of r (cs_cookie c)))))"

lemma csrf_protect_cases:
  "csrf_protect c next r = (if request_authentic c r then next r else
     State_Monad.return (plain (HttpError
       (if cross_origin_ok r \<and> the_default [] (cookie_of r (cs_cookie c)) \<noteq> [] \<and> presented_token r = None
        then 413 else 403)
       (if \<not> cross_origin_ok r then ''Cross-origin request blocked. Open the page on this site and try again.''
        else if the_default [] (cookie_of r (cs_cookie c)) = [] then
          ''Missing CSRF cookie. Reload the page and try again.''
        else if presented_token r = None then ''Request too large.''
        else ''Invalid CSRF token. Reload the page and try again.''))))"
  by (cases "presented_token r") (auto simp: csrf_protect_def request_authentic_def Let_def)

end
