(* ===== verification/Json.thy ===== *)
theory Json
  imports Session
begin

text \<open>
  JSON values and their decoding into Go structs as \<open>encoding/json\<close> does it, and the query strings of
  \<open>net/url\<close>.
\<close>

section \<open>JSON\<close>

datatype json =
    JNull
  | JBool bool
  | JNum rat
  | JStr string
  | JArr "json list"
  | JObj "(string \<times> json) list"

text \<open>An entry of a \<open>map[string]any\<close>: of two with one name the later counts.\<close>

definition json_key :: "string \<Rightarrow> (string \<times> json) list \<Rightarrow> json option" where
  "json_key k fs = map_of (rev fs) k"

text \<open>
  A field of a struct takes every entry whose name is its own up to case; the later counts.  A null
  leaves the zero value.
\<close>

definition json_field :: "string \<Rightarrow> (string \<times> json) list \<Rightarrow> json option" where
  "json_field k fs =
     (case find (\<lambda>(n, v). equal_fold n k) (rev fs) of
        None \<Rightarrow> None | Some (_, JNull) \<Rightarrow> None | Some (_, v) \<Rightarrow> Some v)"

text \<open>Decoding of a field: \<open>None\<close> for a value of the wrong type, which fails the whole decoding.\<close>

definition string_field :: "string \<Rightarrow> (string \<times> json) list \<Rightarrow> string option" where
  "string_field k fs =
     (case json_field k fs of None \<Rightarrow> Some [] | Some (JStr s) \<Rightarrow> Some s | Some _ \<Rightarrow> None)"

definition opt_string_field :: "string \<Rightarrow> (string \<times> json) list \<Rightarrow> string option option" where
  "opt_string_field k fs =
     (case json_field k fs of None \<Rightarrow> Some None | Some (JStr s) \<Rightarrow> Some (Some s) | Some _ \<Rightarrow> None)"

definition number_field :: "string \<Rightarrow> (string \<times> json) list \<Rightarrow> rat option" where
  "number_field k fs =
     (case json_field k fs of None \<Rightarrow> Some 0 | Some (JNum x) \<Rightarrow> Some x | Some _ \<Rightarrow> None)"

definition opt_number_field :: "string \<Rightarrow> (string \<times> json) list \<Rightarrow> rat option option" where
  "opt_number_field k fs =
     (case json_field k fs of None \<Rightarrow> Some None | Some (JNum x) \<Rightarrow> Some (Some x) | Some _ \<Rightarrow> None)"

text \<open>An object, an array: empty when the field is absent.\<close>

definition object_field :: "string \<Rightarrow> (string \<times> json) list \<Rightarrow> (string \<times> json) list option" where
  "object_field k fs =
     (case json_field k fs of None \<Rightarrow> Some [] | Some (JObj o') \<Rightarrow> Some o' | Some _ \<Rightarrow> None)"

definition array_field :: "string \<Rightarrow> (string \<times> json) list \<Rightarrow> json list option" where
  "array_field k fs =
     (case json_field k fs of None \<Rightarrow> Some [] | Some (JArr xs) \<Rightarrow> Some xs | Some _ \<Rightarrow> None)"

text \<open>All elements decode, or the whole list does not.\<close>

fun all_some :: "'a option list \<Rightarrow> 'a list option" where
  "all_some [] = Some []"
| "all_some (None # xs) = None"
| "all_some (Some x # xs) = map_option (\<lambda>ys. x # ys) (all_some xs)"

section \<open>Query strings\<close>

definition unreserved :: "char \<Rightarrow> bool" where
  "unreserved c \<longleftrightarrow> in_range CHR ''a'' CHR ''z'' c \<or> in_range CHR ''A'' CHR ''Z'' c
     \<or> in_range CHR ''0'' CHR ''9'' c \<or> c = CHR ''-'' \<or> c = CHR ''_'' \<or> c = CHR ''.'' \<or> c = CHR ''~''"

definition upper_hex :: "int \<Rightarrow> char" where
  "upper_hex n = (if n < 10 then char_of (48 + n) else char_of (55 + n))"

definition escape_char :: "char \<Rightarrow> string" where
  "escape_char c =
     (if unreserved c then [c] else if c = CHR '' '' then ''+''
      else let n = of_char c :: int in [CHR ''%'', upper_hex (n div 16), upper_hex (n mod 16)])"

text \<open>\<open>url.QueryEscape\<close> and \<open>Values.Encode\<close>, which sorts by key.\<close>

definition query_escape :: "string \<Rightarrow> string" where
  "query_escape s = concat (map escape_char s)"

definition query_encode :: "(string \<times> string) list \<Rightarrow> string" where
  "query_encode ps = join ''&'' (map (\<lambda>(k, v). query_escape k @ ''='' @ query_escape v) (sort_key fst ps))"

fun query_unescape :: "string \<Rightarrow> string option" where
  "query_unescape [] = Some []"
| "query_unescape (c # s) =
     (if c = CHR ''%'' then
        (case s of
           a # b # t \<Rightarrow>
             (case (hex_val a, hex_val b) of
                (Some x, Some y) \<Rightarrow> map_option (\<lambda>r. char_of (x * 16 + y) # r) (query_unescape t)
              | _ \<Rightarrow> None)
         | _ \<Rightarrow> None)
      else map_option (\<lambda>r. (if c = CHR ''+'' then CHR '' '' else c) # r) (query_unescape s))"

definition parse_pair :: "string \<Rightarrow> (string \<times> string) list" where
  "parse_pair s =
     (let (k, v) = (case cut_at (CHR ''='') s of None \<Rightarrow> (s, []) | Some p \<Rightarrow> p)
      in case (query_unescape k, query_unescape v) of
           (Some k', Some v') \<Rightarrow> if s = [] then [] else [(k', v')]
         | _ \<Rightarrow> [])"

text \<open>\<open>URL.Query\<close>: the pairs that decode.\<close>

definition parse_query :: "string \<Rightarrow> (string \<times> string) list" where
  "parse_query s = concat (map parse_pair (split_on (CHR ''&'') s))"

text \<open>\<open>Values.Set\<close>.\<close>

definition query_set :: "string \<Rightarrow> string \<Rightarrow> (string \<times> string) list \<Rightarrow> (string \<times> string) list" where
  "query_set k v ps = filter (\<lambda>(n, _). n \<noteq> k) ps @ [(k, v)]"

section \<open>Round trip\<close>

lemma hex_val_upper: "0 \<le> n \<Longrightarrow> n < 16 \<Longrightarrow> hex_val (upper_hex n) = Some n"
  by (auto simp: hex_val_def upper_hex_def Let_def)

lemma query_unescape_char: "query_unescape (escape_char c @ s) = map_option (\<lambda>r. c # r) (query_unescape s)"
proof -
  define n where "n = (of_char c :: int)"
  have nn: "n = int (of_char c)" by (simp add: n_def of_nat_of_char)
  have n: "0 \<le> n" unfolding nn by (rule of_nat_0_le_iff)
  have "int (of_char c) < int 256" unfolding of_nat_less_iff by simp
  then have n: "0 \<le> n" "n < 256" "char_of n = c" using n by (simp_all only: nn of_nat_numeral) (simp add: n_def)
  then have h: "hex_val (upper_hex (n div 16)) = Some (n div 16)" "hex_val (upper_hex (n mod 16)) = Some (n mod 16)"
    by (simp_all add: hex_val_upper)
  have plus: "query_unescape (CHR ''+'' # s) = map_option (\<lambda>r. CHR '' '' # r) (query_unescape s)" by simp
  have pct: "query_unescape (CHR ''%'' # upper_hex (n div 16) # upper_hex (n mod 16) # s) =
      map_option (\<lambda>r. c # r) (query_unescape s)" using h n(3) by simp
  show ?thesis
  proof (cases "unreserved c")
    case True
    then have "c \<noteq> CHR ''%''" "c \<noteq> CHR ''+''" by (auto simp: unreserved_def in_range_def)
    then show ?thesis using True by (simp add: escape_char_def)
  next
    case False
    then show ?thesis using pct by (cases "c = CHR '' ''") (simp_all add: escape_char_def Let_def n_def)
  qed
qed

lemma query_unescape_escape: "query_unescape (query_escape s) = Some s"
  unfolding query_escape_def by (induction s) (simp_all add: query_unescape_char)

lemma query_escape_inj: "query_escape a = query_escape b \<Longrightarrow> a = b"
  by (metis option.inject query_unescape_escape)

end
