(* ===== verification/Oidc.thy ===== *)
theory Oidc
  imports Json
begin

text \<open>
  Package \<open>internal/oidc\<close>: the login against an OpenID Connect provider, the account behind it, and the
  provider's own logout.  What \<open>go-oidc\<close> and \<open>oauth2\<close> do, the exchange of a code, the verification of a
  token and the address of the provider, are the fields of an \<open>idp\<close>.
\<close>

section \<open>Provider and claims\<close>

record idp =
  idp_auth_url :: "string \<Rightarrow> string" \<comment> \<open>\<open>AuthCodeURL\<close> of a state\<close>
  idp_exchange :: "string \<Rightarrow> string + string option" \<comment> \<open>a code for an ID token, if there is one\<close>
  idp_verify :: "string \<Rightarrow> string + (string \<times> json) list" \<comment> \<open>the claims of an ID token\<close>
  idp_verify_logout :: "string \<Rightarrow> string + (string \<times> json) list" \<comment> \<open>without the check of expiry\<close>
  idp_end_session :: string

record user_info =
  ui_subject :: string
  ui_email :: string
  ui_name :: string
  ui_admin :: "bool option"
  ui_claim_absent :: bool

section \<open>Groups\<close>

fun walk_claims :: "json \<Rightarrow> string list \<Rightarrow> json option" where
  "walk_claims v [] = Some v"
| "walk_claims v (k # ks) =
     (case v of
        JObj fs \<Rightarrow> (case json_key k fs of None \<Rightarrow> None | Some w \<Rightarrow> walk_claims w ks)
      | _ \<Rightarrow> None)"

text \<open>\<open>GroupMembership\<close>: whether the claim lists the group, and whether there is a usable claim at all.\<close>

definition group_membership :: "(string \<times> json) list \<Rightarrow> string \<Rightarrow> string \<Rightarrow> bool \<times> bool" where
  "group_membership claims path grp =
     (case walk_claims (JObj claims) (split_on (CHR ''.'') path) of
        Some (JStr s) \<Rightarrow> (s = grp, True)
      | Some (JArr items) \<Rightarrow> (list_ex (\<lambda>v. v = JStr grp) items, True)
      | _ \<Rightarrow> (False, False))"

definition has_group :: "(string \<times> json) list \<Rightarrow> string \<Rightarrow> string \<Rightarrow> bool" where
  "has_group claims path grp = fst (group_membership claims path grp)"

section \<open>Login\<close>

definition canonical_hop :: string where "canonical_hop = ''canonical''"

definition state_cookie :: "config \<Rightarrow> string \<Rightarrow> string" where
  "state_cookie c state = cookie_name (''oidc_state_'' @ state) (cf_cookie_secure c)"

text \<open>The part of an absolute URL before its path.\<close>

definition url_origin :: "string \<Rightarrow> string" where
  "url_origin u =
     (let auth = takeWhile (\<lambda>c. c \<notin> {CHR ''/'', CHR ''?'', CHR ''#''}) (after_slashes u)
      in (case cut_at (CHR '':'') u of None \<Rightarrow> [] | Some (s, _) \<Rightarrow> s) @ ''://'' @ auth)"

text \<open>\<open>LoginHandler\<close>.\<close>

definition login_handler :: "config \<Rightarrow> idp \<Rightarrow> request \<Rightarrow> ('g, 'p response) act" where
  "login_handler c P r =
     (let host = url_host (cf_redirect_url c)
      in if host \<noteq> [] \<and> \<not> equal_fold (rq_host r) host \<and> query_value r canonical_hop = [] then
           State_Monad.return (plain (Redirect (url_origin (cf_redirect_url c) @ rq_path r @ ''?''
             @ query_encode (query_set canonical_hop ''1'' (rq_query r)))))
         else do {
           b \<leftarrow> random;
           (let state = hex_encode (case b of Inl _ \<Rightarrow> replicate 16 CHR 0x00 | Inr bs \<Rightarrow> bs)
            in State_Monad.return
                 \<lparr>rs_cookies = [\<lparr>ck_name = state_cookie c state, ck_value = state, ck_path = ''/'', ck_max_age = 300,
                    ck_http_only = True, ck_secure = cf_cookie_secure c, ck_lax = True\<rparr>],
                  rs_headers = [], rs_reply = Redirect (idp_auth_url P state)\<rparr>) })"

text \<open>The claims of an ID token as the account they describe.\<close>

definition info_of_claims :: "config \<Rightarrow> (string \<times> json) list \<Rightarrow> user_info option" where
  "info_of_claims c claims =
     (case (string_field ''email'' claims, string_field ''name'' claims,
            string_field ''preferred_username'' claims, string_field ''sub'' claims) of
        (Some email, Some name, Some pref, Some sub) \<Rightarrow>
          (let shown = (if pref \<noteq> [] then pref else if name \<noteq> [] then name else email);
               (admin, present) = group_membership claims (cf_admin_claim c) (cf_admin_group c)
           in Some (if admin_from_groups c
              then \<lparr>ui_subject = sub, ui_email = email, ui_name = shown, ui_admin = Some admin,
                    ui_claim_absent = \<not> present\<rparr>
              else \<lparr>ui_subject = sub, ui_email = email, ui_name = shown, ui_admin = None, ui_claim_absent = False\<rparr>))
      | _ \<Rightarrow> None)"

text \<open>\<open>HandleCallback\<close>: the account and the ID token, and the cookie to set.\<close>

definition handle_callback :: "config \<Rightarrow> idp \<Rightarrow> request \<Rightarrow> (string + user_info \<times> string) \<times> cookie list" where
  "handle_callback c P r =
     (let state = query_value r ''state''
      in if cookie_of r (state_cookie c state) \<noteq> Some state then (Inl ''invalid state'', [])
         else let gone = [\<lparr>ck_name = state_cookie c state, ck_value = [], ck_path = ''/'', ck_max_age = -1,
                           ck_http_only = False, ck_secure = cf_cookie_secure c, ck_lax = False\<rparr>]
              in (case idp_exchange P (query_value r ''code'') of
                    Inl e \<Rightarrow> Inl (''exchange code: '' @ e)
                  | Inr None \<Rightarrow> Inl ''no id_token in response''
                  | Inr (Some raw) \<Rightarrow>
                      (case idp_verify P raw of
                         Inl e \<Rightarrow> Inl (''verify id_token: '' @ e)
                       | Inr claims \<Rightarrow>
                           (case info_of_claims c claims of
                              None \<Rightarrow> Inl ''parse claims''
                            | Some info \<Rightarrow> Inr (info, raw))), gone))"

section \<open>Accounts\<close>

text \<open>
  \<open>Store.GetOrCreateUser\<close>: any failed look-up leads to an insertion, and a failed update of name and
  email goes unnoticed.
\<close>

definition store_get_or_create :: "string \<Rightarrow> string \<Rightarrow> string \<Rightarrow> ('g, string + user) act" where
  "store_get_or_create sub email name = do {
     r \<leftarrow> query (get_user_by_sub sub);
     now \<leftarrow> time_now;
     case r of
       Inr u \<Rightarrow> do {
         _ \<leftarrow> store (update_identity (us_id u) email name now);
         State_Monad.return (Inr (u\<lparr>us_email := email, us_name := name, us_updated := now\<rparr>)) }
     | Inl _ \<Rightarrow> do {
         i \<leftarrow> store (insert_user \<lparr>us_id = 0, us_sub = sub, us_email = email, us_name = name, us_profile = None,
                us_expires = None, us_after = None, us_revoke = False, us_admin = False,
                us_created = now, us_updated = now\<rparr>);
         State_Monad.return (case i of Inl e \<Rightarrow> Inl (''create user: '' @ db_error_text e) | Inr u \<Rightarrow> Inr u) } }"

definition audit_admin_granted :: string where "audit_admin_granted = ''admin.granted''"
definition audit_admin_revoked :: string where "audit_admin_revoked = ''admin.revoked''"
definition login_actor :: string where "login_actor = ''login system''"

definition login_detail :: "config \<Rightarrow> bool \<Rightarrow> bool \<Rightarrow> string" where
  "login_detail c admin absent =
     (if admin then ''member of group '' @ cf_admin_group c
      else if absent then ''claim '' @ cf_admin_claim c @ '' absent from the ID token''
      else ''left group '' @ cf_admin_group c)"

text \<open>\<open>Provider.GetOrCreateUser\<close>: a flag that cannot be written fails the login.\<close>

definition get_or_create_user :: "config \<Rightarrow> user_info \<Rightarrow> ('g, string + user) act" where
  "get_or_create_user c info = do {
     r \<leftarrow> store_get_or_create (ui_subject info) (ui_email info) (ui_name info);
     case r of
       Inl e \<Rightarrow> State_Monad.return (Inl e)
     | Inr u \<Rightarrow>
         (case ui_admin info of
            None \<Rightarrow> State_Monad.return (Inr u)
          | Some admin \<Rightarrow>
              if us_admin u = admin then State_Monad.return (Inr u)
              else do {
                s \<leftarrow> store_now (\<lambda>t. set_user_admin t (us_id u) admin);
                case s of
                  Inl e \<Rightarrow> State_Monad.return (Inl (''set admin flag: '' @ db_error_text e))
                | Inr _ \<Rightarrow> do {
                    _ \<leftarrow> store_now (\<lambda>t. record_audit t \<lparr>au_id = 0, au_created = 0,
                           au_action = (if admin then audit_admin_granted else audit_admin_revoked),
                           au_actor = login_actor, au_subject = us_email u, au_subject_id = Some (us_id u),
                           au_detail = login_detail c admin (ui_claim_absent info)\<rparr>);
                    State_Monad.return (Inr (u\<lparr>us_admin := admin\<rparr>)) } }) }"

section \<open>Logout\<close>

definition backchannel_event :: string where
  "backchannel_event = ''http://schemas.openid.net/event/backchannel-logout''"

text \<open>\<open>ValidateLogoutToken\<close>: the subject whose sessions end.\<close>

definition validate_logout_token :: "idp \<Rightarrow> string \<Rightarrow> string + string" where
  "validate_logout_token P raw =
     (case idp_verify_logout P raw of
        Inl e \<Rightarrow> Inl (''verify logout token: '' @ e)
      | Inr claims \<Rightarrow>
          (case (string_field ''nonce'' claims, object_field ''events'' claims, string_field ''sub'' claims) of
             (Some nonce, Some events, Some sub) \<Rightarrow>
               if nonce \<noteq> [] then Inl ''logout token must not contain nonce''
               else if json_key backchannel_event events = None then
                 Inl ''logout token missing backchannel-logout event''
               else if sub = [] then Inl ''logout token missing sub''
               else Inr sub
           | _ \<Rightarrow> Inl ''parse logout token claims''))"

text \<open>\<open>LogoutURL\<close>: the query of the endpoint with two more parameters.\<close>

definition logout_url :: "config \<Rightarrow> idp \<Rightarrow> string \<Rightarrow> string" where
  "logout_url c P id_token =
     (let u = idp_end_session P
      in if u = [] then []
         else let (base, frag) = (case cut_at (CHR ''#'') u of None \<Rightarrow> (u, []) | Some (b, f) \<Rightarrow> (b, CHR ''#'' # f));
                  (path, q) = (case cut_at (CHR ''?'') base of None \<Rightarrow> (base, []) | Some p \<Rightarrow> p)
              in path @ ''?'' @ query_encode (query_set ''post_logout_redirect_uri'' (cf_frontend c)
                   (query_set ''id_token_hint'' id_token (parse_query q))) @ frag)"

section \<open>Lemmas\<close>

lemma oidc_steps [steps]:
  "db_steps (login_handler c P r)" "db_steps (store_get_or_create sub email name)"
  "db_steps (get_or_create_user c info)"
proof -
  show "db_steps (login_handler c P r)" unfolding login_handler_def Let_def by (intro steps)
  show 1: "db_steps (store_get_or_create sub email name)" for sub email name
    unfolding store_get_or_create_def
    by (intro steps db_steps_store) (erule db_step.identity db_step.insert_user; simp)+
  show "db_steps (get_or_create_user c info)"
    unfolding get_or_create_user_def
    by (intro steps 1 db_steps_store_now) (erule db_step.admin db_step.audit)+
qed

lemma group_membership_present: "fst (group_membership cl path g) \<Longrightarrow> snd (group_membership cl path g)"
  by (auto simp: group_membership_def split: option.splits json.splits)

lemma validate_logout_token_ok:
  "validate_logout_token P raw = Inr sub \<Longrightarrow> sub \<noteq> [] \<and> (\<exists>claims. idp_verify_logout P raw = Inr claims
     \<and> string_field ''nonce'' claims = Some [] \<and> string_field ''sub'' claims = Some sub)"
  by (auto simp: validate_logout_token_def split: sum.splits option.splits if_splits)

end
