(* ===== verification/Float64.thy ===== *)
theory Float64
  imports GoText
begin

text \<open>
  Go's \<open>float64\<close> arithmetic on finite values, as rational numbers: an operation gives the exact result
  rounded to 53 significant bits, ties to even (\<open>fl64\<close>).  Overflow to infinity is not modelled, since no
  amount of money or tokens comes near it.  Also \<open>strconv.ParseFloat\<close> on decimal numbers and the
  conversion to an integer.
\<close>

section \<open>Rounding\<close>

text \<open>The bits of a positive integer.\<close>

function bit_len :: "int \<Rightarrow> int" where
  "bit_len n = (if n \<le> 0 then 0 else 1 + bit_len (n div 2))"
  by pat_completeness auto

termination by (relation "measure nat") auto

declare bit_len.simps [simp del]

definition pow2 :: "int \<Rightarrow> rat" where
  "pow2 e = (if 0 \<le> e then 2 ^ nat e else 1 / 2 ^ nat (- e))"

lemma pow2_pos [simp]: "pow2 e > 0"
  by (simp add: pow2_def)

text \<open>The exponent of the highest bit of a positive rational number.\<close>

definition top_bit :: "rat \<Rightarrow> int" where
  "top_bit x = (case quotient_of x of (n, d) \<Rightarrow>
     let e = bit_len n - bit_len d in if pow2 e \<le> x then e else e - 1)"

text \<open>To the nearest integer, ties to even.\<close>

definition round_even :: "rat \<Rightarrow> int" where
  "round_even x =
     (let f = \<lfloor>x\<rfloor>; r = x - of_int f
      in if r < 1 / 2 \<or> (r = 1 / 2 \<and> even f) then f else f + 1)"

definition fl64 :: "rat \<Rightarrow> rat" where
  "fl64 x =
     (if x = 0 then 0
      else let a = abs x; u = pow2 (max (top_bit a - 52) (-1074)); m = of_int (round_even (a / u)) * u
           in if x < 0 then - m else m)"

definition fmul :: "rat \<Rightarrow> rat \<Rightarrow> rat" where "fmul a b = fl64 (a * b)"
definition fdiv :: "rat \<Rightarrow> rat \<Rightarrow> rat" where "fdiv a b = fl64 (a / b)"
definition fadd :: "rat \<Rightarrow> rat \<Rightarrow> rat" where "fadd a b = fl64 (a + b)"
definition float_of_int :: "int \<Rightarrow> rat" where "float_of_int i = fl64 (of_int i)"

text \<open>
  \<open>int(x)\<close>: truncation; out of range the result depends on the machine, and amd64 gives the smallest
  integer.
\<close>

definition int_of_float :: "rat \<Rightarrow> int" where
  "int_of_float x = (let t = (if x < 0 then - \<lfloor>- x\<rfloor> else \<lfloor>x\<rfloor>) in if in_int64 t then t else min_int64)"

lemma round_even_nonneg: "0 \<le> x \<Longrightarrow> 0 \<le> round_even x"
  by (simp add: round_even_def Let_def)

lemma fl64_nonneg: "0 \<le> x \<Longrightarrow> 0 \<le> fl64 x"
  by (auto simp: fl64_def Let_def
      intro!: mult_nonneg_nonneg round_even_nonneg divide_nonneg_nonneg less_imp_le [OF pow2_pos])

lemma fl64_examples:
  "fl64 (29 / 100 * 100) = 29" "fmul (fl64 (29 / 100)) 100 = 28.999999999999996447286321199499070644378662109375"
  "fdiv 1 3 = 6004799503160661 / 2 ^ 54"
  by code_simp+

section \<open>Decimal numbers\<close>

text \<open>
  \<open>strconv.ParseFloat(s, 64)\<close>: an error, not a number, an infinity, or a finite value.  The hexadecimal
  form is left out; so is the error for a value that overflows.
\<close>

datatype parsed_float = FloatError | FloatNaN | FloatInf | FloatValue rat

definition pow10 :: "int \<Rightarrow> rat" where
  "pow10 e = (if 0 \<le> e then 10 ^ nat e else 1 / 10 ^ nat (- e))"

text \<open>The exponent after \<open>e\<close>: an optional sign and digits.\<close>

definition parse_exponent :: "string \<Rightarrow> int option" where
  "parse_exponent s =
     (case s of
        [] \<Rightarrow> None
      | c # cs \<Rightarrow>
          if c = CHR ''-'' then map_option (\<lambda>n. - int n) (parse_nat cs)
          else if c = CHR ''+'' then map_option int (parse_nat cs) else map_option int (parse_nat s))"

fun digits_int :: "int \<Rightarrow> string \<Rightarrow> int" where
  "digits_int acc [] = acc"
| "digits_int acc (c # cs) = digits_int (10 * acc + (of_char c - 48)) cs"

definition parse_decimal :: "string \<Rightarrow> rat option" where
  "parse_decimal s =
     (let whole = takeWhile is_digit s; r1 = dropWhile is_digit s;
          dot = (r1 \<noteq> [] \<and> hd r1 = CHR ''.''); r2 = (if dot then tl r1 else r1);
          frac = (if dot then takeWhile is_digit r2 else []); r3 = (if dot then dropWhile is_digit r2 else r2);
          v = of_int (digits_int 0 (whole @ frac)) / 10 ^ length frac
      in if whole = [] \<and> frac = [] then None
         else if r3 = [] then Some v
         else if hd r3 = CHR ''e'' \<or> hd r3 = CHR ''E'' then map_option (\<lambda>e. v * pow10 e) (parse_exponent (tl r3))
         else None)"

definition parse_float :: "string \<Rightarrow> parsed_float" where
  "parse_float s =
     (let neg = (s \<noteq> [] \<and> hd s = CHR ''-'');
          t = (if s \<noteq> [] \<and> (hd s = CHR ''-'' \<or> hd s = CHR ''+'') then tl s else s);
          l = to_lower t
      in if l = ''inf'' \<or> l = ''infinity'' then FloatInf
         else if to_lower s = ''nan'' then FloatNaN
         else case parse_decimal t of
                None \<Rightarrow> FloatError
              | Some v \<Rightarrow> FloatValue (if neg then - fl64 v else fl64 v))"

lemma parse_float_examples:
  "parse_float ''0.5'' = FloatValue (1 / 2)" "parse_float ''-12.25'' = FloatValue (- 12.25)"
  "parse_float ''1e3'' = FloatValue 1000"
  "parse_float ''x'' = FloatError" "parse_float ''NaN'' = FloatNaN"
  "parse_float [] = FloatError" "parse_float ''.'' = FloatError"
  by code_simp+

section \<open>Formatting\<close>

text \<open>\<open>strconv.FormatFloat(x, 'f', n, 64)\<close> of a value that is not negative: the exact value, ties to even.\<close>

definition format_fixed :: "nat \<Rightarrow> rat \<Rightarrow> string" where
  "format_fixed n x =
     (let m = round_even (x * 10 ^ n)
      in format_int (m div 10 ^ n) @ (if n = 0 then [] else CHR ''.'' # pad_nat n (nat (m mod 10 ^ n))))"

lemma format_fixed_examples:
  "format_fixed 2 (1 / 8) = ''0.12''" "format_fixed 2 5 = ''5.00''" "format_fixed 4 (1 / 20000) = ''0.0000''"
  by code_simp+

end
