(* ===== verification/I18n.thy ===== *)
theory I18n
  imports Http Float64
begin

text \<open>
  Package \<open>internal/i18n\<close>: the choice of a language from a request (\<open>i18n.go\<close>), the messages that the
  modelled handlers compose (\<open>messages.go\<close>; the other texts are only printed by the templates), the
  look-up of a message, and \<open>fmt.Sprintf\<close> for the verbs that messages use.  Texts are UTF-8 bytes.
\<close>

section \<open>Languages\<close>

type_synonym lang = string

definition lang_de :: lang where "lang_de = ''de''"
definition lang_en :: lang where "lang_en = ''en''"
definition default_lang :: lang where "default_lang = lang_de"
definition lang_cookie :: string where "lang_cookie = ''lang''"
definition supported_langs :: "lang list" where "supported_langs = [lang_de, lang_en]"

definition valid_lang :: "lang \<Rightarrow> bool" where
  "valid_lang l \<longleftrightarrow> list_ex (\<lambda>s. s = l) supported_langs"

definition lang_name :: "lang \<Rightarrow> string" where
  "lang_name l = (if l = lang_en then ''English'' else ''Deutsch'')"

text \<open>\<open>parseQ\<close>; \<open>None\<close> for NaN, which no comparison accepts.\<close>

definition parse_q :: "string \<Rightarrow> rat option" where
  "parse_q s =
     (let t = trim_space s
      in if \<not> has_prefix ''q='' t then Some 1
         else case parse_float (trim_space (drop 2 t)) of
                FloatValue q \<Rightarrow> if q < 0 \<or> q > 1 then Some 1 else Some q
              | FloatNaN \<Rightarrow> None
              | _ \<Rightarrow> Some 1)"

text \<open>One entry of the header: its primary subtag and weight; \<open>None\<close> for an entry without a tag.\<close>

definition accept_entry :: "string \<Rightarrow> (lang \<times> rat option) option" where
  "accept_entry part =
     (let tag = trim_space part;
          (tag', q) = (case cut_at (CHR '';'') tag of
                         None \<Rightarrow> (tag, Some 1)
                       | Some (a, b) \<Rightarrow> (trim_space a, parse_q b))
      in if tag' = [] then None else Some (to_lower (hd (split_on (CHR ''-'') tag')), q))"

fun best_language :: "lang \<times> rat \<Rightarrow> string list \<Rightarrow> lang \<times> rat" where
  "best_language b [] = b"
| "best_language (l, q) (p # ps) =
     (case accept_entry p of
        Some (l', Some q') \<Rightarrow> best_language (if valid_lang l' \<and> q' > q then (l', q') else (l, q)) ps
      | _ \<Rightarrow> best_language (l, q) ps)"

definition from_accept_language :: "string \<Rightarrow> lang" where
  "from_accept_language header = fst (best_language (default_lang, -1) (split_on (CHR '','') header))"

text \<open>\<open>FromRequest\<close>: the cookie, then the header, then the default.\<close>

definition lang_from_request :: "request \<Rightarrow> lang" where
  "lang_from_request r =
     (case cookie_of r lang_cookie of
        Some l \<Rightarrow> if valid_lang l then l else from_accept_language (header_of r ''Accept-Language'')
      | None \<Rightarrow> from_accept_language (header_of r ''Accept-Language''))"

section \<open>Messages\<close>

text \<open>Each entry is a key with its German and its English text.\<close>

definition messages_profile :: "(string \<times> string \<times> string) list" where
  "messages_profile =
    [(''dash.profile.until'', ''Dieses Profil gilt bis zum %s. Danach gelten wieder die Standardgrenzen.'',
        ''This profile applies until %s. The standard limits return afterwards.''),
     (''dash.profile.until.profile'', ''Dieses Profil gilt bis zum %s. Danach wechseln Sie auf das Profil '' @ [CHR 0xE2, CHR 0x80, CHR 0x9E] @ ''%s'' @ [CHR 0xE2, CHR 0x80, CHR 0x9C] @ ''.'',
        ''This profile applies until %s. You then move to the %q profile.''),
     (''dash.profile.until.revoke'', ''Dieses Profil gilt bis zum %s. Danach wird Ihr Schl'' @ [CHR 0xC3, CHR 0xBC] @ ''ssel gel'' @ [CHR 0xC3, CHR 0xB6] @ ''scht; ein neuer l'' @ [CHR 0xC3, CHR 0xA4] @ ''sst sich jederzeit erzeugen.'',
        ''This profile applies until %s. Your key is deleted afterwards; you can generate a new one at any time.''),
     (''dash.profile.overdue'', ''Dieses Profil galt bis zum %s. Die Umstellung erfolgt in K'' @ [CHR 0xC3, CHR 0xBC] @ ''rze automatisch.'',
        ''This profile applied until %s. The change happens automatically, shortly.'')]"

definition messages_sync :: "(string \<times> string \<times> string) list" where
  "messages_sync =
    [(''admin.sync.title'', ''Aktualisierung der API-Schl'' @ [CHR 0xC3, CHR 0xBC] @ ''ssel'',
        ''API Key Updates''),
     (''admin.sync.queue'', ''Warteschlange'',
        ''Update queue''),
     (''admin.sync.ok'', ''Alle Schl'' @ [CHR 0xC3, CHR 0xBC] @ ''ssel haben die aktuellen Limits ihres Profils.'',
        ''All keys carry their profile'' @ [CHR 0x27] @ ''s current limits.''),
     (''admin.sync.pending'', ''%d Schl'' @ [CHR 0xC3, CHR 0xBC] @ ''ssel warten noch auf die aktuellen Limits ihres Profils.'',
        ''%d keys are still waiting for their profile'' @ [CHR 0x27] @ ''s current limits.''),
     (''admin.sync.pending.one'', ''%d Schl'' @ [CHR 0xC3, CHR 0xBC] @ ''ssel wartet noch auf die aktuellen Limits seines Profils.'',
        ''%d key is still waiting for its profile'' @ [CHR 0x27] @ ''s current limits.''),
     (''admin.sync.running'', ''Die '' @ [CHR 0xC3, CHR 0x9C] @ ''bertragung l'' @ [CHR 0xC3, CHR 0xA4] @ ''uft gerade.'',
        ''The update is running now.''),
     (''admin.sync.next'', ''Der n'' @ [CHR 0xC3, CHR 0xA4] @ ''chste Durchlauf beginnt sp'' @ [CHR 0xC3, CHR 0xA4] @ ''testens in %s.'',
        ''The next run starts within %s.''),
     (''admin.sync.failed'', ''Bei %d davon ist der letzte Versuch fehlgeschlagen; sie werden automatisch erneut versucht.'',
        ''%d of them failed on the last attempt and are retried automatically.''),
     (''admin.sync.failed.one'', ''Bei %d davon ist der letzte Versuch fehlgeschlagen; er wird automatisch erneut versucht.'',
        ''%d of them failed on the last attempt and is retried automatically.''),
     (''admin.sync.last'', ''Letzter Durchlauf beendet: %s'',
        ''Last run finished: %s''),
     (''admin.sync.unavailable'', ''Der Stand der '' @ [CHR 0xC3, CHR 0x9C] @ ''bertragung konnte nicht geladen werden.'',
        ''The update status could not be loaded.''),
     (''admin.sync.failures'', ''Fehlgeschlagene Schl'' @ [CHR 0xC3, CHR 0xBC] @ ''ssel'',
        ''Failed keys''),
     (''admin.sync.col.key'', ''Schl'' @ [CHR 0xC3, CHR 0xBC] @ ''ssel'',
        ''Key''),
     (''admin.sync.col.error'', ''Fehler'',
        ''Error''),
     (''admin.sync.col.when'', ''Zeitpunkt'',
        ''When''),
     (''admin.sync.more'', [CHR 0xE2, CHR 0x80, CHR 0xA6] @ '' und %d weitere'',
        [CHR 0xE2, CHR 0x80, CHR 0xA6] @ '' and %d more''),
     (''admin.sync.badge'', ''ausstehend'',
        ''pending''),
     (''admin.sync.badge.help'', ''So viele Schl'' @ [CHR 0xC3, CHR 0xBC] @ ''ssel mit diesem Profil haben die aktuellen Limits noch nicht erhalten.'',
        ''This many keys on this profile have not received the current limits yet.'')]"

definition messages_period :: "(string \<times> string \<times> string) list" where
  "messages_period =
    [(''period.hour'', ''pro Stunde'',
        ''per hour''),
     (''period.day'', ''pro Tag'',
        ''per day''),
     (''period.week'', ''pro Woche'',
        ''per week''),
     (''period.month'', ''pro Monat'',
        ''per month'')]"

definition messages :: "(string \<times> string \<times> string) list" where
  "messages = messages_profile @ messages_sync @ messages_period"

text \<open>\<open>T\<close>: the text in the language, else in English, else the key.\<close>

definition text_in :: "lang \<Rightarrow> string \<times> string \<Rightarrow> string" where
  "text_in l p = (if l = lang_de then fst p else if l = lang_en then snd p else [])"

definition translate :: "lang \<Rightarrow> string \<Rightarrow> string" where
  "translate l key =
     (case map_of messages key of
        None \<Rightarrow> key
      | Some p \<Rightarrow> if text_in l p \<noteq> [] then text_in l p
                  else if text_in lang_en p \<noteq> [] then text_in lang_en p else key)"

section \<open>Formatting\<close>

datatype fmt_arg = FmtS string | FmtD int

text \<open>\<open>strconv.Quote\<close> of printable text: quotes and backslashes are escaped, and control characters.\<close>

definition quote_char :: "char \<Rightarrow> string" where
  "quote_char c =
     (let n = of_char c :: nat
      in if n = 34 \<or> n = 92 then [CHR 0x5C, c]
         else if n = 10 then [CHR 0x5C, CHR ''n'']
         else if n = 13 then [CHR 0x5C, CHR ''r'']
         else if n = 9 then [CHR 0x5C, CHR ''t'']
         else if n < 32 \<or> n = 127 then [CHR 0x5C, CHR ''x''] @ hex_encode [c]
         else [c])"

definition go_quote :: "string \<Rightarrow> string" where
  "go_quote s = CHR 0x22 # concat (map quote_char s) @ [CHR 0x22]"

text \<open>The verbs s, d and q, each of which takes the next argument.\<close>

definition fmt_verb :: "char \<Rightarrow> fmt_arg \<Rightarrow> string" where
  "fmt_verb v a = (case a of
       FmtS s \<Rightarrow> if v = CHR ''q'' then go_quote s else s
     | FmtD i \<Rightarrow> format_int i)"

fun sprintf :: "string \<Rightarrow> fmt_arg list \<Rightarrow> string" where
  "sprintf [] as = []"
| "sprintf [c] as = [c]"
| "sprintf (c # v # s) as =
     (if c = CHR ''%'' \<and> v \<in> {CHR ''s'', CHR ''d'', CHR ''q''}
      then (case as of [] \<Rightarrow> ''%!'' @ [v] @ ''(MISSING)'' @ sprintf s [] | a # as' \<Rightarrow> fmt_verb v a @ sprintf s as')
      else c # sprintf (v # s) as)"

section \<open>Lemmas\<close>

lemma valid_lang_iff: "valid_lang l \<longleftrightarrow> l = lang_de \<or> l = lang_en"
  by (auto simp: valid_lang_def supported_langs_def)

lemma best_language_valid: "valid_lang (fst b) \<Longrightarrow> valid_lang (fst (best_language b ps))"
  by (induction b ps rule: best_language.induct) (auto split: option.split)

lemma lang_from_request_valid: "valid_lang (lang_from_request r)"
proof -
  have "valid_lang (from_accept_language h)" for h
    unfolding from_accept_language_def
    by (rule best_language_valid) (simp add: valid_lang_iff default_lang_def)
  then show ?thesis by (simp add: lang_from_request_def split: option.split)
qed

lemma catalogue_complete: "list_all (\<lambda>(k, de, en). de \<noteq> [] \<and> en \<noteq> []) messages"
  by code_simp

lemma catalogue_distinct: "distinct (map fst messages)"
  by code_simp

end
