(* ===== verification/Charts.thy ===== *)
theory Charts
  imports I18n
begin

text \<open>
  The figures of the dashboard: the usage chart of \<open>internal/handlers/usagebars.go\<close>, the amounts of
  \<open>budgetfmt.go\<close>, and the template helpers of \<open>lang.go\<close>.  Days are day numbers; token totals are
  unbounded integers, far below the width of \<open>int64\<close>.
\<close>

section \<open>The usage chart\<close>

record usage_bar =
  ub_label :: string
  ub_title :: string
  ub_tokens :: int

definition max_daily_window :: int where "max_daily_window = 62"
definition max_weekly_window :: int where "max_weekly_window = 730"
definition max_labelled_bars :: nat where "max_labelled_bars = 31"

text \<open>The map \<open>byDay\<close>: the tokens of the entries with this date.\<close>

definition tokens_on :: "daily_usage list \<Rightarrow> int \<Rightarrow> int" where
  "tokens_on ds d = sum_list (map du_tokens (filter (\<lambda>u. du_day u = format_day d) ds))"

text \<open>\<open>sumDays\<close>.\<close>

definition sum_days :: "daily_usage list \<Rightarrow> int \<Rightarrow> int \<Rightarrow> int" where
  "sum_days ds a b = sum_list (map (tokens_on ds) [a..b])"

text \<open>\<open>mondayOf\<close>.\<close>

definition monday_of :: "int \<Rightarrow> int" where
  "monday_of d = d - (weekday d + 6) mod 7"

function week_starts :: "int \<Rightarrow> int \<Rightarrow> int list" where
  "week_starts w today = (if w > today then [] else w # week_starts (w + 7) today)"
  by pat_completeness auto

termination by (relation "measure (\<lambda>(w, t). nat (t - w + 1))") auto

declare week_starts.simps [simp del]

text \<open>Month number i is month i mod 12, counted from January as 0, of year i div 12.\<close>

definition month_start :: "int \<Rightarrow> int" where
  "month_start i = day_of_civil (i div 12) (i mod 12 + 1) 1"

lemma year_days:
  fixes y :: int
  shows "y div 400 * 146097 + (365 * (y mod 400) + (y mod 400) div 4 - (y mod 400) div 100) =
     365 * y + y div 4 - y div 100 + y div 400"
proof -
  define q r where "q = y div 400" and "r = y mod 400"
  have y: "y = r + 100 * q * 4" "y = r + 4 * q * 100" by (simp_all add: q_def r_def)
  have "y div 4 = 100 * q + r div 4" unfolding y(1) by (simp only: div_mult_self1)
  moreover have "y div 100 = 4 * q + r div 100" unfolding y(2) by (simp only: div_mult_self1)
  ultimately show ?thesis using y(1) unfolding q_def [symmetric] r_def [symmetric] by linarith
qed

lemma day_of_civil_alt:
  "day_of_civil y m d =
     (let y' = (if m \<le> 2 then y - 1 else y)
      in 365 * y' + y' div 4 - y' div 100 + y' div 400 + (153 * ((m + 9) mod 12) + 2) div 5 + d - 719469)"
proof -
  define y' where "y' = (if m \<le> 2 then y - 1 else y)"
  show ?thesis
    unfolding day_of_civil_def Let_def y'_def [symmetric] using year_days [of y'] by linarith
qed

lemma pred_div:
  fixes y k :: int
  assumes "0 < k"
  shows "(y - 1) div k = y div k - (if k dvd y then 1 else 0)"
proof (cases "k dvd y")
  case True
  then have "y - 1 = k * (y div k - 1) + (k - 1)" by (simp add: algebra_simps)
  then show ?thesis using True assms int_div_pos_eq [of "y - 1" k "y div k - 1" "k - 1"] by simp
next
  case False
  then have "0 < y mod k" using assms by (metis dvd_eq_mod_eq_0 less_le pos_mod_sign)
  moreover have "y - 1 = k * (y div k) + (y mod k - 1)" by simp
  moreover have "y mod k < k" using assms by simp
  ultimately show ?thesis using False int_div_pos_eq [of "y - 1" k "y div k" "y mod k - 1"] by simp
qed

text \<open>The leap days up to a year.\<close>

definition year_leaps :: "int \<Rightarrow> int" where
  "year_leaps y = y div 4 - y div 100 + y div 400"

lemma leap_years: "year_leaps (y - 1) \<le> year_leaps y \<and> year_leaps y \<le> year_leaps (y - 1) + 1"
proof -
  have "(100::int) dvd y \<Longrightarrow> 4 dvd y" "(400::int) dvd y \<Longrightarrow> 100 dvd y"
    by (rule dvd_trans [of _ 100] dvd_trans [of _ 400]; simp)+
  then show ?thesis by (simp add: year_leaps_def pred_div)
qed

lemma month_start_next: "month_start i + 28 \<le> month_start (i + 1) \<and> month_start (i + 1) \<le> month_start i + 31"
proof -
  define y m where "y = i div 12" and "m = i mod 12"
  have i: "i = 12 * y + m" and "0 \<le> m" "m < 12" by (simp_all add: y_def m_def)
  then have m: "m = 0 \<or> m = 1 \<or> m = 2 \<or> m = 3 \<or> m = 4 \<or> m = 5 \<or> m = 6 \<or> m = 7 \<or> m = 8 \<or> m = 9 \<or> m = 10 \<or> m = 11"
    by arith
  have s: "month_start i = day_of_civil y (m + 1) 1" by (simp add: month_start_def y_def m_def)
  have "month_start (i + 1) = (if m = 11 then day_of_civil (y + 1) 1 1 else day_of_civil y (m + 2) 1)"
  proof (cases "m = 11")
    case True
    then have "i + 1 = 12 * (y + 1) + 0" using i by simp
    then have "(i + 1) div 12 = y + 1" "(i + 1) mod 12 = 0" by simp_all
    then show ?thesis using True by (simp add: month_start_def)
  next
    case False
    then have "i + 1 = 12 * y + (m + 1)" "m + 1 < 12" "0 \<le> m + 1" using i \<open>m < 12\<close> \<open>0 \<le> m\<close> by auto
    then have "(i + 1) div 12 = y" "(i + 1) mod 12 = m + 1"
      using int_div_pos_eq [of "i + 1" 12 y "m + 1"] int_mod_pos_eq [of "i + 1" 12 y "m + 1"] by simp_all
    then show ?thesis using False by (simp add: month_start_def add.commute)
  qed
  then have "month_start (i + 1) - month_start i = (if m = 1 then 28 + (year_leaps y - year_leaps (y - 1))
      else if m \<in> {3, 5, 8, 10} then 30 else 31)"
    unfolding s using m by (elim disjE) (simp_all add: day_of_civil_alt year_leaps_def Let_def)
  then show ?thesis using leap_years [of y] by (simp split: if_splits)
qed

lemma month_start_less: "month_start i < month_start (i + 1)"
  using month_start_next [of i] by linarith

function month_indices :: "int \<Rightarrow> int \<Rightarrow> int list" where
  "month_indices i today = (if month_start i > today then [] else i # month_indices (i + 1) today)"
  by pat_completeness auto

termination
proof (relation "measure (\<lambda>(i, t). nat (t - month_start i + 1))", goal_cases)
  case (2 i today)
  then show ?case using month_start_less [of i] by simp
qed simp

declare month_indices.simps [simp del]

definition daily_bars :: "daily_usage list \<Rightarrow> int \<Rightarrow> int \<Rightarrow> usage_bar list" where
  "daily_bars ds start today =
     map (\<lambda>d. \<lparr>ub_label = format_dd d, ub_title = format_day d, ub_tokens = tokens_on ds d\<rparr>) [start..today]"

definition en_dash :: string where "en_dash = [CHR 0xE2, CHR 0x80, CHR 0x93]"

definition weekly_bars :: "daily_usage list \<Rightarrow> int \<Rightarrow> int \<Rightarrow> usage_bar list" where
  "weekly_bars ds start today =
     map (\<lambda>w. \<lparr>ub_label = format_month_day w,
               ub_title = format_day w @ '' '' @ en_dash @ '' '' @ format_day (w + 6),
               ub_tokens = sum_days ds w (w + 6)\<rparr>) (week_starts (monday_of start) today)"

definition monthly_bars :: "daily_usage list \<Rightarrow> int \<Rightarrow> int \<Rightarrow> usage_bar list" where
  "monthly_bars ds start today =
     map (\<lambda>i. \<lparr>ub_label = format_month (month_start i), ub_title = format_month (month_start i),
               ub_tokens = sum_days ds (month_start i) (month_start (i + 1) - 1)\<rparr>)
       (month_indices (case civil_of_day start of (y, m, _) \<Rightarrow> 12 * y + m - 1) today)"

text \<open>Labels that would overlap are blanked, all but every n-th.\<close>

definition thin_labels :: "usage_bar list \<Rightarrow> usage_bar list" where
  "thin_labels bars =
     (let n = length bars
      in if n > max_labelled_bars then
           (let every = (n + max_labelled_bars - 1) div max_labelled_bars
            in map (\<lambda>(i, b). if i mod every \<noteq> 0 then b\<lparr>ub_label := []\<rparr> else b) (zip [0..<n] bars))
         else bars)"

text \<open>\<open>usageBars\<close>.\<close>

definition usage_bars :: "daily_usage list \<Rightarrow> int \<Rightarrow> time \<Rightarrow> usage_bar list" where
  "usage_bars ds window now =
     (let window' = (if window < 1 then 1 else window);
          today = day_of now; start = today - (window' - 1)
      in thin_labels
           (if window' \<le> max_daily_window then daily_bars ds start today
            else if window' \<le> max_weekly_window then weekly_bars ds start today
            else monthly_bars ds start today))"

section \<open>Amounts\<close>

definition is_ascii_letter :: "char \<Rightarrow> bool" where
  "is_ascii_letter c \<longleftrightarrow> in_range CHR ''a'' CHR ''z'' c \<or> in_range CHR ''A'' CHR ''Z'' c"

text \<open>
  \<open>FormatBudget\<close>.  Whether the unit is one character that is no letter is \<open>unicode\<close>'s affair: a text of
  one rune has one byte that does not continue a rune; of the runes beyond ASCII, \<open>letter\<close> says which
  are letters.
\<close>

definition rune_count :: "string \<Rightarrow> nat" where
  "rune_count s = count_where (\<lambda>c. (of_char c :: int) div 64 \<noteq> 2) s"

definition symbol_unit :: "(string \<Rightarrow> bool) \<Rightarrow> string \<Rightarrow> bool" where
  "symbol_unit letter u \<longleftrightarrow> rune_count u = 1
     \<and> \<not> (if length u = 1 then is_ascii_letter (hd u) else letter u)"

definition format_budget :: "(string \<Rightarrow> bool) \<Rightarrow> rat \<Rightarrow> string \<Rightarrow> string" where
  "format_budget letter amount unit =
     (let s2 = format_fixed 2 amount;
          s = (if amount > 0 \<and> s2 = ''0.00'' then format_fixed 4 amount else s2);
          tiny = (amount > 0 \<and> s = ''0.0000'');
          p = (if tiny then ''<'' else []); t = (if tiny then ''0.0001'' else s)
      in if unit = [] then p @ t
         else if symbol_unit letter unit then p @ unit @ t
         else p @ t @ '' '' @ unit)"

text \<open>\<open>FormatPct\<close>.\<close>

definition format_pct :: "rat \<Rightarrow> int \<Rightarrow> string" where
  "format_pct used pct = (if used > 0 \<and> pct = 0 then ''<1%'' else format_int pct @ ''%'')"

section \<open>Template helpers\<close>

text \<open>\<open>barPct\<close>.\<close>

definition bar_pct :: "int \<Rightarrow> int \<Rightarrow> int" where
  "bar_pct tokens peak =
     (if peak \<le> 0 \<or> tokens \<le> 0 then 0 else max 2 (trunc_div (tokens * 100) peak))"

text \<open>\<open>thousands\<close>: a comma before every group of three that is not the first.\<close>

definition thousands :: "int \<Rightarrow> string" where
  "thousands n =
     (let s = format_int n
      in if length s \<le> 3 then s
         else concat (map (\<lambda>(i, c). if i > 0 \<and> (length s - i) mod 3 = 0 then [CHR '','', c] else [c])
                (zip [0..<length s] s)))"

section \<open>Lemmas\<close>

lemma length_thin_labels [simp]: "length (thin_labels bs) = length bs"
  by (simp add: thin_labels_def Let_def)

lemma tokens_thin_labels [simp]: "map ub_tokens (thin_labels bs) = map ub_tokens bs"
proof -
  have "map (ub_tokens \<circ> (\<lambda>(i, b). if i mod k \<noteq> 0 then b\<lparr>ub_label := []\<rparr> else b)) (zip [0..<length bs] bs) =
      map (ub_tokens \<circ> snd) (zip [0..<length bs] bs)" for k :: nat
    by (rule map_cong) auto
  then show ?thesis
    by (simp add: thin_labels_def Let_def flip: map_map)
qed

lemma bar_pct_bounds: "tokens \<le> peak \<Longrightarrow> 0 \<le> bar_pct tokens peak \<and> bar_pct tokens peak \<le> 100"
  by (auto simp: bar_pct_def trunc_div_def max_def div_le_mono intro: order.trans [OF zdiv_mono1 [of _ "peak * 100"]])

end
