(* ===== verification/UsageView.thy ===== *)
theory UsageView
  imports Oidc Charts
begin

text \<open>
  What the dashboard shows of a user's profile, key and consumption: the functions of
  \<open>internal/handlers/ui.go\<close> that build it and the caches of \<open>flash.go\<close>, \<open>modelcache.go\<close> and
  \<open>usagecache.go\<close> as they are used by a request.
\<close>

section \<open>The portal's parts\<close>

text \<open>
  \<open>UI\<close> without its templates.  A provider may or may not report usage and list models; \<open>po_kick\<close> says
  whether there is a limit sync to start; \<open>po_letter\<close> is \<open>unicode.IsLetter\<close> of one rune.
\<close>

record 'g portal =
  po_cfg :: config
  po_keys :: "'g provider"
  po_reporter :: "'g reporter option"
  po_lister :: "'g model_lister option"
  po_embedder :: "'g embedding_lister option"
  po_history_days :: int
  po_csrf :: csrf
  po_sessions :: manager
  po_idp :: idp
  po_kick :: bool
  po_letter :: "string \<Rightarrow> bool"

text \<open>\<open>NewUI\<close>: the length of the usage history comes from the configuration when it is set.\<close>

definition new_portal :: "config \<Rightarrow> 'g provider \<Rightarrow> 'g reporter option \<Rightarrow> 'g model_lister option
    \<Rightarrow> 'g embedding_lister option \<Rightarrow> csrf \<Rightarrow> manager \<Rightarrow> idp \<Rightarrow> bool \<Rightarrow> (string \<Rightarrow> bool) \<Rightarrow> 'g portal" where
  "new_portal c P rep ls em cs sm i kick letter =
     \<lparr>po_cfg = c, po_keys = P, po_reporter = rep, po_lister = ls, po_embedder = em,
      po_history_days = (if cf_history_days c > 0 then cf_history_days c else usage_window_days),
      po_csrf = cs, po_sessions = sm, po_idp = i, po_kick = kick, po_letter = letter\<rparr>"

section \<open>Caches\<close>

definition flash_put :: "int \<Rightarrow> string \<Rightarrow> ('g, string + string) act" where
  "flash_put uid key = do {
     b \<leftarrow> random;
     case b of
       Inl e \<Rightarrow> State_Monad.return (Inl e)
     | Inr bs \<Rightarrow> do {
         t1 \<leftarrow> time_now;
         t2 \<leftarrow> time_now;
         remember (\<lambda>m. (Inr (b64_url bs), m\<lparr>m_flash := flash_store t1 t2 (b64_url bs) uid key (m_flash m)\<rparr>)) } }"

definition flash_take :: "int \<Rightarrow> string \<Rightarrow> ('g, string) act" where
  "flash_take uid token =
     (if token = [] then State_Monad.return []
      else do {
        t1 \<leftarrow> time_now;
        t2 \<leftarrow> time_now;
        remember (\<lambda>m. case flash_redeem t1 t2 uid token (m_flash m) of (s, f) \<Rightarrow> (s, m\<lparr>m_flash := f\<rparr>)) })"

text \<open>
  \<open>Models\<close>: a failed refresh keeps serving the list there is.  Which of the two caches is meant is given
  by its selector and its update.
\<close>

definition cached_models :: "(memory \<Rightarrow> model_cache) \<Rightarrow> ((model_cache \<Rightarrow> model_cache) \<Rightarrow> memory \<Rightarrow> memory)
    \<Rightarrow> 'g model_lister option \<Rightarrow> ('g, string list option) act" where
  "cached_models sel upd l =
     (case l of
        None \<Rightarrow> State_Monad.return None
      | Some fetch \<Rightarrow> do {
          now \<leftarrow> time_now;
          c \<leftarrow> remember (\<lambda>m. (sel m, m));
          if fresh model_cache_ttl now (mc_fetched c) \<and> mc_models c \<noteq> None then State_Monad.return (mc_models c)
          else do {
            r \<leftarrow> gateway fetch;
            case r of
              Inl _ \<Rightarrow> State_Monad.return (mc_models c)
            | Inr ms \<Rightarrow> do {
                now \<leftarrow> time_now;
                remember (\<lambda>m. (ms, upd (\<lambda>c. c\<lparr>mc_models := ms, mc_fetched := Some now\<rparr>) m)) } } })"

definition cached_embeddings :: "'g embedding_lister option \<Rightarrow> ('g, (string \<times> bool) list option) act" where
  "cached_embeddings l =
     (case l of
        None \<Rightarrow> State_Monad.return None
      | Some fetch \<Rightarrow> do {
          now \<leftarrow> time_now;
          c \<leftarrow> remember (\<lambda>m. (m_models m, m));
          if fresh model_cache_ttl now (mc_emb_fetched c) \<and> mc_embeddings c \<noteq> None then State_Monad.return (mc_embeddings c)
          else do {
            r \<leftarrow> gateway fetch;
            case r of
              Inl _ \<Rightarrow> State_Monad.return (mc_embeddings c)
            | Inr ms \<Rightarrow> do {
                now \<leftarrow> time_now;
                remember (\<lambda>m. (ms, m\<lparr>m_models := (m_models m)\<lparr>mc_embeddings := ms, mc_emb_fetched := Some now\<rparr>\<rparr>)) } } })"

text \<open>\<open>History\<close>: a failed refresh gives the error and caches nothing.\<close>

definition fetch_history :: "'g reporter \<Rightarrow> int \<Rightarrow> string \<Rightarrow> ('g, gw_error + history) act" where
  "fetch_history rep days owner = do {
     now \<leftarrow> time_now;
     r \<leftarrow> gateway (rep_history rep now owner days);
     case r of
       Inl e \<Rightarrow> State_Monad.return (Inl e)
     | Inr h \<Rightarrow> do {
         now \<leftarrow> time_now;
         remember (\<lambda>m. (Inr h, m\<lparr>m_usage := al_put owner \<lparr>ue_history = h, ue_fetched = now\<rparr> (m_usage m)\<rparr>)) } }"

definition cached_history :: "'g portal \<Rightarrow> string \<Rightarrow> ('g, gw_error + history) act" where
  "cached_history po owner =
     (case po_reporter po of
        None \<Rightarrow> State_Monad.return (Inr no_history)
      | Some rep \<Rightarrow>
          if owner = [] then State_Monad.return (Inr no_history)
          else do {
            e \<leftarrow> remember (\<lambda>m. (map_of (m_usage m) owner, m));
            case e of
              None \<Rightarrow> fetch_history rep (po_history_days po) owner
            | Some e \<Rightarrow> do {
                now \<leftarrow> time_now;
                if now - ue_fetched e < usage_cache_ttl then State_Monad.return (Inr (ue_history e))
                else fetch_history rep (po_history_days po) owner } })"

definition zero_quota :: quota where
  "zero_quota = \<lparr>qt_used = 0, qt_limit = 0, qt_resets_at = None\<rparr>"

definition usage_quota :: "'g portal \<Rightarrow> string \<Rightarrow> string \<Rightarrow> ('g, gw_error + quota) act" where
  "usage_quota po ref owner =
     (case po_reporter po of
        None \<Rightarrow> State_Monad.return (Inr zero_quota)
      | Some rep \<Rightarrow> if ref = [] then State_Monad.return (Inr zero_quota) else gateway (rep_quota rep ref owner))"

section \<open>Key and profile\<close>

text \<open>\<open>time.Until(t).Hours()\<close>, a \<open>float64\<close>.\<close>

definition hours_of :: "duration \<Rightarrow> rat" where
  "hours_of d = (let h = trunc_div d hour
     in fadd (float_of_int h) (fdiv (float_of_int (d - h * hour)) 3600000000000))"

definition days_until_expiry :: "time \<Rightarrow> api_key option \<Rightarrow> int" where
  "days_until_expiry now k =
     (case k of None \<Rightarrow> 0 | Some k \<Rightarrow> int_of_float (fdiv (hours_of (ak_expires k - now)) 24))"

definition is_expiry_urgent :: "time \<Rightarrow> api_key option \<Rightarrow> bool" where
  "is_expiry_urgent now k = (case k of None \<Rightarrow> False | Some k \<Rightarrow> ak_expires k - now < 14 * 24 * hour)"

definition profile_name :: "profile option \<Rightarrow> string" where
  "profile_name p = (case p of None \<Rightarrow> [] | Some p \<Rightarrow> pf_name p)"

definition period_label :: "string \<Rightarrow> lang \<Rightarrow> string" where
  "period_label period l =
     (if period = ''1h'' then translate l ''period.hour''
      else if period = ''24h'' then translate l ''period.day''
      else if period = ''7d'' then translate l ''period.week''
      else if period = ''30d'' then translate l ''period.month'' else [])"

record quota_line =
  ql_budget :: string
  ql_period :: string

definition profile_quota_lines :: "(string \<Rightarrow> bool) \<Rightarrow> profile option \<Rightarrow> lang \<Rightarrow> string \<Rightarrow> quota_line list" where
  "profile_quota_lines letter p l unit =
     (case p of
        None \<Rightarrow> []
      | Some p \<Rightarrow>
          map (\<lambda>q. \<lparr>ql_budget = format_budget letter (pq_budget q) unit, ql_period = period_label (pq_period q) l\<rparr>)
            (filter (\<lambda>q. \<not> (pq_budget q \<le> 0 \<or> pq_period q = [])) (pf_quotas p)))"

definition key_duration :: "config \<Rightarrow> profile option \<Rightarrow> int" where
  "key_duration c p =
     (case p of
        Some p \<Rightarrow> if pf_key_days p > 0 then pf_key_days p else cf_key_days c
      | None \<Rightarrow> cf_key_days c)"

definition extend_until :: "config \<Rightarrow> profile option \<Rightarrow> ('g, string) act" where
  "extend_until c p = do { now \<leftarrow> time_now; State_Monad.return (format_date (add_days now (key_duration c p))) }"

definition resolve_profile :: "user \<Rightarrow> ('g, db_error + profile) act" where
  "resolve_profile u =
     (case us_profile u of Some i \<Rightarrow> query (get_profile i) | None \<Rightarrow> query get_default_profile)"

definition user_models :: "'g portal \<Rightarrow> profile option \<Rightarrow> ('g, string list) act" where
  "user_models po p =
     (case p of
        Some p \<Rightarrow>
          if pf_models p \<noteq> [] then State_Monad.return (pf_models p)
          else do { ms \<leftarrow> cached_models m_models m_models_update (po_lister po); State_Monad.return (the_default [] ms) }
      | None \<Rightarrow> do { ms \<leftarrow> cached_models m_models m_models_update (po_lister po); State_Monad.return (the_default [] ms) })"

text \<open>\<open>profileNotice\<close>.\<close>

definition profile_notice :: "user \<Rightarrow> lang \<Rightarrow> bool \<Rightarrow> ('g, string) act" where
  "profile_notice u l overdue =
     (case us_expires u of
        None \<Rightarrow> State_Monad.return []
      | Some t \<Rightarrow>
          (let date = format_date t;
               generic = sprintf (translate l ''dash.profile.until'') [FmtS date]
           in if overdue then State_Monad.return (sprintf (translate l ''dash.profile.overdue'') [FmtS date])
              else if us_revoke u then State_Monad.return (sprintf (translate l ''dash.profile.until.revoke'') [FmtS date])
              else case us_after u of
                None \<Rightarrow> State_Monad.return generic
              | Some i \<Rightarrow> do {
                  r \<leftarrow> query (get_profile i);
                  State_Monad.return (case r of
                      Inl _ \<Rightarrow> generic
                    | Inr dest \<Rightarrow> sprintf (translate l ''dash.profile.until.profile'') [FmtS date, FmtS (pf_name dest)]) }))"

section \<open>Consumption\<close>

definition quota_pct :: "rat \<Rightarrow> rat \<Rightarrow> int" where
  "quota_pct used limit =
     (if limit \<le> 0 then 0
      else let pct = int_of_float (fmul (fdiv used limit) 100)
           in if pct > 100 then 100 else if pct < 0 then 0 else pct)"

record window_view =
  wv_period :: string
  wv_label :: string
  wv_used :: rat
  wv_limit :: rat
  wv_pct :: int
  wv_resets_at :: "time option"

text \<open>The loop of \<open>quotaWindows\<close>: one unknown figure gives up on all.\<close>

definition window_views :: "lang \<Rightarrow> window_usage list \<Rightarrow> window_view list" where
  "window_views l ws =
     (let shown = filter (\<lambda>w. \<not> wu_limit w \<le> 0) ws
      in if list_all wu_used_known shown
         then map (\<lambda>w. \<lparr>wv_period = wu_period w, wv_label = period_label (wu_period w) l, wv_used = wu_used w,
                        wv_limit = wu_limit w, wv_pct = quota_pct (wu_used w) (wu_limit w),
                        wv_resets_at = wu_resets_at w\<rparr>) shown
         else [])"

definition quota_windows :: "'g portal \<Rightarrow> string \<Rightarrow> string \<Rightarrow> lang \<Rightarrow> ('g, gw_error + window_view list) act" where
  "quota_windows po ref owner l =
     (case po_reporter po of
        None \<Rightarrow> State_Monad.return (Inr [])
      | Some rep \<Rightarrow>
          if ref = [] then State_Monad.return (Inr [])
          else do {
            r \<leftarrow> gateway (rep_windows rep ref owner);
            State_Monad.return (case r of Inl e \<Rightarrow> Inl e | Inr ws \<Rightarrow> Inr (window_views l ws)) })"

fun binding_from :: "window_view option \<Rightarrow> window_view list \<Rightarrow> window_view option" where
  "binding_from b [] = b"
| "binding_from b (w # ws) =
     binding_from (case b of None \<Rightarrow> Some w | Some v \<Rightarrow> if wv_pct w > wv_pct v then Some w else Some v) ws"

definition binding_window :: "window_view list \<Rightarrow> window_view option" where
  "binding_window ws = binding_from None ws"

record usage_report =
  ur_days :: "daily_usage list"
  ur_total :: int
  ur_bars :: "usage_bar list"
  ur_peak :: int
  ur_models :: "model_usage list"
  ur_has_quota :: bool
  ur_used :: rat
  ur_limit :: rat
  ur_pct :: int
  ur_resets_at :: "time option"
  ur_windows :: "window_view list"
  ur_incomplete :: bool
  ur_key_missing :: bool

definition no_report :: usage_report where
  "no_report = \<lparr>ur_days = [], ur_total = 0, ur_bars = [], ur_peak = 0, ur_models = [], ur_has_quota = False,
     ur_used = 0, ur_limit = 0, ur_pct = 0, ur_resets_at = None, ur_windows = [], ur_incomplete = False,
     ur_key_missing = False\<rparr>"

text \<open>The three parts of \<open>userUsage\<close>: the history, the allowance, and the windows.\<close>

definition report_history :: "'g portal \<Rightarrow> string \<Rightarrow> ('g, usage_report) act" where
  "report_history po owner = do {
     h \<leftarrow> cached_history po owner;
     (let hist = (case h of Inl _ \<Rightarrow> no_history | Inr h \<Rightarrow> h);
          days = hist_days hist;
          rep = no_report\<lparr>ur_incomplete := (case h of Inl _ \<Rightarrow> True | Inr _ \<Rightarrow> False), ur_days := days,
                  ur_models := hist_models hist, ur_total := sum_list (map du_tokens days)\<rparr>
      in if days = [] then State_Monad.return rep
         else do {
           now \<leftarrow> time_now;
           (let bars = usage_bars days (po_history_days po) now
            in State_Monad.return (rep\<lparr>ur_bars := bars, ur_peak := foldl max 0 (map ub_tokens bars)\<rparr>)) }) }"

definition with_quota :: "gw_error + quota \<Rightarrow> usage_report \<Rightarrow> usage_report" where
  "with_quota q rep =
     (case q of
        Inl e \<Rightarrow> rep\<lparr>ur_incomplete := True, ur_key_missing := (ur_key_missing rep \<or> is_key_not_found e)\<rparr>
      | Inr q \<Rightarrow>
          if qt_limit q > 0
          then rep\<lparr>ur_has_quota := True, ur_used := qt_used q, ur_limit := qt_limit q,
                   ur_resets_at := qt_resets_at q, ur_pct := quota_pct (qt_used q) (qt_limit q)\<rparr>
          else rep)"

definition with_windows :: "gw_error + window_view list \<Rightarrow> usage_report \<Rightarrow> usage_report" where
  "with_windows ws rep =
     (case ws of
        Inl e \<Rightarrow> rep\<lparr>ur_windows := [], ur_incomplete := True, ur_key_missing := (ur_key_missing rep \<or> is_key_not_found e)\<rparr>
      | Inr ws \<Rightarrow>
          (let rep' = rep\<lparr>ur_windows := ws\<rparr>
           in case binding_window ws of
                None \<Rightarrow> rep'
              | Some b \<Rightarrow> rep'\<lparr>ur_has_quota := True, ur_used := wv_used b, ur_limit := wv_limit b,
                              ur_pct := wv_pct b, ur_resets_at := wv_resets_at b\<rparr>))"

definition user_usage :: "'g portal \<Rightarrow> api_key option \<Rightarrow> string \<Rightarrow> lang \<Rightarrow> ('g, usage_report) act" where
  "user_usage po k owner l =
     (case k of
        None \<Rightarrow> State_Monad.return no_report
      | Some k \<Rightarrow> do {
          rep \<leftarrow> report_history po owner;
          q \<leftarrow> usage_quota po (ak_ref k) owner;
          ws \<leftarrow> quota_windows po (ak_ref k) owner l;
          State_Monad.return (with_windows ws (with_quota q rep)) })"

section \<open>Lemmas\<close>

lemma cache_steps [steps]:
  "db_steps (flash_put uid key)" "db_steps (flash_take uid tok)" "db_steps (cached_models sel upd l)"
  "db_steps (cached_embeddings e)" "db_steps (fetch_history rep n own)" "db_steps (usage_quota po ref own)"
  unfolding flash_put_def flash_take_def cached_models_def cached_embeddings_def fetch_history_def usage_quota_def
  by (intro steps)+

lemma view_steps [steps]:
  "db_steps (cached_history po own)" "db_steps (extend_until c p)" "db_steps (resolve_profile u)"
  "db_steps (user_models po p)" "db_steps (profile_notice u l b)" "db_steps (quota_windows po ref own l)"
  unfolding cached_history_def extend_until_def resolve_profile_def user_models_def profile_notice_def
    quota_windows_def Let_def
  by (intro steps)+

lemma user_usage_steps [steps]: "db_steps (user_usage po k own l)"
proof -
  have "db_steps (report_history po own)" unfolding report_history_def Let_def by (intro steps)
  then show ?thesis unfolding user_usage_def by (intro steps)
qed

lemma quota_pct_bounds: "0 \<le> quota_pct used limit \<and> quota_pct used limit \<le> 100"
  by (simp add: quota_pct_def Let_def)

lemma binding_from_max:
  assumes "binding_from b ws = Some v"
  shows "(b = Some v \<or> v \<in> set ws) \<and> (\<forall>w \<in> set ws. wv_pct w \<le> wv_pct v)
    \<and> (\<forall>c. b = Some c \<longrightarrow> wv_pct c \<le> wv_pct v)"
  using assms
proof (induction b ws rule: binding_from.induct)
  case (2 b w ws)
  let ?c = "case b of None \<Rightarrow> Some w | Some v \<Rightarrow> if wv_pct w > wv_pct v then Some w else Some v"
  have IH: "(?c = Some v \<or> v \<in> set ws) \<and> (\<forall>w \<in> set ws. wv_pct w \<le> wv_pct v)
      \<and> (\<forall>c. ?c = Some c \<longrightarrow> wv_pct c \<le> wv_pct v)"
    using 2 by simp
  then show ?case by (auto split: option.splits if_splits)
qed simp

lemma binding_from_Some: "binding_from (Some b) ws \<noteq> None"
  by (induction ws arbitrary: b) auto

lemma binding_window_None: "binding_window ws = None \<longleftrightarrow> ws = []"
  by (cases ws) (auto simp: binding_window_def binding_from_Some)

end
