(* ===== verification/Portal.thy ===== *)
theory Portal
  imports UsageView
begin

text \<open>
  The handlers of \<open>internal/handlers/ui.go\<close>: the dashboard, login and logout, and the three handlers that
  issue, extend and delete a user's key.  The lock of \<open>keylock.go\<close> is the subject of theory \<open>KeyLock\<close>; here
  a handler either gets it or its request ends while it waits.
\<close>

section \<open>Shared steps\<close>

definition audit_key_generated :: string where "audit_key_generated = ''key.generated''"
definition audit_key_extended :: string where "audit_key_extended = ''key.extended''"
definition audit_key_deleted :: string where "audit_key_deleted = ''key.deleted''"

definition require_session :: "'g portal \<Rightarrow> request \<Rightarrow> ('g, string + session_user) act" where
  "require_session po r =
     (let token = token_from_request (po_sessions po) r
      in if token = [] then State_Monad.return (Inl ''http: named cookie not present'')
         else session_get (po_sessions po) token)"

definition user_audit :: "string \<Rightarrow> user \<Rightarrow> string \<Rightarrow> ('g, unit) act" where
  "user_audit action u detail = do {
     _ \<leftarrow> store_now (\<lambda>t. record_audit t \<lparr>au_id = 0, au_created = 0, au_action = action, au_actor = us_email u,
            au_subject = us_email u, au_subject_id = Some (us_id u), au_detail = detail\<rparr>);
     State_Monad.return () }"

definition mark_missing :: "user \<Rightarrow> api_key \<Rightarrow> string \<Rightarrow> ('g, unit) act" where
  "mark_missing u k src = do {
     r \<leftarrow> store_now2 (\<lambda>t1 t2. mark_key_missing t1 t2 (ak_id k) (us_id u) (us_email u)
            (''key '' @ ak_prefix k @ '' no longer exists in the gateway ('' @ src @ '')''));
     (case r of
        Inr True \<Rightarrow> emit (KeyMarkedMissing src)
      | _ \<Rightarrow> State_Monad.return ()) }"

definition kick :: "'g portal \<Rightarrow> ('g, unit) act" where
  "kick po = (if po_kick po then emit SyncKick else State_Monad.return ())"

definition to_login :: "'p response" where
  "to_login = plain (Redirect ''/login'')"

definition to_dashboard :: "'p response" where
  "to_dashboard = plain (Redirect ''/'')"

section \<open>Dashboard\<close>

record dashboard_data =
  dd_lang :: lang
  dd_user :: user
  dd_key :: "api_key option"
  dd_new_key :: string
  dd_is_admin :: bool
  dd_api_base :: string
  dd_extend_until :: string
  dd_expires_in :: int
  dd_urgent :: bool
  dd_profile :: string
  dd_notice :: string
  dd_quotas :: "quota_line list"
  dd_models :: "string list"
  dd_embeddings :: "(string \<times> bool) list"
  dd_usage :: usage_report
  dd_csrf :: string
  dd_successor :: string
  dd_profile_error :: bool
  dd_key_error :: bool
  dd_key_missing :: bool

text \<open>The part of \<open>Dashboard\<close> that asks the gateway about the key, and marks a key it does not have.\<close>

definition dashboard_usage :: "'g portal \<Rightarrow> user \<Rightarrow> api_key option \<Rightarrow> lang \<Rightarrow> ('g, usage_report \<times> bool) act" where
  "dashboard_usage po u k l =
     (case k of
        None \<Rightarrow> State_Monad.return (no_report, False)
      | Some k' \<Rightarrow>
          if ak_missing k' \<noteq> None then State_Monad.return (no_report, True)
          else do {
            rep \<leftarrow> user_usage po k (litellm_user_id (po_cfg po) (us_sub u)) l;
            if ur_key_missing rep then do {
              mark_missing u k' source_dashboard;
              State_Monad.return (no_report, True) }
            else State_Monad.return (rep, False) })"

definition expiry_overdue :: "user \<Rightarrow> ('g, bool) act" where
  "expiry_overdue u =
     (case us_expires u of
        None \<Rightarrow> State_Monad.return False
      | Some t \<Rightarrow> do { now \<leftarrow> time_now; State_Monad.return (\<not> t > now) })"

definition trim_slashes :: "string \<Rightarrow> string" where
  "trim_slashes s = trim_right (\<lambda>c. c = CHR ''/'') s"

definition dashboard_page :: "'g portal \<Rightarrow> request \<Rightarrow> session_user \<Rightarrow> ('g, dashboard_data response) act" where
  "dashboard_page po r su =
     (let u = su_user su; c = po_cfg po; l = lang_from_request r
      in do {
        kr \<leftarrow> select (get_api_key_by_user (us_id u));
        pr \<leftarrow> resolve_profile u;
        overdue \<leftarrow> expiry_overdue u;
        ext \<leftarrow> (case pr of Inl _ \<Rightarrow> State_Monad.return [] | Inr p \<Rightarrow> extend_until c (Some p));
        ms \<leftarrow> (case pr of Inl _ \<Rightarrow> State_Monad.return [] | Inr p \<Rightarrow> user_models po (Some p));
        new \<leftarrow> flash_take (us_id u) (query_value r ''k'');
        notice \<leftarrow> profile_notice u l overdue;
        (let key = (case kr of Inl _ \<Rightarrow> None | Inr k \<Rightarrow> k);
             prof = (case pr of Inl _ \<Rightarrow> None | Inr p \<Rightarrow> Some p)
         in do {
           (usage, missing) \<leftarrow> dashboard_usage po u key l;
           t1 \<leftarrow> time_now;
           t2 \<leftarrow> time_now;
           emb \<leftarrow> cached_embeddings (po_embedder po);
           (token, cookies) \<leftarrow> csrf_token (po_csrf po) r;
           State_Monad.return
             \<lparr>rs_cookies = cookies, rs_headers = [], rs_reply = Page
               \<lparr>dd_lang = l, dd_user = u, dd_key = key, dd_new_key = new, dd_is_admin = us_admin u,
                dd_api_base = trim_slashes (cf_base_url c) @ ''/v1'', dd_extend_until = ext,
                dd_expires_in = days_until_expiry t1 key, dd_urgent = (is_expiry_urgent t2 key \<and> \<not> missing),
                dd_profile = profile_name prof, dd_notice = notice,
                dd_quotas = profile_quota_lines (po_letter po) prof l (cf_unit c), dd_models = ms,
                dd_embeddings = the_default [] emb, dd_usage = usage, dd_csrf = token,
                dd_successor = cf_successor c,
                dd_profile_error = (case pr of Inl _ \<Rightarrow> True | Inr _ \<Rightarrow> False),
                dd_key_error = (case kr of Inl _ \<Rightarrow> True | Inr _ \<Rightarrow> False),
                dd_key_missing = missing\<rparr>\<rparr> }) })"

definition dashboard :: "'g portal \<Rightarrow> request \<Rightarrow> ('g, dashboard_data response) act" where
  "dashboard po r = do {
     s \<leftarrow> require_session po r;
     case s of Inl _ \<Rightarrow> State_Monad.return to_login | Inr su \<Rightarrow> dashboard_page po r su }"

section \<open>Login and logout\<close>

definition login :: "'g portal \<Rightarrow> request \<Rightarrow> ('g, 'p response) act" where
  "login po r = login_handler (po_cfg po) (po_idp po) r"

definition callback :: "'g portal \<Rightarrow> request \<Rightarrow> ('g, 'p response) act" where
  "callback po r =
     (case handle_callback (po_cfg po) (po_idp po) r of
        (Inl _, cs) \<Rightarrow> State_Monad.return ((http_error r 400 ''Authentication failed'')\<lparr>rs_cookies := cs\<rparr>)
      | (Inr (info, raw), cs) \<Rightarrow> do {
          ur \<leftarrow> get_or_create_user (po_cfg po) info;
          case ur of
            Inl _ \<Rightarrow> State_Monad.return ((http_error r 500 ''Failed to load user'')\<lparr>rs_cookies := cs\<rparr>)
          | Inr u \<Rightarrow> do {
              kick po;
              t \<leftarrow> session_create (po_sessions po) (us_id u) raw;
              State_Monad.return (case t of
                  Inl _ \<Rightarrow> (http_error r 500 ''Failed to create session'')\<lparr>rs_cookies := cs\<rparr>
                | Inr token \<Rightarrow> to_dashboard\<lparr>rs_cookies := cs @ [session_set_cookie (po_sessions po) token]\<rparr>) } })"

text \<open>\<open>Logout\<close>: with or without a session the cookie goes and the browser's cache is cleared.\<close>

definition logout :: "'g portal \<Rightarrow> request \<Rightarrow> ('g, 'p response) act" where
  "logout po r = do {
     s \<leftarrow> require_session po r;
     url \<leftarrow> (case s of
         Inl _ \<Rightarrow> State_Monad.return []
       | Inr su \<Rightarrow> do {
           _ \<leftarrow> session_delete (su_session su);
           State_Monad.return (logout_url (po_cfg po) (po_idp po) (su_id_token su)) });
     State_Monad.return
       \<lparr>rs_cookies = [session_clear_cookie (po_sessions po)],
        rs_headers = [(''Clear-Site-Data'', [CHR 0x22] @ ''cache'' @ [CHR 0x22])],
        rs_reply = Redirect (if url \<noteq> [] then url else ''/'')\<rparr> }"

definition backchannel_logout :: "'g portal \<Rightarrow> request \<Rightarrow> ('g, 'p response) act" where
  "backchannel_logout po r =
     (if rq_form_error r \<noteq> None then State_Monad.return (plain (HttpError 400 ''bad request''))
      else case validate_logout_token (po_idp po) (form_value r ''logout_token'') of
        Inl _ \<Rightarrow> State_Monad.return (plain (HttpError 400 ''invalid logout token''))
      | Inr sub \<Rightarrow> do {
          _ \<leftarrow> session_delete_by_sub sub;
          State_Monad.return (plain (Status 200)) })"

definition session_status :: "'g portal \<Rightarrow> request \<Rightarrow> ('g, 'p response) act" where
  "session_status po r = do {
     s \<leftarrow> require_session po r;
     State_Monad.return (plain (Status (case s of Inl _ \<Rightarrow> 401 | Inr _ \<Rightarrow> 200))) }"

section \<open>Keys\<close>

text \<open>\<open>refuseIfRetired\<close>: the refusal, when the portal has a successor.\<close>

definition refuse_if_retired :: "'g portal \<Rightarrow> 'p response option" where
  "refuse_if_retired po =
     (if cf_successor (po_cfg po) = [] then None
      else Some (plain (HttpError 403 (''This Keyosk instance no longer issues or extends keys; use ''
                                       @ cf_successor (po_cfg po)))))"

text \<open>\<open>lockKeys\<close> around the rest of a handler.\<close>

definition with_key_lock :: "request \<Rightarrow> ('g, 'p response) act \<Rightarrow> ('g, 'p response) act" where
  "with_key_lock r m = do {
     ended \<leftarrow> ctx_err;
     if ended then State_Monad.return (http_error r 503 ''Another key request is still running; please try again'')
     else m }"

definition key_prefix :: "string \<Rightarrow> string" where
  "key_prefix secret = (if length secret > 12 then take 12 secret else secret)"

text \<open>The row of a new key: it records the limits and the owner the key was created with.\<close>

definition new_key_row :: "user \<Rightarrow> profile \<Rightarrow> key_result \<Rightarrow> time \<Rightarrow> api_key" where
  "new_key_row u p res expires =
     \<lparr>ak_id = 0, ak_user = us_id u, ak_ref = res_ref res, ak_prefix = key_prefix (res_secret res),
      ak_expires = expires, ak_created = 0, ak_synced_profile = Some (pf_id p), ak_synced_rev = Some (pf_rev p),
      ak_synced_name = Some (us_name u), ak_synced_email = Some (us_email u), ak_sync_error = [],
      ak_failed_at = None, ak_missing = None\<rparr>"

text \<open>The rest of \<open>GenerateKey\<close> once the key exists in the gateway: record it, then revoke the old one.\<close>

definition record_new_key :: "'g portal \<Rightarrow> request \<Rightarrow> user \<Rightarrow> api_key option \<Rightarrow> profile \<Rightarrow> key_result \<Rightarrow> time
    \<Rightarrow> ('g, 'p response) act" where
  "record_new_key po r u existing p res expires = do {
     st \<leftarrow> store_now (\<lambda>t. replace_api_key t (new_key_row u p res expires));
     case st of
       Inl _ \<Rightarrow> do {
         _ \<leftarrow> gateway (prov_delete (po_keys po) (res_ref res));
         emit (KeyOperation ''generate'' ''store_error'');
         State_Monad.return (http_error r 500 ''Failed to save your key'') }
     | Inr _ \<Rightarrow> do {
         _ \<leftarrow> (case existing of
                 None \<Rightarrow> State_Monad.return None
               | Some old \<Rightarrow> gateway (prov_delete (po_keys po) (ak_ref old)));
         emit (KeyOperation ''generate'' ''success'');
         user_audit audit_key_generated u (''key '' @ key_prefix (res_secret res));
         t \<leftarrow> flash_put (us_id u) (res_secret res);
         State_Monad.return (case t of
             Inl _ \<Rightarrow> to_dashboard
           | Inr token \<Rightarrow> plain (Redirect (''/?k='' @ token))) } }"

definition create_new_key :: "'g portal \<Rightarrow> request \<Rightarrow> user \<Rightarrow> api_key option \<Rightarrow> profile \<Rightarrow> ('g, 'p response) act" where
  "create_new_key po r u existing p = do {
     b \<leftarrow> random;
     case new_alias b (us_sub u) (us_name u) of
       Inl _ \<Rightarrow> do {
         emit (KeyOperation ''generate'' ''alias_error'');
         State_Monad.return (http_error r 500 ''Failed to create key'') }
     | Inr alias \<Rightarrow> do {
         now \<leftarrow> time_now;
         (let expires = add_days now (key_duration (po_cfg po) (Some p))
          in do {
            t \<leftarrow> time_now;
            res \<leftarrow> gateway (prov_create (po_keys po) t
                     \<lparr>kr_alias = alias, kr_user = litellm_user (po_cfg po) (us_sub u) (us_name u) (us_email u),
                      kr_expires_at = expires, kr_limits = profile_limits (Some p)\<rparr>);
            case res of
              Inl _ \<Rightarrow> do {
                emit (KeyOperation ''generate'' ''provider_error'');
                State_Monad.return (http_error r 500 ''Failed to create key'') }
            | Inr res \<Rightarrow> record_new_key po r u existing p res expires }) } }"

definition generate_locked :: "'g portal \<Rightarrow> request \<Rightarrow> user \<Rightarrow> ('g, 'p response) act" where
  "generate_locked po r u = do {
     k \<leftarrow> select (get_api_key_by_user (us_id u));
     case k of
       Inl _ \<Rightarrow> State_Monad.return (http_error r 500 ''Failed to load your key'')
     | Inr existing \<Rightarrow> do {
         pr \<leftarrow> resolve_profile u;
         case pr of
           Inl _ \<Rightarrow> State_Monad.return (http_error r 500 ''Failed to load profile'')
         | Inr p \<Rightarrow> create_new_key po r u existing p } }"

definition generate_key :: "'g portal \<Rightarrow> request \<Rightarrow> ('g, 'p response) act" where
  "generate_key po r = do {
     s \<leftarrow> require_session po r;
     case s of
       Inl _ \<Rightarrow> State_Monad.return to_login
     | Inr su \<Rightarrow>
         (case refuse_if_retired po of
            Some resp \<Rightarrow> State_Monad.return resp
          | None \<Rightarrow> with_key_lock r (generate_locked po r (su_user su))) }"

definition extend_locked :: "'g portal \<Rightarrow> request \<Rightarrow> user \<Rightarrow> ('g, 'p response) act" where
  "extend_locked po r u = do {
     k \<leftarrow> select (get_api_key_by_user (us_id u));
     case k of
       Inl _ \<Rightarrow> State_Monad.return (http_error r 500 ''Failed to load your key'')
     | Inr None \<Rightarrow> State_Monad.return (plain (HttpError 400 ''No key found''))
     | Inr (Some k) \<Rightarrow>
         if ak_missing k \<noteq> None then State_Monad.return to_dashboard
         else do {
           pr \<leftarrow> resolve_profile u;
           case pr of
             Inl _ \<Rightarrow> State_Monad.return (http_error r 500 ''Failed to load profile'')
           | Inr p \<Rightarrow> do {
               now \<leftarrow> time_now;
               (let expires = add_days now (key_duration (po_cfg po) (Some p))
                in do {
                  t \<leftarrow> time_now;
                  e \<leftarrow> gateway (prov_expiry (po_keys po) t (ak_ref k) expires);
                  case e of
                    Some err \<Rightarrow>
                      if is_key_not_found err then do {
                        mark_missing u k source_extend;
                        State_Monad.return to_dashboard }
                      else State_Monad.return (http_error r 500 ''Failed to extend key'')
                  | None \<Rightarrow> do {
                      _ \<leftarrow> store (update_api_key_expiry (ak_id k) expires);
                      emit (KeyOperation ''extend'' ''success'');
                      user_audit audit_key_extended u (''until '' @ format_date expires);
                      kick po;
                      State_Monad.return to_dashboard } }) } } }"

definition extend_key :: "'g portal \<Rightarrow> request \<Rightarrow> ('g, 'p response) act" where
  "extend_key po r = do {
     s \<leftarrow> require_session po r;
     case s of
       Inl _ \<Rightarrow> State_Monad.return to_login
     | Inr su \<Rightarrow>
         (case refuse_if_retired po of
            Some resp \<Rightarrow> State_Monad.return resp
          | None \<Rightarrow> with_key_lock r (extend_locked po r (su_user su))) }"

definition delete_locked :: "'g portal \<Rightarrow> request \<Rightarrow> user \<Rightarrow> ('g, 'p response) act" where
  "delete_locked po r u = do {
     k \<leftarrow> select (get_api_key_by_user (us_id u));
     case k of
       Inr (Some k) \<Rightarrow> do {
         e \<leftarrow> gateway (prov_delete (po_keys po) (ak_ref k));
         case e of
           Some _ \<Rightarrow> do {
             emit (KeyOperation ''delete'' ''provider_error'');
             State_Monad.return
               (http_error r 500 ''Failed to delete your key; it is still active. Please try again.'') }
         | None \<Rightarrow> do {
             user_audit audit_key_deleted u (''key '' @ ak_prefix k);
             d \<leftarrow> store (delete_api_key (ak_id k));
             case d of
               Inl _ \<Rightarrow> do {
                 emit (KeyOperation ''delete'' ''store_error'');
                 State_Monad.return
                   (http_error r 500 ''Your key was revoked, but Keyosk could not update its records'') }
             | Inr _ \<Rightarrow> do {
                 emit (KeyOperation ''delete'' ''success'');
                 State_Monad.return to_dashboard } } }
     | _ \<Rightarrow> State_Monad.return to_dashboard }"

definition delete_key :: "'g portal \<Rightarrow> request \<Rightarrow> ('g, 'p response) act" where
  "delete_key po r = do {
     s \<leftarrow> require_session po r;
     case s of
       Inl _ \<Rightarrow> State_Monad.return to_login
     | Inr su \<Rightarrow> with_key_lock r (delete_locked po r (su_user su)) }"

section \<open>What the handlers do to the database\<close>

lemma shared_steps [steps]:
  "db_steps (require_session po r)" "db_steps (user_audit a u d)" "db_steps (mark_missing u k src)"
  "db_steps (kick po)"
proof -
  show "db_steps (require_session po r)" unfolding require_session_def Let_def by (intro steps)
  show "db_steps (user_audit a u d)"
    unfolding user_audit_def by (intro steps db_steps_store_now) (erule db_step.audit)
  show "db_steps (mark_missing u k src)"
    unfolding mark_missing_def by (intro steps db_steps_store_now2) (erule db_step.mark_missing)
  show "db_steps (kick po)" unfolding kick_def by (intro steps)
qed

lemma dashboard_steps [steps]: "db_steps (dashboard po r)"
proof -
  have "db_steps (dashboard_usage po u k l)" for u k l unfolding dashboard_usage_def by (intro steps)
  moreover have "db_steps (expiry_overdue u)" for u unfolding expiry_overdue_def by (intro steps)
  ultimately show ?thesis unfolding dashboard_def dashboard_page_def Let_def by (intro steps; assumption?)
qed

lemma login_steps [steps]:
  "db_steps (login po r)" "db_steps (callback po r)" "db_steps (logout po r)"
  "db_steps (backchannel_logout po r)" "db_steps (session_status po r)"
  unfolding login_def callback_def logout_def backchannel_logout_def session_status_def by (intro steps)+

lemma lock_steps [steps]: "db_steps m \<Longrightarrow> db_steps (with_key_lock r m)"
  unfolding with_key_lock_def by (intro steps)

lemma generate_steps [steps]: "db_steps (generate_key po r)"
proof -
  have "db_steps (record_new_key po r u old p res t)" for u old p res t
    unfolding record_new_key_def by (intro steps db_steps_store_now) (erule db_step.replace_key)
  then have "db_steps (create_new_key po r u old p)" for u old p
    unfolding create_new_key_def Let_def by (intro steps; assumption?)
  then have "db_steps (generate_locked po r u)" for u
    unfolding generate_locked_def by (intro steps; assumption?)
  then show ?thesis unfolding generate_key_def by (intro steps; assumption?)
qed

lemma extend_steps [steps]: "db_steps (extend_key po r)"
proof -
  have "db_steps (extend_locked po r u)" for u
    unfolding extend_locked_def Let_def by (intro steps db_steps_store) (erule db_step.extend_key)
  then show ?thesis unfolding extend_key_def by (intro steps; assumption?)
qed

lemma delete_steps [steps]: "db_steps (delete_key po r)"
proof -
  have "db_steps (delete_locked po r u)" for u
    unfolding delete_locked_def by (intro steps db_steps_store) (erule db_step.delete_key)
  then show ?thesis unfolding delete_key_def by (intro steps; assumption?)
qed

end
