(* ===== verification/Quota.thy ===== *)
theory Quota
  imports KeyProvider
begin

text \<open>
  \<open>internal/litellm/quota.go\<close>: the periods the gateway knows, and the split of a profile's windows into
  the widest, which is held against the person, and the rest, which stays on the key.
\<close>

section \<open>Periods\<close>

definition valid_quota_periods :: "string list" where
  "valid_quota_periods = [''1h'', ''24h'', ''7d'', ''30d'']"

definition is_valid_quota_period :: "string \<Rightarrow> bool" where
  "is_valid_quota_period p \<longleftrightarrow> p = [] \<or> list_ex (\<lambda>v. v = p) valid_quota_periods"

definition period_rank :: "string \<Rightarrow> int" where
  "period_rank p =
     (if p = ''1h'' then 1 else if p = ''24h'' then 2 else if p = ''7d'' then 3 else if p = ''30d'' then 4 else 0)"

lemma period_rank_pos: "is_valid_quota_period p \<Longrightarrow> p \<noteq> [] \<Longrightarrow> 0 < period_rank p"
  by (auto simp: is_valid_quota_period_def valid_quota_periods_def period_rank_def)

section \<open>The widest window\<close>

definition zero_window :: quota_window where
  "zero_window = \<lparr>win_budget = 0, win_period = []\<rparr>"

text \<open>The index of the loop: the first window of the highest rank.\<close>

function widest_index :: "quota_window list \<Rightarrow> nat \<Rightarrow> nat \<Rightarrow> nat" where
  "widest_index ws best i =
     (if i < length ws
      then widest_index ws (if period_rank (win_period (ws ! i)) > period_rank (win_period (ws ! best)) then i else best) (Suc i)
      else best)"
  by pat_completeness auto

termination by (relation "measure (\<lambda>(ws, b, i). length ws - i)") auto

declare widest_index.simps [simp del]

definition drop_index :: "nat \<Rightarrow> 'a list \<Rightarrow> 'a list" where
  "drop_index i xs = take i xs @ drop (Suc i) xs"

text \<open>\<open>WidestWindow\<close>.\<close>

definition widest_window :: "quota_window list \<Rightarrow> quota_window \<times> quota_window list" where
  "widest_window ws =
     (if ws = [] then (zero_window, [])
      else let k = widest_index ws 0 1 in (ws ! k, drop_index k ws))"

section \<open>Lemmas\<close>

definition rank_at :: "quota_window list \<Rightarrow> nat \<Rightarrow> int" where
  "rank_at ws i = period_rank (win_period (ws ! i))"

lemma widest_index_props:
  assumes "b < length ws" and "b < i"
    and "\<forall>j < i. j < length ws \<longrightarrow> rank_at ws j \<le> rank_at ws b" and "\<forall>j < b. rank_at ws j < rank_at ws b"
  shows "widest_index ws b i < length ws \<and> (\<forall>j < length ws. rank_at ws j \<le> rank_at ws (widest_index ws b i))
    \<and> (\<forall>j < widest_index ws b i. rank_at ws j < rank_at ws (widest_index ws b i))"
  using assms
proof (induction ws b i rule: widest_index.induct)
  case (1 ws b i)
  show ?case
  proof (cases "i < length ws")
    case False
    then show ?thesis using 1(2-5) by (subst (1 2 3 4) widest_index.simps) (auto simp: not_less)
  next
    case True
    let ?b = "if period_rank (win_period (ws ! i)) > period_rank (win_period (ws ! b)) then i else b"
    have step: "widest_index ws b i = widest_index ws ?b (Suc i)" using True by (subst widest_index.simps) simp
    have rank: "(period_rank (win_period (ws ! i)) > period_rank (win_period (ws ! b))) = (rank_at ws i > rank_at ws b)"
      by (simp add: rank_at_def)
    show ?thesis unfolding step
    proof (rule 1(1) [OF True])
      show "?b < length ws" "?b < Suc i" using True 1(2,3) by auto
      show "\<forall>j < Suc i. j < length ws \<longrightarrow> rank_at ws j \<le> rank_at ws ?b"
        using 1(4) by (auto simp: rank less_Suc_eq intro: order.trans less_imp_le)
      show "\<forall>j < ?b. rank_at ws j < rank_at ws ?b"
        using 1(4,5) True 1(3) by (fastforce simp: rank)
    qed
  qed
qed

lemma widest_window_split:
  assumes "ws \<noteq> []" and "widest_window ws = (w, rest)"
  shows "\<exists>pre post. ws = pre @ w # post \<and> rest = pre @ post
    \<and> (\<forall>x \<in> set pre. period_rank (win_period x) < period_rank (win_period w))
    \<and> (\<forall>x \<in> set post. period_rank (win_period x) \<le> period_rank (win_period w))"
proof -
  define k where "k = widest_index ws 0 1"
  have p: "k < length ws" "\<forall>j < length ws. rank_at ws j \<le> rank_at ws k" "\<forall>j < k. rank_at ws j < rank_at ws k"
    using widest_index_props [of 0 ws 1] assms(1) unfolding k_def by simp_all
  have w: "w = ws ! k" "rest = take k ws @ drop (Suc k) ws"
    using assms by (simp_all add: widest_window_def Let_def drop_index_def k_def)
  have "ws = take k ws @ w # drop (Suc k) ws" unfolding w by (rule id_take_nth_drop [OF p(1)])
  moreover have "period_rank (win_period x) < period_rank (win_period w)" if "x \<in> set (take k ws)" for x
    using that p(1,3) by (auto simp: in_set_conv_nth rank_at_def w)
  moreover have "period_rank (win_period x) \<le> period_rank (win_period w)" if "x \<in> set (drop (Suc k) ws)" for x
    using that p(1,2) by (auto simp: in_set_conv_nth rank_at_def w)
  ultimately show ?thesis using w(2) by blast
qed

end
