(* ===== verification/ProfileForm.thy ===== *)
theory ProfileForm
  imports Charts Quota DbProfiles
begin

text \<open>
  The profile form of the admin panel (the helpers at the end of \<open>internal/handlers/admin.go\<close>) and the
  audit texts of \<open>profileaudit.go\<close>.
\<close>

section \<open>Form fields\<close>

definition parse_models_field :: "string \<Rightarrow> string list" where
  "parse_models_field s = filter (\<lambda>p. p \<noteq> []) (map trim_space (split_on (CHR '','') s))"

definition selected_models :: "request \<Rightarrow> string list" where
  "selected_models r =
     (let vals = form_values r ''model''
      in if vals \<noteq> [] then filter (\<lambda>v. v \<noteq> []) (map trim_space vals)
         else parse_models_field (form_value r ''models''))"

definition parse_optional_int64 :: "string \<Rightarrow> int option" where
  "parse_optional_int64 s = (let t = trim_space s in if t = [] then None else parse_int64 t)"

definition parse_non_negative_int :: "string \<Rightarrow> int" where
  "parse_non_negative_int s =
     (let t = trim_space s
      in if t = [] then 0
         else case parse_int64 t of None \<Rightarrow> 0 | Some v \<Rightarrow> if v < 0 then 0 else v)"

section \<open>Quota windows\<close>

definition period_hours :: "string \<Rightarrow> int" where
  "period_hours p =
     (if p = ''1h'' then 1 else if p = ''24h'' then 24 else if p = ''7d'' then 168 else if p = ''30d'' then 720 else 0)"

definition quota_of :: "rat \<Rightarrow> string \<Rightarrow> profile_quota" where
  "quota_of b p = \<lparr>pq_id = 0, pq_profile = 0, pq_budget = b, pq_period = p\<rparr>"

text \<open>\<open>checkWindowsBind\<close>: a shorter window must not allow more than a longer one.\<close>

definition windows_bind :: "profile_quota list \<Rightarrow> bool" where
  "windows_bind qs \<longleftrightarrow>
     list_all (\<lambda>a. list_all (\<lambda>b. \<not> (period_hours (pq_period a) < period_hours (pq_period b) \<and> pq_budget a > pq_budget b)) qs) qs"

definition error_invalid_amount :: string where "error_invalid_amount = ''invalid quota amount''"
definition error_invalid_period :: string where "error_invalid_period = ''invalid quota period''"
definition error_duplicate_period :: string where "error_duplicate_period = ''duplicate quota period''"
definition error_exceeds :: string where "error_exceeds = ''allowance exceeds the longer one''"

text \<open>The loop of \<open>parseQuotaWindows\<close>; \<open>i\<close> counts the rows, \<open>out\<close> is what was read so far.\<close>

fun quota_rows_from :: "string list \<Rightarrow> nat \<Rightarrow> profile_quota list \<Rightarrow> string list \<Rightarrow> string + profile_quota list" where
  "quota_rows_from periods i out [] = Inr out"
| "quota_rows_from periods i out (raw # rest) =
     (let t = trim_space raw
      in if t = [] then quota_rows_from periods (Suc i) out rest
         else case parse_float (replace_char (CHR '','') (CHR ''.'') t) of
           FloatValue amount \<Rightarrow>
             if amount \<le> 0 then quota_rows_from periods (Suc i) out rest
             else let period = (if i < length periods then trim_space (periods ! i) else [])
                  in if \<not> is_valid_quota_period period \<or> period = [] then Inl error_invalid_period
                     else if list_ex (\<lambda>q. pq_period q = period) out then Inl error_duplicate_period
                     else quota_rows_from periods (Suc i) (out @ [quota_of amount period]) rest
         | _ \<Rightarrow> Inl error_invalid_amount)"

definition parse_quota_windows :: "request \<Rightarrow> string + profile_quota list" where
  "parse_quota_windows r =
     (case quota_rows_from (form_values r ''quota_period'') 0 [] (form_values r ''quota_budget'') of
        Inl e \<Rightarrow> Inl e
      | Inr qs \<Rightarrow> if windows_bind qs then Inr qs else Inl error_exceeds)"

text \<open>\<open>profileFromForm\<close>: the profile is there even when the windows do not parse.\<close>

definition profile_from_form :: "request \<Rightarrow> profile \<times> (string + profile_quota list)" where
  "profile_from_form r =
     (\<lparr>pf_id = 0, pf_name = trim_space (form_value r ''name''),
       pf_description = trim_space (form_value r ''description''), pf_models = selected_models r,
       pf_tpm = parse_optional_int64 (form_value r ''tpm_limit''),
       pf_rpm = parse_optional_int64 (form_value r ''rpm_limit''), pf_max_budget = None,
       pf_budget_duration = None,
       pf_key_days = parse_non_negative_int (form_value r ''key_duration_days''), pf_quotas = [],
       pf_default = (form_value r ''is_default'' = ''on''), pf_rev = 0, pf_created = 0, pf_updated = 0\<rparr>,
      parse_quota_windows r)"

section \<open>Shortest decimal numbers\<close>

text \<open>
  The verb g of \<open>fmt\<close>: the fewest digits that read back as the same \<open>float64\<close>, with an exponent
  below \<open>1e-04\<close> and from \<open>1e+06\<close> on.
\<close>

text \<open>The digits of a natural number, on integers.\<close>

function dec_text :: "int \<Rightarrow> string" where
  "dec_text n = (if n < 10 then [char_of (48 + n)] else dec_text (n div 10) @ [char_of (48 + n mod 10)])"
  by pat_completeness auto

termination by (relation "measure nat") auto

declare dec_text.simps [simp del]

definition dec_len :: "int \<Rightarrow> int" where "dec_len n = int (length (dec_text n))"

definition top_digit :: "rat \<Rightarrow> int" where
  "top_digit x = (case quotient_of x of (n, d) \<Rightarrow>
     let e = dec_len n - dec_len d in if pow10 e \<le> x then e else e - 1)"

text \<open>The value with \<open>n\<close> digits nearest to \<open>x\<close>: the digits as a number, and the exponent of the last.\<close>

definition digits_at :: "rat \<Rightarrow> nat \<Rightarrow> int \<times> int" where
  "digits_at x n = (let e = top_digit x - int n + 1 in (round_even (x / pow10 e), e))"

fun shortest_from :: "rat \<Rightarrow> nat \<Rightarrow> nat \<Rightarrow> int \<times> int" where
  "shortest_from x n 0 = digits_at x n"
| "shortest_from x n (Suc k) =
     (let (m, e) = digits_at x n
      in if fl64 (of_int m * pow10 e) = x then (m, e) else shortest_from x (Suc n) k)"

definition strip_zeros :: "string \<Rightarrow> string" where
  "strip_zeros s = trim_right (\<lambda>c. c = CHR ''0'') s"

definition format_exponent :: "int \<Rightarrow> string" where
  "format_exponent e = (if e < 0 then ''-'' else ''+'') @ pad_nat 2 (nat (abs e))"

definition format_g_pos :: "rat \<Rightarrow> string" where
  "format_g_pos x =
     (let (m, e) = shortest_from x 1 16;
          s = dec_text m; ds = strip_zeros s; dp = int (length s) + e; ex = dp - 1; nd = int (length ds)
      in if ex < -4 \<or> ex \<ge> 6
         then take 1 ds @ (if nd > 1 then CHR ''.'' # drop 1 ds else []) @ ''e'' @ format_exponent ex
         else if dp \<le> 0 then ''0.'' @ replicate (nat (- dp)) CHR ''0'' @ ds
         else if nd \<le> dp then ds @ replicate (nat (dp - nd)) CHR ''0''
         else take (nat dp) ds @ ''.'' @ drop (nat dp) ds)"

definition format_g :: "rat \<Rightarrow> string" where
  "format_g x = (if x = 0 then ''0'' else if x < 0 then CHR ''-'' # format_g_pos (- x) else format_g_pos x)"

section \<open>Audit texts\<close>

definition fmt_models :: "string list \<Rightarrow> string" where
  "fmt_models ms = (if ms = [] then ''all'' else join '', '' ms)"

definition fmt_limit :: "int option \<Rightarrow> string" where
  "fmt_limit v = (case v of None \<Rightarrow> ''unlimited'' | Some n \<Rightarrow> format_int n)"

definition fmt_key_days :: "int \<Rightarrow> string" where
  "fmt_key_days d = (if d = 0 then ''server default'' else format_int d @ ''d'')"

text \<open>\<open>quotasByPeriod\<close>: of two windows with one period the later counts.\<close>

definition quotas_by_period :: "profile_quota list \<Rightarrow> (string \<times> rat) list" where
  "quotas_by_period qs = foldl (\<lambda>m q. al_put (pq_period q) (pq_budget q) m) [] qs"

definition fmt_budget :: "(string \<times> rat) list \<Rightarrow> string \<Rightarrow> string" where
  "fmt_budget m period = (case map_of m period of None \<Rightarrow> ''none'' | Some b \<Rightarrow> format_g b)"

text \<open>\<open>quotaPeriods\<close>: the periods of both, each once, the shortest first.\<close>

definition quota_periods :: "(string \<times> rat) list \<Rightarrow> (string \<times> rat) list \<Rightarrow> string list" where
  "quota_periods a b = sort_key period_hours (remdups (map fst a @ map fst b))"

definition fmt_quotas :: "profile_quota list \<Rightarrow> string" where
  "fmt_quotas qs =
     (if qs = [] then ''unlimited''
      else let m = quotas_by_period qs
           in join '', '' (map (\<lambda>p. p @ '' '' @ fmt_budget m p) (quota_periods m [])))"

definition describe_profile :: "profile \<Rightarrow> profile_quota list \<Rightarrow> string" where
  "describe_profile p qs =
     join ''; ''
       ([''models '' @ fmt_models (pf_models p)]
        @ (case pf_tpm p of None \<Rightarrow> [] | Some _ \<Rightarrow> [''tpm '' @ fmt_limit (pf_tpm p)])
        @ (case pf_rpm p of None \<Rightarrow> [] | Some _ \<Rightarrow> [''rpm '' @ fmt_limit (pf_rpm p)])
        @ [''quotas '' @ fmt_quotas qs]
        @ (if pf_key_days p > 0 then [''valid '' @ fmt_key_days (pf_key_days p)] else [])
        @ (if pf_default p then [''default''] else []))"

definition arrow :: string where "arrow = [CHR 0xE2, CHR 0x86, CHR 0x92]"

definition change_text :: "string \<Rightarrow> string \<Rightarrow> string \<Rightarrow> string list" where
  "change_text field a b = (if a \<noteq> b then [field @ '': '' @ a @ '' '' @ arrow @ '' '' @ b] else [])"

text \<open>The parts of \<open>diffProfile\<close>, and the text.\<close>

definition profile_changes :: "profile \<Rightarrow> profile \<Rightarrow> profile_quota list \<Rightarrow> string list" where
  "profile_changes prev next qs =
     (let before = quotas_by_period (pf_quotas prev); after = quotas_by_period qs
      in change_text ''name'' (pf_name prev) (pf_name next)
         @ (if pf_description prev \<noteq> pf_description next then [''description changed''] else [])
         @ change_text ''models'' (fmt_models (pf_models prev)) (fmt_models (pf_models next))
         @ change_text ''tpm'' (fmt_limit (pf_tpm prev)) (fmt_limit (pf_tpm next))
         @ change_text ''rpm'' (fmt_limit (pf_rpm prev)) (fmt_limit (pf_rpm next))
         @ change_text ''valid'' (fmt_key_days (pf_key_days prev)) (fmt_key_days (pf_key_days next))
         @ concat (map (\<lambda>p. change_text (''quota '' @ p) (fmt_budget before p) (fmt_budget after p))
             (quota_periods before after))
         @ (if \<not> pf_default prev \<and> pf_default next then [''now default''] else []))"

definition diff_profile :: "profile \<Rightarrow> profile \<Rightarrow> profile_quota list \<Rightarrow> string" where
  "diff_profile prev next qs = join ''; '' (profile_changes prev next qs)"

section \<open>Lemmas\<close>

lemma format_g_examples:
  "format_g 5 = ''5''" "format_g (1 / 10) = ''0.1''" "format_g (fl64 (1 / 10)) = ''0.1''"
  "format_g (5 / 2) = ''2.5''" "format_g 20 = ''20''"
  by code_simp+

text \<open>What the form accepts: valid, distinct periods with positive amounts that bind.\<close>

definition windows_ok :: "profile_quota list \<Rightarrow> bool" where
  "windows_ok qs \<longleftrightarrow> distinct (map pq_period qs)
     \<and> list_all (\<lambda>q. is_valid_quota_period (pq_period q) \<and> pq_period q \<noteq> [] \<and> pq_budget q > 0) qs"

lemma windows_ok_snoc:
  "windows_ok (out @ [quota_of a p]) \<longleftrightarrow>
     windows_ok out \<and> \<not> list_ex (\<lambda>q. pq_period q = p) out \<and> is_valid_quota_period p \<and> p \<noteq> [] \<and> a > 0"
  by (auto simp: windows_ok_def quota_of_def list_ex_iff)

lemma quota_rows_from_ok:
  "quota_rows_from ps i out raws = Inr qs \<Longrightarrow> windows_ok out \<Longrightarrow> windows_ok qs"
proof (induction ps i out raws rule: quota_rows_from.induct)
  case (2 ps i out raw rest)
  let ?p = "if i < length ps then trim_space (ps ! i) else []"
  show ?case
  proof (cases "trim_space raw = []")
    case True
    then show ?thesis using 2(1,4,5) by simp
  next
    case False
    then obtain a where f: "parse_float (replace_char (CHR '','') (CHR ''.'') (trim_space raw)) = FloatValue a"
      using 2(4) by (auto simp: Let_def split: parsed_float.splits)
    show ?thesis
    proof (cases "a \<le> 0")
      case True
      then show ?thesis using 2(2) [OF refl False f] 2(4,5) False f by simp
    next
      case pos: False
      have ok: "is_valid_quota_period ?p" "?p \<noteq> []" "\<not> list_ex (\<lambda>q. pq_period q = ?p) out"
        and rest: "quota_rows_from ps (Suc i) (out @ [quota_of a ?p]) rest = Inr qs"
        using 2(4) False f pos by (simp_all add: Let_def split: if_split_asm)
      have "windows_ok (out @ [quota_of a ?p])" using ok pos 2(5) unfolding windows_ok_snoc by simp
      then show ?thesis using 2(3) [OF refl False f pos refl] ok rest by simp
    qed
  qed
qed simp

lemma parse_quota_windows_ok:
  "parse_quota_windows r = Inr qs \<Longrightarrow> windows_ok qs \<and> windows_bind qs"
  by (auto simp: parse_quota_windows_def windows_ok_def split: sum.splits if_splits
      dest!: quota_rows_from_ok)

end
