(* ===== verification/LimitSync.thy ===== *)
theory LimitSync
  imports World
begin

text \<open>
  \<open>internal/limitsync/limitsync.go\<close>: the run that checks the keys marked missing and pushes the limits
  of every out-of-date key.  The pushes of one batch are modelled in the order of the batch; that
  they may overlap is the subject of theory \<open>SyncRace\<close>.
\<close>

section \<open>The syncer\<close>

record sync_config =
  sc_user :: "string \<Rightarrow> string \<Rightarrow> string \<Rightarrow> gw_user" \<comment> \<open>subject, name, email\<close>
  sc_workers :: nat
  sc_grace :: duration

definition default_missing_grace :: duration where "default_missing_grace = 24 * hour"
definition max_error_len :: nat where "max_error_len = 500"

text \<open>\<open>New\<close> and \<open>WithMissingGrace\<close>.\<close>

definition new_syncer :: "(string \<Rightarrow> string \<Rightarrow> string \<Rightarrow> gw_user) \<Rightarrow> int \<Rightarrow> sync_config" where
  "new_syncer user workers =
     \<lparr>sc_user = user, sc_workers = (if workers < 1 then 1 else nat workers),
      sc_grace = default_missing_grace\<rparr>"

definition with_missing_grace :: "duration \<Rightarrow> sync_config \<Rightarrow> sync_config" where
  "with_missing_grace d c = c\<lparr>sc_grace := d\<rparr>"

text \<open>What \<open>Status\<close> reports, and the channel of one slot that \<open>Kick\<close> fills.\<close>

record sync_state =
  sy_running :: bool
  sy_finished :: "time option"
  sy_kicked :: bool

definition kick_sync :: "sync_state \<Rightarrow> sync_state" where
  "kick_sync s = (if sy_kicked s then s else s\<lparr>sy_kicked := True\<rparr>)"

definition begin_run :: "sync_state \<Rightarrow> sync_state" where
  "begin_run s = s\<lparr>sy_running := True\<rparr>"

definition finish_run :: "time \<Rightarrow> sync_state \<Rightarrow> sync_state" where
  "finish_run now s = s\<lparr>sy_running := False, sy_finished := Some now\<rparr>"

definition sync_run_status :: "sync_state \<Rightarrow> bool \<times> time option" where
  "sync_run_status s = (sy_running s, sy_finished s)"

record run_result =
  rr_synced :: nat
  rr_failed :: nat
  rr_marked :: nat
  rr_found :: nat
  rr_removed :: nat

datatype outcome = Synced | Failed | Marked

datatype run_error = Cancelled | RunError string

section \<open>One key\<close>

definition ellipsis :: string where
  "ellipsis = [CHR 0xE2, CHR 0x80, CHR 0xA6]"

definition shorten_reason :: "string \<Rightarrow> string" where
  "shorten_reason reason =
     (if length reason > max_error_len then take max_error_len reason @ ellipsis else reason)"

text \<open>\<open>fail\<close>: the result is the error of not being able to record the failure.\<close>

definition sync_fail :: "sync_target \<Rightarrow> string \<Rightarrow> ('g, string option) act" where
  "sync_fail t reason = do {
     r \<leftarrow> store_now (mark_limit_sync_failed (ts_key t) (shorten_reason reason));
     case r of
       Inr _ \<Rightarrow> State_Monad.return None
     | Inl e \<Rightarrow> do {
         c \<leftarrow> ctx_err;
         State_Monad.return (if c then None
           else Some (''record limit sync failure of key '' @ ts_prefix t @ '': '' @ db_error_text e)) } }"

text \<open>The result of one key: the outcome, whether the key was attempted, and an error.\<close>

type_synonym attempt = "outcome \<times> bool \<times> string option"

definition push_failed :: "sync_target \<Rightarrow> gw_error \<Rightarrow> ('g, attempt) act" where
  "push_failed t err = do {
     c \<leftarrow> ctx_err;
     if c then State_Monad.return (Failed, False, None)
     else if \<not> is_key_not_found err then do {
       e \<leftarrow> sync_fail t (gw_error_text err);
       State_Monad.return (Failed, True, e) }
     else do {
       r \<leftarrow> store_now2 (\<lambda>t1 t2. mark_key_missing t1 t2 (ts_key t) (ts_user t) (ts_email t)
              (''key '' @ ts_prefix t @ '' no longer exists in the gateway ('' @ source_sync @ '')''));
       case r of
         Inl me \<Rightarrow> do {
           c \<leftarrow> ctx_err;
           State_Monad.return (if c then (Failed, False, None)
             else (Failed, True, Some (''mark missing key '' @ ts_prefix t @ '': '' @ db_error_text me))) }
       | Inr newly \<Rightarrow> do {
           (if newly then emit (KeyMarkedMissing source_sync) else State_Monad.return ());
           State_Monad.return (Marked, True, None) } } }"

text \<open>The last step of \<open>syncOne\<close>: the push is recorded with what was read before it.\<close>

definition record_sync :: "sync_target \<Rightarrow> profile \<Rightarrow> ('g, attempt) act" where
  "record_sync t p = do {
     r \<leftarrow> store (mark_limits_synced (ts_key t) (pf_id p) (pf_rev p) (ts_name t) (ts_email t));
     case r of
       Inr _ \<Rightarrow> State_Monad.return (Synced, True, None)
     | Inl e \<Rightarrow> do {
         c \<leftarrow> ctx_err;
         State_Monad.return (if c then (Synced, True, None)
           else (Failed, True, Some (''record limit sync of key '' @ ts_prefix t @ '': '' @ db_error_text e))) } }"

definition relabel :: "'g provider \<Rightarrow> sync_target \<Rightarrow> ('g, gw_error option) act" where
  "relabel P t =
     (if ts_synced_name t = Some (ts_name t) then State_Monad.return None
      else do {
        b \<leftarrow> random;
        case new_alias b (ts_sub t) (ts_name t) of
          Inl e \<Rightarrow> State_Monad.return (Some (GwError e))
        | Inr a \<Rightarrow> gateway (prov_alias P (ts_ref t) a) })"

definition no_profile_reason :: string where
  "no_profile_reason = ''the user has no profile and there is no default profile''"

definition sync_one :: "sync_config \<Rightarrow> 'g provider \<Rightarrow> sync_target \<Rightarrow> ('g, attempt) act" where
  "sync_one c P t =
     (case ts_profile t of
        None \<Rightarrow> do {
          e \<leftarrow> sync_fail t no_profile_reason;
          State_Monad.return (Failed, True, e) }
      | Some pid \<Rightarrow> do {
          r \<leftarrow> query (get_profile pid);
          case r of
            Inl err \<Rightarrow> do {
              x \<leftarrow> ctx_err;
              if x then State_Monad.return (Failed, False, None)
              else do {
                e \<leftarrow> sync_fail t (''load profile '' @ format_int pid @ '': '' @ db_error_text err);
                State_Monad.return (Failed, True, e) } }
          | Inr p \<Rightarrow> do {
              pushed \<leftarrow> gateway (prov_limits P (ts_ref t) (sc_user c (ts_sub t) (ts_name t) (ts_email t))
                          (profile_limits (Some p)));
              case pushed of
                Some err \<Rightarrow> push_failed t err
              | None \<Rightarrow> do {
                  labelled \<leftarrow> relabel P t;
                  case labelled of
                    Some err \<Rightarrow> push_failed t err
                  | None \<Rightarrow> record_sync t p } } })"

section \<open>Batches\<close>

text \<open>
  \<open>forEach\<close>: no further item is started once the context is cancelled; the first error is returned.
\<close>

fun for_each :: "('a \<Rightarrow> ('g, 'b \<times> string option) act) \<Rightarrow> 'a list \<Rightarrow> ('g, 'b list \<times> string option) act" where
  "for_each f [] = State_Monad.return ([], None)"
| "for_each f (x # xs) = do {
     c \<leftarrow> ctx_err;
     if c then State_Monad.return ([], None)
     else do {
       (b, e) \<leftarrow> f x;
       (bs, e') \<leftarrow> for_each f xs;
       State_Monad.return (b # bs, case e of Some _ \<Rightarrow> e | None \<Rightarrow> e') } }"

definition attempt_one :: "sync_config \<Rightarrow> 'g provider \<Rightarrow> sync_target \<Rightarrow> ('g, (int \<times> outcome) list \<times> string option) act" where
  "attempt_one c P t = do {
     (o', attempted, e) \<leftarrow> sync_one c P t;
     State_Monad.return (if attempted then [(ts_key t, o')] else [], e) }"

text \<open>\<open>syncBatch\<close>: the outcome of each attempted key.\<close>

definition sync_batch :: "sync_config \<Rightarrow> 'g provider \<Rightarrow> sync_target list \<Rightarrow> ('g, (int \<times> outcome) list \<times> string option) act" where
  "sync_batch c P ts = do {
     (os, e) \<leftarrow> for_each (attempt_one c P) ts;
     State_Monad.return (concat os, e) }"

section \<open>Keys marked missing\<close>

datatype check_result = CheckKept | CheckFound | CheckRemoved

definition check_one :: "sync_config \<Rightarrow> 'g provider \<Rightarrow> missing_key \<Rightarrow> ('g, check_result \<times> string option) act" where
  "check_one c P m = do {
     err \<leftarrow> gateway (prov_check P (mk_ref m));
     x \<leftarrow> ctx_err;
     if x then State_Monad.return (CheckKept, None)
     else case err of
       None \<Rightarrow> do {
         r \<leftarrow> store_now (\<lambda>t. clear_key_missing t (mk_id m) (mk_user m) (mk_email m)
                (''key '' @ mk_prefix m @ '' is in the gateway again''));
         case r of
           Inl e \<Rightarrow> do {
             x \<leftarrow> ctx_err;
             State_Monad.return (CheckKept, if x then None
               else Some (''unmark missing key '' @ mk_prefix m @ '': '' @ db_error_text e)) }
         | Inr cleared \<Rightarrow> State_Monad.return (if cleared then CheckFound else CheckKept, None) }
     | Some e \<Rightarrow>
         if \<not> is_key_not_found e then State_Monad.return (CheckKept, None)
         else do {
           now \<leftarrow> time_now;
           r \<leftarrow> store_now (\<lambda>t. remove_missing_key t (mk_id m) (mk_user m) (mk_email m)
                  (''key '' @ mk_prefix m @ '' stayed missing from the gateway since '' @
                   format_minute (mk_since m) @ '', past the grace period of '' @ duration_text (sc_grace c))
                  (now - sc_grace c));
           case r of
             Inl e \<Rightarrow> do {
               x \<leftarrow> ctx_err;
               State_Monad.return (CheckKept, if x then None
                 else Some (''remove missing key '' @ mk_prefix m @ '': '' @ db_error_text e)) }
           | Inr dropped \<Rightarrow>
               if \<not> dropped then State_Monad.return (CheckKept, None)
               else do {
                 emit KeyMissingRemoved;
                 State_Monad.return (CheckRemoved, None) } } }"

definition check_missing :: "sync_config \<Rightarrow> 'g provider \<Rightarrow> ('g, nat \<times> nat \<times> string option) act" where
  "check_missing c P = do {
     r \<leftarrow> select list_missing_keys;
     case r of
       Inl e \<Rightarrow> State_Monad.return (0, 0, Some (''list missing keys: '' @ db_error_text e))
     | Inr keys \<Rightarrow> do {
         (os, e) \<leftarrow> for_each (check_one c P) keys;
         State_Monad.return (count_where (\<lambda>x. x = CheckFound) os, count_where (\<lambda>x. x = CheckRemoved) os, e) } }"

section \<open>The run\<close>

definition batch_size :: "sync_config \<Rightarrow> nat" where
  "batch_size c = max 50 (sc_workers c * 10)"

definition tally :: "(int \<times> outcome) list \<Rightarrow> run_result \<Rightarrow> run_result" where
  "tally os r = r\<lparr>rr_synced := rr_synced r + count_where (\<lambda>(_, x). x = Synced) os,
                  rr_marked := rr_marked r + count_where (\<lambda>(_, x). x = Marked) os,
                  rr_failed := rr_failed r + count_where (\<lambda>(_, x). x = Failed) os\<rparr>"

definition failed_ids :: "(int \<times> outcome) list \<Rightarrow> int set" where
  "failed_ids os = fst ` set (filter (\<lambda>(_, x). x = Failed) os)"

definition run_end :: "run_result \<Rightarrow> ('g, run_result \<times> run_error option) act" where
  "run_end r = do { c \<leftarrow> ctx_err; State_Monad.return (r, if c then Some Cancelled else None) }"

text \<open>
  The loop of \<open>Run\<close>, with fuel: \<open>None\<close> is a run that has not ended within that many rounds.
\<close>

fun sync_loop :: "nat \<Rightarrow> sync_config \<Rightarrow> 'g provider \<Rightarrow> time \<Rightarrow> int set \<Rightarrow> run_result
    \<Rightarrow> ('g, (run_result \<times> run_error option) option) act" where
  "sync_loop 0 c P start failed r = State_Monad.return None"
| "sync_loop (Suc n) c P start failed r = do {
     x \<leftarrow> ctx_err;
     if x then do { e \<leftarrow> run_end r; State_Monad.return (Some e) }
     else do {
       now \<leftarrow> time_now;
       b \<leftarrow> select (pending_limit_syncs now start (batch_size c));
       case b of
         Inl e \<Rightarrow> State_Monad.return (Some (r, Some (RunError (''find out-of-date keys: '' @ db_error_text e))))
       | Inr batch \<Rightarrow>
           (let fresh = filter (\<lambda>t. ts_key t \<notin> failed) batch
            in if fresh = [] then do { e \<leftarrow> run_end r; State_Monad.return (Some e) }
               else do {
                 (os, err) \<leftarrow> sync_batch c P fresh;
                 (let r' = tally os r
                  in case err of
                       Some s \<Rightarrow> State_Monad.return (Some (r', Some (RunError s)))
                     | None \<Rightarrow> sync_loop n c P start (failed \<union> failed_ids os) r') }) } }"

definition sync_run :: "nat \<Rightarrow> sync_config \<Rightarrow> 'g provider \<Rightarrow> ('g, (run_result \<times> run_error option) option) act" where
  "sync_run fuel c P = do {
     (found, removed, err) \<leftarrow> check_missing c P;
     (let r = \<lparr>rr_synced = 0, rr_failed = 0, rr_marked = 0, rr_found = found, rr_removed = removed\<rparr>
      in case err of
           Some s \<Rightarrow> State_Monad.return (Some (r, Some (RunError s)))
         | None \<Rightarrow> do {
             start \<leftarrow> time_now;
             sync_loop fuel c P start {} r }) }"

end
