(* ===== verification/Admin.thy ===== *)
theory Admin
  imports Portal ProfileForm LimitSync
begin

text \<open>
  The admin panel: the gate and the handlers of \<open>internal/handlers/admin.go\<close>, the rows of \<open>admins.go\<close>
  and the card of \<open>limitsync.go\<close>.  A path parameter is an argument of its handler.  The panel shares the
  parts of a \<open>portal\<close>; \<open>po_kick\<close> says whether there is a limit sync.
\<close>

section \<open>Who acts\<close>

definition audit_key_revoked :: string where "audit_key_revoked = ''key.revoked''"
definition audit_profile_set :: string where "audit_profile_set = ''user.profile_set''"
definition audit_profile_created :: string where "audit_profile_created = ''profile.created''"
definition audit_profile_updated :: string where "audit_profile_updated = ''profile.updated''"
definition audit_profile_deleted :: string where "audit_profile_deleted = ''profile.deleted''"

definition actor :: "'g portal \<Rightarrow> request \<Rightarrow> ('g, user option) act" where
  "actor po r = do {
     s \<leftarrow> session_get (po_sessions po) (token_from_request (po_sessions po) r);
     State_Monad.return (case s of Inl _ \<Rightarrow> None | Inr su \<Rightarrow> Some (su_user su)) }"

definition actor_email :: "'g portal \<Rightarrow> request \<Rightarrow> ('g, string) act" where
  "actor_email po r = do {
     u \<leftarrow> actor po r;
     State_Monad.return (case u of None \<Rightarrow> ''unknown'' | Some u \<Rightarrow> us_email u) }"

definition admin_audit :: "'g portal \<Rightarrow> request \<Rightarrow> string \<Rightarrow> string \<Rightarrow> int option \<Rightarrow> string \<Rightarrow> ('g, unit) act" where
  "admin_audit po r action subject sid detail = do {
     email \<leftarrow> actor_email po r;
     _ \<leftarrow> store_now (\<lambda>t. record_audit t \<lparr>au_id = 0, au_created = 0, au_action = action, au_actor = email,
            au_subject = subject, au_subject_id = sid, au_detail = detail\<rparr>);
     State_Monad.return () }"

text \<open>\<open>Middleware\<close>: the flag on the account is the only thing that opens the panel.\<close>

definition admin_middleware :: "'g portal \<Rightarrow> (request \<Rightarrow> ('g, 'p response) act) \<Rightarrow> request \<Rightarrow> ('g, 'p response) act" where
  "admin_middleware po next r =
     (let token = token_from_request (po_sessions po) r
      in if token = [] then State_Monad.return to_login
         else do {
           s \<leftarrow> session_get (po_sessions po) token;
           case s of
             Inl _ \<Rightarrow> State_Monad.return to_login
           | Inr su \<Rightarrow>
               if \<not> us_admin (su_user su) then State_Monad.return (plain (HttpError 403 ''Forbidden''))
               else next r })"

text \<open>\<open>defer a.kickSync()\<close>: after everything else the handler does, whatever its outcome.\<close>

definition kicking :: "'g portal \<Rightarrow> ('g, 'a) act \<Rightarrow> ('g, 'a) act" where
  "kicking po m = do { x \<leftarrow> m; kick po; State_Monad.return x }"

definition to_admin :: "string \<Rightarrow> 'p response" where
  "to_admin s = plain (Redirect (''/admin?flash='' @ s))"

section \<open>Keys\<close>

definition revoke_user_key :: "'g portal \<Rightarrow> string \<Rightarrow> request \<Rightarrow> ('g, 'p response) act" where
  "revoke_user_key po sid r =
     (case parse_int64 sid of
        None \<Rightarrow> State_Monad.return (plain (HttpError 400 ''invalid user id''))
      | Some uid \<Rightarrow> do {
          u \<leftarrow> query (get_user_by_id uid);
          case u of
            Inl _ \<Rightarrow> State_Monad.return (to_admin ''User+not+found#users'')
          | Inr u \<Rightarrow> do {
              k \<leftarrow> select (get_api_key_by_user uid);
              case k of
                Inl _ \<Rightarrow> State_Monad.return (to_admin ''Failed+to+load+key#users'')
              | Inr None \<Rightarrow> State_Monad.return (to_admin ''User+has+no+key#users'')
              | Inr (Some k) \<Rightarrow> do {
                  e \<leftarrow> gateway (prov_delete (po_keys po) (ak_ref k));
                  case e of
                    Some _ \<Rightarrow> do {
                      emit (KeyOperation ''revoke'' ''provider_error'');
                      State_Monad.return (to_admin ''Failed+to+revoke+key+upstream#users'') }
                  | None \<Rightarrow> do {
                      _ \<leftarrow> store (delete_api_key (ak_id k));
                      emit (KeyOperation ''revoke'' ''success'');
                      admin_audit po r audit_key_revoked (us_email u) (Some uid) (''key '' @ ak_prefix k);
                      State_Monad.return (to_admin ''Key+revoked#users'') } } } })"

section \<open>Profiles\<close>

fun audit_demoted :: "'g portal \<Rightarrow> request \<Rightarrow> string list \<Rightarrow> ('g, unit) act" where
  "audit_demoted po r [] = State_Monad.return ()"
| "audit_demoted po r (n # ns) = do {
     admin_audit po r audit_profile_updated n None ''no longer default'';
     audit_demoted po r ns }"

definition create_profile_handler :: "'g portal \<Rightarrow> request \<Rightarrow> ('g, 'p response) act" where
  "create_profile_handler po r = kicking po
     (if rq_form_error r \<noteq> None then State_Monad.return (plain (HttpError 400 ''bad request''))
      else let (p, q) = profile_from_form r in
        if pf_name p = [] then State_Monad.return (to_admin ''Name+is+required'')
        else case q of
          Inl _ \<Rightarrow> State_Monad.return (to_admin ''Invalid+quota+window'')
        | Inr qs \<Rightarrow> do {
            c \<leftarrow> store_now (\<lambda>t. create_profile t p qs);
            case c of
              Inl _ \<Rightarrow> State_Monad.return (to_admin ''Failed+to+create+profile'')
            | Inr (demoted, _) \<Rightarrow> do {
                admin_audit po r audit_profile_created (pf_name p) None (describe_profile p qs);
                audit_demoted po r demoted;
                State_Monad.return (to_admin ''Profile+created'') } })"

definition undefault_refused :: string where
  "undefault_refused = ''The+default+profile+must+stay+the+default.+Mark+another+profile+as+default+instead.''"

definition update_profile_handler :: "'g portal \<Rightarrow> string \<Rightarrow> request \<Rightarrow> ('g, 'p response) act" where
  "update_profile_handler po pid r = kicking po
     (case parse_int64 pid of
        None \<Rightarrow> State_Monad.return (plain (HttpError 400 ''invalid id''))
      | Some i \<Rightarrow>
          if i < 1 then State_Monad.return (plain (HttpError 400 ''invalid id''))
          else if rq_form_error r \<noteq> None then State_Monad.return (plain (HttpError 400 ''bad request''))
          else let (p, q) = profile_from_form r in
            if pf_name p = [] then State_Monad.return (to_admin ''Name+is+required'')
            else case q of
              Inl _ \<Rightarrow> State_Monad.return (to_admin ''Invalid+quota+window'')
            | Inr qs \<Rightarrow> do {
                c \<leftarrow> store_now (\<lambda>t. update_profile t (p\<lparr>pf_id := i\<rparr>) qs);
                case c of
                  Inl e \<Rightarrow> State_Monad.return (to_admin (if e = ErrDefaultProfile then undefault_refused
                                                       else ''Failed+to+update+profile''))
                | Inr (prev, demoted, p') \<Rightarrow> do {
                    (let detail = diff_profile prev p' qs
                     in if detail \<noteq> [] then admin_audit po r audit_profile_updated (pf_name p') None detail
                        else State_Monad.return ());
                    audit_demoted po r demoted;
                    State_Monad.return (to_admin ''Profile+updated'') } })"

definition delete_refused :: string where
  "delete_refused = ''The+default+profile+cannot+be+deleted.+Mark+another+profile+as+default+first.''"

definition in_use_message :: "nat \<Rightarrow> string" where
  "in_use_message n =
     ''Profile is assigned to '' @ format_nat n @ '' user(s). Move them to another profile first.''"

definition delete_profile_handler :: "'g portal \<Rightarrow> string \<Rightarrow> request \<Rightarrow> ('g, 'p response) act" where
  "delete_profile_handler po pid r = kicking po
     (case parse_int64 pid of
        None \<Rightarrow> State_Monad.return (plain (HttpError 400 ''invalid id''))
      | Some i \<Rightarrow> do {
          prev \<leftarrow> query (get_profile i);
          c \<leftarrow> store (delete_profile i);
          case c of
            Inl e \<Rightarrow> State_Monad.return (to_admin (case e of
                ErrDefaultProfile \<Rightarrow> delete_refused
              | ProfileInUse n \<Rightarrow> query_escape (in_use_message n)
              | _ \<Rightarrow> ''Failed+to+delete+profile''))
          | Inr _ \<Rightarrow> do {
              (case prev of
                 Inl _ \<Rightarrow> State_Monad.return ()
               | Inr p \<Rightarrow> admin_audit po r audit_profile_deleted (pf_name p) None (describe_profile p (pf_quotas p)));
              State_Monad.return (to_admin ''Profile+deleted'') } })"

section \<open>Assignments\<close>

text \<open>An optional id of the form: none for a blank field, 0, and a text that is no number.\<close>

definition form_id :: "request \<Rightarrow> string \<Rightarrow> int option" where
  "form_id r k = (let v = form_value r k in if v = [] \<or> v = ''0'' then None else parse_int64 v)"

text \<open>The deadline: the end of the chosen day; \<open>Inl\<close> for a date that does not parse.\<close>

definition form_deadline :: "request \<Rightarrow> unit + time option" where
  "form_deadline r =
     (let v = trim_space (form_value r ''expires_at'')
      in if v = [] then Inr None
         else case parse_date v of
                None \<Rightarrow> Inl ()
              | Some d \<Rightarrow> Inr (Some (d + (24 * hour - second))))"

definition assignment_detail :: "int option \<Rightarrow> time option \<Rightarrow> ('g, string) act" where
  "assignment_detail pid expires = do {
     name \<leftarrow> (case pid of
         None \<Rightarrow> State_Monad.return ''cleared''
       | Some i \<Rightarrow> do {
           p \<leftarrow> query (get_profile i);
           State_Monad.return (case p of Inl _ \<Rightarrow> ''cleared'' | Inr p \<Rightarrow> pf_name p) });
     State_Monad.return (case expires of None \<Rightarrow> name | Some t \<Rightarrow> name @ '' until '' @ format_date t) }"

definition set_user_profile_handler :: "'g portal \<Rightarrow> string \<Rightarrow> request \<Rightarrow> ('g, 'p response) act" where
  "set_user_profile_handler po sid r = kicking po
     (case parse_int64 sid of
        None \<Rightarrow> State_Monad.return (plain (HttpError 400 ''invalid user id''))
      | Some uid \<Rightarrow>
          if rq_form_error r \<noteq> None then State_Monad.return (plain (HttpError 400 ''bad request''))
          else case form_deadline r of
            Inl _ \<Rightarrow> State_Monad.return (to_admin ''Enter+the+date+as+YYYY-MM-DD#users'')
          | Inr expires \<Rightarrow>
              (let pid = form_id r ''profile_id''
               in do {
                 c \<leftarrow> store_now (\<lambda>t. set_user_profile_until t uid pid expires (form_id r ''after_expiry'')
                        (form_value r ''revoke_at_expiry'' \<noteq> []));
                 case c of
                   Inl _ \<Rightarrow> State_Monad.return (to_admin ''Failed+to+update+user+profile'')
                 | Inr _ \<Rightarrow> do {
                     detail \<leftarrow> assignment_detail pid expires;
                     u \<leftarrow> query (get_user_by_id uid);
                     admin_audit po r audit_profile_set (case u of Inl _ \<Rightarrow> [] | Inr u \<Rightarrow> us_email u) (Some uid) detail;
                     State_Monad.return (to_admin ''User+profile+updated#users'') } }))"

section \<open>Administrators\<close>

definition refuse_when_group_managed :: "'g portal \<Rightarrow> 'p response option" where
  "refuse_when_group_managed po =
     (if admin_from_groups (po_cfg po) then Some (to_admin ''Admins+are+managed+in+the+login+system#admins'')
      else None)"

definition account_from_form :: "request \<Rightarrow> ('g, 'p response + user) act" where
  "account_from_form r =
     (if rq_form_error r \<noteq> None then State_Monad.return (Inl (plain (HttpError 400 ''bad request'')))
      else case parse_int64 (form_value r ''user_id'') of
        None \<Rightarrow> State_Monad.return (Inl (plain (HttpError 400 ''invalid user id'')))
      | Some i \<Rightarrow>
          if i < 1 then State_Monad.return (Inl (plain (HttpError 400 ''invalid user id'')))
          else do {
            u \<leftarrow> query (get_user_by_id i);
            State_Monad.return (case u of
                Inl _ \<Rightarrow> Inl (to_admin ''That+account+is+not+known+to+Keyosk#admins'')
              | Inr u \<Rightarrow> Inr u) })"

definition grant_admin :: "'g portal \<Rightarrow> request \<Rightarrow> ('g, 'p response) act" where
  "grant_admin po r =
     (case refuse_when_group_managed po of
        Some resp \<Rightarrow> State_Monad.return resp
      | None \<Rightarrow> do {
          a \<leftarrow> account_from_form r;
          case a of
            Inl resp \<Rightarrow> State_Monad.return resp
          | Inr u \<Rightarrow> do {
              s \<leftarrow> store_now (\<lambda>t. set_user_admin t (us_id u) True);
              case s of
                Inl _ \<Rightarrow> State_Monad.return (to_admin ''Failed+to+grant+admin#admins'')
              | Inr _ \<Rightarrow> do {
                  admin_audit po r audit_admin_granted (us_email u) (Some (us_id u)) ''admin granted'';
                  State_Monad.return (to_admin ''Admin+granted#admins'') } } })"

text \<open>\<open>RevokeAdmin\<close>: the check against the own account needs the session to be readable.\<close>

definition revoke_account :: "'g portal \<Rightarrow> request \<Rightarrow> user \<Rightarrow> ('g, 'p response) act" where
  "revoke_account po r u = do {
     me \<leftarrow> actor po r;
     if map_option us_id me = Some (us_id u) then
       State_Monad.return (to_admin ''You+cannot+remove+your+own+admin+rights#admins'')
     else do {
       s \<leftarrow> store_now (\<lambda>t. set_user_admin t (us_id u) False);
       case s of
         Inl _ \<Rightarrow> State_Monad.return (to_admin ''Failed+to+revoke+admin#admins'')
       | Inr _ \<Rightarrow> do {
           admin_audit po r audit_admin_revoked (us_email u) (Some (us_id u)) ''admin revoked'';
           State_Monad.return (to_admin ''Admin+revoked#admins'') } } }"

definition revoke_admin :: "'g portal \<Rightarrow> request \<Rightarrow> ('g, 'p response) act" where
  "revoke_admin po r =
     (case refuse_when_group_managed po of
        Some resp \<Rightarrow> State_Monad.return resp
      | None \<Rightarrow> do {
          a \<leftarrow> account_from_form r;
          case a of
            Inl resp \<Rightarrow> State_Monad.return resp
          | Inr u \<Rightarrow> revoke_account po r u })"

section \<open>What the handlers do to the database\<close>

lemma admin_shared_steps [steps]:
  "db_steps (actor po r)" "db_steps (admin_audit po r a s i d)" "db_steps m \<Longrightarrow> db_steps (kicking po m)"
  "(\<And>r. db_steps (next r)) \<Longrightarrow> db_steps (admin_middleware po next r)"
proof -
  show 1: "db_steps (actor po r)" for r unfolding actor_def by (intro steps)
  show "db_steps (admin_audit po r a s i d)"
    unfolding admin_audit_def actor_email_def by (intro steps 1 db_steps_store_now) (erule db_step.audit)
qed (unfold kicking_def admin_middleware_def Let_def, (intro steps; assumption?)+)

lemma audit_demoted_steps [steps]: "db_steps (audit_demoted po r ns)"
  by (induction ns) (auto intro: steps)

lemma revoke_user_key_steps [steps]: "db_steps (revoke_user_key po i r)"
  unfolding revoke_user_key_def by (intro steps db_steps_store) (erule db_step.delete_key)

lemma create_profile_handler_steps [steps]: "db_steps (create_profile_handler po r)"
  unfolding create_profile_handler_def Let_def by (intro steps db_steps_store_now) (erule db_step.create_profile)

lemma update_profile_handler_steps [steps]: "db_steps (update_profile_handler po i r)"
  unfolding update_profile_handler_def Let_def by (intro steps db_steps_store_now) (erule db_step.update_profile)

lemma delete_profile_handler_steps [steps]: "db_steps (delete_profile_handler po i r)"
  unfolding delete_profile_handler_def by (intro steps db_steps_store) (erule db_step.delete_profile)

lemma set_user_profile_handler_steps [steps]: "db_steps (set_user_profile_handler po i r)"
proof -
  have 1: "db_steps (assignment_detail p t)" for p t unfolding assignment_detail_def by (intro steps)
  show ?thesis
    unfolding set_user_profile_handler_def Let_def
    by (intro steps 1 db_steps_store_now) (erule db_step.assign_until)
qed

lemma admin_rights_steps [steps]: "db_steps (grant_admin po r)" "db_steps (revoke_admin po r)"
proof -
  have 1: "db_steps (account_from_form r)" unfolding account_from_form_def by (intro steps)
  show "db_steps (grant_admin po r)"
    unfolding grant_admin_def by (intro steps 1 db_steps_store_now) (erule db_step.admin)
  have "db_steps (revoke_account po r u)" for u
    unfolding revoke_account_def by (intro steps db_steps_store_now) (erule db_step.admin)
  then show "db_steps (revoke_admin po r)" unfolding revoke_admin_def by (intro steps 1; assumption?)
qed

end
