(* ===== verification/AdminPanel.thy ===== *)
theory AdminPanel
  imports Admin
begin

text \<open>
  What the admin page shows: \<open>Panel\<close> of \<open>internal/handlers/admin.go\<close>, the rows of \<open>admins.go\<close>, and the
  limit sync's card of \<open>limitsync.go\<close>.  Times are shown in UTC.
\<close>

section \<open>Administrators\<close>

record admin_row =
  ar_user :: user
  ar_self :: bool
  ar_removable :: bool

definition admin_rows :: "user list \<Rightarrow> int \<Rightarrow> admin_row list" where
  "admin_rows admins me =
     map (\<lambda>u. \<lparr>ar_user = u, ar_self = (us_id u = me), ar_removable = (us_id u \<noteq> me)\<rparr>) admins"

definition admin_candidates :: "user list \<Rightarrow> user list" where
  "admin_candidates us = filter (\<lambda>u. \<not> us_admin u) us"

section \<open>The limit sync's card\<close>

record sync_failure_row =
  fr_email :: string
  fr_prefix :: string
  fr_error :: string
  fr_failed_at :: string

record limit_sync_view =
  lv_ok :: bool
  lv_unavailable :: bool
  lv_summary :: string
  lv_details :: "string list"
  lv_failures :: "sync_failure_row list"
  lv_more :: string
  lv_by_profile :: "(int \<times> nat) list"

definition count_key :: "string \<Rightarrow> nat \<Rightarrow> string" where
  "count_key key n = (if n = 1 then key @ ''.one'' else key)"

definition format_interval :: "duration \<Rightarrow> string" where
  "format_interval d =
     (if d \<le> 0 then ''?''
      else if d mod hour = 0 then format_int (d div hour) @ '' h''
      else if d mod minute = 0 then format_int (d div minute) @ '' min''
      else if d mod second = 0 then format_int (d div second) @ '' s''
      else duration_text d)"

definition no_view :: limit_sync_view where
  "no_view = \<lparr>lv_ok = False, lv_unavailable = False, lv_summary = [], lv_details = [], lv_failures = [],
     lv_more = [], lv_by_profile = []\<rparr>"

text \<open>The sentences of the card, from the status in the database and that of the running sync.\<close>

definition sync_details :: "lang \<Rightarrow> duration \<Rightarrow> sync_status \<Rightarrow> bool \<times> time option \<Rightarrow> string list" where
  "sync_details l interval st run =
     (if st_pending st = 0 then []
      else (if fst run then [translate l ''admin.sync.running'']
            else [sprintf (translate l ''admin.sync.next'') [FmtS (format_interval interval)]])
           @ (if st_failed st > 0
              then [sprintf (translate l (count_key ''admin.sync.failed'' (st_failed st))) [FmtD (int (st_failed st))]]
              else []))
     @ (case snd run of
          None \<Rightarrow> []
        | Some t \<Rightarrow> [sprintf (translate l ''admin.sync.last'') [FmtS (format_minute t)]])"

definition sync_view :: "lang \<Rightarrow> duration \<Rightarrow> sync_status \<Rightarrow> bool \<times> time option \<Rightarrow> limit_sync_view" where
  "sync_view l interval st run =
     \<lparr>lv_ok = (st_pending st = 0), lv_unavailable = False,
      lv_summary = (if st_pending st = 0 then translate l ''admin.sync.ok''
        else sprintf (translate l (count_key ''admin.sync.pending'' (st_pending st))) [FmtD (int (st_pending st))]),
      lv_details = sync_details l interval st run,
      lv_failures = map (\<lambda>f. \<lparr>fr_email = sf_email f, fr_prefix = sf_prefix f, fr_error = sf_error f,
                              fr_failed_at = format_minute (sf_failed_at f)\<rparr>) (st_failures st),
      lv_more = (if st_failed st > length (st_failures st)
        then sprintf (translate l ''admin.sync.more'') [FmtD (int (st_failed st - length (st_failures st)))] else []),
      lv_by_profile = st_by_profile st\<rparr>"

text \<open>\<open>limitSyncStatus\<close>; without a sync it counts as never run.\<close>

definition limit_sync_status :: "'g portal \<Rightarrow> sync_state option \<Rightarrow> lang \<Rightarrow> ('g, limit_sync_view) act" where
  "limit_sync_status po sy l = do {
     t1 \<leftarrow> time_now;
     t2 \<leftarrow> time_now;
     r \<leftarrow> select (get_limit_sync_status t1 t2);
     State_Monad.return (case r of
         Inl _ \<Rightarrow> no_view\<lparr>lv_unavailable := True, lv_summary := translate l ''admin.sync.unavailable''\<rparr>
       | Inr st \<Rightarrow> sync_view l (cf_sync_interval (po_cfg po)) st
                    (case sy of None \<Rightarrow> (False, None) | Some s \<Rightarrow> sync_run_status s)) }"

section \<open>The page\<close>

record user_row =
  uw_user :: user
  uw_profile :: int
  uw_key_prefix :: string
  uw_key_expires :: string
  uw_key_expired :: bool
  uw_has_key :: bool
  uw_missing_since :: string
  uw_expires_at :: string
  uw_after :: int
  uw_revoke :: bool

record admin_data =
  ad_lang :: lang
  ad_user :: "user option"
  ad_models :: "string list"
  ad_key_days :: int
  ad_profiles :: "profile list"
  ad_users :: "user_row list"
  ad_audit :: "audit_event list"
  ad_flash :: string
  ad_csrf :: string
  ad_unit :: string
  ad_admins :: "admin_row list"
  ad_candidates :: "user list"
  ad_group :: string
  ad_sync :: limit_sync_view

definition date_or_blank :: "time option \<Rightarrow> string" where
  "date_or_blank t = (case t of None \<Rightarrow> [] | Some t \<Rightarrow> format_date t)"

text \<open>One row, with the clock at which the key's end is looked at.\<close>

definition user_row_of :: "time \<Rightarrow> user \<Rightarrow> api_key option \<Rightarrow> user_row" where
  "user_row_of now u k =
     \<lparr>uw_user = u, uw_profile = the_default 0 (us_profile u),
      uw_key_prefix = (case k of None \<Rightarrow> [] | Some k \<Rightarrow> ak_prefix k),
      uw_key_expires = (case k of None \<Rightarrow> [] | Some k \<Rightarrow> format_date (ak_expires k)),
      uw_key_expired = (case k of None \<Rightarrow> False | Some k \<Rightarrow> now > ak_expires k),
      uw_has_key = (k \<noteq> None),
      uw_missing_since = (case k of None \<Rightarrow> [] | Some k \<Rightarrow> date_or_blank (ak_missing k)),
      uw_expires_at = date_or_blank (us_expires u), uw_after = the_default 0 (us_after u),
      uw_revoke = us_revoke u\<rparr>"

text \<open>\<open>ListAPIKeys\<close>, and the map from users to keys.\<close>

definition list_api_keys :: "database \<Rightarrow> api_key list" where
  "list_api_keys d = api_keys d"

definition key_of :: "api_key list \<Rightarrow> int \<Rightarrow> api_key option" where
  "key_of ks uid = find (\<lambda>k. ak_user k = uid) (rev ks)"

fun user_rows :: "api_key list \<Rightarrow> user list \<Rightarrow> ('g, user_row list) act" where
  "user_rows ks [] = State_Monad.return []"
| "user_rows ks (u # us) = do {
     now \<leftarrow> time_now;
     rest \<leftarrow> user_rows ks us;
     State_Monad.return (user_row_of now u (key_of ks (us_id u)) # rest) }"

definition or_empty :: "db_error + 'a list \<Rightarrow> 'a list" where
  "or_empty r = (case r of Inl _ \<Rightarrow> [] | Inr xs \<Rightarrow> xs)"

text \<open>The part of \<open>Panel\<close> after the profiles and the users are loaded.\<close>

definition panel_page :: "'g portal \<Rightarrow> sync_state option \<Rightarrow> request \<Rightarrow> profile list \<Rightarrow> user list
    \<Rightarrow> ('g, admin_data response) act" where
  "panel_page po sy r ps us = do {
     ks \<leftarrow> select list_api_keys;
     rows \<leftarrow> user_rows (or_empty ks) us;
     audit \<leftarrow> select (list_audit_events 50);
     admins \<leftarrow> select list_admins;
     me \<leftarrow> actor po r;
     ms \<leftarrow> cached_models m_admin_models m_admin_models_update (po_lister po);
     (token, cookies) \<leftarrow> csrf_token (po_csrf po) r;
     (let l = lang_from_request r
      in do {
        sync \<leftarrow> limit_sync_status po sy l;
        State_Monad.return
          \<lparr>rs_cookies = cookies, rs_headers = [], rs_reply = Page
            \<lparr>ad_lang = l, ad_user = me, ad_models = the_default [] ms, ad_key_days = cf_key_days (po_cfg po),
             ad_profiles = ps, ad_users = rows, ad_audit = or_empty audit, ad_flash = query_value r ''flash'',
             ad_csrf = token, ad_unit = cf_unit (po_cfg po),
             ad_admins = admin_rows (or_empty admins) (case me of None \<Rightarrow> 0 | Some u \<Rightarrow> us_id u),
             ad_candidates = admin_candidates us, ad_group = cf_admin_group (po_cfg po), ad_sync = sync\<rparr>\<rparr> }) }"

definition panel :: "'g portal \<Rightarrow> sync_state option \<Rightarrow> request \<Rightarrow> ('g, admin_data response) act" where
  "panel po sy r = do {
     p \<leftarrow> select list_profiles;
     case p of
       Inl _ \<Rightarrow> State_Monad.return (plain (HttpError 500 ''Failed to load profiles''))
     | Inr ps \<Rightarrow> do {
         u \<leftarrow> select list_users;
         case u of
           Inl _ \<Rightarrow> State_Monad.return (plain (HttpError 500 ''Failed to load users''))
         | Inr us \<Rightarrow> panel_page po sy r ps (map fst us) } }"

section \<open>Lemmas\<close>

lemma user_rows_steps [steps]: "db_steps (user_rows ks us)"
  by (induction us) (auto intro: steps)

lemma panel_steps [steps]: "db_steps (panel po sy r)"
proof -
  have 1: "db_steps (limit_sync_status po sy l)" for l unfolding limit_sync_status_def by (intro steps)
  show ?thesis unfolding panel_def panel_page_def Let_def by (intro steps 1)
qed

lemma format_interval_examples:
  "format_interval (5 * minute) = ''5 min''" "format_interval (2 * hour) = ''2 h''"
  "format_interval (90 * second) = ''90 s''" "format_interval 0 = ''?''"
  by code_simp+

lemma own_row_not_removable: "a \<in> set (admin_rows us me) \<Longrightarrow> ar_removable a \<longleftrightarrow> us_id (ar_user a) \<noteq> me"
  by (auto simp: admin_rows_def)

end
