(* ===== verification/Pages.thy ===== *)
theory Pages
  imports AdminPanel
begin

text \<open>
  The remaining pages and the middleware of the server: the account settings (\<open>account.go\<close>, \<open>theme.go\<close>),
  the privacy notice (\<open>privacy.go\<close>), the headers (\<open>headers.go\<close>), the limit of a request's body
  (\<open>bodylimit.go\<close>), the token of the metrics (\<open>RequireToken\<close> of \<open>metrics.go\<close>), and the table of routes
  (\<open>newRouter\<close> of \<open>cmd/server/router.go\<close>).
\<close>

section \<open>Themes and preferences\<close>

definition theme_cookie :: string where "theme_cookie = ''theme''"

definition themes :: "string list" where "themes = [[], ''light'', ''dark'']"

definition valid_theme :: "string \<Rightarrow> bool" where
  "valid_theme t \<longleftrightarrow> list_ex (\<lambda>v. v = t) themes"

definition theme_from_request :: "request \<Rightarrow> string" where
  "theme_from_request r =
     (case cookie_of r theme_cookie of Some t \<Rightarrow> if valid_theme t then t else [] | None \<Rightarrow> [])"

definition pref_cookie :: "string \<Rightarrow> string \<Rightarrow> bool \<Rightarrow> cookie" where
  "pref_cookie name value secure =
     \<lparr>ck_name = name, ck_value = value, ck_path = ''/'',
      ck_max_age = (if value = [] then -1 else 365 * 24 * 60 * 60), ck_http_only = True, ck_secure = secure,
      ck_lax = True\<rparr>"

section \<open>Account settings\<close>

record account_data =
  ac_lang :: lang
  ac_theme :: string
  ac_csrf :: string
  ac_user :: user
  ac_is_admin :: bool
  ac_notice :: bool
  ac_langs :: "lang list"
  ac_themes :: "string list"
  ac_lang_pref :: lang
  ac_saved :: bool

definition lang_pref :: "request \<Rightarrow> lang" where
  "lang_pref r =
     (case cookie_of r lang_cookie of Some l \<Rightarrow> if valid_lang l then l else [] | None \<Rightarrow> [])"

section \<open>Privacy notice\<close>

definition notice_in :: "config \<Rightarrow> lang \<Rightarrow> string" where
  "notice_in c l = (if l = lang_de then cf_notice_de c else if l = lang_en then cf_notice_en c else [])"

definition notice_langs :: "config \<Rightarrow> lang list" where
  "notice_langs c = filter (\<lambda>l. notice_in c l \<noteq> []) supported_langs"

definition privacy_notice :: "config \<Rightarrow> lang \<Rightarrow> string \<times> lang" where
  "privacy_notice c l =
     (if notice_in c l \<noteq> [] then (notice_in c l, l)
      else case notice_langs c of [] \<Rightarrow> ([], l) | l' # _ \<Rightarrow> (notice_in c l', l'))"

definition has_privacy_notice :: "config \<Rightarrow> bool" where
  "has_privacy_notice c \<longleftrightarrow> notice_langs c \<noteq> []"

record privacy_data =
  pv_lang :: lang
  pv_theme :: string
  pv_csrf :: string
  pv_notice :: string
  pv_notice_lang :: lang
  pv_tabs :: "lang list"
  pv_settings_link :: bool
  pv_user :: "user option"
  pv_is_admin :: bool

definition account :: "'g portal \<Rightarrow> request \<Rightarrow> ('g, account_data response) act" where
  "account po r = do {
     s \<leftarrow> require_session po r;
     case s of
       Inl _ \<Rightarrow> State_Monad.return to_login
     | Inr su \<Rightarrow> do {
         (token, cookies) \<leftarrow> csrf_token (po_csrf po) r;
         State_Monad.return
           \<lparr>rs_cookies = cookies, rs_headers = [], rs_reply = Page
             \<lparr>ac_lang = lang_from_request r, ac_theme = theme_from_request r, ac_csrf = token,
              ac_user = su_user su, ac_is_admin = us_admin (su_user su),
              ac_notice = has_privacy_notice (po_cfg po), ac_langs = supported_langs, ac_themes = tl themes,
              ac_lang_pref = lang_pref r, ac_saved = (query_value r ''saved'' = ''1'')\<rparr>\<rparr> } }"

definition save_account :: "'g portal \<Rightarrow> request \<Rightarrow> ('g, 'p response) act" where
  "save_account po r = do {
     s \<leftarrow> require_session po r;
     State_Monad.return (case s of
         Inl _ \<Rightarrow> to_login
       | Inr _ \<Rightarrow>
           (let l = form_value r ''lang''; t = form_value r ''theme''; secure = cf_cookie_secure (po_cfg po)
            in if (l \<noteq> [] \<and> \<not> valid_lang l) \<or> \<not> valid_theme t then plain (HttpError 400 ''invalid setting'')
               else (plain (Redirect ''/account?saved=1''))
                 \<lparr>rs_cookies := [pref_cookie lang_cookie l secure, pref_cookie theme_cookie t secure]\<rparr>)) }"

definition not_found :: "'p response" where
  "not_found = plain (HttpError 404 ''404 page not found'')"

definition privacy :: "'g portal \<Rightarrow> request \<Rightarrow> ('g, privacy_data response) act" where
  "privacy po r =
     (let c = po_cfg po
      in if \<not> has_privacy_notice c then State_Monad.return not_found
         else do {
           (token, cookies) \<leftarrow> csrf_token (po_csrf po) r;
           s \<leftarrow> require_session po r;
           (let l = lang_from_request r; q = query_value r ''lang''; many = (length (notice_langs c) > 1);
                (u, l', tabs) = (case s of
                   Inr su \<Rightarrow> (Some (su_user su), l, [])
                 | Inl _ \<Rightarrow> (None, if valid_lang q then q else l, if many then notice_langs c else []))
            in State_Monad.return
                 \<lparr>rs_cookies = cookies, rs_headers = [], rs_reply = Page
                   \<lparr>pv_lang = l', pv_theme = theme_from_request r, pv_csrf = token,
                    pv_notice = fst (privacy_notice c l'), pv_notice_lang = snd (privacy_notice c l'),
                    pv_tabs = tabs, pv_settings_link = (u \<noteq> None \<and> many), pv_user = u,
                    pv_is_admin = (case u of None \<Rightarrow> False | Some u \<Rightarrow> us_admin u)\<rparr>\<rparr>) })"

section \<open>Middleware\<close>

definition quoted :: "string \<Rightarrow> string" where "quoted s = [CHR 0x27] @ s @ [CHR 0x27]"

definition csp :: "string \<Rightarrow> string" where
  "csp idp_origin =
     ''default-src '' @ quoted ''self'' @ ''; ''
     @ ''script-src '' @ quoted ''self'' @ '' '' @ quoted ''unsafe-inline'' @ ''; ''
     @ ''style-src '' @ quoted ''self'' @ '' '' @ quoted ''unsafe-inline'' @ ''; ''
     @ ''img-src '' @ quoted ''self'' @ '' data:; ''
     @ ''connect-src '' @ quoted ''self'' @ ''; ''
     @ ''form-action '' @ quoted ''self'' @ (if idp_origin \<noteq> [] then '' '' @ idp_origin else []) @ ''; ''
     @ ''frame-ancestors '' @ quoted ''none'' @ ''; ''
     @ ''base-uri '' @ quoted ''none'' @ ''; ''
     @ ''object-src '' @ quoted ''none''"

text \<open>\<open>SecurityHeaders\<close> and \<open>NoStore\<close> set headers before the handler runs.\<close>

definition security_headers :: "bool \<Rightarrow> string \<Rightarrow> 'p response \<Rightarrow> 'p response" where
  "security_headers secure idp_origin resp =
     resp\<lparr>rs_headers :=
       [(''Content-Security-Policy'', csp idp_origin), (''X-Content-Type-Options'', ''nosniff''),
        (''X-Frame-Options'', ''DENY''), (''Referrer-Policy'', ''same-origin'')]
       @ (if secure then [(''Strict-Transport-Security'', ''max-age=31536000; includeSubDomains'')] else [])
       @ rs_headers resp\<rparr>"

definition no_store :: "'p response \<Rightarrow> 'p response" where
  "no_store resp = resp\<lparr>rs_headers := (''Cache-Control'', ''no-store'') # rs_headers resp\<rparr>"

definition max_request_body :: int where "max_request_body = 65536"

text \<open>
  \<open>MaxBody\<close>: a declared length over the limit is refused; a body without one is cut off by the reader,
  which is \<open>BodyTooLarge\<close> of the form.
\<close>

definition max_body :: "int \<Rightarrow> (request \<Rightarrow> ('g, 'p response) act) \<Rightarrow> request \<Rightarrow> ('g, 'p response) act" where
  "max_body limit next r =
     (if rq_length r > limit then State_Monad.return (plain (HttpError 413 ''Request too large.''))
      else next r)"

text \<open>\<open>RequireToken\<close>; equal hashes stand for equal tokens.\<close>

definition require_token :: "string \<Rightarrow> request \<Rightarrow> 'p response \<Rightarrow> 'p response" where
  "require_token token r next =
     (if token = [] then next
      else case cut_at (CHR '' '') (header_of r ''Authorization'') of
        Some (scheme, got) \<Rightarrow>
          if equal_fold scheme ''Bearer'' \<and> got = token then next
          else (plain (HttpError 401 ''unauthorized''))
                 \<lparr>rs_headers := [(''Www-Authenticate'', ''Bearer realm='' @ [CHR 0x22] @ ''metrics'' @ [CHR 0x22])]\<rparr>
      | None \<Rightarrow> (plain (HttpError 401 ''unauthorized''))
                 \<lparr>rs_headers := [(''Www-Authenticate'', ''Bearer realm='' @ [CHR 0x22] @ ''metrics'' @ [CHR 0x22])]\<rparr>)"

section \<open>Routes\<close>

datatype page =
    DashboardPage dashboard_data | AccountPage account_data | PrivacyPage privacy_data | PanelPage admin_data
  | StaticFile string | Metrics | Ok

definition map_page :: "('p \<Rightarrow> 'q) \<Rightarrow> 'p response \<Rightarrow> 'q response" where
  "map_page f resp = \<lparr>rs_cookies = rs_cookies resp, rs_headers = rs_headers resp,
     rs_reply = map_reply f (rs_reply resp)\<rparr>"

definition as_page :: "('p \<Rightarrow> page) \<Rightarrow> ('g, 'p response) act \<Rightarrow> ('g, page response) act" where
  "as_page f m = do { resp \<leftarrow> m; State_Monad.return (map_page f resp) }"

datatype endpoint =
    Static string | Favicon | Backchannel | Login | Callback | Logout | SessionCheck | Privacy | Dashboard
  | Account | SaveAccount | Generate | Extend | Delete
  | Panel | CreateProfile | UpdateProfile string | DeleteProfile string | SetProfile string | RevokeKey string
  | GrantAdmin | RevokeAdmin | AdminUnknown | Scrape | Healthz | Readyz

text \<open>
  The table of \<open>newRouter\<close>.  The paths under /admin belong to a router of its own, whose middleware runs
  for every one of them; they are given by the parts after that prefix.
\<close>

fun admin_route :: "string \<Rightarrow> string list \<Rightarrow> endpoint option" where
  "admin_route m ps =
     (if m = ''GET'' then (if ps = [] \<or> ps = [[]] then Some Panel else None)
      else if m \<noteq> ''POST'' then None
      else case ps of
        [b] \<Rightarrow> if b = ''profiles'' then Some CreateProfile else if b = ''admins'' then Some GrantAdmin else None
      | [b, c] \<Rightarrow> if b = ''profiles'' then Some (UpdateProfile c)
                  else if b = ''admins'' \<and> c = ''revoke'' then Some RevokeAdmin else None
      | [b, c, d] \<Rightarrow> if b = ''profiles'' \<and> d = ''delete'' then Some (DeleteProfile c)
                     else if b = ''users'' \<and> d = ''profile'' then Some (SetProfile c) else None
      | [b, c, d, e] \<Rightarrow> if b = ''users'' \<and> d = ''key'' \<and> e = ''revoke'' then Some (RevokeKey c) else None
      | _ \<Rightarrow> None)"

definition user_routes :: "(string \<times> string \<times> endpoint) list" where
  "user_routes = [(''GET'', ''/favicon.ico'', Favicon), (''POST'', ''/backchannel-logout'', Backchannel),
     (''GET'', ''/login'', Login), (''GET'', ''/callback'', Callback), (''POST'', ''/logout'', Logout),
     (''GET'', ''/session/status'', SessionCheck), (''GET'', ''/privacy'', Privacy), (''GET'', ''/'', Dashboard),
     (''GET'', ''/account'', Account), (''POST'', ''/account'', SaveAccount),
     (''POST'', ''/key/generate'', Generate), (''POST'', ''/key/extend'', Extend), (''POST'', ''/key/delete'', Delete),
     (''GET'', ''/healthz'', Healthz), (''GET'', ''/readyz'', Readyz)]"

definition route_of :: "string \<Rightarrow> string \<Rightarrow> endpoint option" where
  "route_of m path =
     (let parts = tl (split_on (CHR ''/'') path)
      in if has_prefix ''/static/'' path then Some (Static (drop 8 path))
         else if path = ''/metrics'' then Some Scrape
         else if parts \<noteq> [] \<and> hd parts = ''admin''
           then (case admin_route m (tl parts) of None \<Rightarrow> Some AdminUnknown | Some e \<Rightarrow> Some e)
         else map_option (snd \<circ> snd) (find (\<lambda>(m', p, _). m' = m \<and> p = path) user_routes))"

text \<open>A path without a handler for its method: 405 when there is one for another method.\<close>

definition unrouted :: "string \<Rightarrow> 'p response" where
  "unrouted path =
     (let known = (\<lambda>m. route_of m path \<notin> {None, Some AdminUnknown})
      in if known ''GET'' \<or> known ''POST'' then plain (Status 405) else not_found)"

definition is_admin_endpoint :: "endpoint \<Rightarrow> bool" where
  "is_admin_endpoint e = (case e of
       Panel \<Rightarrow> True | CreateProfile \<Rightarrow> True | UpdateProfile _ \<Rightarrow> True | DeleteProfile _ \<Rightarrow> True
     | SetProfile _ \<Rightarrow> True | RevokeKey _ \<Rightarrow> True | GrantAdmin \<Rightarrow> True | RevokeAdmin \<Rightarrow> True | AdminUnknown \<Rightarrow> True
     | _ \<Rightarrow> False)"

text \<open>Endpoints outside both groups: neither \<open>NoStore\<close> nor the protection against forged requests.\<close>

definition is_plain_endpoint :: "endpoint \<Rightarrow> bool" where
  "is_plain_endpoint e = (case e of
       Static _ \<Rightarrow> True | Favicon \<Rightarrow> True | Backchannel \<Rightarrow> True | Scrape \<Rightarrow> True | Healthz \<Rightarrow> True | Readyz \<Rightarrow> True
     | _ \<Rightarrow> False)"

definition static_file :: "string \<Rightarrow> page response" where
  "static_file name =
     (plain (Page (StaticFile name)))\<lparr>rs_headers :=
       (if has_prefix ''fonts/'' name then [(''Cache-Control'', ''public, max-age=31536000, immutable'')] else [])\<rparr>"

text \<open>The handler behind an endpoint, without its middleware; \<open>ping\<close> is whether the database answers.\<close>

fun handler :: "'g portal \<Rightarrow> sync_state option \<Rightarrow> bool \<Rightarrow> endpoint \<Rightarrow> request \<Rightarrow> ('g, page response) act" where
  "handler po sy ping (Static n) r = State_Monad.return (static_file n)"
| "handler po sy ping Favicon r = State_Monad.return (plain (Page (StaticFile ''favicon.ico'')))"
| "handler po sy ping Backchannel r = backchannel_logout po r"
| "handler po sy ping Login r = login po r"
| "handler po sy ping Callback r = callback po r"
| "handler po sy ping Logout r = logout po r"
| "handler po sy ping SessionCheck r = session_status po r"
| "handler po sy ping Privacy r = as_page PrivacyPage (privacy po r)"
| "handler po sy ping Dashboard r = as_page DashboardPage (dashboard po r)"
| "handler po sy ping Account r = as_page AccountPage (account po r)"
| "handler po sy ping SaveAccount r = save_account po r"
| "handler po sy ping Generate r = generate_key po r"
| "handler po sy ping Extend r = extend_key po r"
| "handler po sy ping Delete r = delete_key po r"
| "handler po sy ping Panel r = as_page PanelPage (panel po sy r)"
| "handler po sy ping CreateProfile r = create_profile_handler po r"
| "handler po sy ping (UpdateProfile i) r = update_profile_handler po i r"
| "handler po sy ping (DeleteProfile i) r = delete_profile_handler po i r"
| "handler po sy ping (SetProfile i) r = set_user_profile_handler po i r"
| "handler po sy ping (RevokeKey i) r = revoke_user_key po i r"
| "handler po sy ping GrantAdmin r = grant_admin po r"
| "handler po sy ping RevokeAdmin r = revoke_admin po r"
| "handler po sy ping AdminUnknown r = State_Monad.return (unrouted (rq_path r))"
| "handler po sy ping Scrape r =
     State_Monad.return (require_token (cf_metrics_token (po_cfg po)) r (plain (Page Metrics)))"
| "handler po sy ping Healthz r = State_Monad.return (plain (Page Ok))"
| "handler po sy ping Readyz r =
     State_Monad.return (plain (if ping then Page Ok else HttpError 503 ''database unavailable''))"

text \<open>An endpoint with the middleware of its group.\<close>

definition guarded :: "'g portal \<Rightarrow> sync_state option \<Rightarrow> bool \<Rightarrow> endpoint \<Rightarrow> request \<Rightarrow> ('g, page response) act" where
  "guarded po sy ping e r =
     (if is_plain_endpoint e then handler po sy ping e r
      else do {
        resp \<leftarrow> csrf_protect (po_csrf po)
          (if is_admin_endpoint e then admin_middleware po (handler po sy ping e) else handler po sy ping e) r;
        State_Monad.return (no_store resp) })"

definition idp_origin :: "config \<Rightarrow> string" where
  "idp_origin c =
     (case cut_at (CHR '':'') (cf_issuer c) of
        None \<Rightarrow> [] | Some (s, _) \<Rightarrow> if s = [] then [] else s @ ''://'' @ url_host (cf_issuer c))"

text \<open>The whole server on one request.\<close>

definition serve :: "'g portal \<Rightarrow> sync_state option \<Rightarrow> bool \<Rightarrow> request \<Rightarrow> ('g, page response) act" where
  "serve po sy ping r =
     max_body max_request_body (\<lambda>r. do {
       resp \<leftarrow> (case route_of (rq_method r) (rq_path r) of
                  None \<Rightarrow> State_Monad.return (unrouted (rq_path r))
                | Some e \<Rightarrow> guarded po sy ping e r);
       State_Monad.return (security_headers (cf_cookie_secure (po_cfg po)) (idp_origin (po_cfg po)) resp) }) r"

section \<open>Lemmas\<close>

lemma page_steps [steps]:
  "db_steps (account po r)" "db_steps (save_account po r)" "db_steps (privacy po r)"
  "db_steps m \<Longrightarrow> db_steps (as_page f m)"
  unfolding account_def save_account_def privacy_def as_page_def Let_def by (intro steps)+

lemma handler_steps [steps]: "db_steps (handler po sy ping e r)"
  by (cases e) (auto intro: steps)

lemma guarded_steps [steps]: "db_steps (guarded po sy ping e r)"
proof (cases "is_admin_endpoint e")
  case True
  have "db_steps (admin_middleware po (handler po sy ping e) r)" for r by (intro steps)
  then show ?thesis unfolding guarded_def if_P [OF True] by (intro steps)
next
  case False
  show ?thesis unfolding guarded_def if_not_P [OF False] by (intro steps)
qed

lemma serve_steps [steps]: "db_steps (serve po sy ping r)"
  unfolding serve_def max_body_def by (intro steps)

end
