(* ===== verification/LimitSyncFacts.thy ===== *)
theory LimitSyncFacts
  imports LimitSync
begin

text \<open>
  What a run of the limit sync guarantees on any gateway: its writes are steps of the database, every
  attempt settles its key (it is in step, marked missing, or set aside for this run), and the run ends.
\<close>

section \<open>Writes\<close>

lemma sync_fail_steps [steps]: "db_steps (sync_fail t r)"
  unfolding sync_fail_def
  by (intro steps db_steps_store_now) (erule db_step.sync_failed)

lemma push_failed_steps [steps]: "db_steps (push_failed t e)"
  unfolding push_failed_def
  by (intro steps db_steps_store_now2) (erule db_step.mark_missing)

lemma record_sync_steps [steps]: "db_steps (record_sync t p)"
  unfolding record_sync_def
  by (intro steps db_steps_store) (erule db_step.synced)

lemma relabel_steps [steps]: "db_steps (relabel P t)"
  unfolding relabel_def by (intro steps)

lemma sync_one_steps [steps]: "db_steps (sync_one c P t)"
  unfolding sync_one_def by (intro steps)

lemma for_each_steps: "(\<And>x. db_steps (f x)) \<Longrightarrow> db_steps (for_each f xs)"
  by (induction xs) (auto intro!: steps)

lemma sync_batch_steps [steps]: "db_steps (sync_batch c P ts)"
  unfolding sync_batch_def attempt_one_def by (intro steps for_each_steps)

lemma check_one_steps [steps]: "db_steps (check_one c P m)"
  unfolding check_one_def
  by (intro steps db_steps_store_now) (erule db_step.clear_missing, erule db_step.remove_missing)

lemma check_missing_steps [steps]: "db_steps (check_missing c P)"
  unfolding check_missing_def by (intro steps for_each_steps)

lemma run_end_steps [steps]: "db_steps (run_end r)"
  unfolding run_end_def by (intro steps)

lemma sync_loop_steps [steps]: "db_steps (sync_loop n c P start failed r)"
  by (induction n arbitrary: failed r) (auto simp: Let_def intro!: steps)

lemma sync_run_steps [steps]: "db_steps (sync_run n c P)"
  unfolding sync_run_def Let_def by (intro steps)

section \<open>Frames\<close>

text \<open>Oracles stay and only move forward.\<close>

definition static_eq :: "'g world \<Rightarrow> 'g world \<Rightarrow> bool" where
  "static_eq w w' \<longleftrightarrow> wclock w' = wclock w \<and> wfault w' = wfault w \<and> wcancel w' = wcancel w
     \<and> wrand w' = wrand w \<and> wlook w \<le> wlook w' \<and> wtick w \<le> wtick w' \<and> wstmt w \<le> wstmt w'"

definition cancelled :: "'g world \<Rightarrow> bool" where
  "cancelled w \<longleftrightarrow> (\<exists>n < wlook w. wcancel w n)"

lemma static_eq_refl [simp]: "static_eq w w"
  by (simp add: static_eq_def)

lemma static_eq_trans: "static_eq w w' \<Longrightarrow> static_eq w' w'' \<Longrightarrow> static_eq w w''"
  by (auto simp: static_eq_def)

lemma cancelled_mono: "cancelled w \<Longrightarrow> static_eq w w' \<Longrightarrow> cancelled w'"
  unfolding cancelled_def static_eq_def by (metis order_less_le_trans)

text \<open>A write to one key's row that leaves its identity, owner, reference and expiry.\<close>

definition key_core :: "api_key \<Rightarrow> int \<times> int \<times> string \<times> string \<times> time" where
  "key_core k = (ak_id k, ak_user k, ak_ref k, ak_prefix k, ak_expires k)"

definition touches :: "int \<Rightarrow> database \<Rightarrow> database \<Rightarrow> bool" where
  "touches i d d' \<longleftrightarrow> profiles d' = profiles d \<and> quotas d' = quotas d \<and> users d' = users d
     \<and> next_profile d' = next_profile d
     \<and> (\<exists>f. api_keys d' = update_where (\<lambda>k. ak_id k = i) f (api_keys d) \<and> (\<forall>k. key_core (f k) = key_core k))"

text \<open>One that leaves what the row records of the last push as well.\<close>

definition key_sync :: "api_key \<Rightarrow> (int \<times> int \<times> string \<times> string \<times> time) \<times> int option \<times> int option" where
  "key_sync k = (key_core k, ak_synced_profile k, ak_synced_rev k)"

definition touches_sync :: "int \<Rightarrow> database \<Rightarrow> database \<Rightarrow> bool" where
  "touches_sync i d d' \<longleftrightarrow> profiles d' = profiles d \<and> quotas d' = quotas d \<and> users d' = users d
     \<and> next_profile d' = next_profile d
     \<and> (\<exists>f. api_keys d' = update_where (\<lambda>k. ak_id k = i) f (api_keys d) \<and> (\<forall>k. key_sync (f k) = key_sync k))"

lemma touches_sync_touches: "touches_sync i d d' \<Longrightarrow> touches i d d'"
  unfolding touches_sync_def touches_def key_sync_def by blast

lemma update_where_id: "update_where P (\<lambda>x. x) xs = xs"
  by (simp add: update_where_def)

lemma touches_refl [simp]: "touches i d d"
  unfolding touches_def by (intro conjI exI [of _ "\<lambda>x. x"]) (simp_all add: update_where_id)

lemma touches_sync_refl [simp]: "touches_sync i d d"
  unfolding touches_sync_def by (intro conjI exI [of _ "\<lambda>x. x"]) (simp_all add: update_where_id)

lemma update_where_comp:
  assumes "\<And>x. key (f x) = key x"
  shows "update_where (\<lambda>x. key x = i) g (update_where (\<lambda>x. key x = i) f xs)
    = update_where (\<lambda>x. key x = i) (\<lambda>x. g (f x)) xs"
  using assms by (simp add: update_where_def)

lemma key_coreD:
  assumes "key_core k = key_core k'"
  shows "ak_id k = ak_id k'" "ak_user k = ak_user k'" "ak_ref k = ak_ref k'"
    "ak_prefix k = ak_prefix k'" "ak_expires k = ak_expires k'"
  using assms by (simp_all add: key_core_def)

lemma touches_trans:
  assumes "touches i d d'" and "touches i d' d''"
  shows "touches i d d''"
proof -
  obtain f where f: "api_keys d' = update_where (\<lambda>k. ak_id k = i) f (api_keys d)"
      "\<forall>k. key_core (f k) = key_core k" using assms(1) unfolding touches_def by blast
  obtain g where g: "api_keys d'' = update_where (\<lambda>k. ak_id k = i) g (api_keys d')"
      "\<forall>k. key_core (g k) = key_core k" using assms(2) unfolding touches_def by blast
  have "ak_id (f k) = ak_id k" for k using f(2) key_coreD(1) by blast
  then have "api_keys d'' = update_where (\<lambda>k. ak_id k = i) (\<lambda>x. g (f x)) (api_keys d)"
    unfolding g(1) f(1) by (rule update_where_comp)
  moreover have "\<forall>k. key_core (g (f k)) = key_core k" using f(2) g(2) by simp
  ultimately show ?thesis using assms unfolding touches_def by (intro conjI) (auto simp only:)
qed

text \<open>The row of a key, and what a write to it leaves of every key.\<close>

abbreviation on_key :: "int \<Rightarrow> (api_key \<Rightarrow> bool) \<Rightarrow> database \<Rightarrow> bool" where
  "on_key i Q d \<equiv> \<forall>k \<in> set (api_keys d). ak_id k = i \<longrightarrow> Q k"

lemma touches_rows:
  assumes "touches i d d'" and "k \<in> set (api_keys d')"
  obtains k0 where "k0 \<in> set (api_keys d)" "key_core k = key_core k0" "ak_id k \<noteq> i \<Longrightarrow> k = k0"
proof -
  obtain f where f: "api_keys d' = update_where (\<lambda>k. ak_id k = i) f (api_keys d)"
      "\<forall>k. key_core (f k) = key_core k" using assms(1) unfolding touches_def by blast
  from assms(2) [unfolded f(1)] show ?thesis
  proof (cases rule: update_whereE)
    case (1 x)
    then show ?thesis using f(2) key_coreD(1) that by metis
  next
    case 2
    then show ?thesis using that by blast
  qed
qed

lemma touches_sync_rows:
  assumes "touches_sync i d d'" and "k \<in> set (api_keys d')"
  obtains k0 where "k0 \<in> set (api_keys d)" "key_sync k = key_sync k0"
proof -
  obtain f where f: "api_keys d' = update_where (\<lambda>k. ak_id k = i) f (api_keys d)"
      "\<forall>k. key_sync (f k) = key_sync k" using assms(1) unfolding touches_sync_def by blast
  from assms(2) [unfolded f(1)] show ?thesis
    by (cases rule: update_whereE) (use f(2) that in \<open>metis, metis\<close>)
qed

section \<open>What becomes of one key\<close>

text \<open>A failure recorded from world \<open>w\<close> on.\<close>

definition failed_now :: "'g world \<Rightarrow> int \<Rightarrow> database \<Rightarrow> bool" where
  "failed_now w i d \<longleftrightarrow> on_key i (\<lambda>k. \<exists>n \<ge> wtick w. ak_failed_at k = Some (wclock w n)) d"

lemma failed_now_prefix: "static_eq w w1 \<Longrightarrow> failed_now w1 i d \<Longrightarrow> failed_now w i d"
  unfolding failed_now_def static_eq_def by (metis order_trans)

lemma sync_fail_spec:
  assumes "run_state (sync_fail t r) w = (e, w')"
  shows "static_eq w w' \<and> wgw w' = wgw w \<and> touches_sync (ts_key t) (wdb w) (wdb w')
    \<and> (e = None \<longrightarrow> cancelled w' \<or> failed_now w (ts_key t) (wdb w'))"
proof (cases "wfault w (wstmt w)")
  case (Some s)
  with assms have "wdb w' = wdb w" "wgw w' = wgw w" "static_eq w w'"
    "e = None \<longrightarrow> wcancel w' (wlook w) \<and> wlook w' = Suc (wlook w)"
    by (auto simp: sync_fail_def run_store_now run_store static_eq_def split: if_splits)
  then show ?thesis by (auto simp: cancelled_def)
next
  case None
  let ?f = "\<lambda>k. k\<lparr>ak_sync_error := shorten_reason r, ak_failed_at := Some (wclock w (wtick w))\<rparr>"
  have w': "e = None" "w' = w\<lparr>wtick := Suc (wtick w), wstmt := Suc (wstmt w),
      wdb := wdb w\<lparr>api_keys := update_where (\<lambda>k. ak_id k = ts_key t) ?f (api_keys (wdb w))\<rparr>\<rparr>"
    using assms None
    by (simp_all add: sync_fail_def run_store_now run_store mark_limit_sync_failed_def)
  have "touches_sync (ts_key t) (wdb w) (wdb w')"
    unfolding touches_sync_def by (intro conjI exI [of _ ?f]) (simp_all add: w' key_sync_def key_core_def)
  moreover have "on_key (ts_key t) (\<lambda>k. ak_failed_at k = Some (wclock w (wtick w))) (wdb w')"
    unfolding w'(2) by simp (rule ball_update_where; simp)
  moreover have "static_eq w w'" "wgw w' = wgw w" by (simp_all add: static_eq_def w'(2))
  ultimately show ?thesis unfolding failed_now_def by blast
qed

text \<open>What an attempt on target \<open>t\<close> with profile id \<open>pid\<close> settles.\<close>

definition settled :: "sync_target \<Rightarrow> 'g world \<Rightarrow> attempt \<Rightarrow> 'g world \<Rightarrow> bool" where
  "settled t w a w' \<longleftrightarrow>
     (case a of (out, att, err) \<Rightarrow>
        static_eq w w' \<and> touches (ts_key t) (wdb w) (wdb w')
        \<and> (out \<noteq> Synced \<longrightarrow> touches_sync (ts_key t) (wdb w) (wdb w'))
        \<and> (\<not> att \<longrightarrow> cancelled w')
        \<and> (att \<and> err = None \<and> out = Failed \<longrightarrow> cancelled w'
             \<or> failed_now w (ts_key t) (wdb w'))
        \<and> (att \<and> err = None \<and> out = Marked \<longrightarrow> on_key (ts_key t) (\<lambda>k. ak_missing k \<noteq> None) (wdb w'))
        \<and> (att \<and> err = None \<and> out = Synced \<longrightarrow> cancelled w'
             \<or> (\<exists>p. ts_profile t = Some (pf_id p) \<and> get_profile (pf_id p) (wdb w) = Inr p
                   \<and> on_key (ts_key t) (\<lambda>k. ak_synced_profile k = Some (pf_id p) \<and> ak_synced_rev k = Some (pf_rev p)
                       \<and> ak_synced_name k = Some (ts_name t) \<and> ak_synced_email k = Some (ts_email t)
                       \<and> ak_failed_at k = None) (wdb w'))))"

lemma mark_key_missing_touches:
  assumes "mark_key_missing t1 t2 i ow em de d = Inr (b, d')"
  shows "touches_sync i d d' \<and> on_key i (\<lambda>k. ak_missing k \<noteq> None) d'"
  using assms
proof (cases rule: mark_key_missing_cases)
  case 1
  let ?f = "\<lambda>k. if ak_missing k = None then k\<lparr>ak_missing := Some t1\<rparr> else k"
  have eq: "update_where (\<lambda>k. ak_id k = i \<and> ak_missing k = None) (\<lambda>k. k\<lparr>ak_missing := Some t1\<rparr>) ks
      = update_where (\<lambda>k. ak_id k = i) ?f ks" for ks
    by (simp add: update_where_def)
  from 1(3) obtain e where e: "d' = add_audit e (d\<lparr>api_keys := update_where (\<lambda>k. ak_id k = i) ?f (api_keys d)\<rparr>)"
    unfolding eq by blast
  have d': "api_keys d' = update_where (\<lambda>k. ak_id k = i) ?f (api_keys d)"
    "profiles d' = profiles d" "quotas d' = quotas d" "users d' = users d" "next_profile d' = next_profile d"
    unfolding e by simp_all
  have "touches_sync i d d'"
    unfolding touches_sync_def by (intro conjI exI [of _ ?f]) (simp_all add: d' key_sync_def key_core_def)
  moreover have "on_key i (\<lambda>k. ak_missing k \<noteq> None) d'"
    unfolding d'(1) by (rule ball_update_where) simp_all
  ultimately show ?thesis ..
next
  case 2
  then show ?thesis by simp
qed

lemma push_failed_spec:
  assumes "run_state (push_failed t err) w = (a, w')"
  shows "settled t w a w' \<and> wgw w' = wgw w \<and> fst a \<noteq> Synced"
proof (cases "wcancel w (wlook w)")
  case True
  with assms have "a = (Failed, False, None)" "w' = w\<lparr>wlook := Suc (wlook w)\<rparr>"
    by (simp_all add: push_failed_def)
  with True show ?thesis by (auto simp: settled_def static_eq_def cancelled_def)
next
  case run: False
  let ?w = "w\<lparr>wlook := Suc (wlook w)\<rparr>"
  have st: "static_eq w ?w" by (simp add: static_eq_def)
  show ?thesis
  proof (cases "is_key_not_found err")
    case False
    obtain e w1 where e: "run_state (sync_fail t (gw_error_text err)) ?w = (e, w1)" by fastforce
    with assms run False have aw: "a = (Failed, True, e)" "w' = w1"
      by (simp_all add: push_failed_def)
    show ?thesis
      using sync_fail_spec [OF e] static_eq_trans [OF st] failed_now_prefix [OF st]
      by (auto simp: settled_def aw touches_sync_touches)
  next
    case True
    let ?m = "store_now2 (\<lambda>t1 t2. mark_key_missing t1 t2 (ts_key t) (ts_user t) (ts_email t)
              (''key '' @ ts_prefix t @ '' no longer exists in the gateway ('' @ source_sync @ '')''))"
    obtain r w1 where m: "run_state ?m ?w = (r, w1)" by fastforce
    show ?thesis
    proof (cases r)
      case (Inl me)
      have w1: "wdb w1 = wdb w" "wgw w1 = wgw w" "static_eq w w1"
        using m Inl by (auto simp: run_store_now2 run_store static_eq_def split: option.splits sum.splits prod.splits)
      have aw: "w' = w1\<lparr>wlook := Suc (wlook w1)\<rparr>"
        "a = (if wcancel w1 (wlook w1) then (Failed, False, None)
             else (Failed, True, Some (''mark missing key '' @ ts_prefix t @ '': '' @ db_error_text me)))"
        using assms run True m Inl by (simp_all add: push_failed_def)
      show ?thesis using w1 by (auto simp: settled_def aw static_eq_def cancelled_def)
    next
      case (Inr newly)
      obtain t1 t2 where mk: "mark_key_missing t1 t2 (ts_key t) (ts_user t) (ts_email t)
              (''key '' @ ts_prefix t @ '' no longer exists in the gateway ('' @ source_sync @ '')'') (wdb w)
            = Inr (newly, wdb w1)"
        and w1: "wgw w1 = wgw w" "static_eq w w1"
        using m Inr by (auto simp: run_store_now2 run_store static_eq_def split: option.splits sum.splits prod.splits)
      have aw: "a = (Marked, True, None)" "wdb w' = wdb w1" "wgw w' = wgw w1" "static_eq w1 w'"
        using assms run True m Inr by (auto simp: push_failed_def static_eq_def split: if_splits)
      show ?thesis
        using mark_key_missing_touches [OF mk] w1 aw static_eq_trans [OF w1(2) aw(4)]
        by (simp add: settled_def touches_sync_touches)
    qed
  qed
qed

lemma record_sync_spec:
  assumes "run_state (record_sync t p) w = (a, w')"
    and "ts_profile t = Some (pf_id p)" and "get_profile (pf_id p) (wdb w) = Inr p"
  shows "settled t w a w' \<and> wgw w' = wgw w"
proof (cases "wfault w (wstmt w)")
  case (Some s)
  with assms(1) show ?thesis
    by (auto simp: record_sync_def run_store settled_def static_eq_def cancelled_def split: if_splits)
next
  case None
  let ?f = "\<lambda>k. k\<lparr>ak_synced_profile := Some (pf_id p), ak_synced_rev := Some (pf_rev p), ak_synced_name := Some (ts_name t),
              ak_synced_email := Some (ts_email t), ak_sync_error := [], ak_failed_at := None\<rparr>"
  have w': "a = (Synced, True, None)" "w' = w\<lparr>wstmt := Suc (wstmt w),
      wdb := wdb w\<lparr>api_keys := update_where (\<lambda>k. ak_id k = ts_key t) ?f (api_keys (wdb w))\<rparr>\<rparr>"
    using assms(1) None by (simp_all add: record_sync_def run_store mark_limits_synced_def)
  have "touches (ts_key t) (wdb w) (wdb w')"
    unfolding touches_def by (intro conjI exI [of _ ?f]) (simp_all add: w' key_core_def)
  moreover have "on_key (ts_key t) (\<lambda>k. ak_synced_profile k = Some (pf_id p) \<and> ak_synced_rev k = Some (pf_rev p)
                       \<and> ak_synced_name k = Some (ts_name t) \<and> ak_synced_email k = Some (ts_email t)
                       \<and> ak_failed_at k = None) (wdb w')"
    unfolding w'(2) by simp (rule ball_update_where; simp)
  moreover have "static_eq w w'" "wgw w' = wgw w" by (simp_all add: static_eq_def w'(2))
  ultimately show ?thesis using assms(2,3) unfolding settled_def w'(1) by auto
qed

lemma settled_prefix:
  assumes "static_eq w w1" and "wdb w1 = wdb w" and "settled t w1 a w'"
  shows "settled t w a w'"
proof -
  note mono = static_eq_trans [OF assms(1)] failed_now_prefix [OF assms(1)]
  show ?thesis
    using assms(3) mono unfolding settled_def assms(2) by (cases a) (simp only: prod.case, blast)
qed

lemma relabel_spec:
  assumes "run_state (relabel P t) w = (e, w')"
  shows "static_eq w w' \<and> wdb w' = wdb w"
  using assms
  by (auto simp: relabel_def run_gateway static_eq_def split: if_splits sum.splits prod.splits)

lemma get_profile_id: "get_profile i d = Inr p \<Longrightarrow> pf_id p = i"
  by (erule get_profile_row) simp

lemma sync_one_spec:
  assumes "run_state (sync_one c P t) w = (a, w')"
  shows "settled t w a w'"
proof (cases "ts_profile t")
  case None
  obtain e w1 where e: "run_state (sync_fail t no_profile_reason) w = (e, w1)" by fastforce
  with assms None have "a = (Failed, True, e)" "w' = w1" by (simp_all add: sync_one_def)
  then show ?thesis using sync_fail_spec [OF e] by (auto simp: settled_def touches_sync_touches)
next
  case (Some pid)
  define w1 where "w1 = w\<lparr>wstmt := Suc (wstmt w)\<rparr>"
  have w1: "static_eq w w1" "wdb w1 = wdb w" by (simp_all add: w1_def static_eq_def)
  define r where "r = (case wfault w (wstmt w) of Some s \<Rightarrow> Inl (IOError s) | None \<Rightarrow> get_profile pid (wdb w))"
  have r: "run_state (query (get_profile pid)) w = (r, w1)"
    by (simp add: run_query w1_def r_def)
  have rp: "get_profile pid (wdb w) = Inr p" if "r = Inr p" for p
    using that by (simp add: r_def split: option.splits)
  show ?thesis
  proof (cases r)
    case (Inl err)
    show ?thesis
    proof (cases "wcancel w1 (wlook w1)")
      case True
      with assms Some Inl r have "a = (Failed, False, None)" "w' = w1\<lparr>wlook := Suc (wlook w1)\<rparr>"
        by (simp_all add: sync_one_def)
      with True show ?thesis by (auto simp: settled_def static_eq_def cancelled_def w1_def)
    next
      case False
      let ?w = "w1\<lparr>wlook := Suc (wlook w1)\<rparr>"
      obtain e w2 where e: "run_state (sync_fail t (''load profile '' @ format_int pid @ '': '' @ db_error_text err)) ?w = (e, w2)"
        by fastforce
      with assms Some Inl r False have aw: "a = (Failed, True, e)" "w' = w2"
        by (simp_all add: sync_one_def)
      have "settled t ?w a w'" using sync_fail_spec [OF e] by (auto simp: settled_def aw touches_sync_touches)
      then show ?thesis by (rule settled_prefix [rotated 2]) (simp_all add: static_eq_def w1_def)
    qed
  next
    case (Inr p)
    have p: "get_profile pid (wdb w) = Inr p" "pf_id p = pid"
      using rp [OF Inr] get_profile_id by blast+
    obtain pushed g where g: "prov_limits P (ts_ref t) (sc_user c (ts_sub t) (ts_name t) (ts_email t))
        (profile_limits (Some p)) (wgw w1) = (pushed, g)" by fastforce
    let ?w2 = "w1\<lparr>wgw := g\<rparr>"
    have w2: "static_eq w ?w2" "wdb ?w2 = wdb w" using w1 by (simp_all add: static_eq_def)
    show ?thesis
    proof (cases pushed)
      case (Some err)
      with assms \<open>ts_profile t = Some pid\<close> Inr r g have "run_state (push_failed t err) ?w2 = (a, w')"
        by (simp add: sync_one_def run_gateway)
      then show ?thesis using push_failed_spec settled_prefix [OF w2] by blast
    next
      case None
      obtain l w3 where l: "run_state (relabel P t) ?w2 = (l, w3)" by fastforce
      have w3: "static_eq w w3" "wdb w3 = wdb w"
        using relabel_spec [OF l] static_eq_trans [OF w2(1)] w2(2) by auto
      show ?thesis
      proof (cases l)
        case (Some err)
        with assms \<open>ts_profile t = Some pid\<close> Inr r g None l have "run_state (push_failed t err) w3 = (a, w')"
          by (simp add: sync_one_def run_gateway)
        then show ?thesis using push_failed_spec settled_prefix [OF w3] by blast
      next
        case no: None
        with assms \<open>ts_profile t = Some pid\<close> Inr r g None l have "run_state (record_sync t p) w3 = (a, w')"
          by (simp add: sync_one_def run_gateway)
        then show ?thesis
          using record_sync_spec [of t p w3 a w'] settled_prefix [OF w3] p w3(2) \<open>ts_profile t = Some pid\<close> by simp
      qed
    qed
  qed
qed

section \<open>A run ends\<close>

text \<open>
  The keys a run may still have to push: out of date, not marked missing, and not set aside.  Whether
  they have expired is left out, because it depends on the clock.
\<close>

definition stale :: "database \<Rightarrow> api_key \<Rightarrow> bool" where
  "stale d k \<longleftrightarrow> ak_missing k = None
     \<and> (case find (\<lambda>u. us_id u = ak_user k) (users d) of None \<Rightarrow> False | Some u \<Rightarrow> out_of_date d u k)"

definition stale_ids :: "database \<Rightarrow> int set" where
  "stale_ids d = ak_id ` set (filter (stale d) (api_keys d))"

lemma out_of_date_cong:
  assumes "profiles d' = profiles d"
  shows "effective_id d' u = effective_id d u" "effective_profile d' u = effective_profile d u"
    "out_of_date d' u k = out_of_date d u k"
proof -
  have dflt: "default_id d' = default_id d" using assms by (simp add: default_id_def)
  show eid: "effective_id d' u = effective_id d u" for u
    by (simp add: effective_id_def dflt split: option.split)
  show ep: "effective_profile d' u = effective_profile d u" for u
    by (simp add: effective_profile_def eid assms split: option.split)
  show "out_of_date d' u k = out_of_date d u k"
    by (simp add: out_of_date_def eid ep split: option.split)
qed

lemma stale_cong:
  assumes "profiles d' = profiles d" and "users d' = users d"
  shows "stale d' k = stale d k"
  by (simp add: stale_def assms(2) out_of_date_cong [OF assms(1)] split: option.split)

lemma touches_stale:
  assumes "touches i d d'"
  shows "stale_ids d' \<subseteq> insert i (stale_ids d)" and "on_key i (\<lambda>k. \<not> stale d' k) d' \<Longrightarrow> stale_ids d' \<subseteq> stale_ids d - {i}"
proof -
  have cong: "stale d' k = stale d k" for k
    using assms by (intro stale_cong) (simp_all add: touches_def)
  have *: "x = i \<or> x \<in> stale_ids d" if "x \<in> stale_ids d'" for x
  proof -
    from that obtain k where k: "k \<in> set (api_keys d')" "stale d' k" "x = ak_id k"
      by (auto simp: stale_ids_def)
    from touches_rows [OF assms k(1)] obtain k0 where k0: "k0 \<in> set (api_keys d)" "ak_id k \<noteq> i \<Longrightarrow> k = k0"
      by metis
    then show ?thesis using k cong by (cases "ak_id k = i") (auto simp: stale_ids_def)
  qed
  then show "stale_ids d' \<subseteq> insert i (stale_ids d)" by blast
  assume fresh: "on_key i (\<lambda>k. \<not> stale d' k) d'"
  have "i \<notin> stale_ids d'"
    using fresh by (auto simp: stale_ids_def)
  with * show "stale_ids d' \<subseteq> stale_ids d - {i}" by blast
qed

text \<open>The targets of a batch are stale keys; each carries what the database holds.\<close>

lemma pending_targetE:
  assumes "t \<in> set (pending_targets now d)"
  obtains k u where "k \<in> set (api_keys d)" "find (\<lambda>u. us_id u = ak_user k) (users d) = Some u"
    "is_pending now d u k" "t = target_of d u k"
proof -
  from assms obtain k where k: "k \<in> set (api_keys d)" "t \<in> set (pending_row now d k)"
    by (auto simp: pending_targets_def)
  then show ?thesis
    by (cases "find (\<lambda>u. us_id u = ak_user k) (users d)")
      (simp_all add: pending_row_def that split: if_splits)
qed

lemma pending_limit_syncs_subset:
  "set (pending_limit_syncs now since n d) \<subseteq> set (pending_targets now d)"
  unfolding pending_limit_syncs_def by (auto dest: in_set_takeD)

lemma pending_target_stale:
  assumes "t \<in> set (pending_targets now d)"
  shows "ts_key t \<in> stale_ids d"
  using assms
  by (rule pending_targetE) (auto simp: stale_ids_def stale_def target_of_def is_pending_def)

lemma on_key_uniq:
  assumes "uniq_on ak_id (api_keys d)" and "k \<in> set (api_keys d)" and "Q k"
  shows "on_key (ak_id k) Q d"
  using assms uniq_on_inj by metis

text \<open>A target that still describes a key of the database.\<close>

definition describes :: "sync_target \<Rightarrow> database \<Rightarrow> bool" where
  "describes t d \<longleftrightarrow> (\<exists>k \<in> set (api_keys d). \<exists>u. find (\<lambda>u. us_id u = ak_user k) (users d) = Some u
     \<and> ts_key t = ak_id k \<and> ts_ref t = ak_ref k \<and> ts_profile t = effective_id d u
     \<and> ts_name t = us_name u \<and> ts_email t = us_email u)"

lemma pending_describes: "t \<in> set (pending_targets now d) \<Longrightarrow> describes t d"
  by (erule pending_targetE) (auto simp: describes_def target_of_def)

lemma touches_describes:
  assumes "touches i d d'" and "describes t d"
  shows "describes t d'"
proof -
  obtain k u where k: "k \<in> set (api_keys d)" "find (\<lambda>u. us_id u = ak_user k) (users d) = Some u"
     "ts_key t = ak_id k" "ts_ref t = ak_ref k" "ts_profile t = effective_id d u"
     "ts_name t = us_name u" "ts_email t = us_email u"
    using assms(2) by (auto simp: describes_def)
  obtain f where f: "api_keys d' = update_where (\<lambda>k. ak_id k = i) f (api_keys d)"
      "\<forall>k. key_core (f k) = key_core k" using assms(1) unfolding touches_def by blast
  define k' where "k' = (if ak_id k = i then f k else k)"
  have k': "k' \<in> set (api_keys d')" unfolding f(1) k'_def using k(1) by (rule in_update_where)
  have core: "key_core k' = key_core k" using f(2) by (simp add: k'_def)
  have us: "users d' = users d" and eid: "effective_id d' u = effective_id d u"
    using assms(1) out_of_date_cong(1) [of d' d u] by (simp_all add: touches_def)
  show ?thesis
    unfolding describes_def us
    by (rule bexI [OF _ k'], rule exI [of _ u]) (simp add: k key_coreD [OF core] eid)
qed

lemma touches_uniq:
  assumes "touches i d d'" and "uniq_on ak_id (api_keys d)"
  shows "uniq_on ak_id (api_keys d')"
proof -
  obtain f where f: "api_keys d' = update_where (\<lambda>k. ak_id k = i) f (api_keys d)"
      "\<forall>k. key_core (f k) = key_core k" using assms(1) unfolding touches_def by blast
  have "ak_id (f k) = ak_id k" for k using f(2) key_coreD(1) by blast
  then show ?thesis using assms(2) by (simp add: f(1) uniq_on_update_where)
qed

lemma settled_stale:
  assumes "settled t w (out, True, None) w'" and "describes t (wdb w)"
    and "uniq_on ak_id (api_keys (wdb w))" and "out \<noteq> Failed" and "\<not> cancelled w'"
  shows "stale_ids (wdb w') \<subseteq> stale_ids (wdb w) - {ts_key t}"
proof -
  have tch: "touches (ts_key t) (wdb w) (wdb w')" using assms(1) by (simp add: settled_def)
  have pf: "profiles (wdb w') = profiles (wdb w)" and us: "users (wdb w') = users (wdb w)"
    using tch by (simp_all add: touches_def)
  have "on_key (ts_key t) (\<lambda>k. \<not> stale (wdb w') k) (wdb w')"
  proof (cases out)
    case Marked
    then have "on_key (ts_key t) (\<lambda>k. ak_missing k \<noteq> None) (wdb w')"
      using assms(1) by (simp add: settled_def)
    then show ?thesis by (simp add: stale_def)
  next
    case Synced
    then obtain p where p: "ts_profile t = Some (pf_id p)" "get_profile (pf_id p) (wdb w) = Inr p"
      "on_key (ts_key t) (\<lambda>k. ak_synced_profile k = Some (pf_id p) \<and> ak_synced_rev k = Some (pf_rev p)
             \<and> ak_synced_name k = Some (ts_name t) \<and> ak_synced_email k = Some (ts_email t)
             \<and> ak_failed_at k = None) (wdb w')"
      using assms(1,5) by (auto simp: settled_def)
    obtain k0 u where k0: "k0 \<in> set (api_keys (wdb w))" "find (\<lambda>u. us_id u = ak_user k0) (users (wdb w)) = Some u"
      "ts_key t = ak_id k0" "ts_profile t = effective_id (wdb w) u" "ts_name t = us_name u" "ts_email t = us_email u"
      using assms(2) by (auto simp: describes_def)
    obtain row where row: "find (\<lambda>q. pf_id q = pf_id p) (profiles (wdb w)) = Some row" "pf_rev row = pf_rev p"
      using p(2) by (auto simp: get_profile_def split: option.splits)
    have "\<not> stale (wdb w') k" if k: "k \<in> set (api_keys (wdb w'))" "ak_id k = ts_key t" for k
    proof -
      obtain k1 where k1: "k1 \<in> set (api_keys (wdb w))" "key_core k = key_core k1"
        using touches_rows [OF tch k(1)] by metis
      then have "ak_id k1 = ak_id k0" using k(2) k0(3) key_coreD(1) by metis
      then have "k1 = k0" using uniq_on_inj [OF assms(3) k1(1) k0(1)] by simp
      then have owner: "find (\<lambda>u. us_id u = ak_user k) (users (wdb w')) = Some u"
        using k0(2) key_coreD(2) [OF k1(2)] us by simp
      have "\<not> out_of_date (wdb w) u k"
        using p(3) k k0(4) [unfolded p(1), symmetric] k0(5,6) row by (simp add: out_of_date_def effective_profile_def)
      then show ?thesis using owner by (simp add: stale_def out_of_date_cong(3) [OF pf])
    qed
    then show ?thesis by blast
  qed (use assms(4) in simp)
  then show ?thesis by (rule touches_stale(2) [OF tch])
qed

section \<open>Batches\<close>

lemma attempt_one_spec:
  assumes "run_state (attempt_one c P t) w = ((os, e), w')"
  obtains out att where "settled t w (out, att, e) w'" "os = (if att then [(ts_key t, out)] else [])"
proof -
  obtain a w1 where a: "run_state (sync_one c P t) w = (a, w1)" by fastforce
  obtain out att err where "a = (out, att, err)" by (cases a)
  with a have one: "run_state (sync_one c P t) w = ((out, att, err), w1)" by simp
  with assms have "w' = w1" "e = err" "os = (if att then [(ts_key t, out)] else [])"
    by (simp_all add: attempt_one_def)
  with one that show ?thesis using sync_one_spec by blast
qed

lemma failed_ids_simps [simp]:
  "failed_ids [] = {}" "failed_ids (xs @ ys) = failed_ids xs \<union> failed_ids ys"
  "failed_ids ((i, out) # xs) = (if out = Failed then insert i (failed_ids xs) else failed_ids xs)"
  by (auto simp: failed_ids_def)

lemma for_each_attempts:
  assumes "run_state (for_each (attempt_one c P) ts) w = ((bs, e), w')"
    and "\<forall>t \<in> set ts. describes t (wdb w)" and "uniq_on ak_id (api_keys (wdb w))"
  shows "static_eq w w' \<and> stale_ids (wdb w') \<subseteq> stale_ids (wdb w) \<union> ts_key ` set ts
    \<and> uniq_on ak_id (api_keys (wdb w'))
    \<and> (e = None \<longrightarrow> \<not> cancelled w' \<longrightarrow>
        (\<forall>t \<in> set ts. ts_key t \<in> failed_ids (concat bs) \<or> ts_key t \<notin> stale_ids (wdb w')))"
  using assms
proof (induction ts arbitrary: w bs e)
  case Nil
  then show ?case by simp
next
  case (Cons t ts)
  let ?w = "w\<lparr>wlook := Suc (wlook w)\<rparr>"
  have st: "static_eq w ?w" by (simp add: static_eq_def)
  show ?case
  proof (cases "wcancel w (wlook w)")
    case True
    then have "w' = ?w" using Cons.prems(1) by simp
    moreover have "cancelled ?w" using True by (auto simp: cancelled_def)
    ultimately show ?thesis using st Cons.prems(3) by auto
  next
    case False
    obtain os e1 w1 where one: "run_state (attempt_one c P t) ?w = ((os, e1), w1)" by (metis surj_pair)
    obtain bs2 e2 where rest: "run_state (for_each (attempt_one c P) ts) w1 = ((bs2, e2), w')"
      and be: "bs = os # bs2" "e = (case e1 of Some _ \<Rightarrow> e1 | None \<Rightarrow> e2)"
    proof -
      obtain bs2 e2 w2 where r: "run_state (for_each (attempt_one c P) ts) w1 = ((bs2, e2), w2)"
        by (metis surj_pair)
      then have "w2 = w'" "bs = os # bs2" "e = (case e1 of Some _ \<Rightarrow> e1 | None \<Rightarrow> e2)"
        using Cons.prems(1) False one by simp_all
      with r that show ?thesis by simp
    qed
    from one obtain out att where s: "settled t ?w (out, att, e1) w1"
      and os: "os = (if att then [(ts_key t, out)] else [])" by (rule attempt_one_spec)
    have tch: "touches (ts_key t) (wdb w) (wdb w1)" and st1: "static_eq w w1"
      using s static_eq_trans [OF st] by (simp_all add: settled_def)
    have IH: "static_eq w1 w' \<and> stale_ids (wdb w') \<subseteq> stale_ids (wdb w1) \<union> ts_key ` set ts
        \<and> uniq_on ak_id (api_keys (wdb w'))
        \<and> (e2 = None \<longrightarrow> \<not> cancelled w' \<longrightarrow>
            (\<forall>t \<in> set ts. ts_key t \<in> failed_ids (concat bs2) \<or> ts_key t \<notin> stale_ids (wdb w')))"
    proof (rule Cons.IH [OF rest])
      show "\<forall>t \<in> set ts. describes t (wdb w1)"
        using Cons.prems(2) touches_describes [OF tch] by simp
      show "uniq_on ak_id (api_keys (wdb w1))" using tch Cons.prems(3) by (rule touches_uniq)
    qed
    have "stale_ids (wdb w') \<subseteq> stale_ids (wdb w) \<union> ts_key ` set (t # ts)"
      using IH touches_stale(1) [OF tch] by auto
    moreover have "ts_key t \<in> failed_ids (concat bs) \<or> ts_key t \<notin> stale_ids (wdb w')"
      if ok: "e = None" "\<not> cancelled w'"
    proof -
      have e12: "e1 = None" "e2 = None" using ok(1) be(2) by (auto split: option.splits)
      have nc: "\<not> cancelled w1" using ok(2) IH cancelled_mono by blast
      then have att: att using s e12 by (auto simp: settled_def)
      show ?thesis
      proof (cases "out = Failed")
        case True
        then show ?thesis using os att be(1) by simp
      next
        case nf: False
        have "stale_ids (wdb w1) \<subseteq> stale_ids (wdb ?w) - {ts_key t}"
          using s e12 att nf nc Cons.prems(2,3) by (intro settled_stale [of t ?w out w1]) simp_all
        then have "ts_key t \<notin> stale_ids (wdb w1)" by blast
        moreover have "ts_key t \<in> failed_ids (concat bs2)" if "ts_key t \<in> stale_ids (wdb w')" "ts_key t \<notin> stale_ids (wdb w1)"
        proof -
          have "ts_key t \<in> ts_key ` set ts" using IH that by blast
          then obtain x where "x \<in> set ts" "ts_key x = ts_key t" by (metis imageE)
          then show ?thesis using IH e12 ok(2) that(1) by metis
        qed
        ultimately show ?thesis using be(1) by auto
      qed
    qed
    moreover have "\<forall>x \<in> set ts. ts_key x \<in> failed_ids (concat bs) \<or> ts_key x \<notin> stale_ids (wdb w')"
      if "e = None" "\<not> cancelled w'"
      using IH that be by (auto split: option.splits)
    ultimately show ?thesis using IH static_eq_trans [OF st1] by simp
  qed
qed

section \<open>The run ends\<close>

text \<open>A context that was cancelled stays cancelled.\<close>

definition stays_cancelled :: "'g world \<Rightarrow> bool" where
  "stays_cancelled w \<longleftrightarrow> (\<forall>m n. m \<le> n \<longrightarrow> wcancel w m \<longrightarrow> wcancel w n)"

lemma stays_cancelled_next:
  "stays_cancelled w \<Longrightarrow> static_eq w w' \<Longrightarrow> cancelled w' \<Longrightarrow> wcancel w' (wlook w')"
  unfolding stays_cancelled_def cancelled_def static_eq_def by (metis less_imp_le)

lemma sync_loop_ends:
  assumes "card (stale_ids (wdb w) - failed) < n" and "uniq_on ak_id (api_keys (wdb w))"
    and "stays_cancelled w"
  shows "fst (run_state (sync_loop n c P start failed r) w) \<noteq> None"
  using assms
proof (induction n arbitrary: w failed r)
  case 0
  then show ?case by simp
next
  case (Suc n)
  show ?case
  proof (cases "wcancel w (wlook w)")
    case True
    then show ?thesis by (simp add: run_end_def)
  next
    case run: False
    let ?w = "w\<lparr>wlook := Suc (wlook w), wtick := Suc (wtick w), wstmt := Suc (wstmt w)\<rparr>"
    let ?batch = "pending_limit_syncs (wclock w (wtick w)) start (batch_size c) (wdb w)"
    let ?fresh = "filter (\<lambda>t. ts_key t \<notin> failed) ?batch"
    show ?thesis
    proof (cases "wfault w (wstmt w) = None \<and> ?fresh \<noteq> []")
      case False
      then show ?thesis using run
        by (auto simp: select_def run_query run_end_def split: option.split)
    next
      case True
      obtain bs e w' where fe: "run_state (for_each (attempt_one c P) ?fresh) ?w = ((bs, e), w')"
        by (metis surj_pair)
      have step: "run_state (sync_loop (Suc n) c P start failed r) w
          = (case e of
               Some s \<Rightarrow> (Some (tally (concat bs) r, Some (RunError s)), w')
             | None \<Rightarrow> run_state (sync_loop n c P start (failed \<union> failed_ids (concat bs)) (tally (concat bs) r)) w')"
        using run True fe by (simp add: select_def run_query Let_def sync_batch_def split: option.split)
      have sub: "set ?fresh \<subseteq> set (pending_targets (wclock w (wtick w)) (wdb w))"
        by (rule subset_trans [OF _ pending_limit_syncs_subset]) auto
      have spec: "static_eq ?w w' \<and> stale_ids (wdb w') \<subseteq> stale_ids (wdb w) \<union> ts_key ` set ?fresh
        \<and> uniq_on ak_id (api_keys (wdb w'))
        \<and> (e = None \<longrightarrow> \<not> cancelled w' \<longrightarrow>
            (\<forall>t \<in> set ?fresh. ts_key t \<in> failed_ids (concat bs) \<or> ts_key t \<notin> stale_ids (wdb w')))"
      proof -
        have "\<forall>t \<in> set ?fresh. describes t (wdb ?w)" using sub pending_describes by auto
        moreover have "uniq_on ak_id (api_keys (wdb ?w))" using Suc.prems(2) by simp
        ultimately show ?thesis using for_each_attempts [OF fe] by simp
      qed
      define K where "K = ts_key ` set ?fresh"
      have keys: "K \<subseteq> stale_ids (wdb w) - failed"
        unfolding K_def
      proof (rule image_subsetI)
        fix t assume t: "t \<in> set ?fresh"
        then have "ts_key t \<in> stale_ids (wdb w)" using sub by (blast intro: pending_target_stale)
        moreover have "ts_key t \<notin> failed" using t by simp
        ultimately show "ts_key t \<in> stale_ids (wdb w) - failed" by blast
      qed
      have ne: "K \<noteq> {}" using True unfolding K_def image_is_empty set_empty by blast
      have fin: "finite (stale_ids (wdb w) - failed)" by (simp add: stale_ids_def)
      have "static_eq w ?w" by (simp add: static_eq_def)
      then have st: "static_eq w w'" using spec static_eq_trans by blast
      then have sc: "stays_cancelled w'" using Suc.prems(3) by (simp add: stays_cancelled_def static_eq_def)
      show ?thesis
      proof (cases e)
        case (Some s)
        then show ?thesis using step by simp
      next
        case None
        have "fst (run_state (sync_loop n c P start (failed \<union> failed_ids (concat bs)) (tally (concat bs) r)) w') \<noteq> None"
        proof (cases "cancelled w'")
          case True
          have "stale_ids (wdb w) - failed \<noteq> {}" using keys ne by blast
          then have "card (stale_ids (wdb w) - failed) \<noteq> 0" using card_0_eq [OF fin] by blast
          then have "0 < n" using Suc.prems(1) by linarith
          then obtain m where m: "n = Suc m" using gr0_implies_Suc by blast
          have "wcancel w' (wlook w')" by (rule stays_cancelled_next [OF Suc.prems(3) st True])
          then show ?thesis by (simp add: m run_end_def)
        next
          case False
          let ?failed = "failed \<union> failed_ids (concat bs)"
          have "stale_ids (wdb w') \<subseteq> stale_ids (wdb w) \<union> K" using spec by (simp only: K_def)
          moreover have "\<forall>i \<in> K. i \<in> failed_ids (concat bs) \<or> i \<notin> stale_ids (wdb w')"
            unfolding K_def ball_simps using spec [THEN conjunct2, THEN conjunct2, THEN conjunct2] None False by (rule mp [OF mp])
          ultimately have "stale_ids (wdb w') - ?failed \<subseteq> (stale_ids (wdb w) - failed) - K"
            using keys by blast
          also have "\<dots> \<subset> stale_ids (wdb w) - failed" using keys ne by blast
          finally have "card (stale_ids (wdb w') - ?failed) < card (stale_ids (wdb w) - failed)"
            using fin by (intro psubset_card_mono)
          then have "card (stale_ids (wdb w') - ?failed) < n" using Suc.prems(1) by simp
          then show ?thesis using spec sc by (intro Suc.IH) simp_all
        qed
        then show ?thesis using step None by simp
      qed
    qed
  qed
qed

text \<open>Looking at a key marked missing unmarks it, removes it, or leaves everything.\<close>

definition checked :: "database \<Rightarrow> database \<Rightarrow> bool" where
  "checked d d' \<longleftrightarrow> profiles d' = profiles d \<and> quotas d' = quotas d \<and> users d' = users d
     \<and> next_profile d' = next_profile d \<and> length (api_keys d') \<le> length (api_keys d)
     \<and> (uniq_on ak_ref (api_keys d) \<longrightarrow> uniq_on ak_ref (api_keys d'))
     \<and> (uniq_on ak_id (api_keys d) \<longrightarrow> uniq_on ak_id (api_keys d'))
     \<and> (\<forall>k \<in> set (api_keys d'). k \<in> set (api_keys d)
           \<or> (\<exists>k0 \<in> set (api_keys d). k = k0\<lparr>ak_missing := None, ak_synced_rev := None\<rparr>))"

lemma checked_refl [simp]: "checked d d"
  by (simp add: checked_def)

lemma clear_key_missing_checked:
  assumes "clear_key_missing now i ow em de d = Inr (b, d')"
  shows "checked d d'"
  using assms
proof (cases rule: clear_key_missing_cases)
  case 1
  let ?P = "\<lambda>k. ak_id k = i \<and> ak_missing k \<noteq> None" and ?f = "\<lambda>k. k\<lparr>ak_missing := None, ak_synced_rev := None\<rparr>"
  from 1(3) obtain e where e: "d' = add_audit e (d\<lparr>api_keys := update_where ?P ?f (api_keys d)\<rparr>)" by blast
  have "\<forall>k \<in> set (update_where ?P ?f (api_keys d)). k \<in> set (api_keys d) \<or> (\<exists>k0 \<in> set (api_keys d). k = ?f k0)"
    by (rule ball_update_where) blast+
  then show ?thesis by (simp add: checked_def e uniq_on_update_where)
next
  case 2
  then show ?thesis by simp
qed

lemma remove_missing_key_checked:
  assumes "remove_missing_key now i ow em de t d = Inr (b, d')"
  shows "checked d d'"
  using assms
proof (cases rule: remove_missing_key_cases)
  case 1
  then obtain e P where e: "d' = add_audit e (delete_keys P d)" by blast
  show ?thesis
    by (simp add: checked_def e delete_keys_def Let_def delete_where_def uniq_on_filter)
next
  case 2
  then show ?thesis by simp
qed

lemma check_one_spec:
  assumes "run_state (check_one c P m) w = (a, w')"
  shows "static_eq w w' \<and> checked (wdb w) (wdb w')"
  using assms
  by (auto simp: check_one_def run_gateway run_store_now run_store static_eq_def
      dest!: clear_key_missing_checked remove_missing_key_checked
      split: prod.splits option.splits sum.splits if_splits)

lemma checked_trans:
  assumes "checked d d'" and "checked d' d''"
  shows "checked d d''"
proof -
  let ?R = "\<lambda>k d. k \<in> set (api_keys d) \<or> (\<exists>k0 \<in> set (api_keys d). k = k0\<lparr>ak_missing := None, ak_synced_rev := None\<rparr>)"
  have "?R k d" if k: "k \<in> set (api_keys d'')" for k
  proof -
    have "?R k d'" using assms(2) k by (simp add: checked_def)
    then show ?thesis
    proof (elim disjE bexE)
      assume "k \<in> set (api_keys d')"
      then show ?thesis using assms(1) by (simp add: checked_def)
    next
      fix k0 assume k0: "k0 \<in> set (api_keys d')" "k = k0\<lparr>ak_missing := None, ak_synced_rev := None\<rparr>"
      then have "?R k0 d" using assms(1) by (simp add: checked_def)
      then show ?thesis
      proof (elim disjE bexE)
        assume "k0 \<in> set (api_keys d)"
        then show ?thesis using k0(2) by (intro disjI2 bexI)
      next
        fix k1 assume k1: "k1 \<in> set (api_keys d)" "k0 = k1\<lparr>ak_missing := None, ak_synced_rev := None\<rparr>"
        have "k = k1\<lparr>ak_missing := None, ak_synced_rev := None\<rparr>" by (simp add: k0(2) k1(2))
        then show ?thesis using k1(1) by (intro disjI2 bexI)
      qed
    qed
  qed
  then show ?thesis using assms by (simp add: checked_def)
qed

lemma for_each_checks:
  assumes "run_state (for_each (check_one c P) ms) w = (a, w')"
  shows "static_eq w w' \<and> checked (wdb w) (wdb w')"
  using assms
proof (induction ms arbitrary: w a)
  case Nil
  then show ?case by simp
next
  case (Cons m ms)
  let ?w = "w\<lparr>wlook := Suc (wlook w)\<rparr>"
  have st: "static_eq w ?w" by (simp add: static_eq_def)
  show ?case
  proof (cases "wcancel w (wlook w)")
    case True
    then show ?thesis using Cons.prems st by auto
  next
    case False
    obtain b e w1 where one: "run_state (check_one c P m) ?w = ((b, e), w1)" by (metis surj_pair)
    obtain a2 w2 where rest: "run_state (for_each (check_one c P) ms) w1 = (a2, w2)" by (metis surj_pair)
    have "w2 = w'" using Cons.prems False one rest by (simp add: split_beta)
    then have rest': "run_state (for_each (check_one c P) ms) w1 = (a2, w')" using rest by simp
    note one' = check_one_spec [OF one] and IH = Cons.IH [OF rest']
    have "static_eq w w'" using static_eq_trans [OF static_eq_trans [OF st]] one' IH by blast
    moreover have "checked (wdb w) (wdb w')" using checked_trans [of "wdb w" "wdb w1" "wdb w'"] one' IH by simp
    ultimately show ?thesis ..
  qed
qed

lemma check_missing_spec:
  assumes "run_state (check_missing c P) w = (a, w')"
  shows "static_eq w w' \<and> checked (wdb w) (wdb w')"
proof -
  let ?w = "w\<lparr>wstmt := Suc (wstmt w)\<rparr>"
  have st: "static_eq w ?w" by (simp add: static_eq_def)
  show ?thesis
  proof (cases "wfault w (wstmt w)")
    case (Some s)
    then have "w' = ?w" using assms by (simp add: check_missing_def select_def run_query)
    then show ?thesis using st by simp
  next
    case None
    obtain b w2 where fe: "run_state (for_each (check_one c P) (list_missing_keys (wdb w))) ?w = (b, w2)"
      by (metis surj_pair)
    then have "w2 = w'" using assms None
      by (simp add: check_missing_def select_def run_query split_beta)
    then show ?thesis using for_each_checks [OF fe] static_eq_trans [OF st] by simp
  qed
qed

lemma stale_ids_card: "card (stale_ids d) \<le> length (api_keys d)"
proof -
  have "card (stale_ids d) \<le> card (set (filter (stale d) (api_keys d)))"
    unfolding stale_ids_def by (rule card_image_le) simp
  also have "\<dots> \<le> length (filter (stale d) (api_keys d))" by (rule card_length)
  also have "\<dots> \<le> length (api_keys d)" by (rule length_filter_le)
  finally show ?thesis .
qed

lemma sync_run_ends:
  assumes "uniq_on ak_id (api_keys (wdb w))" and "stays_cancelled w" and "length (api_keys (wdb w)) < n"
  shows "fst (run_state (sync_run n c P) w) \<noteq> None"
proof -
  obtain found removed err w1 where cm: "run_state (check_missing c P) w = ((found, removed, err), w1)"
    by (metis surj_pair)
  let ?w1 = "w1\<lparr>wtick := Suc (wtick w1)\<rparr>"
  note sp = check_missing_spec [OF cm]
  have "fst (run_state (sync_loop n c P (wclock w1 (wtick w1)) {} r) ?w1) \<noteq> None" for r
  proof (rule sync_loop_ends)
    have "length (api_keys (wdb w1)) \<le> length (api_keys (wdb w))" using sp by (simp add: checked_def)
    then show "card (stale_ids (wdb ?w1) - {}) < n"
      using stale_ids_card [of "wdb w1"] assms(3) by simp
    show "uniq_on ak_id (api_keys (wdb ?w1))" using sp assms(1) by (simp add: checked_def)
    show "stays_cancelled ?w1" using sp assms(2) by (simp add: stays_cancelled_def static_eq_def)
  qed
  then show ?thesis using cm by (cases err) (simp_all add: sync_run_def Let_def)
qed

end
