(* ===== verification/Fake.thy ===== *)
theory Fake
  imports KeyProvider
begin

text \<open>
  The in-memory provider of \<open>internal/keyprovider/fake.go\<close>: the state it keeps, its operations, and
  the proof that it honours the contract of a gateway that the limit sync relies on.
\<close>

section \<open>State\<close>

record fake =
  fk_counter :: nat
  fk_keys :: "(string \<times> key_request) list"
  fk_created :: "key_request list"
  fk_deleted :: "string list"
  fk_extended :: "string list"
  fk_relimited :: "string list"
  fk_relimited_users :: "gw_user list"
  fk_relabelled :: "(string \<times> string) list"
  fk_alias_err :: "gw_error option"
  fk_limits_by_ref :: "(string \<times> limits) list"
  fk_limits_err :: "gw_error option"
  fk_models :: "string list option"
  fk_models_err :: "gw_error option"
  fk_embeddings :: "(string \<times> bool) list option"
  fk_usage_by_owner :: "(string \<times> daily_usage list) list"
  fk_model_usage_by_owner :: "(string \<times> model_usage list) list"
  fk_usage_err :: "gw_error option"
  fk_quota_by_ref :: "(string \<times> quota) list"
  fk_quota_err :: "gw_error option"
  fk_windows_by_ref :: "(string \<times> window_usage list) list"
  fk_windows_by_owner :: "(string \<times> window_usage list) list"
  fk_windows_err :: "gw_error option"
  fk_quota_by_owner :: "(string \<times> quota) list"
  fk_create_err :: "gw_error option"
  fk_delete_err :: "gw_error option"
  fk_expiry_err :: "gw_error option"
  fk_missing_refs :: "(string \<times> bool) list"
  fk_check_err :: "gw_error option"

text \<open>\<open>NewFake\<close>.\<close>

definition new_fake :: fake where
  "new_fake = \<lparr>fk_counter = 0, fk_keys = [], fk_created = [], fk_deleted = [], fk_extended = [],
     fk_relimited = [], fk_relimited_users = [], fk_relabelled = [], fk_alias_err = None,
     fk_limits_by_ref = [], fk_limits_err = None, fk_models = None, fk_models_err = None, fk_embeddings = None, fk_usage_by_owner = [],
     fk_model_usage_by_owner = [], fk_usage_err = None, fk_quota_by_ref = [], fk_quota_err = None,
     fk_windows_by_ref = [], fk_windows_by_owner = [], fk_windows_err = None,
     fk_quota_by_owner = [], fk_create_err = None, fk_delete_err = None, fk_expiry_err = None,
     fk_missing_refs = [], fk_check_err = None\<rparr>"

section \<open>Operations\<close>

text \<open>A look-up in a Go map gives the zero value for a missing key.\<close>

definition lookup_or :: "'v \<Rightarrow> ('k \<times> 'v) list \<Rightarrow> 'k \<Rightarrow> 'v" where
  "lookup_or z m k = (case map_of m k of None \<Rightarrow> z | Some v \<Rightarrow> v)"

definition fake_history :: "time \<Rightarrow> string \<Rightarrow> int \<Rightarrow> fake \<Rightarrow> (gw_error + history) \<times> fake" where
  "fake_history now owner days f =
     (case fk_usage_err f of
        Some e \<Rightarrow> (Inl e, f)
      | None \<Rightarrow> (Inr \<lparr>hist_days = lookup_or [] (fk_usage_by_owner f) owner,
                      hist_models = lookup_or [] (fk_model_usage_by_owner f) owner\<rparr>, f))"

definition fake_limits :: "string \<Rightarrow> gw_user \<Rightarrow> limits \<Rightarrow> fake \<Rightarrow> gw_error option \<times> fake" where
  "fake_limits ref user l f =
     (case fk_limits_err f of
        Some e \<Rightarrow> (Some e, f)
      | None \<Rightarrow> (None, f\<lparr>fk_limits_by_ref := al_put ref l (fk_limits_by_ref f),
                          fk_relimited := fk_relimited f @ [ref],
                          fk_relimited_users := fk_relimited_users f @ [user]\<rparr>))"

definition fake_windows :: "string \<Rightarrow> string \<Rightarrow> fake \<Rightarrow> (gw_error + window_usage list) \<times> fake" where
  "fake_windows ref owner f =
     (case fk_windows_err f of
        Some e \<Rightarrow> (Inl e, f)
      | None \<Rightarrow>
          (case map_of (fk_windows_by_owner f) owner of
             Some w \<Rightarrow> (if owner \<noteq> [] then (Inr w, f)
                        else (Inr (lookup_or [] (fk_windows_by_ref f) ref), f))
           | None \<Rightarrow> (Inr (lookup_or [] (fk_windows_by_ref f) ref), f)))"

definition no_quota :: quota where
  "no_quota = \<lparr>qt_used = 0, qt_limit = 0, qt_resets_at = None\<rparr>"

definition fake_quota :: "string \<Rightarrow> string \<Rightarrow> fake \<Rightarrow> (gw_error + quota) \<times> fake" where
  "fake_quota ref owner f =
     (case fk_quota_err f of
        Some e \<Rightarrow> (Inl e, f)
      | None \<Rightarrow>
          (case map_of (fk_quota_by_owner f) owner of
             Some q \<Rightarrow> (if owner \<noteq> [] then (Inr q, f)
                        else (Inr (lookup_or no_quota (fk_quota_by_ref f) ref), f))
           | None \<Rightarrow> (Inr (lookup_or no_quota (fk_quota_by_ref f) ref), f)))"

text \<open>The two lists; \<open>None\<close> is a nil slice or map.\<close>

definition fake_list_models :: "fake \<Rightarrow> (gw_error + string list option) \<times> fake" where
  "fake_list_models f = (case fk_models_err f of Some e \<Rightarrow> Inl e | None \<Rightarrow> Inr (fk_models f), f)"

definition fake_embedding_models :: "fake \<Rightarrow> (gw_error + (string \<times> bool) list option) \<times> fake" where
  "fake_embedding_models f = (case fk_models_err f of Some e \<Rightarrow> Inl e | None \<Rightarrow> Inr (fk_embeddings f), f)"

definition fake_ref :: "nat \<Rightarrow> string" where
  "fake_ref n = ''ref-fake-'' @ pad_nat 3 n"

definition fake_secret :: "nat \<Rightarrow> string" where
  "fake_secret n = ''sk-fake-'' @ pad_nat 3 n"

definition fake_create :: "time \<Rightarrow> key_request \<Rightarrow> fake \<Rightarrow> (gw_error + key_result) \<times> fake" where
  "fake_create now req f =
     (case fk_create_err f of
        Some e \<Rightarrow> (Inl e, f)
      | None \<Rightarrow>
          if list_ex (\<lambda>(_, live). kr_alias live = kr_alias req) (fk_keys f)
          then (Inl (GwError (''key with alias '' @ kr_alias req @ '' already exists'')), f)
          else let n = Suc (fk_counter f)
               in (Inr \<lparr>res_secret = fake_secret n, res_ref = fake_ref n\<rparr>,
                   f\<lparr>fk_counter := n, fk_keys := al_put (fake_ref n) req (fk_keys f),
                     fk_created := fk_created f @ [req]\<rparr>))"

definition fake_delete :: "string \<Rightarrow> fake \<Rightarrow> gw_error option \<times> fake" where
  "fake_delete ref f =
     (case fk_delete_err f of
        Some e \<Rightarrow> (Some e, f)
      | None \<Rightarrow>
          (case map_of (fk_keys f) ref of
             None \<Rightarrow> (Some (GwError ''key not found''), f)
           | Some _ \<Rightarrow> (None, f\<lparr>fk_keys := al_del ref (fk_keys f),
                                 fk_deleted := fk_deleted f @ [ref]\<rparr>)))"

definition fake_check :: "string \<Rightarrow> fake \<Rightarrow> gw_error option \<times> fake" where
  "fake_check ref f =
     (case fk_check_err f of
        Some e \<Rightarrow> (Some e, f)
      | None \<Rightarrow>
          if lookup_or False (fk_missing_refs f) ref
          then (Some (KeyNotFound (''fake gateway has no key '' @ ref @ '': key not found in the gateway'')), f)
          else (None, f))"

definition fake_alias :: "string \<Rightarrow> string \<Rightarrow> fake \<Rightarrow> gw_error option \<times> fake" where
  "fake_alias ref a f =
     (case fk_alias_err f of
        Some e \<Rightarrow> (Some e, f)
      | None \<Rightarrow>
          (let keys = (case map_of (fk_keys f) ref of
                         None \<Rightarrow> fk_keys f
                       | Some req \<Rightarrow> al_put ref (req\<lparr>kr_alias := a\<rparr>) (fk_keys f))
           in (None, f\<lparr>fk_keys := keys, fk_relabelled := fk_relabelled f @ [(ref, a)]\<rparr>)))"

definition fake_expiry :: "time \<Rightarrow> string \<Rightarrow> time \<Rightarrow> fake \<Rightarrow> gw_error option \<times> fake" where
  "fake_expiry now ref t f =
     (case fk_expiry_err f of
        Some e \<Rightarrow> (Some e, f)
      | None \<Rightarrow>
          (case map_of (fk_keys f) ref of
             None \<Rightarrow> (Some (GwError ''key not found''), f)
           | Some req \<Rightarrow> (None, f\<lparr>fk_keys := al_put ref (req\<lparr>kr_expires_at := t\<rparr>) (fk_keys f),
                                   fk_extended := fk_extended f @ [ref]\<rparr>)))"

text \<open>\<open>LiveCount\<close>.\<close>

definition live_count :: "fake \<Rightarrow> nat" where
  "live_count f = length (fk_keys f)"

definition fake_provider :: "fake provider" where
  "fake_provider = \<lparr>prov_create = fake_create, prov_delete = fake_delete, prov_expiry = fake_expiry,
     prov_limits = fake_limits, prov_alias = fake_alias, prov_check = fake_check\<rparr>"

definition fake_reporter :: "fake reporter" where
  "fake_reporter = \<lparr>rep_history = fake_history, rep_windows = fake_windows, rep_quota = fake_quota\<rparr>"

section \<open>The fake honours the contract of a gateway\<close>

definition fake_issued :: "fake \<Rightarrow> string \<Rightarrow> bool" where
  "fake_issued f ref \<longleftrightarrow> (\<exists>n. 0 < n \<and> n \<le> fk_counter f \<and> ref = fake_ref n)"

text \<open>A ref carries the limits it was last updated with, or else those it was created with.\<close>

definition fake_carried :: "fake \<Rightarrow> string \<Rightarrow> limits option" where
  "fake_carried f ref =
     (case map_of (fk_limits_by_ref f) ref of
        Some l \<Rightarrow> Some l
      | None \<Rightarrow> map_option kr_limits (map_of (fk_keys f) ref))"

definition fake_inv :: "fake \<Rightarrow> bool" where
  "fake_inv f \<longleftrightarrow> (\<forall>ref. map_of (fk_limits_by_ref f) ref \<noteq> None \<longrightarrow> fake_issued f ref)"

lemmas fake_ops = fake_create_def fake_delete_def fake_expiry_def fake_limits_def fake_alias_def
  fake_check_def

lemma fake_ref_inj [simp]: "fake_ref m = fake_ref n \<longleftrightarrow> m = n"
  by (simp add: fake_ref_def)

lemma fake_inv_new: "fake_inv new_fake"
  by (simp add: fake_inv_def new_fake_def)

lemma fake_create_law:
  assumes "fake_inv g" and "fake_create now req g = (Inr r, g')"
  shows "fake_inv g' \<and> \<not> fake_issued g (res_ref r)
         \<and> fake_issued g' = (fake_issued g)(res_ref r := True)
         \<and> fake_carried g' = (fake_carried g)(res_ref r \<mapsto> kr_limits req)"
proof -
  let ?n = "Suc (fk_counter g)"
  have r: "res_ref r = fake_ref ?n" and g': "fk_counter g' = ?n"
      "fk_keys g' = al_put (fake_ref ?n) req (fk_keys g)" "fk_limits_by_ref g' = fk_limits_by_ref g"
    using assms(2) by (auto simp: fake_create_def Let_def split: option.splits if_splits)
  have fresh: "\<not> fake_issued g (fake_ref ?n)"
    by (auto simp: fake_issued_def)
  then have none: "map_of (fk_limits_by_ref g) (fake_ref ?n) = None"
    using assms(1) by (auto simp: fake_inv_def)
  have iss: "fake_issued g' = (fake_issued g)(fake_ref ?n := True)"
    by (auto simp: fun_eq_iff fake_issued_def g' le_Suc_eq)
  have "fake_carried g' = (fake_carried g)(fake_ref ?n \<mapsto> kr_limits req)"
    by (auto simp: fun_eq_iff fake_carried_def g' none split: option.splits)
  moreover have "fake_inv g'"
    using assms(1) by (simp add: fake_inv_def g' iss)
  ultimately show ?thesis
    using fresh iss r by simp
qed

lemma fake_limits_law:
  assumes "fake_inv g" and "fake_issued g ref" and "fake_limits ref u l g = (res, g')"
  shows "fake_inv g' \<and> fake_issued g' = fake_issued g
         \<and> (\<forall>x. x \<noteq> ref \<longrightarrow> fake_carried g' x = fake_carried g x)"
  using assms
  by (auto simp: fake_limits_def fake_inv_def fake_issued_def fake_carried_def fun_eq_iff
           split: option.splits if_splits)

lemma fake_key_call_law:
  assumes "fk_limits_by_ref g' = fk_limits_by_ref g" and "fk_counter g' = fk_counter g"
  shows "fake_issued g' = fake_issued g \<and> (fake_inv g \<longrightarrow> fake_inv g')"
  using assms by (simp add: fake_inv_def fake_issued_def fun_eq_iff)

lemma fake_carried_al_put:
  assumes "map_of (fk_keys g) ref = Some req" and "kr_limits req' = kr_limits req"
    and "fk_keys g' = al_put ref req' (fk_keys g)" and "fk_limits_by_ref g' = fk_limits_by_ref g"
  shows "fake_carried g' = fake_carried g"
  using assms by (auto simp: fun_eq_iff fake_carried_def split: option.splits)

lemma fake_delete_law:
  assumes "fake_delete ref g = (res, g')"
  shows "fk_limits_by_ref g' = fk_limits_by_ref g \<and> fk_counter g' = fk_counter g
         \<and> (\<forall>x. x \<noteq> ref \<longrightarrow> fake_carried g' x = fake_carried g x)"
proof (cases "g' = g")
  case False
  with assms have "g' = g\<lparr>fk_keys := al_del ref (fk_keys g), fk_deleted := fk_deleted g @ [ref]\<rparr>"
    by (auto simp: fake_delete_def split: option.splits)
  then show ?thesis by (simp add: fake_carried_def split: option.split)
qed simp

lemma fake_expiry_law:
  assumes "fake_expiry now ref t g = (res, g')"
  shows "fk_limits_by_ref g' = fk_limits_by_ref g \<and> fk_counter g' = fk_counter g
         \<and> fake_carried g' = fake_carried g"
proof (cases "g' = g")
  case False
  with assms obtain req where req: "map_of (fk_keys g) ref = Some req"
    and g': "g' = g\<lparr>fk_keys := al_put ref (req\<lparr>kr_expires_at := t\<rparr>) (fk_keys g),
                   fk_extended := fk_extended g @ [ref]\<rparr>"
    by (auto simp: fake_expiry_def split: option.splits)
  have "fake_carried g' = fake_carried g"
    by (rule fake_carried_al_put [OF req, where req' = "req\<lparr>kr_expires_at := t\<rparr>"]) (simp_all add: g')
  then show ?thesis by (simp add: g')
qed simp

lemma fake_alias_law:
  assumes "fake_alias ref a g = (res, g')"
  shows "fk_limits_by_ref g' = fk_limits_by_ref g \<and> fk_counter g' = fk_counter g
         \<and> fake_carried g' = fake_carried g"
proof (cases "map_of (fk_keys g) ref")
  case None
  with assms have "fk_limits_by_ref g' = fk_limits_by_ref g \<and> fk_counter g' = fk_counter g
      \<and> fk_keys g' = fk_keys g"
    by (auto simp: fake_alias_def split: option.splits)
  then show ?thesis by (simp add: fake_carried_def fun_eq_iff split: option.split)
next
  case (Some req)
  with assms have g': "g' = g \<or> (fk_limits_by_ref g' = fk_limits_by_ref g \<and> fk_counter g' = fk_counter g
      \<and> fk_keys g' = al_put ref (req\<lparr>kr_alias := a\<rparr>) (fk_keys g))"
    by (auto simp: fake_alias_def split: option.splits)
  then show ?thesis
    using fake_carried_al_put [OF Some, of "req\<lparr>kr_alias := a\<rparr>" g'] by auto
qed

lemma fake_unchanged:
  shows "fake_create now req g = (Inl e, g') \<Longrightarrow> g' = g"
    and "fake_check ref g = (res, g') \<Longrightarrow> g' = g"
  by (simp_all add: fake_create_def fake_check_def Let_def split: option.splits if_splits)

lemma fake_limits_carried:
  "fake_limits ref u l g = (None, g') \<Longrightarrow> fake_carried g' ref = Some l"
  by (cases "fk_limits_err g") (auto simp: fake_limits_def fake_carried_def)

text \<open>What every call but a create and an update shares: the issued refs and the invariant stay.\<close>

lemma fake_call_law:
  assumes "fake_inv g"
    and "fk_limits_by_ref g' = fk_limits_by_ref g \<and> fk_counter g' = fk_counter g \<and> Q"
  shows "fake_inv g' \<and> fake_issued g' = fake_issued g \<and> Q"
  using assms fake_key_call_law [of g' g] by simp

interpretation fk: limit_gateway fake_provider fake_inv fake_issued fake_carried
proof (unfold_locales, unfold fake_provider_def provider.simps, goal_cases)
  case (1 g now req r g')
  then show ?case by (rule fake_create_law)
next
  case (2 g now req e g')
  then show ?case using fake_unchanged(1) [OF 2(2)] by simp
next
  case (3 g ref u l g')
  show ?case using 3(3) by (rule fake_limits_carried)
next
  case (4 g ref u l res g')
  then show ?case by (rule fake_limits_law)
next
  case (5 g ref res g')
  show ?case by (rule fake_call_law [OF 5(1) fake_delete_law [OF 5(2)]])
next
  case (6 g now ref t res g')
  show ?case by (rule fake_call_law [OF 6(1) fake_expiry_law [OF 6(2)]])
next
  case (7 g ref a res g')
  show ?case by (rule fake_call_law [OF 7(1) fake_alias_law [OF 7(2)]])
next
  case (8 g ref res g')
  then show ?case using fake_unchanged(2) [OF 8(2)] by simp
qed

end
