(* ===== verification/SyncInvariant.thy ===== *)
theory SyncInvariant
  imports LimitSyncFacts Fake
begin

text \<open>
  The promise of the limit sync: a key whose record says that it is in step with a profile, with no
  failure recorded, carries that profile's limits in the gateway (\<open>sync_inv\<close>).  A run keeps this on any
  gateway that honours \<open>limit_gateway\<close>, and so does every write of the store that issues no key.
\<close>

section \<open>The invariant\<close>

text \<open>Limits that restrict a key the same: the order of the windows does not matter.\<close>

definition limits_agree :: "limits \<Rightarrow> limits \<Rightarrow> bool" where
  "limits_agree a b \<longleftrightarrow> lim_models a = lim_models b \<and> lim_tpm a = lim_tpm b \<and> lim_rpm a = lim_rpm b
     \<and> mset (lim_quotas a) = mset (lim_quotas b)"

lemma limits_agree_refl [simp]: "limits_agree a a"
  by (simp add: limits_agree_def)

lemma limits_agree_trans: "limits_agree a b \<Longrightarrow> limits_agree b c \<Longrightarrow> limits_agree a c"
  by (simp add: limits_agree_def)

definition row_limits :: "database \<Rightarrow> profile \<Rightarrow> limits" where
  "row_limits d row = profile_limits (Some (load_quotas d row))"

text \<open>The record of a key says that it was pushed from this row of \<open>profiles\<close> as it is now.\<close>

definition recorded :: "api_key \<Rightarrow> profile \<Rightarrow> bool" where
  "recorded k row \<longleftrightarrow> ak_missing k = None \<and> ak_failed_at k = None
     \<and> ak_synced_profile k = Some (pf_id row) \<and> ak_synced_rev k = Some (pf_rev row)"

definition in_step :: "('g \<Rightarrow> string \<Rightarrow> limits option) \<Rightarrow> database \<Rightarrow> 'g \<Rightarrow> api_key \<Rightarrow> bool" where
  "in_step carried d g k \<longleftrightarrow>
     (\<forall>row \<in> set (profiles d). recorded k row \<longrightarrow>
        (\<exists>l. carried g (ak_ref k) = Some l \<and> limits_agree l (row_limits d row)))"

text \<open>A key was never pushed from a profile, or a revision, that does not exist yet.\<close>

definition not_ahead :: "database \<Rightarrow> api_key \<Rightarrow> bool" where
  "not_ahead d k \<longleftrightarrow> (\<forall>i. ak_synced_profile k = Some i \<longrightarrow> i < next_profile d
     \<and> (\<forall>row \<in> set (profiles d). pf_id row = i \<longrightarrow> (\<forall>r. ak_synced_rev k = Some r \<longrightarrow> r \<le> pf_rev row)))"

definition sync_inv :: "('g \<Rightarrow> bool) \<Rightarrow> ('g \<Rightarrow> string \<Rightarrow> bool) \<Rightarrow> ('g \<Rightarrow> string \<Rightarrow> limits option)
    \<Rightarrow> database \<Rightarrow> 'g \<Rightarrow> bool" where
  "sync_inv ginv issued carried d g \<longleftrightarrow>
     ginv g \<and> uniq_on ak_ref (api_keys d)
     \<and> (\<forall>k \<in> set (api_keys d). issued g (ak_ref k) \<and> not_ahead d k \<and> in_step carried d g k)"

text \<open>A key that is not out of date is recorded as pushed from its owner's profile.\<close>

lemma up_to_date_recorded:
  assumes "\<not> out_of_date d u k" and "ak_missing k = None" and "ak_failed_at k = None"
  obtains row where "effective_profile d u = Some row" "row \<in> set (profiles d)" "recorded k row"
proof -
  obtain row where row: "effective_profile d u = Some row"
      "ak_synced_profile k = effective_id d u" "ak_synced_rev k = Some (pf_rev row)"
    using assms(1) by (auto simp: out_of_date_def split: option.splits)
  then obtain i where i: "effective_id d u = Some i" "find (\<lambda>p. pf_id p = i) (profiles d) = Some row"
    by (auto simp: effective_profile_def split: option.splits)
  have "row \<in> set (profiles d)" "pf_id row = i" using find_SomeD [OF i(2)] by simp_all
  then show ?thesis using row i(1) assms(2,3) by (intro that [of row]) (simp_all add: recorded_def)
qed

text \<open>A store that answers and a context that is not cancelled.\<close>

definition calm :: "'g world \<Rightarrow> bool" where
  "calm w \<longleftrightarrow> (\<forall>n. wfault w n = None) \<and> (\<forall>n. \<not> wcancel w n)"

lemma calm_static: "calm w \<Longrightarrow> static_eq w w' \<Longrightarrow> calm w'"
  by (simp add: calm_def static_eq_def)

lemma calm_not_cancelled: "calm w \<Longrightarrow> \<not> cancelled w"
  by (simp add: calm_def cancelled_def)

section \<open>A calm attempt has an outcome\<close>

lemma sync_fail_calm:
  assumes "calm w" and "run_state (sync_fail t r) w = (e, w')"
  shows "e = None"
  using assms by (simp add: sync_fail_def run_store_now run_store mark_limit_sync_failed_def calm_def)

lemma mark_key_missing_total: "\<exists>b d'. mark_key_missing t1 t2 i ow em de d = Inr (b, d')"
proof (cases "\<exists>k \<in> set (api_keys d). ak_id k = i \<and> ak_missing k = None")
  case True
  show ?thesis
    unfolding mark_key_missing_def record_key_audit_def insert_audit_def if_P [OF True] sum.case prod.case
    by (intro exI) (rule refl)
next
  case False
  show ?thesis unfolding mark_key_missing_def if_not_P [OF False] by (intro exI) (rule refl)
qed

lemma push_failed_calm:
  assumes "calm w" and "run_state (push_failed t err) w = ((out, att, e), w')"
  shows "att \<and> e = None"
proof (cases "is_key_not_found err")
  case False
  let ?w = "w\<lparr>wlook := Suc (wlook w)\<rparr>"
  obtain e1 w1 where f: "run_state (sync_fail t (gw_error_text err)) ?w = (e1, w1)" by fastforce
  have "calm ?w" using assms(1) by (simp add: calm_def)
  then have "e1 = None" using f by (rule sync_fail_calm)
  then show ?thesis using assms False f by (auto simp: push_failed_def calm_def)
next
  case True
  obtain b d' where "mark_key_missing (wclock w (wtick w)) (wclock w (Suc (wtick w))) (ts_key t) (ts_user t) (ts_email t)
      (''key '' @ ts_prefix t @ '' no longer exists in the gateway ('' @ source_sync @ '')'') (wdb w) = Inr (b, d')"
    using mark_key_missing_total by blast
  then show ?thesis
    using assms True
    by (auto simp: push_failed_def calm_def run_store_now2 run_store split: if_splits)
qed

lemma record_sync_calm:
  assumes "calm w" and "run_state (record_sync t p) w = ((out, att, e), w')"
  shows "att \<and> e = None \<and> out = Synced"
  using assms by (auto simp: record_sync_def calm_def run_store mark_limits_synced_def)

lemma sync_one_calm:
  assumes "calm w" and "run_state (sync_one c P t) w = ((out, att, e), w')"
  shows "att \<and> e = None"
proof (cases "ts_profile t")
  case None
  obtain e1 w1 where f: "run_state (sync_fail t no_profile_reason) w = (e1, w1)" by fastforce
  then have "e1 = None" using assms(1) by (intro sync_fail_calm)
  then show ?thesis using assms(2) None f by (simp add: sync_one_def)
next
  case (Some pid)
  let ?w1 = "w\<lparr>wstmt := Suc (wstmt w)\<rparr>"
  have q: "run_state (query (get_profile pid)) w = (get_profile pid (wdb w), ?w1)"
    using assms(1) by (simp add: run_query calm_def)
  show ?thesis
  proof (cases "get_profile pid (wdb w)")
    case (Inl err)
    let ?w2 = "?w1\<lparr>wlook := Suc (wlook w)\<rparr>"
    obtain e1 w1 where f: "run_state (sync_fail t (''load profile '' @ format_int pid @ '': '' @ db_error_text err)) ?w2 = (e1, w1)"
      by fastforce
    have "calm ?w2" using assms(1) by (simp add: calm_def)
    then have "e1 = None" using f by (rule sync_fail_calm)
    then show ?thesis using assms Some q Inl f by (simp add: sync_one_def calm_def)
  next
    case (Inr p)
    obtain pushed g where g: "prov_limits P (ts_ref t) (sc_user c (ts_sub t) (ts_name t) (ts_email t))
        (profile_limits (Some p)) (wgw w) = (pushed, g)" by fastforce
    let ?w2 = "?w1\<lparr>wgw := g\<rparr>"
    have calm2: "calm ?w2" using assms(1) by (simp add: calm_def)
    show ?thesis
    proof (cases pushed)
      case (Some err)
      then have "run_state (push_failed t err) ?w2 = ((out, att, e), w')"
        using assms(2) \<open>ts_profile t = Some pid\<close> q Inr g by (simp add: sync_one_def run_gateway)
      then show ?thesis using push_failed_calm calm2 by blast
    next
      case None
      obtain l w3 where l: "run_state (relabel P t) ?w2 = (l, w3)" by fastforce
      have "calm w3" using calm_static [OF calm2] relabel_spec [OF l] by blast
      moreover have "run_state (case l of Some err \<Rightarrow> push_failed t err | None \<Rightarrow> record_sync t p) w3 = ((out, att, e), w')"
        using assms(2) Some q Inr g None l by (simp add: sync_one_def run_gateway split: option.splits)
      ultimately show ?thesis
        using push_failed_calm record_sync_calm by (cases l) fastforce+
    qed
  qed
qed

section \<open>What an attempt does to the gateway\<close>

text \<open>Only one reference may change what it carries.\<close>

definition only_ref :: "('g \<Rightarrow> string \<Rightarrow> bool) \<Rightarrow> ('g \<Rightarrow> string \<Rightarrow> limits option) \<Rightarrow> string \<Rightarrow> 'g \<Rightarrow> 'g \<Rightarrow> bool" where
  "only_ref issued carried r g g' \<longleftrightarrow> issued g' = issued g \<and> (\<forall>x. x \<noteq> r \<longrightarrow> carried g' x = carried g x)"

section \<open>Batches\<close>

lemma pending_keys_distinct:
  assumes "uniq_on ak_id (api_keys d)"
  shows "distinct (map ts_key (pending_targets now d))"
proof -
  have row: "map ts_key (pending_row now d k) \<in> {[], [ak_id k]}" for k
    by (simp add: pending_row_def target_of_def split: option.split)
  have sub: "ts_key ` set (concat (map (pending_row now d) ks)) \<subseteq> ak_id ` set ks" for ks
  proof (induction ks)
    case (Cons k ks)
    then show ?case using row [of k] by (auto simp flip: set_map)
  qed simp
  have "distinct (map ts_key (concat (map (pending_row now d) ks)))" if "uniq_on ak_id ks" for ks
    using that
  proof (induction ks)
    case (Cons k ks)
    have "set (map ts_key (pending_row now d k)) \<inter> set (map ts_key (concat (map (pending_row now d) ks))) = {}"
    proof -
      have "set (map ts_key (pending_row now d k)) \<subseteq> {ak_id k}" using row [of k] by auto
      moreover have "set (map ts_key (concat (map (pending_row now d) ks))) \<subseteq> ak_id ` set ks"
        using sub [of ks] by (simp only: set_map)
      moreover have "ak_id k \<notin> ak_id ` set ks" using Cons.prems by simp
      ultimately show ?thesis by blast
    qed
    moreover have "distinct (map ts_key (concat (map (pending_row now d) ks)))" using Cons by simp
    moreover have "distinct (map ts_key (pending_row now d k))" using row [of k] by auto
    ultimately show ?case by (simp only: list.map concat.simps map_append distinct_append simp_thms)
  qed simp
  then show ?thesis using assms by (simp add: pending_targets_def)
qed

lemma distinct_keys_batch:
  assumes "uniq_on ak_id (api_keys d)"
  shows "distinct (map ts_key (filter Q (pending_limit_syncs now since n d)))"
proof -
  let ?ts = "sort_key sync_order (filter (not_failed_since since) (pending_targets now d))"
  have "distinct (map ts_key (filter (not_failed_since since) (pending_targets now d)))"
    by (rule distinct_map_filter [OF pending_keys_distinct [OF assms]])
  then have "distinct (map ts_key ?ts)" by (metis mset_map mset_sort mset_eq_imp_distinct_iff)
  then have "distinct (map ts_key (take n ?ts))" by (metis distinct_take take_map)
  then show ?thesis unfolding pending_limit_syncs_def by (rule distinct_map_filter)
qed

text \<open>Keys outside the batch keep their rows; a failed key of it has its failure recorded.\<close>

lemma for_each_rows:
  assumes "run_state (for_each (attempt_one c P) ts) w = ((bs, e), w')" and "calm w"
    and "distinct (map ts_key ts)"
  shows "static_eq w w' \<and> e = None \<and> failed_ids (concat bs) \<subseteq> ts_key ` set ts
    \<and> (\<forall>k \<in> set (api_keys (wdb w')). ak_id k \<notin> ts_key ` set ts \<longrightarrow> k \<in> set (api_keys (wdb w)))
    \<and> (\<forall>i \<in> failed_ids (concat bs). failed_now w i (wdb w'))"
  using assms
proof (induction ts arbitrary: w bs e)
  case Nil
  then show ?case by simp
next
  case (Cons t ts)
  let ?w = "w\<lparr>wlook := Suc (wlook w)\<rparr>"
  have st: "static_eq w ?w" by (simp add: static_eq_def)
  have run: "\<not> wcancel w (wlook w)" using Cons.prems(2) by (simp add: calm_def)
  obtain os e1 w1 where one: "run_state (attempt_one c P t) ?w = ((os, e1), w1)" by (metis surj_pair)
  obtain bs2 e2 w2 where r: "run_state (for_each (attempt_one c P) ts) w1 = ((bs2, e2), w2)"
    by (metis surj_pair)
  have be: "w2 = w'" "bs = os # bs2" "e = (case e1 of Some _ \<Rightarrow> e1 | None \<Rightarrow> e2)"
    using Cons.prems(1) run one r by simp_all
  from one obtain out att where s: "settled t ?w (out, att, e1) w1"
    and os: "os = (if att then [(ts_key t, out)] else [])" by (rule attempt_one_spec)
  have calm': "calm ?w" using Cons.prems(2) by (simp add: calm_def)
  obtain a w3 where a3: "run_state (sync_one c P t) ?w = (a, w3)" by fastforce
  obtain out' att' e' where "a = (out', att', e')" by (cases a)
  with one a3 sync_one_calm [OF calm'] have e1: "e1 = None"
    by (auto simp: attempt_one_def)
  have st1: "static_eq w w1" using s static_eq_trans [OF st] by (simp add: settled_def)
  have calm1: "calm w1" using calm_static [OF Cons.prems(2) st1] .
  have dist: "distinct (map ts_key ts)" and notin: "ts_key t \<notin> ts_key ` set ts"
    using Cons.prems(3) by auto
  note IH = Cons.IH [OF r [unfolded be(1)] calm1 dist]
  have tch: "touches (ts_key t) (wdb w) (wdb w1)" using s by (simp add: settled_def)
  have rows: "k \<in> set (api_keys (wdb w))"
    if "k \<in> set (api_keys (wdb w'))" "ak_id k \<notin> ts_key ` set (t # ts)" for k
  proof -
    have "k \<in> set (api_keys (wdb w1))" using IH that be(1) by simp
    then show ?thesis using touches_rows [OF tch] that(2) by (metis image_eqI list.set_intros(1))
  qed
  have "failed_now w i (wdb w')" if "i \<in> failed_ids (concat bs)" for i
  proof (cases "i \<in> failed_ids (concat bs2)")
    case True
    then have "failed_now w1 i (wdb w')" using IH be(1) by simp
    then show ?thesis using failed_now_prefix [OF st1] by blast
  next
    case False
    then have f: "att" "out = Failed" "i = ts_key t" using that os be(2) by (auto split: if_splits)
    have "\<not> cancelled w1" by (rule calm_not_cancelled [OF calm1])
    then have "failed_now ?w (ts_key t) (wdb w1)" using s e1 f by (simp add: settled_def)
    then have "failed_now w (ts_key t) (wdb w1)" by (rule failed_now_prefix [OF st])
    then show ?thesis
      using IH notin f(3) be(1) unfolding failed_now_def by metis
  qed
  moreover have "failed_ids (concat bs) \<subseteq> ts_key ` set (t # ts)"
    using IH os be(2) by auto
  ultimately show ?case
    using IH rows be e1 static_eq_trans [OF st1] by simp
qed

section \<open>Nothing is left behind\<close>

text \<open>The clock does not go back.\<close>

definition forward :: "'g world \<Rightarrow> bool" where
  "forward w \<longleftrightarrow> (\<forall>m n. m \<le> n \<longrightarrow> wclock w m \<le> wclock w n)"

text \<open>The keys set aside have a failure recorded since the start of the run.\<close>

definition aside :: "time \<Rightarrow> int set \<Rightarrow> database \<Rightarrow> bool" where
  "aside start failed d \<longleftrightarrow> (\<forall>i \<in> failed. on_key i (\<lambda>k. \<exists>tm \<ge> start. ak_failed_at k = Some tm) d)"

text \<open>Every key a query at \<open>now\<close> would still find pending has a failure recorded since then.\<close>

definition drained :: "time \<Rightarrow> time \<Rightarrow> database \<Rightarrow> bool" where
  "drained start now d \<longleftrightarrow>
     (\<forall>t \<in> set (pending_targets now d). \<exists>tm \<ge> start. ts_failed_at t = Some tm)"

lemma take_empty: "take n xs = [] \<Longrightarrow> 0 < n \<Longrightarrow> xs = []"
  by (cases xs) auto

lemma drained_by_query:
  assumes "filter (\<lambda>t. ts_key t \<notin> failed) (pending_limit_syncs now start n d) = []"
    and "0 < n" and "aside start failed d"
  shows "drained start now d"
proof -
  let ?ts = "sort_key sync_order (filter (not_failed_since start) (pending_targets now d))"
  have bad: False if t: "t \<in> set ?ts" "ts_key t \<in> failed" for t
  proof -
    have nf: "not_failed_since start t" and tp: "t \<in> set (pending_targets now d)"
      using t(1) by simp_all
    from tp obtain k u where k: "k \<in> set (api_keys d)" "t = target_of d u k" by (rule pending_targetE)
    then obtain tm where "tm \<ge> start" "ak_failed_at k = Some tm"
      using assms(3) t(2) by (auto simp: aside_def target_of_def)
    then show False using nf k(2) by (simp add: not_failed_since_def target_of_def)
  qed
  have "take n ?ts = []"
  proof (rule ccontr)
    assume "take n ?ts \<noteq> []"
    then obtain t where t: "t \<in> set (take n ?ts)" by (meson list.set_sel(1))
    then have "t \<in> set ?ts" by (rule in_set_takeD)
    moreover have "ts_key t \<in> failed"
      using assms(1) t by (auto simp: pending_limit_syncs_def filter_empty_conv)
    ultimately show False by (rule bad)
  qed
  then have "?ts = []" using assms(2) by (rule take_empty)
  then have "set ?ts = {}" by simp
  then have "\<forall>t \<in> set (pending_targets now d). \<not> not_failed_since start t" by auto
  then show ?thesis
    by (force simp: drained_def not_failed_since_def split: option.splits)
qed

lemma aside_batch:
  assumes "aside start failed (wdb w)" and "forward w" and "start \<le> wclock w (wtick w)"
    and "\<forall>k \<in> set (api_keys (wdb w')). ak_id k \<notin> keys \<longrightarrow> k \<in> set (api_keys (wdb w))"
    and "keys \<inter> failed = {}" and "\<forall>i \<in> new. failed_now w i (wdb w')"
  shows "aside start (failed \<union> new) (wdb w')"
  unfolding aside_def
proof (intro ballI impI)
  fix i k assume i: "i \<in> failed \<union> new" and k: "k \<in> set (api_keys (wdb w'))" "ak_id k = i"
  show "\<exists>tm \<ge> start. ak_failed_at k = Some tm"
  proof (cases "i \<in> new")
    case True
    then obtain n where "n \<ge> wtick w" "ak_failed_at k = Some (wclock w n)"
      using assms(6) k unfolding failed_now_def by blast
    moreover then have "wclock w (wtick w) \<le> wclock w n" using assms(2) by (simp add: forward_def)
    ultimately show ?thesis using assms(3) by (intro exI [of _ "wclock w n"]) simp
  next
    case False
    then have "i \<in> failed" using i by simp
    then have "i \<notin> keys" using assms(5) by blast
    then have "k \<in> set (api_keys (wdb w))" using assms(4) k by simp
    then show ?thesis using assms(1) \<open>i \<in> failed\<close> k(2) by (simp add: aside_def)
  qed
qed

lemma sync_loop_drains:
  assumes "run_state (sync_loop n c P start failed r) w = (Some (res, None), w')" and "calm w" and "forward w"
    and "uniq_on ak_id (api_keys (wdb w))" and "start \<le> wclock w (wtick w)" and "aside start failed (wdb w)"
  shows "\<exists>m \<ge> wtick w. drained start (wclock w m) (wdb w')"
  using assms
proof (induction n arbitrary: w failed r)
  case 0
  then show ?case by simp
next
  case (Suc n)
  let ?w = "w\<lparr>wlook := Suc (wlook w), wtick := Suc (wtick w), wstmt := Suc (wstmt w)\<rparr>"
  let ?batch = "pending_limit_syncs (wclock w (wtick w)) start (batch_size c) (wdb w)"
  let ?fresh = "filter (\<lambda>t. ts_key t \<notin> failed) ?batch"
  have calm: "wfault w (wstmt w) = None" "\<not> wcancel w (wlook w)" "calm ?w"
    using Suc.prems(2) by (simp_all add: calm_def)
  show ?case
  proof (cases "?fresh = []")
    case True
    have "0 < batch_size c" by (simp add: batch_size_def)
    then have "drained start (wclock w (wtick w)) (wdb w)" by (rule drained_by_query [OF True _ Suc.prems(6)])
    moreover have "wdb w' = wdb w" using Suc.prems(1) True calm
      by (auto simp: select_def run_query run_end_def)
    ultimately show ?thesis by auto
  next
    case False
    obtain bs e w1 where fe: "run_state (for_each (attempt_one c P) ?fresh) ?w = ((bs, e), w1)"
      by (metis surj_pair)
    have rows: "static_eq ?w w1" "e = None" "failed_ids (concat bs) \<subseteq> ts_key ` set ?fresh"
      "\<forall>k \<in> set (api_keys (wdb w1)). ak_id k \<notin> ts_key ` set ?fresh \<longrightarrow> k \<in> set (api_keys (wdb ?w))"
      "\<forall>i \<in> failed_ids (concat bs). failed_now ?w i (wdb w1)"
      using for_each_rows [OF fe calm(3) distinct_keys_batch [OF Suc.prems(4)]] by blast+
    have desc: "\<forall>t \<in> set ?fresh. describes t (wdb ?w)"
      using pending_limit_syncs_subset pending_describes by fastforce
    have uniq: "uniq_on ak_id (api_keys (wdb w1))"
      using for_each_attempts [OF fe desc] Suc.prems(4) by simp
    have fwd: "forward ?w" using Suc.prems(3) by (simp add: forward_def)
    have start: "start \<le> wclock ?w (wtick ?w)"
      using Suc.prems(3,5) unfolding forward_def by simp (meson le_SucI order_refl order_trans)
    have aside: "aside start (failed \<union> failed_ids (concat bs)) (wdb w1)"
      by (rule aside_batch [OF _ fwd start rows(4) _ rows(5)]) (use Suc.prems(6) in auto)
    have w1: "calm w1" "wclock w1 = wclock w" "wtick w \<le> wtick w1" "forward w1"
      using calm_static [OF calm(3) rows(1)] rows(1) Suc.prems(3) by (simp_all add: static_eq_def forward_def)
    have "run_state (sync_loop n c P start (failed \<union> failed_ids (concat bs)) (tally (concat bs) r)) w1 = (Some (res, None), w')"
      using Suc.prems(1) calm(1,2) False fe rows(2)
      by (simp add: select_def run_query Let_def sync_batch_def)
    moreover have "start \<le> wclock w1 (wtick w1)"
      using Suc.prems(3,5) w1(2,3) unfolding forward_def by (metis order_trans)
    ultimately have "\<exists>m \<ge> wtick w1. drained start (wclock w1 m) (wdb w')"
      using Suc.IH w1(1,4) uniq aside by blast
    then show ?thesis using w1(2,3) by (metis order_trans)
  qed
qed

context limit_gateway
begin

lemma relabel_frame:
  assumes "run_state (relabel P t) w = (e, w')" and "ginv (wgw w)"
  shows "ginv (wgw w') \<and> issued (wgw w') = issued (wgw w) \<and> carried (wgw w') = carried (wgw w)"
  using assms alias_frame
  by (auto simp: relabel_def run_gateway split: if_splits sum.splits prod.splits)

lemma sync_one_gateway:
  assumes "run_state (sync_one c P t) w = ((out, att, e), w')"
    and "ginv (wgw w)" and "issued (wgw w) (ts_ref t)"
  shows "ginv (wgw w') \<and> only_ref issued carried (ts_ref t) (wgw w) (wgw w')
    \<and> (out = Synced \<longrightarrow> (\<exists>pid p. ts_profile t = Some pid \<and> get_profile pid (wdb w) = Inr p
          \<and> carried (wgw w') (ts_ref t) = Some (profile_limits (Some p))))"
proof (cases "ts_profile t")
  case None
  obtain e1 w1 where f: "run_state (sync_fail t no_profile_reason) w = (e1, w1)" by fastforce
  then show ?thesis
    using assms None sync_fail_spec [OF f] by (auto simp: sync_one_def only_ref_def)
next
  case (Some pid)
  let ?w1 = "w\<lparr>wstmt := Suc (wstmt w)\<rparr>"
  define r where "r = (case wfault w (wstmt w) of Some s \<Rightarrow> Inl (IOError s) | None \<Rightarrow> get_profile pid (wdb w))"
  have q: "run_state (query (get_profile pid)) w = (r, ?w1)"
    by (simp add: run_query r_def)
  show ?thesis
  proof (cases r)
    case (Inl err)
    let ?w2 = "?w1\<lparr>wlook := Suc (wlook w)\<rparr>"
    obtain e1 w1 where f: "run_state (sync_fail t (''load profile '' @ format_int pid @ '': '' @ db_error_text err)) ?w2 = (e1, w1)"
      by fastforce
    show ?thesis
      using assms Some q Inl f sync_fail_spec [OF f]
      by (auto simp: sync_one_def only_ref_def split: if_splits)
  next
    case (Inr p)
    then have p: "get_profile pid (wdb w) = Inr p" by (simp add: r_def split: option.splits)
    obtain pushed g where g: "prov_limits P (ts_ref t) (sc_user c (ts_sub t) (ts_name t) (ts_email t))
        (profile_limits (Some p)) (wgw w) = (pushed, g)" by fastforce
    let ?w2 = "?w1\<lparr>wgw := g\<rparr>"
    have fr: "ginv g \<and> only_ref issued carried (ts_ref t) (wgw w) g"
      using limits_frame [OF assms(2,3) g] by (simp add: only_ref_def)
    show ?thesis
    proof (cases pushed)
      case (Some err)
      then have "run_state (push_failed t err) ?w2 = ((out, att, e), w')"
        using assms(1) \<open>ts_profile t = Some pid\<close> q Inr g by (simp add: sync_one_def run_gateway)
      then show ?thesis using push_failed_spec fr by fastforce
    next
      case None
      have carr: "carried g (ts_ref t) = Some (profile_limits (Some p))"
        using limits_ok assms(2,3) g None by blast
      obtain l w3 where l: "run_state (relabel P t) ?w2 = (l, w3)" by fastforce
      have w3: "ginv (wgw w3)" "issued (wgw w3) = issued g" "carried (wgw w3) = carried g" "wdb w3 = wdb w"
        using relabel_frame [OF l] fr relabel_spec [OF l] by simp_all
      then have fr3: "only_ref issued carried (ts_ref t) (wgw w) (wgw w3)"
        using fr by (simp add: only_ref_def)
      show ?thesis
      proof (cases l)
        case (Some err)
        then have "run_state (push_failed t err) w3 = ((out, att, e), w')"
          using assms(1) \<open>ts_profile t = Some pid\<close> q Inr g None l by (simp add: sync_one_def run_gateway)
        then have "wgw w' = wgw w3" "out \<noteq> Synced" using push_failed_spec by fastforce+
        then show ?thesis using fr3 w3(1) by simp
      next
        case no: None
        then have "run_state (record_sync t p) w3 = ((out, att, e), w')"
          using assms(1) Some q Inr g None l by (simp add: sync_one_def run_gateway)
        then have "wgw w' = wgw w3"
          using record_sync_spec [of t p w3] Some p w3(4) get_profile_id [OF p] by simp
        then show ?thesis using fr3 w3(1,3) carr Some p by simp
      qed
    qed
  qed
qed

lemma sync_one_inv:
  assumes "calm w" and "run_state (sync_one c P t) w = (a, w')" and "describes t (wdb w)"
    and "schema_inv (wdb w)" and "sync_inv ginv issued carried (wdb w) (wgw w)"
  shows "sync_inv ginv issued carried (wdb w') (wgw w')"
proof -
  let ?d = "wdb w" and ?d' = "wdb w'"
  obtain out att e where a: "a = (out, att, e)" by (cases a)
  have ae: "att" "e = None" using sync_one_calm [OF assms(1)] assms(2) a by blast+
  have s: "settled t w (out, True, None) w'" using sync_one_spec [OF assms(2)] ae by (simp add: a)
  have nc: "\<not> cancelled w'" using s assms(1) calm_static calm_not_cancelled by (auto simp: settled_def)
  have tch: "touches (ts_key t) ?d ?d'" using s by (simp add: settled_def)
  have same: "profiles ?d' = profiles ?d" "quotas ?d' = quotas ?d" "next_profile ?d' = next_profile ?d"
    using tch by (simp_all add: touches_def)
  then have row: "row_limits ?d' r = row_limits ?d r" for r
    by (simp add: row_limits_def load_quotas_def)
  note inv = assms(5) [unfolded sync_inv_def]
  obtain k1 where k1: "k1 \<in> set (api_keys ?d)" "ts_key t = ak_id k1" "ts_ref t = ak_ref k1"
    using assms(3) by (auto simp: describes_def)
  have iss: "issued (wgw w) (ts_ref t)" using inv k1 by simp
  note gw = sync_one_gateway [OF assms(2) [unfolded a] _ iss]
  have gw: "ginv (wgw w')" "only_ref issued carried (ts_ref t) (wgw w) (wgw w')"
    "out = Synced \<Longrightarrow> \<exists>pid p. ts_profile t = Some pid \<and> get_profile pid ?d = Inr p
          \<and> carried (wgw w') (ts_ref t) = Some (profile_limits (Some p))"
    using gw inv by blast+
  have uniq_ref: "uniq_on ak_ref (api_keys ?d)" using inv by simp
  have uniq_id: "uniq_on ak_id (api_keys ?d)"
    using schema_invD(3) [OF assms(4)] by (simp add: keys_ok_def ids_below_def)
  have key: "issued (wgw w') (ak_ref k) \<and> not_ahead ?d' k \<and> in_step carried ?d' (wgw w') k"
    if k: "k \<in> set (api_keys ?d')" for k
  proof -
    obtain k0 where k0: "k0 \<in> set (api_keys ?d)" "key_core k = key_core k0" "ak_id k \<noteq> ts_key t \<Longrightarrow> k = k0"
      using touches_rows [OF tch k] by metis
    have iss': "issued (wgw w') (ak_ref k)"
      using inv k0(1) key_coreD(3) [OF k0(2)] gw(2) by (simp add: only_ref_def)
    show ?thesis
    proof (cases "ak_id k = ts_key t")
      case False
      then have kk: "k = k0" using k0(3) by simp
      have "ak_ref k \<noteq> ts_ref t"
      proof
        assume "ak_ref k = ts_ref t"
        then have "k0 = k1" using uniq_on_inj [OF uniq_ref k0(1) k1(1)] kk k1(3) by simp
        then show False using False kk k1(2) by simp
      qed
      then have "carried (wgw w') (ak_ref k) = carried (wgw w) (ak_ref k)" using gw(2) by (simp add: only_ref_def)
      moreover have "not_ahead ?d k" "in_step carried ?d (wgw w) k" using inv k0(1) kk by simp_all
      ultimately show ?thesis using iss' same by (simp add: not_ahead_def in_step_def row)
    next
      case True
      have ref: "ak_ref k = ts_ref t"
      proof -
        have "ak_id k0 = ak_id k1" using True k1(2) key_coreD(1) [OF k0(2)] by simp
        then have "k0 = k1" using uniq_on_inj [OF uniq_id k0(1) k1(1)] by simp
        then show ?thesis using k1(3) key_coreD(3) [OF k0(2)] by simp
      qed
      show ?thesis
      proof (cases "out = Synced")
        case True
        then obtain p where p: "ts_profile t = Some (pf_id p)" "get_profile (pf_id p) ?d = Inr p"
          and rec: "ak_synced_profile k = Some (pf_id p)" "ak_synced_rev k = Some (pf_rev p)"
          using s nc k \<open>ak_id k = ts_key t\<close> by (auto simp: settled_def)
        have carr: "carried (wgw w') (ak_ref k) = Some (profile_limits (Some p))"
          using gw(3) [OF True] p ref by auto
        obtain q where q: "q \<in> set (profiles ?d)" "pf_id q = pf_id p" "p = load_quotas ?d q"
          using p(2) by (rule get_profile_row)
        have ok: "profiles_ok (profiles ?d) (next_profile ?d)" using assms(4) by (rule schema_invD)
        have only: "r = q" if "r \<in> set (profiles ?d)" "pf_id r = pf_id p" for r
          using uniq_on_inj [OF profiles_okD(1) [OF ok] that(1) q(1)] that(2) q(2) by simp
        have "pf_id q < next_profile ?d" using ok q(1) by (auto simp: profiles_ok_def ids_below_def)
        moreover have "pf_rev p = pf_rev q" using arg_cong [OF q(3), of pf_rev] by simp
        ultimately have "not_ahead ?d' k" using rec q(2) only by (auto simp: not_ahead_def same)
        moreover have "in_step carried ?d' (wgw w') k"
          unfolding in_step_def recorded_def row_limits_def
          using carr rec only q(3) row same by (auto simp: row_limits_def load_quotas_def)
        ultimately show ?thesis using iss' by blast
      next
        case False
        then have ts: "touches_sync (ts_key t) ?d ?d'" using s by (simp add: settled_def)
        then obtain k2 where k2: "k2 \<in> set (api_keys ?d)" "key_sync k = key_sync k2"
          using k by (rule touches_sync_rows)
        have "not_ahead ?d' k" using inv k2 same by (simp add: not_ahead_def key_sync_def)
        moreover have "ak_missing k \<noteq> None \<or> ak_failed_at k \<noteq> None"
          using s nc k False \<open>ak_id k = ts_key t\<close>
          by (cases out) (auto simp: settled_def failed_now_def)
        then have "in_step carried ?d' (wgw w') k" by (auto simp: in_step_def recorded_def)
        ultimately show ?thesis using iss' by blast
      qed
    qed
  qed
  have "uniq_on ak_ref (api_keys ?d')"
  proof -
    obtain f where f: "api_keys ?d' = update_where (\<lambda>k. ak_id k = ts_key t) f (api_keys ?d)"
        "\<forall>k. key_core (f k) = key_core k" using tch unfolding touches_def by blast
    have "ak_ref (f k) = ak_ref k" for k using f(2) key_coreD(3) by blast
    then show ?thesis using uniq_ref by (simp add: f(1) uniq_on_update_where)
  qed
  then show ?thesis using gw(1) key unfolding sync_inv_def by blast
qed

lemma for_each_inv:
  assumes "run_state (for_each (attempt_one c P) ts) w = ((bs, e), w')" and "calm w"
    and "\<forall>t \<in> set ts. describes t (wdb w)" and "schema_inv (wdb w)"
    and "sync_inv ginv issued carried (wdb w) (wgw w)"
  shows "sync_inv ginv issued carried (wdb w') (wgw w')"
  using assms
proof (induction ts arbitrary: w bs e)
  case Nil
  then show ?case by simp
next
  case (Cons t ts)
  let ?w = "w\<lparr>wlook := Suc (wlook w)\<rparr>"
  have run: "\<not> wcancel w (wlook w)" and calm': "calm ?w" using Cons.prems(2) by (simp_all add: calm_def)
  obtain a w1 where one: "run_state (sync_one c P t) ?w = (a, w1)" by fastforce
  obtain out att e1 where a: "a = (out, att, e1)" by (cases a)
  obtain bs2 e2 w2 where r: "run_state (for_each (attempt_one c P) ts) w1 = ((bs2, e2), w2)"
    by (metis surj_pair)
  have "run_state (attempt_one c P t) ?w = ((if att then [(ts_key t, out)] else [], e1), w1)"
    using one a by (simp add: attempt_one_def)
  then have w2: "w2 = w'" using Cons.prems(1) run r by simp
  have s: "settled t ?w a w1" using one by (rule sync_one_spec)
  then have tch: "touches (ts_key t) (wdb w) (wdb w1)" and st: "static_eq ?w w1"
    by (simp_all add: settled_def a)
  show ?case
  proof (rule Cons.IH [OF r [unfolded w2]])
    show "calm w1" using calm' st by (rule calm_static)
    show "\<forall>t \<in> set ts. describes t (wdb w1)" using Cons.prems(3) touches_describes [OF tch] by simp
    have "db_step\<^sup>*\<^sup>* (wdb ?w) (wdb w1)"
      using sync_one_steps [of c P t] one unfolding db_steps_def by (metis snd_conv)
    then show "schema_inv (wdb w1)"
      using Cons.prems(4) by (induction rule: rtranclp_induct) (auto intro: db_step_inv)
    show "sync_inv ginv issued carried (wdb w1) (wgw w1)"
      by (rule sync_one_inv [OF calm' one]) (use Cons.prems(3-5) in simp_all)
  qed
qed

lemma sync_inv_checked:
  assumes "checked d d'" and "sync_inv ginv issued carried d g"
    and "ginv g'" "issued g' = issued g" "carried g' = carried g"
  shows "sync_inv ginv issued carried d' g'"
proof -
  have row: "row_limits d' r = row_limits d r" for r
    using assms(1) by (simp add: row_limits_def load_quotas_def checked_def)
  have "issued g' (ak_ref k) \<and> not_ahead d' k \<and> in_step carried d' g' k" if k: "k \<in> set (api_keys d')" for k
  proof -
    have pn: "profiles d' = profiles d" "next_profile d' = next_profile d" using assms(1) by (simp_all add: checked_def)
    consider "k \<in> set (api_keys d)"
      | k0 where "k0 \<in> set (api_keys d)" "k = k0\<lparr>ak_missing := None, ak_synced_rev := None\<rparr>"
      using assms(1) k by (auto simp only: checked_def)
    then show ?thesis
    proof cases
      case 1
      then show ?thesis using assms(2,4,5) pn by (simp add: sync_inv_def not_ahead_def in_step_def row)
    next
      case (2 k0)
      then have "issued g (ak_ref k0)" "not_ahead d k0" using assms(2) by (simp_all add: sync_inv_def)
      then show ?thesis using 2 assms(4) pn by (simp add: not_ahead_def in_step_def recorded_def)
    qed
  qed
  then show ?thesis using assms by (simp add: sync_inv_def checked_def)
qed

lemma check_one_gateway:
  assumes "run_state (check_one c P m) w = (a, w')" and "ginv (wgw w)"
  shows "ginv (wgw w') \<and> issued (wgw w') = issued (wgw w) \<and> carried (wgw w') = carried (wgw w)"
proof -
  obtain e g where g: "prov_check P (mk_ref m) (wgw w) = (e, g)" by fastforce
  have "wgw w' = g"
    using assms(1) g
    by (auto simp: check_one_def run_gateway run_store_now run_store split: option.splits sum.splits if_splits)
  then show ?thesis using check_frame [OF assms(2) g] by simp
qed

lemma check_missing_inv:
  assumes "run_state (check_missing c P) w = (a, w')" and "sync_inv ginv issued carried (wdb w) (wgw w)"
  shows "sync_inv ginv issued carried (wdb w') (wgw w')"
proof -
  have each: "ginv (wgw w') \<and> issued (wgw w') = issued (wgw w) \<and> carried (wgw w') = carried (wgw w)"
    if "run_state (for_each (check_one c P) ms) w = (a, w')" "ginv (wgw w)" for ms a w w'
    using that
  proof (induction ms arbitrary: w a)
    case (Cons m ms)
    let ?w = "w\<lparr>wlook := Suc (wlook w)\<rparr>"
    show ?case
    proof (cases "wcancel w (wlook w)")
      case True
      then show ?thesis using Cons.prems by auto
    next
      case False
      obtain b e w1 where one: "run_state (check_one c P m) ?w = ((b, e), w1)" by (metis surj_pair)
      obtain a2 w2 where rest: "run_state (for_each (check_one c P) ms) w1 = (a2, w2)" by (metis surj_pair)
      have "w2 = w'" using Cons.prems(1) False one rest by (simp add: split_beta)
      then have rest': "run_state (for_each (check_one c P) ms) w1 = (a2, w')" using rest by simp
      have 1: "ginv (wgw w1) \<and> issued (wgw w1) = issued (wgw w) \<and> carried (wgw w1) = carried (wgw w)"
        using check_one_gateway [OF one] Cons.prems(2) by simp
      then show ?thesis using Cons.IH [OF rest'] by simp
    qed
  qed simp
  have gi: "ginv (wgw w)" using assms(2) by (simp add: sync_inv_def)
  have "ginv (wgw w') \<and> issued (wgw w') = issued (wgw w) \<and> carried (wgw w') = carried (wgw w)"
  proof (cases "wfault w (wstmt w)")
    case (Some s)
    then show ?thesis using assms(1) gi by (auto simp: check_missing_def select_def run_query)
  next
    case None
    let ?w = "w\<lparr>wstmt := Suc (wstmt w)\<rparr>"
    obtain b w2 where fe: "run_state (for_each (check_one c P) (list_missing_keys (wdb w))) ?w = (b, w2)"
      by (metis surj_pair)
    then have "w2 = w'" using assms(1) None by (simp add: check_missing_def select_def run_query split_beta)
    then show ?thesis using each [OF fe] gi by simp
  qed
  then show ?thesis
    using check_missing_spec [OF assms(1)] assms(2) by (intro sync_inv_checked [of "wdb w" "wdb w'" "wgw w"]) simp_all
qed

text \<open>A run keeps the invariant.\<close>

lemma sync_loop_inv:
  assumes "run_state (sync_loop n c P start failed r) w = (res, w')" and "calm w"
    and "schema_inv (wdb w)" and "sync_inv ginv issued carried (wdb w) (wgw w)"
  shows "sync_inv ginv issued carried (wdb w') (wgw w')"
  using assms
proof (induction n arbitrary: w failed r)
  case 0
  then show ?case by simp
next
  case (Suc n)
  let ?w = "w\<lparr>wlook := Suc (wlook w), wtick := Suc (wtick w), wstmt := Suc (wstmt w)\<rparr>"
  let ?fresh = "filter (\<lambda>t. ts_key t \<notin> failed) (pending_limit_syncs (wclock w (wtick w)) start (batch_size c) (wdb w))"
  have calm: "wfault w (wstmt w) = None" "\<not> wcancel w (wlook w)" "calm ?w"
    using Suc.prems(2) by (simp_all add: calm_def)
  show ?case
  proof (cases "?fresh = []")
    case True
    then show ?thesis using Suc.prems calm
      by (auto simp: select_def run_query run_end_def)
  next
    case False
    obtain bs e w1 where fe: "run_state (for_each (attempt_one c P) ?fresh) ?w = ((bs, e), w1)"
      by (metis surj_pair)
    have desc: "\<forall>t \<in> set ?fresh. describes t (wdb ?w)"
      using pending_limit_syncs_subset pending_describes by fastforce
    have inv1: "sync_inv ginv issued carried (wdb w1) (wgw w1)"
      by (rule for_each_inv [OF fe calm(3) desc]) (use Suc.prems(3,4) in simp_all)
    have uniq: "uniq_on ak_id (api_keys (wdb w))"
      using schema_invD(3) [OF Suc.prems(3)] by (simp add: keys_ok_def ids_below_def)
    have rows: "static_eq ?w w1 \<and> e = None"
      using for_each_rows [OF fe calm(3) distinct_keys_batch [OF uniq]] by blast
    have sch: "schema_inv (wdb w1)"
    proof -
      have "db_steps (for_each (attempt_one c P) ?fresh)"
        unfolding attempt_one_def by (intro for_each_steps steps)
      then have "db_step\<^sup>*\<^sup>* (wdb ?w) (wdb w1)" using fe unfolding db_steps_def by (metis snd_conv)
      then show ?thesis using Suc.prems(3) by (induction rule: rtranclp_induct) (auto intro: db_step_inv)
    qed
    have "run_state (sync_loop n c P start (failed \<union> failed_ids (concat bs)) (tally (concat bs) r)) w1 = (res, w')"
      using Suc.prems(1) calm(1,2) False fe rows
      by (simp add: select_def run_query Let_def sync_batch_def)
    then show ?thesis
      using Suc.IH calm_static [OF calm(3)] rows sch inv1 by blast
  qed
qed

lemma sync_run_inv:
  assumes "run_state (sync_run n c P) w = (res, w')" and "calm w"
    and "schema_inv (wdb w)" and "sync_inv ginv issued carried (wdb w) (wgw w)"
  shows "sync_inv ginv issued carried (wdb w') (wgw w')"
proof -
  obtain found removed err w1 where cm: "run_state (check_missing c P) w = ((found, removed, err), w1)"
    by (metis surj_pair)
  have inv1: "sync_inv ginv issued carried (wdb w1) (wgw w1)" using cm assms(4) by (rule check_missing_inv)
  have calm1: "calm w1" using check_missing_spec [OF cm] calm_static [OF assms(2)] by blast
  have sch: "schema_inv (wdb w1)"
  proof -
    have "db_step\<^sup>*\<^sup>* (wdb w) (wdb w1)"
      using check_missing_steps [of c P] cm unfolding db_steps_def by (metis snd_conv)
    then show ?thesis using assms(3) by (induction rule: rtranclp_induct) (auto intro: db_step_inv)
  qed
  show ?thesis
  proof (cases err)
    case (Some s)
    then show ?thesis using assms(1) cm inv1 by (auto simp: sync_run_def Let_def)
  next
    case None
    let ?w1 = "w1\<lparr>wtick := Suc (wtick w1)\<rparr>"
    obtain r where loop: "run_state (sync_loop n c P (wclock w1 (wtick w1)) {} r) ?w1 = (res, w')"
      using assms(1) cm None by (simp add: sync_run_def Let_def)
    then show ?thesis
      by (rule sync_loop_inv) (use calm1 sch inv1 in \<open>simp_all add: calm_def\<close>)
  qed
qed

text \<open>After a run that ended, every key that is due a push carries what its owner is due.\<close>

lemma sync_run_enforces:
  assumes "run_state (sync_run n c P) w = (Some (res, None), w')" and "calm w" and "forward w"
    and "schema_inv (wdb w)" and "sync_inv ginv issued carried (wdb w) (wgw w)"
    and "k \<in> set (api_keys (wdb w'))" and "find (\<lambda>u. us_id u = ak_user k) (users (wdb w')) = Some u"
  shows "\<exists>m \<ge> wtick w. ak_expires k \<le> wclock w m \<or> ak_missing k \<noteq> None \<or> ak_failed_at k \<noteq> None
    \<or> (\<exists>row l. effective_profile (wdb w') u = Some row \<and> carried (wgw w') (ak_ref k) = Some l
          \<and> limits_agree l (row_limits (wdb w') row))"
proof -
  obtain found removed err w1 where cm: "run_state (check_missing c P) w = ((found, removed, err), w1)"
    by (metis surj_pair)
  have st: "static_eq w w1" using check_missing_spec [OF cm] by blast
  have uniq: "uniq_on ak_id (api_keys (wdb w1))"
    using check_missing_spec [OF cm] schema_invD(3) [OF assms(4)] by (simp add: checked_def keys_ok_def ids_below_def)
  have none: "err = None" using assms(1) cm by (cases err) (auto simp: sync_run_def Let_def)
  let ?w1 = "w1\<lparr>wtick := Suc (wtick w1)\<rparr>"
  obtain r where loop: "run_state (sync_loop n c P (wclock w1 (wtick w1)) {} r) ?w1 = (Some (res, None), w')"
    using assms(1) cm none by (simp add: sync_run_def Let_def)
  have "\<exists>m \<ge> wtick ?w1. drained (wclock w1 (wtick w1)) (wclock ?w1 m) (wdb w')"
  proof (rule sync_loop_drains [OF loop])
    show "calm ?w1" using calm_static [OF assms(2) st] by (simp add: calm_def)
    show "forward ?w1" using assms(3) st by (simp add: forward_def static_eq_def)
    show "wclock w1 (wtick w1) \<le> wclock ?w1 (wtick ?w1)"
      using assms(3) st by (simp add: forward_def static_eq_def)
  qed (use uniq in \<open>simp_all add: aside_def\<close>)
  then obtain m where m: "wtick w \<le> m" "drained (wclock w1 (wtick w1)) (wclock w m) (wdb w')"
    using st by (auto simp: static_eq_def) (meson Suc_leD order_trans)
  have inv: "sync_inv ginv issued carried (wdb w') (wgw w')"
    using assms(1,2,4,5) by (rule sync_run_inv)
  have goal: "\<exists>row l. effective_profile (wdb w') u = Some row \<and> carried (wgw w') (ak_ref k) = Some l
          \<and> limits_agree l (row_limits (wdb w') row)"
    if live: "\<not> ak_expires k \<le> wclock w m" "ak_missing k = None" "ak_failed_at k = None"
  proof -
    have "\<not> is_pending (wclock w m) (wdb w') u k"
    proof
      assume p: "is_pending (wclock w m) (wdb w') u k"
      then have "target_of (wdb w') u k \<in> set (pending_row (wclock w m) (wdb w') k)"
        using assms(7) by (simp add: pending_row_def)
      then have "target_of (wdb w') u k \<in> set (pending_targets (wclock w m) (wdb w'))"
        using assms(6) by (auto simp: pending_targets_def)
      then have "ts_failed_at (target_of (wdb w') u k) \<noteq> None" using m(2) by (auto simp: drained_def)
      then show False using live(3) by (simp add: target_of_def)
    qed
    then have "\<not> out_of_date (wdb w') u k" using live by (simp add: is_pending_def)
    then obtain row where "effective_profile (wdb w') u = Some row" "row \<in> set (profiles (wdb w'))" "recorded k row"
      using live(2,3) by (rule up_to_date_recorded)
    moreover have "in_step carried (wdb w') (wgw w') k" using inv assms(6) by (simp add: sync_inv_def)
    ultimately show ?thesis unfolding in_step_def by blast
  qed
  show ?thesis using m(1) goal by (intro exI [of _ m]) blast
qed

end

end
