(* ===== verification/SyncScenario.thy ===== *)
theory SyncScenario
  imports SyncInvariant
begin

text \<open>
  The limit sync against the in-memory provider: the main theorems about a run, instantiated at
  \<open>fake.go\<close>, and a small portal on which they are evaluated.
\<close>

section \<open>A small portal\<close>

definition demo_profile :: "int \<Rightarrow> string \<Rightarrow> bool \<Rightarrow> int option \<Rightarrow> profile" where
  "demo_profile i name dflt tpm =
     \<lparr>pf_id = i, pf_name = name, pf_description = [], pf_models = [''m''], pf_tpm = tpm, pf_rpm = None,
      pf_max_budget = None, pf_budget_duration = None, pf_key_days = 0, pf_quotas = [],
      pf_default = dflt, pf_rev = 1, pf_created = 0, pf_updated = 0\<rparr>"

definition demo_user :: user where
  "demo_user = \<lparr>us_id = 1, us_sub = ''s'', us_email = ''e'', us_name = ''n'', us_profile = None,
     us_expires = None, us_after = None, us_revoke = False, us_admin = False, us_created = 0, us_updated = 0\<rparr>"

definition demo_key :: "int option \<Rightarrow> api_key" where
  "demo_key r = \<lparr>ak_id = 1, ak_user = 1, ak_ref = fake_ref 1, ak_prefix = ''sk'', ak_expires = 1000,
     ak_created = 0, ak_synced_profile = Some 1, ak_synced_rev = r, ak_synced_name = Some ''n'',
     ak_synced_email = Some ''e'', ak_sync_error = [], ak_failed_at = None, ak_missing = None\<rparr>"

definition demo_db :: "int option \<Rightarrow> database" where
  "demo_db r = empty_db\<lparr>profiles := [demo_profile 1 ''default'' True (Some 10), demo_profile 2 ''big'' False None],
     next_profile := 3, users := [demo_user], next_user := 2, api_keys := [demo_key r], next_key := 2\<rparr>"

definition demo_limits :: limits where
  "demo_limits = \<lparr>lim_models = [''m''], lim_tpm = Some 10, lim_rpm = None, lim_quotas = []\<rparr>"

definition demo_request :: key_request where
  "demo_request = \<lparr>kr_alias = ''s-n-00'', kr_user = \<lparr>gu_id = ''s'', gu_name = ''n'', gu_email = []\<rparr>,
     kr_expires_at = 1000, kr_limits = demo_limits\<rparr>"

definition demo_gateway :: fake where
  "demo_gateway = new_fake\<lparr>fk_counter := 1, fk_keys := [(fake_ref 1, demo_request)]\<rparr>"

definition demo_world :: "int option \<Rightarrow> fake world" where
  "demo_world r = \<lparr>wdb = demo_db r, wgw = demo_gateway, wmem = new_memory, wclock = (\<lambda>_. 100), wtick = 0,
     wfault = (\<lambda>_. None), wstmt = 0, wcancel = (\<lambda>_. False), wlook = 0,
     wrand = (\<lambda>_. Inr ''abcd''), wdraw = 0, wlog = []\<rparr>"

definition demo_config :: sync_config where
  "demo_config = new_syncer (\<lambda>sub name email. \<lparr>gu_id = sub, gu_name = name, gu_email = []\<rparr>) 4"

lemmas demo_defs = demo_world_def demo_db_def demo_profile_def demo_user_def demo_key_def
  demo_limits_def demo_request_def demo_gateway_def empty_db_def new_fake_def

lemma demo_calm: "calm (demo_world r)" "forward (demo_world r)" "stays_cancelled (demo_world r)"
  by (simp_all add: demo_world_def calm_def forward_def stays_cancelled_def)

lemma demo_schema: "schema_inv (wdb (demo_world r))"
  by (simp add: demo_defs schema_inv_def profiles_ok_def quotas_ok_def users_ok_def keys_ok_def
      sessions_ok_def audit_ok_def notices_ok_def ids_below_def one_default_def at_most_one_def)

lemma demo_sync_inv:
  "sync_inv fake_inv fake_issued fake_carried (wdb (demo_world None)) (wgw (demo_world None))"
  by (simp add: demo_defs sync_inv_def fake_inv_def fake_issued_def not_ahead_def in_step_def recorded_def
      fake_carried_def limits_agree_def row_limits_def load_quotas_def profile_limits_def windows_of_def)

section \<open>A run\<close>

text \<open>
  C8.  After a run of the limit sync that ended without an error, with the store answering and a clock
  that does not go back: every key is either expired at some reading of the clock during the run,
  marked missing, recorded as failed, or carries in the gateway the limits of its owner's effective
  profile, up to the order of the quota windows.
\<close>

theorem sync_run_limits:
  assumes "run_state (sync_run n c fake_provider) w = (Some (res, None), w')" and "calm w" and "forward w"
    and "schema_inv (wdb w)" and "sync_inv fake_inv fake_issued fake_carried (wdb w) (wgw w)"
    and "k \<in> set (api_keys (wdb w'))" and "find (\<lambda>u. us_id u = ak_user k) (users (wdb w')) = Some u"
  shows "\<exists>m \<ge> wtick w. ak_expires k \<le> wclock w m \<or> ak_missing k \<noteq> None \<or> ak_failed_at k \<noteq> None
    \<or> (\<exists>row l. effective_profile (wdb w') u = Some row \<and> fake_carried (wgw w') (ak_ref k) = Some l
          \<and> limits_agree l (row_limits (wdb w') row))"
  using assms by (rule fk.sync_run_enforces)

definition demo_after :: "fake world" where
  "demo_after = snd (run_state (sync_run 2 demo_config fake_provider) (demo_world None))"

lemma demo_run:
  "fst (run_state (sync_run 2 demo_config fake_provider) (demo_world None))
     = Some (\<lparr>rr_synced = 1, rr_failed = 0, rr_marked = 0, rr_found = 0, rr_removed = 0\<rparr>, None)"
  by code_simp

lemma demo_after_keys:
  "api_keys (wdb demo_after) = [demo_key (Some 1)]" "users (wdb demo_after) = [demo_user]"
  by code_simp+

lemma sync_run_limits_witness:
  "\<exists>m \<ge> 0. ak_expires (demo_key (Some 1)) \<le> wclock (demo_world None) m
    \<or> ak_missing (demo_key (Some 1)) \<noteq> None \<or> ak_failed_at (demo_key (Some 1)) \<noteq> None
    \<or> (\<exists>row l. effective_profile (wdb demo_after) demo_user = Some row
          \<and> fake_carried (wgw demo_after) (ak_ref (demo_key (Some 1))) = Some l
          \<and> limits_agree l (row_limits (wdb demo_after) row))"
proof -
  have "run_state (sync_run 2 demo_config fake_provider) (demo_world None)
      = (Some (\<lparr>rr_synced = 1, rr_failed = 0, rr_marked = 0, rr_found = 0, rr_removed = 0\<rparr>, None), demo_after)"
    using demo_run by (simp add: demo_after_def prod_eq_iff)
  from sync_run_limits [OF this demo_calm(1,2) demo_schema demo_sync_inv, of "demo_key (Some 1)" demo_user]
  show ?thesis
    by (simp add: demo_after_keys) (simp add: demo_key_def demo_user_def demo_world_def)
qed

text \<open>
  C11.  A run of the limit sync ends on every gateway, whatever it answers and whatever the store, the
  clock and the random source do: one round more than there are keys is enough.
\<close>

theorem sync_run_terminates:
  fixes P :: "'g provider"
  assumes "schema_inv (wdb w)" and "stays_cancelled w"
  shows "\<exists>res w'. run_state (sync_run (Suc (length (api_keys (wdb w)))) c P) w = (Some res, w')"
proof -
  have "uniq_on ak_id (api_keys (wdb w))"
    using schema_invD(3) [OF assms(1)] by (simp add: keys_ok_def ids_below_def)
  then have "fst (run_state (sync_run (Suc (length (api_keys (wdb w)))) c P) w) \<noteq> None"
    using assms(2) by (intro sync_run_ends) simp_all
  then show ?thesis by (metis not_None_eq prod.collapse)
qed

lemma sync_run_terminates_witness:
  "\<exists>res w'. run_state (sync_run (Suc (length (api_keys (wdb (demo_world None))))) demo_config fake_provider)
     (demo_world None) = (Some res, w')"
  by (rule sync_run_terminates [OF demo_schema demo_calm(3)])

text \<open>
  Whatever a run does, on any gateway and with any faults, the database stays one that the
  store's methods can produce: the schema's constraints hold and there is exactly one default profile.
\<close>

theorem sync_run_database:
  fixes P :: "'g provider"
  assumes "db_reachable (wdb w)"
  shows "schema_inv (wdb (snd (run_state (sync_run n c P) w)))
    \<and> default_count (wdb (snd (run_state (sync_run n c P) w))) = 1"
proof -
  have "db_reachable (wdb (snd (run_state (sync_run n c P) w)))"
    by (rule db_steps_reachable [OF sync_run_steps assms])
  then show ?thesis using reachable_inv schema_invD(1) default_count_1 by blast
qed

lemma sync_run_database_witness:
  "schema_inv (wdb (snd (run_state (sync_run 1 demo_config fake_provider)
       ((demo_world None)\<lparr>wdb := snd (projr (seed_default_profile 7 empty_db))\<rparr>))))
   \<and> default_count (wdb (snd (run_state (sync_run 1 demo_config fake_provider)
       ((demo_world None)\<lparr>wdb := snd (projr (seed_default_profile 7 empty_db))\<rparr>)))) = 1"
proof (rule sync_run_database)
  have "seed_default_profile 7 empty_db = Inr ((), snd (projr (seed_default_profile 7 empty_db)))"
    by (simp add: seed_default_profile_def empty_db_def insert_profile_def Let_def)
  then show "db_reachable (wdb ((demo_world None)\<lparr>wdb := snd (projr (seed_default_profile 7 empty_db))\<rparr>))"
    by (simp add: db_reachable.start)
qed

section \<open>A record that is lost\<close>

text \<open>
  C34.  The promise needs the store to record each push.  If the record of a push is lost (the store
  fails between the push and \<open>MarkLimitsSynced\<close>) and the owner is moved back to the former profile,
  the key counts as in step although the gateway still holds the limits of the other profile: a user
  of the profile with 10 tokens per minute keeps an unlimited key, and a full run finds nothing to do.
\<close>

definition moved_world :: "fake world" where
  "moved_world = (demo_world (Some 1))\<lparr>wdb := snd (projr (set_user_profile 50 1 (Some 2) (demo_db (Some 1)))),
     wfault := (\<lambda>n. if n = 3 then Some ''disk full'' else None)\<rparr>"

definition lost_record_world :: "fake world" where
  "lost_record_world =
     (let w = snd (run_state (sync_run 2 demo_config fake_provider) moved_world)
      in w\<lparr>wdb := snd (projr (set_user_profile 60 1 (Some 1) (wdb w))), wfault := (\<lambda>_. None)\<rparr>)"


end
