(* ===== verification/Gate.thy ===== *)
theory Gate
  imports Pages SyncScenario
begin

text \<open>
  Who gets through the server: what a session authenticates, what the protection against forged requests
  lets pass, the gate of the admin panel, and what every request keeps of the database.
\<close>

section \<open>A portal on the in-memory gateway\<close>

definition demo_settings :: config where
  "demo_settings = (plain_settings (\<lambda>_. []))
     \<lparr>cf_base_url := ''https://g'', cf_redirect_url := ''https://p/callback'', cf_cookie_secure := True,
      cf_session := 24 * hour, cf_key_days := 90, cf_history_days := 30, cf_workers := 1\<rparr>"

definition demo_idp :: idp where
  "demo_idp = \<lparr>idp_auth_url = (\<lambda>s. ''https://i?state='' @ s), idp_exchange = (\<lambda>c. Inr (Some c)),
     idp_verify = (\<lambda>t. Inr [(''sub'', JStr t)]),
     idp_verify_logout = (\<lambda>t. Inr [(''sub'', JStr t), (''events'', JObj [(backchannel_event, JObj [])])]),
     idp_end_session = []\<rparr>"

text \<open>\<open>NewUI\<close> on the provider of \<open>fake.go\<close>, which implements every optional interface.\<close>

definition fake_portal :: "config \<Rightarrow> csrf \<Rightarrow> manager \<Rightarrow> idp \<Rightarrow> bool \<Rightarrow> (string \<Rightarrow> bool) \<Rightarrow> fake portal" where
  "fake_portal c = new_portal c fake_provider (Some fake_reporter) (Some fake_list_models) (Some fake_embedding_models)"

definition demo_portal :: "fake portal" where
  "demo_portal = fake_portal demo_settings
     (csrf_of (\<lambda>secret v. secret @ v) ''s'' True) (new_manager (24 * hour) True) demo_idp True (\<lambda>_. True)"

definition demo_session :: session_row where
  "demo_session = \<lparr>se_id = 1, se_user = 1, se_token = ''t'', se_id_token = [], se_expires = 500, se_created = 0\<rparr>"

text \<open>The small portal of \<open>SyncScenario\<close> with somebody logged in.\<close>

definition logged_in_world :: "time \<Rightarrow> fake world" where
  "logged_in_world now = (demo_world None)
     \<lparr>wdb := (demo_db None)\<lparr>sessions := [demo_session], next_session := 2\<rparr>, wclock := (\<lambda>_. now)\<rparr>"

definition demo_http :: "string \<Rightarrow> string \<Rightarrow> (string \<times> string) list \<Rightarrow> (string \<times> string) list \<Rightarrow> request" where
  "demo_http meth path cookies form =
     \<lparr>rq_method = meth, rq_path = path, rq_host = ''p'', rq_remote = [], rq_id = [], rq_length = 0, rq_query = [],
      rq_form = form, rq_form_error = None, rq_cookies = cookies, rq_headers = []\<rparr>"

lemmas demo_portal_defs = demo_portal_def fake_portal_def demo_settings_def plain_settings_def demo_idp_def new_portal_def
  csrf_of_def new_manager_def demo_session_def logged_in_world_def demo_http_def

section \<open>Sessions\<close>

text \<open>What a request that is turned away may have changed: its own, ended, session.\<close>

definition unmoved :: "'g world \<Rightarrow> 'g world \<Rightarrow> bool" where
  "unmoved w w' \<longleftrightarrow> wgw w' = wgw w \<and> wlog w' = wlog w \<and> wmem w' = wmem w
     \<and> profiles (wdb w') = profiles (wdb w) \<and> quotas (wdb w') = quotas (wdb w) \<and> users (wdb w') = users (wdb w)
     \<and> api_keys (wdb w') = api_keys (wdb w) \<and> audit_log (wdb w') = audit_log (wdb w)
     \<and> set (sessions (wdb w')) \<subseteq> set (sessions (wdb w))"

lemma unmoved_refl [simp]: "unmoved w w"
  by (simp add: unmoved_def)

text \<open>The token opens a session of the user at that time.\<close>

definition authenticates :: "database \<Rightarrow> time \<Rightarrow> string \<Rightarrow> user \<Rightarrow> bool" where
  "authenticates d now token u \<longleftrightarrow> u \<in> set (users d)
     \<and> (\<exists>s \<in> set (sessions d). se_token s = token \<and> se_user s = us_id u \<and> now \<le> se_expires s)"

lemma get_session_SomeD: "get_session_by_token token d = Inr s \<Longrightarrow> s \<in> set (sessions d) \<and> se_token s = token"
  by (auto simp: get_session_by_token_def dest: find_SomeD split: option.splits)

lemma get_user_SomeD: "get_user_by_id i d = Inr u \<Longrightarrow> u \<in> set (users d) \<and> us_id u = i"
  by (auto simp: get_user_by_id_def dest: find_SomeD split: option.splits)

lemma session_get_ended:
  assumes "get_session_by_token token (wdb w) = Inr s" and "wclock w (wtick w) > se_expires s"
    and "wfault w (wstmt w) = None"
  shows "fst (run_state (session_get m token) w) = Inl ''session expired''
    \<and> unmoved w (snd (run_state (session_get m token) w))"
  using assms by (auto simp: session_get_def run_query run_store delete_session_def unmoved_def delete_where_def
      split: option.split)

lemma session_get_unmoved:
  assumes "run_state (session_get m token) w = (r, w')"
  shows "unmoved w w'"
proof (cases "wfault w (wstmt w) = None \<and> (\<exists>s. get_session_by_token token (wdb w) = Inr s \<and> wclock w (wtick w) > se_expires s)")
  case True
  then show ?thesis using session_get_ended [where m = m] assms by fastforce
next
  case False
  then show ?thesis using assms
    by (auto simp: session_get_def run_query unmoved_def split: sum.splits option.splits if_splits)
qed

lemma session_get_authenticates:
  assumes "run_state (session_get m token) w = (Inr su, w')"
  shows "authenticates (wdb w) (wclock w (wtick w)) token (su_user su) \<and> wdb w' = wdb w \<and> unmoved w w'"
proof -
  obtain s where s: "get_session_by_token token (wdb w) = Inr s" "\<not> wclock w (wtick w) > se_expires s"
      "get_user_by_id (se_user s) (wdb w) = Inr (su_user su)" "wdb w' = wdb w"
    using assms by (auto simp: session_get_def run_query split: sum.splits option.splits if_splits prod.splits)
  show ?thesis
    using get_session_SomeD [OF s(1)] get_user_SomeD [OF s(3)] s(2,4) session_get_unmoved [OF assms]
    by (auto simp: authenticates_def intro!: bexI [of _ s])
qed

text \<open>
  C28.  A session authenticates only before it ends, and only the account it was created for: when
  \<open>Manager.Get\<close> returns a user for a token, an open session row with that token belongs to that user,
  and nothing was changed.
\<close>

theorem session_authenticates:
  assumes "run_state (session_get m token) w = (Inr su, w')"
  shows "authenticates (wdb w) (wclock w (wtick w)) token (su_user su) \<and> wdb w' = wdb w"
  using session_get_authenticates [OF assms] by simp

lemma logged_in_get:
  "run_state (session_get (po_sessions demo_portal) ''t'') (logged_in_world 100) =
     (Inr \<lparr>su_session = 1, su_id_token = [], su_user = demo_user\<rparr>,
      (logged_in_world 100)\<lparr>wstmt := 2, wtick := 1\<rparr>)"
  by (simp add: session_get_def run_query logged_in_world_def demo_session_def demo_world_def demo_db_def
      empty_db_def get_session_by_token_def get_user_by_id_def demo_user_def)

lemma session_authenticates_witness:
  "authenticates (wdb (logged_in_world 100)) 100 ''t'' demo_user"
  using session_authenticates [OF logged_in_get] by (simp add: logged_in_world_def demo_world_def)

text \<open>
  A session past its end opens nothing and is removed from the table: the user has to log in again,
  whatever the cookie's own age.
\<close>

theorem ended_session_removed:
  assumes "get_session_by_token token (wdb w) = Inr s" and "wclock w (wtick w) > se_expires s"
    and "\<forall>n. wfault w n = None"
  shows "\<exists>w'. run_state (session_get m token) w = (Inl ''session expired'', w')
    \<and> se_id s \<notin> se_id ` set (sessions (wdb w')) \<and> unmoved w w'"
proof -
  obtain r w' where run: "run_state (session_get m token) w = (r, w')" by fastforce
  then have "r = Inl ''session expired''" and "unmoved w w'"
    using session_get_ended [OF assms(1,2), of m] assms(3) by auto
  moreover have "se_id s \<notin> se_id ` set (sessions (wdb w'))"
    using run assms by (auto simp: session_get_def run_query run_store delete_session_def delete_where_def)
  ultimately show ?thesis using run by blast
qed

lemma ended_session_removed_witness:
  "\<exists>w'. run_state (session_get (po_sessions demo_portal) ''t'') (logged_in_world 501) = (Inl ''session expired'', w')
     \<and> se_id demo_session \<notin> se_id ` set (sessions (wdb w')) \<and> unmoved (logged_in_world 501) w'"
  by (rule ended_session_removed)
    (simp_all add: logged_in_world_def demo_world_def demo_session_def get_session_by_token_def)

section \<open>The gate of the panel\<close>

lemma security_headers_reply [simp]: "rs_reply (security_headers s o' resp) = rs_reply resp"
  by (simp add: security_headers_def)

lemma no_store_reply [simp]: "rs_reply (no_store resp) = rs_reply resp"
  by (simp add: no_store_def)

lemma plain_reply [simp]: "rs_reply (plain x) = x"
  by (simp add: plain_def)

definition refusal :: "page reply \<Rightarrow> bool" where
  "refusal rep \<longleftrightarrow> rep = Redirect ''/login'' \<or> (\<exists>m. rep = HttpError 403 m \<or> rep = HttpError 413 m)"

text \<open>How the whole server treats a guarded endpoint.\<close>

lemma serve_guarded:
  assumes "route_of (rq_method r) (rq_path r) = Some e"
  shows "run_state (serve po sy ping r) w =
    (if rq_length r > max_request_body then (plain (HttpError 413 ''Request too large.''), w)
     else case run_state (guarded po sy ping e r) w of (resp, w') \<Rightarrow>
       (security_headers (cf_cookie_secure (po_cfg po)) (idp_origin (po_cfg po)) resp, w'))"
  by (simp add: serve_def max_body_def assms)

lemma admin_middleware_refuses:
  assumes "run_state (admin_middleware po next r) w = (resp, w')"
    and "\<not> (\<exists>u. us_admin u \<and> authenticates (wdb w) (wclock w (wtick w)) (token_from_request (po_sessions po) r) u)"
  shows "unmoved w w' \<and> refusal (rs_reply resp)"
proof -
  let ?token = "token_from_request (po_sessions po) r"
  obtain s w1 where g: "run_state (session_get (po_sessions po) ?token) w = (s, w1)" by fastforce
  show ?thesis
  proof (cases "?token = []")
    case True
    then show ?thesis using assms(1) by (auto simp: admin_middleware_def to_login_def refusal_def)
  next
    case nonempty: False
    show ?thesis
    proof (cases s)
      case (Inl x)
      then show ?thesis
        using assms(1) g nonempty session_get_unmoved [OF g]
        by (auto simp: admin_middleware_def Let_def to_login_def refusal_def)
    next
      case (Inr su)
      then have "authenticates (wdb w) (wclock w (wtick w)) ?token (su_user su)"
        using session_get_authenticates g by blast
      then have "\<not> us_admin (su_user su)" using assms(2) by blast
      then show ?thesis
        using assms(1) g nonempty Inr session_get_unmoved [OF g]
        by (auto simp: admin_middleware_def Let_def refusal_def)
    qed
  qed
qed

lemma csrf_protect_run:
  "run_state (csrf_protect c next r) w =
     (if request_authentic c r then run_state (next r) w
      else (fst (run_state (csrf_protect c next r) w), w))"
  by (simp add: csrf_protect_cases)

lemma csrf_protect_refusal:
  "\<not> request_authentic c r \<Longrightarrow> \<exists>m. rs_reply (fst (run_state (csrf_protect c next r) w)) = HttpError 403 m
     \<or> rs_reply (fst (run_state (csrf_protect c next r) w)) = HttpError 413 m"
  by (simp add: csrf_protect_cases)

text \<open>
  C5.  The panel is for administrators: a request for any path below /admin, known or not, whose session
  cookie does not open a session of an account with the flag set, reaches no handler.  It is answered by
  the login page or an error, and the gateway, the tables of profiles, users, keys and the audit log, the
  portal's memory and its outside effects stay as they were.
\<close>

theorem admin_gate:
  assumes "route_of (rq_method r) (rq_path r) = Some e" and "is_admin_endpoint e"
    and "\<not> (\<exists>u. us_admin u \<and> authenticates (wdb w) (wclock w (wtick w)) (token_from_request (po_sessions po) r) u)"
    and "run_state (serve po sy ping r) w = (resp, w')"
  shows "unmoved w w' \<and> refusal (rs_reply resp)"
proof (cases "rq_length r > max_request_body")
  case True
  then show ?thesis using assms(4) by (auto simp: serve_guarded [OF assms(1)] refusal_def)
next
  case False
  have "\<not> is_plain_endpoint e" using assms(2) by (cases e) (simp_all add: is_admin_endpoint_def is_plain_endpoint_def)
  moreover obtain rep w1 where c: "run_state (csrf_protect (po_csrf po)
      (admin_middleware po (handler po sy ping e)) r) w = (rep, w1)" by fastforce
  ultimately have w': "w' = w1" and resp: "rs_reply resp = rs_reply rep"
    using assms(2,4) False by (auto simp: serve_guarded [OF assms(1)] guarded_def)
  show ?thesis
  proof (cases "request_authentic (po_csrf po) r")
    case True
    then have "run_state (admin_middleware po (handler po sy ping e) r) w = (rep, w1)"
      using c by (simp add: csrf_protect_cases)
    then show ?thesis using admin_middleware_refuses assms(3) unfolding w' resp by blast
  next
    case False
    then have "w1 = w" using c csrf_protect_run by (metis snd_conv)
    moreover have "refusal (rs_reply rep)"
      using csrf_protect_refusal [OF False, of "admin_middleware po (handler po sy ping e)" w] c
      by (auto simp: refusal_def)
    ultimately show ?thesis by (simp add: w' resp)
  qed
qed

lemma admin_gate_witness:
  "unmoved (logged_in_world 100) (snd (run_state (serve demo_portal None True
       (demo_http ''GET'' ''/admin'' [(''__Host-session_token'', ''t'')] [])) (logged_in_world 100)))
   \<and> refusal (rs_reply (fst (run_state (serve demo_portal None True
       (demo_http ''GET'' ''/admin'' [(''__Host-session_token'', ''t'')] [])) (logged_in_world 100))))"
proof (rule admin_gate [where e = Panel])
  show "\<not> (\<exists>u. us_admin u \<and> authenticates (wdb (logged_in_world 100))
     (wclock (logged_in_world 100) (wtick (logged_in_world 100)))
     (token_from_request (po_sessions demo_portal) (demo_http ''GET'' ''/admin'' [(''__Host-session_token'', ''t'')] [])) u)"
    by (simp add: authenticates_def logged_in_world_def demo_world_def demo_db_def demo_user_def)
qed (simp_all add: demo_http_def route_of_def is_admin_endpoint_def has_prefix_def)

text \<open>
  C7.  No forged request acts: for every path of the portal outside the static files, the probes, the
  metrics and the identity provider's logout call, a request with an unsafe method that comes from another
  origin or does not carry the signature of its own cookie is refused, with the world exactly as it was.
\<close>

theorem forged_request_refused:
  assumes "route_of (rq_method r) (rq_path r) = Some e" and "\<not> is_plain_endpoint e"
    and "\<not> request_authentic (po_csrf po) r"
  shows "snd (run_state (serve po sy ping r) w) = w
    \<and> (\<exists>m. rs_reply (fst (run_state (serve po sy ping r) w)) = HttpError 403 m
         \<or> rs_reply (fst (run_state (serve po sy ping r) w)) = HttpError 413 m)"
  by (simp add: serve_guarded [OF assms(1)] guarded_def assms(2) csrf_protect_cases assms(3))

lemma forged_request_refused_witness:
  "snd (run_state (serve demo_portal None True (demo_http ''POST'' ''/key/delete''
       [(''__Host-session_token'', ''t''), (''__Host-csrf_token'', ''v'')] [(''csrf_token'', ''v'')]))
     (logged_in_world 100)) = logged_in_world 100"
  by (rule forged_request_refused [where e = Delete, THEN conjunct1])
    (simp_all add: demo_http_def route_of_def user_routes_def is_plain_endpoint_def has_prefix_def
      request_authentic_def safe_method_def cross_origin_ok_def presented_token_def header_of_def form_value_def
      cookie_of_def demo_portal_defs csrf_header_def csrf_form_field_def cookie_name_def csrf_cookie_name_def)

text \<open>
  C27.  What the portal issues it accepts: a token and cookie handed out with a page make a form of the
  same site pass the protection, whatever the request was that they were issued on.
\<close>

theorem issued_token_accepted:
  assumes "run_state (csrf_token c r) w = ((token, cookies), w')" and "token \<noteq> []"
    and "rq_cookies r' = (case cookies of [] \<Rightarrow> rq_cookies r | ck # _ \<Rightarrow> (ck_name ck, ck_value ck) # rq_cookies r)"
    and "cross_origin_ok r'" and "header_of r' csrf_header = []" and "rq_form_error r' = None"
    and "form_value r' csrf_form_field = token" and "\<forall>n b. wrand w n = Inr b \<longrightarrow> b \<noteq> []"
  shows "request_authentic c r'"
  using assms
  by (auto simp: csrf_token_def Let_def request_authentic_def presented_token_def cookie_of_def csrf_set_cookie_def
      b64_url_nonempty split: sum.splits if_splits)

lemma issued_token_accepted_witness:
  "request_authentic (po_csrf demo_portal)
     (demo_http ''POST'' ''/key/extend'' [(''__Host-csrf_token'', b64_url ''abcd'')] [(''csrf_token'', ''s'' @ b64_url ''abcd'')])"
  by (rule issued_token_accepted [where r = "demo_http ''GET'' ''/'' [] []" and w = "logged_in_world 100"
        and token = "''s'' @ b64_url ''abcd''" and cookies = "[csrf_set_cookie (po_csrf demo_portal) (b64_url ''abcd'')]"
        and w' = "(logged_in_world 100)\<lparr>wdraw := 1\<rparr>"])
    (simp_all add: demo_http_def csrf_token_def cookie_of_def csrf_set_cookie_def demo_portal_defs demo_world_def
      cookie_name_def csrf_cookie_name_def cross_origin_ok_def safe_method_def header_of_def form_value_def
      csrf_form_field_def)

section \<open>What every request keeps\<close>



end
