(* ===== verification/ProfileExpiry.thy ===== *)
theory ProfileExpiry
  imports World
begin

text \<open>
  \<open>internal/profileexpiry/expiry.go\<close>: the job that ends the profile assignments whose deadline has
  passed, by moving the user to the profile chosen for afterwards or by deleting their key first.
\<close>

section \<open>The job\<close>

definition audit_profile_expired :: string where "audit_profile_expired = ''user.profile_expired''"

text \<open>\<open>destName\<close>.\<close>

definition dest_name :: "int option \<Rightarrow> ('g, string) act" where
  "dest_name i =
     (case i of
        None \<Rightarrow> State_Monad.return ''default''
      | Some pid \<Rightarrow> do {
          r \<leftarrow> query (get_profile pid);
          State_Monad.return (case r of
              Inl _ \<Rightarrow> ''profile #'' @ format_int pid
            | Inr p \<Rightarrow> pf_name p) })"

text \<open>\<open>audit\<close>: an entry that cannot be written is only logged.\<close>

definition expiry_audit :: "user \<Rightarrow> string \<Rightarrow> ('g, unit) act" where
  "expiry_audit u detail = do {
     _ \<leftarrow> store_now (\<lambda>t. record_audit t \<lparr>au_id = 0, au_created = 0, au_action = audit_profile_expired,
            au_actor = system_actor, au_subject = us_email u, au_subject_id = Some (us_id u),
            au_detail = detail\<rparr>);
     State_Monad.return () }"

definition switch_profile :: "user \<Rightarrow> ('g, string option) act" where
  "switch_profile u = do {
     r \<leftarrow> store_now (\<lambda>t. apply_profile_expiry t (us_id u) (us_after u));
     case r of
       Inl e \<Rightarrow> State_Monad.return (Some (''apply expiry: '' @ db_error_text e))
     | Inr _ \<Rightarrow> do {
         name \<leftarrow> dest_name (us_after u);
         expiry_audit u name;
         State_Monad.return None } }"

text \<open>The end of \<open>revoke\<close>, once the user has no key.\<close>

definition revoke_end :: "user \<Rightarrow> ('g, string option) act" where
  "revoke_end u = do {
     r \<leftarrow> store_now (\<lambda>t. apply_profile_expiry t (us_id u) (us_after u));
     case r of
       Inl e \<Rightarrow> State_Monad.return (Some (''apply expiry: '' @ db_error_text e))
     | Inr _ \<Rightarrow> do {
         expiry_audit u ''key deleted'';
         State_Monad.return None } }"

definition revoke_key :: "'g provider \<Rightarrow> user \<Rightarrow> ('g, string option) act" where
  "revoke_key P u = do {
     k \<leftarrow> select (get_api_key_by_user (us_id u));
     case k of
       Inl e \<Rightarrow> State_Monad.return (Some (''load key: '' @ db_error_text e))
     | Inr None \<Rightarrow> revoke_end u
     | Inr (Some k) \<Rightarrow> do {
         d \<leftarrow> gateway (prov_delete P (ak_ref k));
         case d of
           Some e \<Rightarrow> State_Monad.return (Some (''delete key upstream: '' @ gw_error_text e))
         | None \<Rightarrow> do {
             r \<leftarrow> store (delete_api_key (ak_id k));
             case r of
               Inl e \<Rightarrow> State_Monad.return (Some (''delete local key row: '' @ db_error_text e))
             | Inr _ \<Rightarrow> revoke_end u } } }"

text \<open>The loop of \<open>Run\<close>; the result says whether a user was moved to another profile.\<close>

fun expire_users :: "'g provider \<Rightarrow> bool \<Rightarrow> user list \<Rightarrow> ('g, bool) act" where
  "expire_users P switched [] = State_Monad.return switched"
| "expire_users P switched (u # us) =
     (if us_revoke u then do {
        _ \<leftarrow> revoke_key P u;
        expire_users P switched us }
      else do {
        e \<leftarrow> switch_profile u;
        expire_users P (switched \<or> e = None) us })"

text \<open>\<open>Run\<close>; \<open>kick\<close> says whether the runner was given a function to start the limit sync.\<close>

definition expiry_run :: "'g provider \<Rightarrow> bool \<Rightarrow> ('g, string option) act" where
  "expiry_run P kick = do {
     now \<leftarrow> time_now;
     us \<leftarrow> select (users_with_passed_deadline now);
     case us of
       Inl e \<Rightarrow> State_Monad.return (Some (''find expired assignments: '' @ db_error_text e))
     | Inr us \<Rightarrow> do {
         switched \<leftarrow> expire_users P False us;
         (if switched \<and> kick then emit SyncKick else State_Monad.return ());
         State_Monad.return None } }"

section \<open>What a run does to the database\<close>

lemma expiry_steps [steps]:
  "db_steps (dest_name i)" "db_steps (expiry_audit u s)"
  unfolding dest_name_def expiry_audit_def by (intro steps db_steps_store_now; erule db_step.audit)+

lemma switch_profile_steps [steps]: "db_steps (switch_profile u)"
  unfolding switch_profile_def by (intro steps db_steps_store_now) (erule db_step.expiry)

lemma revoke_end_steps [steps]: "db_steps (revoke_end u)"
  unfolding revoke_end_def by (intro steps db_steps_store_now) (erule db_step.expiry)

lemma revoke_key_steps [steps]: "db_steps (revoke_key P u)"
  unfolding revoke_key_def by (intro steps db_steps_store) (erule db_step.delete_key)

lemma expire_users_steps [steps]: "db_steps (expire_users P b us)"
  by (induction us arbitrary: b) (auto intro: steps)

lemma expiry_run_steps [steps]: "db_steps (expiry_run P kick)"
  unfolding expiry_run_def by (intro steps)

end
