(* ===== verification/Reminder.thy ===== *)
theory Reminder
  imports World
begin

text \<open>
  \<open>internal/notify/reminder.go\<close>: the job that warns the owners of keys that are about to expire, once
  per key and threshold, and the building of its mails; \<open>notify.go\<close>'s transport that drops a message; and
  the parts of \<open>smtp.go\<close> that decide what may be sent.  The delivery of a mail is a function of the
  message that may fail.
\<close>

section \<open>Messages\<close>

record message =
  msg_to :: string
  msg_subject :: string
  msg_body :: string

definition default_thresholds :: "int list" where
  "default_thresholds = [14, 3, 1]"

record reminder =
  rm_frontend :: string
  rm_thresholds :: "int list"

definition new_reminder :: "string \<Rightarrow> int list \<Rightarrow> reminder" where
  "new_reminder frontend ts =
     \<lparr>rm_frontend = frontend, rm_thresholds = (if ts = [] then default_thresholds else ts)\<rparr>"

definition plural_days_de :: "int \<Rightarrow> string" where
  "plural_days_de d = (if d = 1 then ''1 Tag'' else format_int d @ '' Tagen'')"

definition plural_days_en :: "int \<Rightarrow> string" where
  "plural_days_en d = (if d = 1 then ''1 day'' else format_int d @ '' days'')"

abbreviation nl :: string where "nl \<equiv> [CHR 0x0A]"

definition message_body :: "string \<Rightarrow> api_key \<Rightarrow> string \<Rightarrow> string \<Rightarrow> string \<Rightarrow> string \<Rightarrow> string" where
  "message_body name k when_de when_en date frontend =
        ''Hallo ''
        @ name
        @ '',''
        @ nl
        @ nl
        @ ''Ihr KI-API-Schl'' @ [CHR 0xC3, CHR 0xBC] @ ''ssel (''
        @ ak_prefix k
        @ [CHR 0xE2, CHR 0x80, CHR 0xA6] @ '') l'' @ [CHR 0xC3, CHR 0xA4] @ ''uft ''
        @ when_de
        @ '' ab, am ''
        @ date
        @ ''.''
        @ nl
        @ nl
        @ ''Sie k'' @ [CHR 0xC3, CHR 0xB6] @ ''nnen ihn mit einem Klick um einen vollen Zeitraum verl'' @ [CHR 0xC3, CHR 0xA4] @ ''ngern oder''
        @ nl
        @ ''einen neuen erzeugen:''
        @ nl
        @ nl
        @ ''  ''
        @ frontend
        @ nl
        @ nl
        @ ''Wenn Sie den Schl'' @ [CHR 0xC3, CHR 0xBC] @ ''ssel nicht mehr ben'' @ [CHR 0xC3, CHR 0xB6] @ ''tigen, k'' @ [CHR 0xC3, CHR 0xB6] @ ''nnen Sie diese Nachricht''
        @ nl
        @ ''ignorieren; er wird von selbst ung'' @ [CHR 0xC3, CHR 0xBC] @ ''ltig.''
        @ nl
        @ nl
        @ ''---''
        @ nl
        @ nl
        @ ''Hello ''
        @ name
        @ '',''
        @ nl
        @ nl
        @ ''your AI API key (''
        @ ak_prefix k
        @ [CHR 0xE2, CHR 0x80, CHR 0xA6] @ '') expires ''
        @ when_en
        @ '', on ''
        @ date
        @ ''.''
        @ nl
        @ nl
        @ ''You can extend it for a full period with one click, or generate a''
        @ nl
        @ ''replacement, at:''
        @ nl
        @ nl
        @ ''  ''
        @ frontend
        @ nl
        @ nl
        @ ''If you no longer need the key you can ignore this message; it will stop''
        @ nl
        @ ''working on its own.''
        @ nl"

text \<open>\<open>message\<close>; an \<open>ExpiringKey\<close> is the key with its owner's address and name.\<close>

definition expiry_message :: "reminder \<Rightarrow> api_key \<times> string \<times> string \<Rightarrow> int \<Rightarrow> message" where
  "expiry_message r e days = (case e of (k, email, owner) \<Rightarrow>
     let when_de = (if days = 1 then ''morgen'' else ''in '' @ plural_days_de days);
         when_en = (if days = 1 then ''tomorrow'' else ''in '' @ plural_days_en days);
         name = (if owner = [] then email else owner)
     in \<lparr>msg_to = email,
         msg_subject = ''Ihr KI-API-Schl'' @ [CHR 0xC3, CHR 0xBC] @ ''ssel l'' @ [CHR 0xC3, CHR 0xA4] @ ''uft '' @ when_de @ '' ab / Your AI API key expires '' @ when_en,
         msg_body = message_body name k when_de when_en (format_date (ak_expires k)) (rm_frontend r)\<rparr>)"

section \<open>Transports\<close>

text \<open>A transport: \<open>None\<close> when it took the message.  \<open>Discard\<close> takes every one.\<close>

type_synonym notifier = "message \<Rightarrow> string option"

definition discard :: notifier where "discard m = None"

text \<open>\<open>buildMessage\<close> refuses an address that would add header lines.\<close>

definition address_ok :: "string \<Rightarrow> bool" where
  "address_ok a \<longleftrightarrow> CHR 0x0D \<notin> set a \<and> CHR 0x0A \<notin> set a"

text \<open>
  \<open>SMTP.Notify\<close>: \<open>send\<close> is the relay's answer; a message that cannot be built is never sent.
\<close>

definition smtp_notify :: "string \<Rightarrow> string \<Rightarrow> notifier \<Rightarrow> notifier" where
  "smtp_notify host from_addr send m =
     (if split_host_port host = None then Some (''invalid SMTP host'')
      else if \<not> address_ok from_addr \<or> \<not> address_ok (msg_to m) then Some (''line break in mail address'')
      else case send m of
             None \<Rightarrow> None
           | Some e \<Rightarrow> Some (''send mail to '' @ msg_to m @ '': '' @ e))"

section \<open>The job\<close>

text \<open>One key: a notice that was not delivered stays unrecorded.\<close>

definition remind_one :: "reminder \<Rightarrow> notifier \<Rightarrow> int \<Rightarrow> api_key \<times> string \<times> string \<Rightarrow> ('g, unit) act" where
  "remind_one r n days e =
     (let m = expiry_message r e days
      in case n m of
           Some _ \<Rightarrow> State_Monad.return ()
         | None \<Rightarrow> do {
             emit (Mailed (msg_to m) (msg_subject m) (msg_body m));
             _ \<leftarrow> store_now (\<lambda>t. mark_expiry_notice_sent t (ak_id (fst e)) days);
             State_Monad.return () })"

fun remind_all :: "reminder \<Rightarrow> notifier \<Rightarrow> int \<Rightarrow> (api_key \<times> string \<times> string) list \<Rightarrow> ('g, unit) act" where
  "remind_all r n days [] = State_Monad.return ()"
| "remind_all r n days (e # es) = do { remind_one r n days e; remind_all r n days es }"

fun remind_thresholds :: "reminder \<Rightarrow> notifier \<Rightarrow> int list \<Rightarrow> ('g, string option) act" where
  "remind_thresholds r n [] = State_Monad.return None"
| "remind_thresholds r n (days # ts) = do {
     now1 \<leftarrow> time_now;
     now2 \<leftarrow> time_now;
     ks \<leftarrow> select (keys_expiring_within now1 now2 days);
     case ks of
       Inl e \<Rightarrow> State_Monad.return (Some (''find keys expiring within '' @ format_int days @ ''d: '' @ db_error_text e))
     | Inr ks \<Rightarrow> do { remind_all r n days ks; remind_thresholds r n ts } }"

text \<open>\<open>Run\<close>.\<close>

definition reminder_run :: "reminder \<Rightarrow> notifier \<Rightarrow> ('g, string option) act" where
  "reminder_run r n = remind_thresholds r n (rm_thresholds r)"

section \<open>What a run does to the database\<close>

lemma remind_one_steps [steps]: "db_steps (remind_one r n days e)"
  unfolding remind_one_def Let_def by (intro steps db_steps_store_now) (erule db_step.notice)

lemma remind_all_steps [steps]: "db_steps (remind_all r n days es)"
  by (induction es) (auto intro: steps)

lemma remind_thresholds_steps [steps]: "db_steps (remind_thresholds r n ts)"
  by (induction ts) (auto intro!: steps)

lemma reminder_run_steps [steps]: "db_steps (reminder_run r n)"
  unfolding reminder_run_def by (rule remind_thresholds_steps)

end
