(* ===== verification/PortalInvariant.thy ===== *)
theory PortalInvariant
  imports Gate ProfileExpiry Reminder
begin

text \<open>
  Invariants between the gateway and the database.  The locale \<open>portal_invariant\<close> states what a relation
  between the two has to satisfy so that every request and every job keeps it: the proofs go through the
  handlers' texts once, for any such relation.  The theories after this one interpret it: \<open>KeyBooks\<close> with
  "every live key is in the table of keys", \<open>SyncUpheld\<close> with the invariant of the limit sync.
\<close>

section \<open>Writes that touch no key but its dates and marks\<close>

inductive quiet_step :: "database \<Rightarrow> database \<Rightarrow> bool" where
  create_profile: "create_profile now p qs d = Inr (r, d') \<Longrightarrow> quiet_step d d'"
| update_profile: "update_profile now p qs d = Inr (r, d') \<Longrightarrow> quiet_step d d'"
| delete_profile: "delete_profile i d = Inr (u, d') \<Longrightarrow> quiet_step d d'"
| insert_user: "insert_user x d = Inr (r, d') \<Longrightarrow> us_profile x = None \<Longrightarrow> quiet_step d d'"
| identity: "update_identity i email name now d = Inr (u, d') \<Longrightarrow> quiet_step d d'"
| assign_until: "set_user_profile_until now i p t a b d = Inr (u, d') \<Longrightarrow> quiet_step d d'"
| expiry: "apply_profile_expiry now i p d = Inr (u, d') \<Longrightarrow> quiet_step d d'"
| admin: "set_user_admin now i a d = Inr (u, d') \<Longrightarrow> quiet_step d d'"
| audit: "record_audit now e d = Inr (u, d') \<Longrightarrow> quiet_step d d'"
| extend_key: "update_api_key_expiry i t d = Inr (u, d') \<Longrightarrow> quiet_step d d'"
| mark_missing: "mark_key_missing now now2 i ow em de d = Inr (b, d') \<Longrightarrow> quiet_step d d'"
| create_session: "create_session now i tok idt t d = Inr (u, d') \<Longrightarrow> quiet_step d d'"
| delete_session: "delete_session i d = Inr (u, d') \<Longrightarrow> quiet_step d d'"
| delete_by_sub: "delete_sessions_by_sub sub d = Inr (u, d') \<Longrightarrow> quiet_step d d'"
| notice: "mark_expiry_notice_sent now i days d = Inr (u, d') \<Longrightarrow> quiet_step d d'"

lemma quiet_db_step: "quiet_step d d' \<Longrightarrow> db_step d d'"
  by (induction rule: quiet_step.induct) (erule db_step.intros; assumption?)+

text \<open>What they do to the table of keys.\<close>

definition same_key :: "api_key \<Rightarrow> api_key \<Rightarrow> bool" where
  "same_key k k' \<longleftrightarrow> ak_id k' = ak_id k \<and> ak_ref k' = ak_ref k \<and> ak_user k' = ak_user k
     \<and> ak_synced_profile k' = ak_synced_profile k \<and> ak_synced_rev k' = ak_synced_rev k
     \<and> ak_failed_at k' = ak_failed_at k \<and> (ak_missing k' = None \<longrightarrow> ak_missing k = None)"

definition same_keys :: "database \<Rightarrow> database \<Rightarrow> bool" where
  "same_keys d d' \<longleftrightarrow> (\<exists>f. api_keys d' = map f (api_keys d) \<and> (\<forall>k. same_key k (f k)))"

lemma same_keys_eq: "api_keys d' = api_keys d \<Longrightarrow> same_keys d d'"
  unfolding same_keys_def by (rule exI [of _ "\<lambda>k. k"]) (simp add: same_key_def)

lemma same_keys_update:
  "api_keys d' = update_where P f (api_keys d) \<Longrightarrow> (\<And>k. same_key k (f k)) \<Longrightarrow> same_keys d d'"
  unfolding same_keys_def update_where_def
  by (rule exI [of _ "\<lambda>k. if P k then f k else k"]) (simp add: same_key_def)

lemma insert_audit_keys:
  assumes "insert_audit e d = Inr (u, d')"
  shows "api_keys d' = api_keys d"
proof -
  have "d' = add_audit e d" using assms by (simp add: insert_audit_def)
  then show ?thesis by simp
qed

lemma assign_users_keys: "assign_users i p f d = Inr (u, d') \<Longrightarrow> api_keys d' = api_keys d"
  by (drule assign_users_cases(1)) simp

lemma quotas_keys: "set_profile_quotas i qs d = Inr (u, d') \<Longrightarrow> api_keys d' = api_keys d"
  by (auto simp: set_profile_quotas_def insert_quotas_def Let_def split: if_splits sum.splits)

lemma profile_writes_keys:
  "create_profile now p qs d = Inr (r, d') \<Longrightarrow> api_keys d' = api_keys d"
  "update_profile now p qs d = Inr (r', d') \<Longrightarrow> api_keys d' = api_keys d"
  "delete_profile i d = Inr (u, d') \<Longrightarrow> api_keys d' = api_keys d"
proof -
  show "api_keys d' = api_keys d" if "create_profile now p qs d = Inr (r, d')"
    using that
    by (auto simp: create_profile_def create_profile_tx_def insert_profile_def Let_def
        dest!: quotas_keys split: sum.splits if_splits)
  show "api_keys d' = api_keys d" if upd: "update_profile now p qs d = Inr (r', d')"
  proof -
    obtain prev demoted p1 where r: "r' = (prev, demoted, p1)" by (cases r')
    from upd [unfolded r] show ?thesis
      by (rule update_profile_cases) (auto dest!: quotas_keys update_profile_tx_cases(5))
  qed
  show "api_keys d' = api_keys d" if "delete_profile i d = Inr (u, d')"
    using delete_profile_cases(3) [OF that] by simp
qed

lemma user_writes_keys:
  "insert_user x d = Inr (r, d') \<Longrightarrow> api_keys d' = api_keys d"
  "update_identity i email name now d = Inr (u, d') \<Longrightarrow> api_keys d' = api_keys d"
  "set_user_admin now i a d = Inr (u, d') \<Longrightarrow> api_keys d' = api_keys d"
  by (auto simp: insert_user_def update_identity_def set_user_admin_def Let_def split: if_splits)

lemma assignment_keys:
  "set_user_profile_until now i p t a b d = Inr (u, d') \<Longrightarrow> api_keys d' = api_keys d"
  "apply_profile_expiry now i p d = Inr (u, d') \<Longrightarrow> api_keys d' = api_keys d"
  "record_audit now e d = Inr (u, d') \<Longrightarrow> api_keys d' = api_keys d"
  by (auto simp: set_user_profile_until_def apply_profile_expiry_def record_audit_def Let_def
      dest!: assign_users_keys insert_audit_keys)

lemma session_writes_keys:
  "create_session now i tok idt t d = Inr (u, d') \<Longrightarrow> api_keys d' = api_keys d"
  "delete_session i d = Inr (u, d') \<Longrightarrow> api_keys d' = api_keys d"
  "delete_sessions_by_sub sub d = Inr (u, d') \<Longrightarrow> api_keys d' = api_keys d"
  "mark_expiry_notice_sent now i days d = Inr (u, d') \<Longrightarrow> api_keys d' = api_keys d"
  by (auto simp: create_session_def delete_session_def delete_sessions_by_sub_def
      mark_expiry_notice_sent_def Let_def split: if_splits)

lemma quiet_keys:
  assumes "quiet_step d d'"
  shows "same_keys d d'"
  using assms
proof cases
  case (mark_missing now now2 i ow em de b)
  then show ?thesis
  proof (elim mark_key_missing_cases exE)
    fix e assume "d' = add_audit e (d\<lparr>api_keys := update_where (\<lambda>k. ak_id k = i \<and> ak_missing k = None)
                        (\<lambda>k. k\<lparr>ak_missing := Some now\<rparr>) (api_keys d)\<rparr>)"
    then have "api_keys d' = update_where (\<lambda>k. ak_id k = i \<and> ak_missing k = None)
                        (\<lambda>k. k\<lparr>ak_missing := Some now\<rparr>) (api_keys d)" by simp
    then show ?thesis by (rule same_keys_update) (simp add: same_key_def)
  qed (simp add: same_keys_eq)
next
  case (extend_key i t u)
  then have "api_keys d' = update_where (\<lambda>k. ak_id k = i) (\<lambda>k. k\<lparr>ak_expires := t\<rparr>) (api_keys d)"
    by (auto simp: update_api_key_expiry_def)
  then show ?thesis by (rule same_keys_update) (simp add: same_key_def)
qed (rule same_keys_eq, erule profile_writes_keys user_writes_keys assignment_keys session_writes_keys)+

section \<open>A day of the portal\<close>

text \<open>
  What reaches a running portal: requests, each with the state of the sync it may show and whether the
  database answers a ping, and the runs of the two jobs on the same gateway and database.
\<close>

datatype event = Request request "sync_state option" bool | ExpiryJob | ReminderJob

definition portal_event :: "'g portal \<Rightarrow> reminder \<Rightarrow> notifier \<Rightarrow> event \<Rightarrow> ('g, unit) act" where
  "portal_event po rm n e =
     (case e of
        Request r sy ping \<Rightarrow> do { _ \<leftarrow> serve po sy ping r; State_Monad.return () }
      | ExpiryJob \<Rightarrow> do { _ \<leftarrow> expiry_run (po_keys po) (po_kick po); State_Monad.return () }
      | ReminderJob \<Rightarrow> do { _ \<leftarrow> reminder_run rm n; State_Monad.return () })"

fun portal_day :: "'g portal \<Rightarrow> reminder \<Rightarrow> notifier \<Rightarrow> event list \<Rightarrow> ('g, unit) act" where
  "portal_day po rm n [] = State_Monad.return ()"
| "portal_day po rm n (e # es) = do { portal_event po rm n e; portal_day po rm n es }"

lemma portal_day_steps [steps]: "db_steps (portal_day po rm n es)"
proof (induction es)
  case (Cons e es)
  have "db_steps (portal_event po rm n e)"
    unfolding portal_event_def by (cases e) (simp_all only: event.case, (intro steps)+)
  then show ?case using Cons by (auto intro: steps)
qed (simp add: steps)

section \<open>The interface\<close>

text \<open>
  \<open>I\<close> is the invariant, \<open>between\<close> what holds while a key's row outlives the key in the gateway.  With
  \<open>faultless\<close> the store is assumed to answer, so that a handler is not stopped halfway.
\<close>

locale portal_invariant =
  fixes po :: "'g portal"
    and faultless :: bool
    and I :: "'g \<Rightarrow> database \<Rightarrow> bool"
    and between :: "api_key \<Rightarrow> 'g \<Rightarrow> database \<Rightarrow> bool"
  assumes quiet: "I g d \<Longrightarrow> schema_inv d \<Longrightarrow> quiet_step d d' \<Longrightarrow> I g d'"
    and reads:
      "po_reporter po = Some rep \<Longrightarrow> I g d \<Longrightarrow> I (snd (rep_history rep now own n g)) d"
      "po_reporter po = Some rep \<Longrightarrow> I g d \<Longrightarrow> I (snd (rep_quota rep ref own g)) d"
      "po_reporter po = Some rep \<Longrightarrow> I g d \<Longrightarrow> I (snd (rep_windows rep ref own g)) d"
      "po_lister po = Some ls \<Longrightarrow> I g d \<Longrightarrow> I (snd (ls g)) d"
      "po_embedder po = Some em \<Longrightarrow> I g d \<Longrightarrow> I (snd (em g)) d"
    and expires: "I g d \<Longrightarrow> I (snd (prov_expiry (po_keys po) now ref t g)) d"
    and refused: "I g d \<Longrightarrow> prov_create (po_keys po) now req g = (Inl e, g') \<Longrightarrow> I g' d"
    and rolled_back:
      "I g d \<Longrightarrow> prov_create (po_keys po) now req g = (Inr res, g') \<Longrightarrow>
         I (snd (prov_delete (po_keys po) (res_ref res) g')) d"
    and issued:
      "I g d \<Longrightarrow> schema_inv d \<Longrightarrow> row \<in> set (profiles d) \<Longrightarrow>
         kr_limits req = profile_limits (Some (load_quotas d row)) \<Longrightarrow>
         prov_create (po_keys po) now req g = (Inr res, g') \<Longrightarrow>
         replace_api_key t (new_key_row u (load_quotas d row) res expiry) d = Inr (k, d') \<Longrightarrow>
         (case get_api_key_by_user (us_id u) d of
            None \<Rightarrow> I g' d'
          | Some old \<Rightarrow> I (snd (prov_delete (po_keys po) (ak_ref old) g')) d')"
    and not_deleted:
      "I g d \<Longrightarrow> prov_delete (po_keys po) (ak_ref k) g = (Some e, g') \<Longrightarrow> I g' d"
    and deleted:
      "I g d \<Longrightarrow> schema_inv d \<Longrightarrow> k \<in> set (api_keys d) \<Longrightarrow>
         prov_delete (po_keys po) (ak_ref k) g = (None, g') \<Longrightarrow> between k g' d"
    and between_audit: "between k g d \<Longrightarrow> record_audit t ev d = Inr (x, d') \<Longrightarrow> between k g d'"
    and removed:
      "between k g d \<Longrightarrow> schema_inv d \<Longrightarrow> delete_api_key (ak_id k) d = Inr (x, d') \<Longrightarrow> I g d'"
    and kept: "\<not> faultless \<Longrightarrow> between k g d \<Longrightarrow> I g d"
begin

text \<open>What an action keeps, and rules that go through a handler's text.\<close>

definition ok :: "'g world \<Rightarrow> bool" where
  "ok w \<longleftrightarrow> (faultless \<longrightarrow> (\<forall>n. wfault w n = None)) \<and> schema_inv (wdb w) \<and> I (wgw w) (wdb w)"

definition keeps :: "('g, 'a) act \<Rightarrow> bool" where
  "keeps m \<longleftrightarrow> (\<forall>w. ok w \<longrightarrow> ok (snd (run_state m w)))"

named_theorems keep \<comment> \<open>actions that keep the invariant\<close>

lemma keeps_bind [keep]:
  assumes "keeps m" and "\<And>a. keeps (f a)"
  shows "keeps (State_Monad.bind m f)"
  using assms by (simp add: keeps_def split: prod.split) (metis snd_conv)

lemma keeps_return [keep]: "keeps (State_Monad.return a)"
  by (simp add: keeps_def)

lemma keeps_prims [keep]:
  "keeps time_now" "keeps ctx_err" "keeps random" "keeps (emit e)" "keeps (remember m)"
  "keeps (query q)" "keeps (select s)"
  by (simp_all add: keeps_def ok_def run_remember run_query select_def split: prod.split)

lemma keeps_gateway:
  assumes "\<And>g d. I g d \<Longrightarrow> I (snd (f g)) d"
  shows "keeps (gateway f)"
  using assms by (fastforce simp: keeps_def ok_def run_gateway split: prod.split)

lemma keeps_store:
  assumes "\<And>d a d'. f d = Inr (a, d') \<Longrightarrow> quiet_step d d'"
  shows "keeps (store f)"
proof -
  have "schema_inv d' \<and> I g d'" if "schema_inv d" "I g d" "f d = Inr (a, d')" for g d a d'
    using that assms quiet quiet_db_step db_step_inv by blast
  then show ?thesis
    unfolding keeps_def ok_def run_store by (auto split: option.split sum.split)
qed

lemma keeps_store_now: "(\<And>t d a d'. f t d = Inr (a, d') \<Longrightarrow> quiet_step d d') \<Longrightarrow> keeps (store_now f)"
  unfolding store_now_def by (intro keep keeps_store)

lemma keeps_store_now2: "(\<And>t u d a d'. f t u d = Inr (a, d') \<Longrightarrow> quiet_step d d') \<Longrightarrow> keeps (store_now2 f)"
  unfolding store_now2_def by (intro keep keeps_store)

lemma keeps_split [keep]:
  "(b \<Longrightarrow> keeps m) \<Longrightarrow> (\<not> b \<Longrightarrow> keeps n) \<Longrightarrow> keeps (if b then m else n)"
  "keeps m1 \<Longrightarrow> (\<And>x. o1 = Some x \<Longrightarrow> keeps (f1 x)) \<Longrightarrow> keeps (case o1 of None \<Rightarrow> m1 | Some x \<Rightarrow> f1 x)"
  "(\<And>x. keeps (g x)) \<Longrightarrow> (\<And>x. keeps (h x)) \<Longrightarrow> keeps (case s of Inl x \<Rightarrow> g x | Inr x \<Rightarrow> h x)"
  "(\<And>x y. keeps (k x y)) \<Longrightarrow> keeps (case p of (x, y) \<Rightarrow> k x y)"
  "keeps m \<Longrightarrow> keeps n \<Longrightarrow> keeps (case b of True \<Rightarrow> m | False \<Rightarrow> n)"
  by (simp_all split: option.split sum.split prod.split bool.split)

section \<open>Handlers that issue and remove no key\<close>

lemma keeps_session [keep]:
  "keeps (session_create sm uid t)" "keeps (session_get sm tok)"
  "keeps (session_delete i)" "keeps (session_delete_by_sub sub)"
  unfolding session_create_def session_get_def session_delete_def session_delete_by_sub_def
  by (intro keep keeps_store_now keeps_store; erule quiet_step.intros)+

lemma keeps_csrf [keep]:
  "keeps (csrf_token c r)" "(\<And>r. keeps (next r)) \<Longrightarrow> keeps (csrf_protect c next r)"
  unfolding csrf_token_def csrf_protect_def Let_def by (intro keep; assumption?)+

lemma keeps_oidc [keep]:
  "keeps (login_handler c P r)" "keeps (get_or_create_user c info)"
proof -
  show "keeps (login_handler c P r)" unfolding login_handler_def Let_def by (intro keep)
  have 1: "keeps (store_get_or_create sub email name)" for sub email name
    unfolding store_get_or_create_def
    by (intro keep keeps_store) (erule quiet_step.identity quiet_step.insert_user; simp)+
  show "keeps (get_or_create_user c info)"
    unfolding get_or_create_user_def
    by (intro keep 1 keeps_store_now) (erule quiet_step.admin quiet_step.audit)+
qed

lemma keeps_caches [keep]:
  "keeps (flash_put uid key)" "keeps (flash_take uid tok)" "keeps (cached_models sel upd (po_lister po))"
  "keeps (cached_embeddings (po_embedder po))" "keeps (usage_quota po ref own)"
  "po_reporter po = Some rep \<Longrightarrow> keeps (fetch_history rep n own)"
  unfolding flash_put_def flash_take_def cached_models_def cached_embeddings_def fetch_history_def usage_quota_def
  by (intro keep keeps_gateway; erule reads; assumption)+

lemma keeps_views [keep]:
  "keeps (cached_history po own)" "keeps (extend_until c p)" "keeps (resolve_profile u)"
  "keeps (user_models po p)" "keeps (profile_notice u l b)" "keeps (quota_windows po ref own l)"
  unfolding cached_history_def extend_until_def resolve_profile_def user_models_def profile_notice_def
    quota_windows_def Let_def
  by (intro keep keeps_gateway; (assumption | erule reads, assumption)?)+

lemma keeps_usage [keep]: "keeps (user_usage po k own l)"
proof -
  have "keeps (report_history po own)" unfolding report_history_def Let_def by (intro keep)
  then show ?thesis unfolding user_usage_def by (intro keep)
qed

lemma keeps_shared [keep]:
  "keeps (require_session po r)" "keeps (user_audit a u d)" "keeps (mark_missing u k src)" "keeps (kick po)"
proof -
  show "keeps (require_session po r)" unfolding require_session_def Let_def by (intro keep)
  show "keeps (user_audit a u d)"
    unfolding user_audit_def by (intro keep keeps_store_now) (erule quiet_step.audit)
  show "keeps (mark_missing u k src)"
    unfolding mark_missing_def by (intro keep keeps_store_now2) (erule quiet_step.mark_missing)
  show "keeps (kick po)" unfolding kick_def by (intro keep)
qed

lemma keeps_dashboard [keep]: "keeps (dashboard po r)"
proof -
  have "keeps (dashboard_usage po u k l)" for u k l unfolding dashboard_usage_def by (intro keep)
  moreover have "keeps (expiry_overdue u)" for u unfolding expiry_overdue_def by (intro keep)
  ultimately show ?thesis unfolding dashboard_def dashboard_page_def Let_def by (intro keep; assumption?)
qed

lemma keeps_login [keep]:
  "keeps (login po r)" "keeps (callback po r)" "keeps (logout po r)"
  "keeps (backchannel_logout po r)" "keeps (session_status po r)"
  unfolding login_def callback_def logout_def backchannel_logout_def session_status_def by (intro keep)+

lemma keeps_lock [keep]: "keeps m \<Longrightarrow> keeps (with_key_lock r m)"
  unfolding with_key_lock_def by (intro keep)

lemma keeps_extend [keep]: "keeps (extend_key po r)"
proof -
  have "keeps (extend_locked po r u)" for u
    unfolding extend_locked_def Let_def
    by (intro keep keeps_gateway keeps_store) (erule expires quiet_step.extend_key)+
  then show ?thesis unfolding extend_key_def by (intro keep; assumption?)
qed

end

section \<open>Handlers that remove a key\<close>

context portal_invariant
begin

lemma okI:
  "ok w \<Longrightarrow> wdb w' = wdb w \<Longrightarrow> wfault w' = wfault w \<Longrightarrow> I (wgw w') (wdb w) \<Longrightarrow> ok w'"
  by (simp add: ok_def)

definition half_done :: "api_key \<Rightarrow> 'g world \<Rightarrow> bool" where
  "half_done k w \<longleftrightarrow> (faultless \<longrightarrow> (\<forall>n. wfault w n = None)) \<and> schema_inv (wdb w) \<and> between k (wgw w) (wdb w)"

lemma half_done_kept: "half_done k w \<Longrightarrow> \<not> faultless \<Longrightarrow> ok w"
  unfolding half_done_def ok_def using kept by blast

lemma half_done_audit:
  assumes "half_done k w"
  shows "half_done k (snd (run_state (user_audit a u s) w))"
proof -
  let ?e = "\<lparr>au_id = 0, au_created = 0, au_action = a, au_actor = us_email u, au_subject = us_email u,
     au_subject_id = Some (us_id u), au_detail = s\<rparr>"
  have "schema_inv d' \<and> between k (wgw w) d'" if "record_audit t ?e (wdb w) = Inr (x, d')" for t x d'
    using that assms between_audit db_step_inv [OF db_step.audit] unfolding half_done_def by blast
  then show ?thesis
    using assms unfolding user_audit_def half_done_def
    by (auto simp: run_store_now run_store split: option.split sum.split prod.split)
qed

lemma removal_ok:
  assumes "half_done k w" and "\<And>x. keeps (f x)"
  shows "ok (snd (run_state (State_Monad.bind (store (delete_api_key (ak_id k))) f) w))"
proof -
  obtain x w1 where run: "run_state (store (delete_api_key (ak_id k))) w = (x, w1)" by fastforce
  have "ok w1"
  proof (cases "wfault w (wstmt w)")
    case None
    let ?d = "delete_keys (\<lambda>j. ak_id j = ak_id k) (wdb w)"
    have del: "delete_api_key (ak_id k) (wdb w) = Inr ((), ?d)" by (simp add: delete_api_key_def)
    then have "w1 = w\<lparr>wstmt := Suc (wstmt w), wdb := ?d\<rparr>" using run None by (auto simp: run_store)
    moreover have "schema_inv ?d \<and> I (wgw w) ?d"
      using assms(1) removed [OF _ _ del] db_step_inv [OF db_step.delete_key [OF del]] by (simp add: half_done_def)
    ultimately show ?thesis using assms(1) by (simp add: half_done_def ok_def)
  next
    case (Some s)
    then have w1: "w1 = w\<lparr>wstmt := Suc (wstmt w)\<rparr>" using run by (auto simp: run_store)
    have "\<not> faultless" using assms(1) Some by (auto simp: half_done_def)
    then have "ok w" by (rule half_done_kept [OF assms(1)])
    then show ?thesis unfolding w1 ok_def by simp
  qed
  then show ?thesis using assms(2) run by (simp add: keeps_def)
qed

lemma revocation_ok:
  assumes "ok w" and "k \<in> set (api_keys (wdb w))"
    and "\<And>e. keeps (f (Some e))" and "\<And>w. half_done k w \<Longrightarrow> ok (snd (run_state (f None) w))"
  shows "ok (snd (run_state (State_Monad.bind (gateway (prov_delete (po_keys po) (ak_ref k))) f) w))"
proof -
  obtain r g where del: "prov_delete (po_keys po) (ak_ref k) (wgw w) = (r, g)" by fastforce
  show ?thesis
  proof (cases r)
    case None
    then have "half_done k (w\<lparr>wgw := g\<rparr>)"
      using assms(1,2) deleted [of "wgw w" "wdb w" k g] del by (simp add: ok_def half_done_def)
    then show ?thesis using assms(4) del None by (simp add: run_gateway)
  next
    case (Some e)
    then have "ok (w\<lparr>wgw := g\<rparr>)" using assms(1) not_deleted [of "wgw w" "wdb w" k e g] del by (simp add: ok_def)
    then show ?thesis using assms(3) del Some by (simp add: run_gateway keeps_def)
  qed
qed

lemma keeps_key_of:
  assumes "\<And>w k. ok w \<Longrightarrow> k \<in> set (api_keys (wdb w)) \<Longrightarrow> ok (snd (run_state (f (Inr (Some k))) w))"
    and "keeps (f (Inr None))" and "\<And>e. keeps (f (Inl e))"
  shows "keeps (State_Monad.bind (select (get_api_key_by_user i)) f)"
  unfolding keeps_def
proof (intro allI impI)
  fix w assume ok: "ok w"
  let ?w = "w\<lparr>wstmt := Suc (wstmt w)\<rparr>"
  have ok': "ok ?w" using ok by (simp add: ok_def)
  show "ok (snd (run_state (State_Monad.bind (select (get_api_key_by_user i)) f) w))"
  proof (cases "wfault w (wstmt w)")
    case Some
    then show ?thesis using ok' assms(3) by (simp add: select_def run_query keeps_def)
  next
    case none: None
    show ?thesis
    proof (cases "get_api_key_by_user i (wdb w)")
      case None
      then show ?thesis using ok' assms(2) none by (simp add: select_def run_query keeps_def)
    next
      case (Some k)
      then have "k \<in> set (api_keys (wdb ?w))" by (auto simp: get_api_key_by_user_def dest: find_SomeD)
      then show ?thesis using ok' assms(1) none Some by (simp add: select_def run_query)
    qed
  qed
qed

lemma audited_removal_ok:
  assumes "half_done k w" and "\<And>x. keeps (f x)"
  shows "ok (snd (run_state (State_Monad.bind (user_audit a u s)
    (\<lambda>_. State_Monad.bind (store (delete_api_key (ak_id k))) f)) w))"
proof -
  obtain x w1 where a: "run_state (user_audit a u s) w = (x, w1)" by (cases "run_state (user_audit a u s) w")
  then have "half_done k w1" using half_done_audit [OF assms(1), of a u s] by simp
  from removal_ok [OF this assms(2)] show ?thesis
    by (subst run_state_bind) (simp only: a prod.case)
qed

lemma keeps_delete [keep]: "keeps (delete_key po r)"
proof -
  have "keeps (delete_locked po r u)" for u
    unfolding delete_locked_def
  proof (rule keeps_key_of, goal_cases)
    case (1 w k)
    show ?case
      unfolding sum.case option.case
    proof (rule revocation_ok [OF 1], goal_cases)
      case (2 w)
      show ?case unfolding option.case by (rule audited_removal_ok [OF 2]) (intro keep)
    qed (simp only: option.case, intro keep)
  qed (simp_all add: keep)
  then show ?thesis unfolding delete_key_def by (intro keep; assumption?)
qed

lemma keeps_admin_shared [keep]:
  "keeps (actor po r)" "keeps (admin_audit po r a s i d)" "keeps m \<Longrightarrow> keeps (kicking po m)"
  "(\<And>r. keeps (next r)) \<Longrightarrow> keeps (admin_middleware po next r)"
proof -
  show 1: "keeps (actor po r)" for r unfolding actor_def by (intro keep)
  show "keeps (admin_audit po r a s i d)"
    unfolding admin_audit_def actor_email_def by (intro keep 1 keeps_store_now) (erule quiet_step.audit)
qed (unfold kicking_def admin_middleware_def Let_def, (intro keep; assumption?)+)

lemma keeps_revoke_user_key [keep]: "keeps (revoke_user_key po i r)"
  unfolding revoke_user_key_def
proof (rule keeps_split(2), rule keeps_return, rule keeps_bind, rule keeps_prims, rule keeps_split(3),
    rule keeps_return, rule keeps_key_of, goal_cases)
  case (1 uid _ u w k)
  show ?case
    unfolding sum.case option.case
  proof (rule revocation_ok [OF 1(2,3)], goal_cases)
    case (2 w)
    show ?case unfolding option.case by (rule removal_ok [OF 2]) (intro keep)
  qed (simp only: option.case, intro keep)
qed (simp_all only: sum.case option.case, (intro keep)+)

lemma keeps_expiry_audit [keep]: "keeps (dest_name i)" "keeps (expiry_audit u s)"
  unfolding dest_name_def expiry_audit_def by (intro keep keeps_store_now; erule quiet_step.audit)+

lemma keeps_switch_profile [keep]: "keeps (switch_profile u)" "keeps (revoke_end u)"
  unfolding switch_profile_def revoke_end_def by (intro keep keeps_store_now; erule quiet_step.expiry)+

lemma keeps_revoke_key [keep]: "keeps (revoke_key (po_keys po) u)"
  unfolding revoke_key_def
proof (rule keeps_key_of, goal_cases)
  case (1 w k)
  show ?case
    unfolding sum.case option.case
  proof (rule revocation_ok [OF 1], goal_cases)
    case (2 w)
    show ?case unfolding option.case by (rule removal_ok [OF 2]) (intro keep)
  qed (simp only: option.case, intro keep)
qed (simp_all only: sum.case option.case, (intro keep)+)

lemma keeps_expire_users [keep]: "keeps (expire_users (po_keys po) b us)"
  by (induction us arbitrary: b) (auto intro: keep)

lemma keeps_expiry_run [keep]: "keeps (expiry_run (po_keys po) b)"
  unfolding expiry_run_def by (intro keep)

lemma keeps_remind_one [keep]: "keeps (remind_one rm n days e)"
  unfolding remind_one_def Let_def by (intro keep keeps_store_now) (erule quiet_step.notice)

lemma keeps_remind_all [keep]: "keeps (remind_all rm n days es)"
  by (induction es) (auto intro: keep)

lemma keeps_reminder_run [keep]: "keeps (reminder_run rm n)"
proof -
  have "keeps (remind_thresholds rm n ts)" for ts by (induction ts) (auto intro!: keep)
  then show ?thesis unfolding reminder_run_def .
qed

section \<open>Issuing a key\<close>

lemma record_new_key_ok:
  assumes "ok w" and row: "row \<in> set (profiles (wdb w))"
    and "kr_limits req = profile_limits (Some (load_quotas (wdb w) row))"
    and create: "prov_create (po_keys po) now req (wgw w) = (Inr res, g')"
    and same: "wdb w1 = wdb w" "wgw w1 = g'" "wfault w1 = wfault w"
  shows "ok (snd (run_state (record_new_key po r u (get_api_key_by_user (us_id u) (wdb w))
     (load_quotas (wdb w) row) res expires) w1))"
proof -
  let ?row = "new_key_row u (load_quotas (wdb w) row) res expires"
  let ?old = "get_api_key_by_user (us_id u) (wdb w)"
  let ?w1 = "w1\<lparr>wtick := Suc (wtick w1), wstmt := Suc (wstmt w1)\<rparr>"
  have calm: "faultless \<longrightarrow> (\<forall>n. wfault w1 n = None)" and sch: "schema_inv (wdb w)" and inv: "I (wgw w) (wdb w)"
    using assms(1) same(3) by (simp_all add: ok_def)
  have undone: "ok (snd (run_state (State_Monad.bind (gateway (prov_delete (po_keys po) (res_ref res))) f) w2))"
    if "\<And>x. keeps (f x)" "wdb w2 = wdb w" "wgw w2 = g'" "wfault w2 = wfault w1"
    for f :: "gw_error option \<Rightarrow> ('g, 'b) act" and w2
  proof -
    obtain x g2 where d: "prov_delete (po_keys po) (res_ref res) g' = (x, g2)" by fastforce
    then have "I g2 (wdb w)" using rolled_back [OF inv create] by simp
    then have "ok (w2\<lparr>wgw := g2\<rparr>)" using calm sch that(2,4) by (simp add: ok_def)
    then show ?thesis using that(1,3) d by (simp add: run_gateway keeps_def)
  qed
  let ?store = "store_now (\<lambda>t. replace_api_key t ?row)"
  have tail: "keeps (do { emit (KeyOperation ''generate'' ''success'');
      user_audit audit_key_generated u s; t \<leftarrow> flash_put (us_id u) x;
      State_Monad.return (case t of Inl _ \<Rightarrow> to_dashboard | Inr token \<Rightarrow> plain (Redirect (''/?k='' @ token))) })" for s x
    by (intro keep)
  show ?thesis
  proof (cases "wfault w1 (wstmt w1)")
    case (Some e)
    then have "run_state ?store w1 = (Inl (IOError e), ?w1)" by (simp add: run_store_now run_store)
    then show ?thesis
      unfolding record_new_key_def
      by (subst run_state_bind) (simp only: prod.case sum.case, rule undone; (intro keep)?; simp add: same)
  next
    case none: None
    show ?thesis
    proof (cases "replace_api_key (wclock w1 (wtick w1)) ?row (wdb w)")
      case (Inl e)
      then have "run_state ?store w1 = (Inl e, ?w1)" using none by (simp add: run_store_now run_store same)
      then show ?thesis
        unfolding record_new_key_def
        by (subst run_state_bind) (simp only: prod.case sum.case, rule undone; (intro keep)?; simp add: same)
    next
      case (Inr kd)
      obtain k d' where kd: "kd = (k, d')" by (cases kd)
      note rep = Inr [unfolded kd]
      have run: "run_state ?store w1 = (Inr k, ?w1\<lparr>wdb := d'\<rparr>)"
        using none rep by (simp add: run_store_now run_store same)
      have sch': "schema_inv d'" using db_step_inv [OF db_step.replace_key [OF rep] sch] .
      note iss = issued [OF inv sch row assms(3) create rep]
      have "\<exists>x w2. run_state (case ?old of None \<Rightarrow> State_Monad.return None
          | Some old \<Rightarrow> gateway (prov_delete (po_keys po) (ak_ref old))) (?w1\<lparr>wdb := d'\<rparr>) = (x, w2) \<and> ok w2"
        using iss calm sch' by (simp add: ok_def run_gateway same split_beta split: option.splits)
      then obtain x w2 where old: "run_state (case ?old of None \<Rightarrow> State_Monad.return None
          | Some old \<Rightarrow> gateway (prov_delete (po_keys po) (ak_ref old))) (?w1\<lparr>wdb := d'\<rparr>) = (x, w2)" and "ok w2"
        by blast
      then have "ok (snd (run_state (do { emit (KeyOperation ''generate'' ''success'');
          user_audit audit_key_generated u s; t \<leftarrow> flash_put (us_id u) y;
          State_Monad.return (case t of Inl _ \<Rightarrow> to_dashboard | Inr token \<Rightarrow> plain (Redirect (''/?k='' @ token))) })
          w2))" for s y
        using tail unfolding keeps_def by blast
      then show ?thesis
        unfolding record_new_key_def
        by (subst run_state_bind) (simp only: run prod.case sum.case, subst run_state_bind, simp only: old prod.case)
    qed
  qed
qed

lemma create_new_key_ok:
  assumes "ok w" and "row \<in> set (profiles (wdb w))"
  shows "ok (snd (run_state (create_new_key po r u (get_api_key_by_user (us_id u) (wdb w))
     (load_quotas (wdb w) row)) w))"
proof -
  let ?p = "load_quotas (wdb w) row"
  let ?w1 = "w\<lparr>wdraw := Suc (wdraw w)\<rparr>"
  let ?w3 = "?w1\<lparr>wtick := Suc (Suc (wtick w))\<rparr>"
  let ?t = "wclock w (Suc (wtick w))" and ?e = "add_days (wclock w (wtick w)) (key_duration (po_cfg po) (Some ?p))"
  show ?thesis
  proof (cases "new_alias (wrand w (wdraw w)) (us_sub u) (us_name u)")
    case (Inl x)
    have "ok (w\<lparr>wdraw := Suc (wdraw w), wlog := l\<rparr>)" for l using assms(1) by (simp add: ok_def)
    then show ?thesis by (simp add: create_new_key_def Inl)
  next
    case (Inr al)
    let ?req = "\<lparr>kr_alias = al, kr_user = litellm_user (po_cfg po) (us_sub u) (us_name u) (us_email u),
       kr_expires_at = ?e, kr_limits = profile_limits (Some ?p)\<rparr>"
    obtain c g' where create: "prov_create (po_keys po) ?t ?req (wgw w) = (c, g')"
      by (cases "prov_create (po_keys po) ?t ?req (wgw w)")
    show ?thesis
    proof (cases c)
      case (Inl e)
      have "I g' (wdb w)"
        by (rule refused [of "wgw w" _ ?t ?req e]) (use assms(1) create Inl in \<open>simp_all add: ok_def\<close>)
      then have "ok (?w3\<lparr>wgw := g', wlog := l\<rparr>)" for l using assms(1) by (simp add: ok_def)
      then show ?thesis using create by (simp add: create_new_key_def Let_def Inr Inl run_gateway)
    next
      case res: (Inr res)
      have "ok (snd (run_state (record_new_key po r u (get_api_key_by_user (us_id u) (wdb w)) ?p res ?e)
          (?w3\<lparr>wgw := g'\<rparr>)))"
        by (rule record_new_key_ok [where req = ?req, OF assms]) (use create res in simp_all)
      then show ?thesis
        using create by (simp add: create_new_key_def Let_def Inr res run_gateway del: run_state_bind add: run_state_bind)
    qed
  qed
qed

lemma profile_rows:
  "get_profile i d = Inr p \<Longrightarrow> \<exists>row \<in> set (profiles d). p = load_quotas d row"
  "get_default_profile d = Inr p \<Longrightarrow> \<exists>row \<in> set (profiles d). p = load_quotas d row"
  by (auto simp: get_profile_def get_default_profile_def dest!: find_SomeD split: option.splits)

lemma generate_locked_ok:
  assumes ok: "ok w"
  shows "ok (snd (run_state (generate_locked po r u) w))" (is "ok (snd (run_state ?m w))")
proof -
  let ?d = "wdb w"
  let ?w1 = "w\<lparr>wstmt := Suc (wstmt w)\<rparr>" and ?w2 = "w\<lparr>wstmt := Suc (Suc (wstmt w))\<rparr>"
  have ok2: "ok ?w1" "ok ?w2" using ok by (simp_all add: ok_def)
  obtain pr where pr: "run_state (resolve_profile u) ?w1 = (pr, ?w2)"
      "\<And>p. pr = Inr p \<Longrightarrow> \<exists>row \<in> set (profiles ?d). p = load_quotas ?d row"
  proof (cases "us_profile u")
    case None
    show thesis
      by (rule that [of "fst (run_state (resolve_profile u) ?w1)"])
        (auto simp: resolve_profile_def run_query None intro: profile_rows split: option.splits)
  next
    case (Some i)
    show thesis
      by (rule that [of "fst (run_state (resolve_profile u) ?w1)"])
        (auto simp: resolve_profile_def run_query Some intro: profile_rows split: option.splits)
  qed
  show ?thesis
  proof (cases "wfault w (wstmt w)")
    case (Some e)
    then show ?thesis using ok2 by (simp add: generate_locked_def select_def run_query)
  next
    case None
    have run: "run_state ?m w = (case pr of
        Inl _ \<Rightarrow> (http_error r 500 ''Failed to load profile'', ?w2)
      | Inr p \<Rightarrow> run_state (create_new_key po r u (get_api_key_by_user (us_id u) ?d) p) ?w2)"
      using None pr(1) by (simp add: generate_locked_def select_def run_query split: sum.split)
    show ?thesis
    proof (cases pr)
      case (Inl e)
      then show ?thesis using run ok2 by simp
    next
      case (Inr p)
      then obtain row where "row \<in> set (profiles ?d)" "p = load_quotas ?d row" using pr(2) by blast
      then show ?thesis using run Inr create_new_key_ok [OF ok2(2), of row r u] by simp
    qed
  qed
qed

lemma keeps_generate [keep]: "keeps (generate_key po r)"
proof -
  have "keeps (generate_locked po r u)" for u by (simp add: keeps_def generate_locked_ok)
  then show ?thesis unfolding generate_key_def by (intro keep; assumption?)
qed

section \<open>The panel, the pages and the server\<close>

lemma keeps_audit_demoted [keep]: "keeps (audit_demoted po r ns)"
  by (induction ns) (auto intro: keep)

lemma keeps_profile_handlers [keep]:
  "keeps (create_profile_handler po r)" "keeps (update_profile_handler po i r)" "keeps (delete_profile_handler po i r)"
  unfolding create_profile_handler_def update_profile_handler_def delete_profile_handler_def Let_def
  by (intro keep keeps_store_now keeps_store;
      erule quiet_step.create_profile quiet_step.update_profile quiet_step.delete_profile)+

lemma keeps_set_user_profile [keep]: "keeps (set_user_profile_handler po i r)"
proof -
  have 1: "keeps (assignment_detail p t)" for p t unfolding assignment_detail_def by (intro keep)
  show ?thesis
    unfolding set_user_profile_handler_def Let_def
    by (intro keep 1 keeps_store_now) (erule quiet_step.assign_until)
qed

lemma keeps_admin_rights [keep]: "keeps (grant_admin po r)" "keeps (revoke_admin po r)"
proof -
  have 1: "keeps (account_from_form r)" unfolding account_from_form_def by (intro keep)
  show "keeps (grant_admin po r)"
    unfolding grant_admin_def by (intro keep 1 keeps_store_now) (erule quiet_step.admin)
  have "keeps (revoke_account po r u)" for u
    unfolding revoke_account_def by (intro keep keeps_store_now) (erule quiet_step.admin)
  then show "keeps (revoke_admin po r)" unfolding revoke_admin_def by (intro keep 1; assumption?)
qed

lemma keeps_panel [keep]: "keeps (panel po sy r)"
proof -
  have 1: "keeps (limit_sync_status po sy l)" for l unfolding limit_sync_status_def by (intro keep)
  have 2: "keeps (user_rows ks us)" for ks us by (induction us) (auto intro: keep)
  show ?thesis unfolding panel_def panel_page_def Let_def by (intro keep 1 2)
qed

lemma keeps_pages [keep]:
  "keeps (account po r)" "keeps (save_account po r)" "keeps (privacy po r)" "keeps m \<Longrightarrow> keeps (as_page f m)"
  unfolding account_def save_account_def privacy_def as_page_def Let_def by (intro keep)+

lemma keeps_handler [keep]: "keeps (handler po sy ping e r)"
  by (cases e) (auto intro: keep)

lemma keeps_guarded [keep]: "keeps (guarded po sy ping e r)"
proof (cases "is_admin_endpoint e")
  case True
  have "keeps (admin_middleware po (handler po sy ping e) r)" for r by (intro keep)
  then show ?thesis unfolding guarded_def if_P [OF True] by (intro keep)
next
  case False
  show ?thesis unfolding guarded_def if_not_P [OF False] by (intro keep)
qed

lemma keeps_serve [keep]: "keeps (serve po sy ping r)"
  unfolding serve_def max_body_def by (intro keep)

lemma keeps_portal_day [keep]: "keeps (portal_day po rm n es)"
proof (induction es)
  case (Cons e es)
  have "keeps (portal_event po rm n e)"
    unfolding portal_event_def by (cases e) (simp_all only: event.case, (intro keep)+)
  then show ?case using Cons by (auto intro: keep)
qed (simp add: keep)

end

end
