(* ===== verification/KeyBooks.thy ===== *)
theory KeyBooks
  imports PortalInvariant
begin

text \<open>
  The portal never loses track of a key: every key that is live in the gateway is recorded in the table of
  keys, so that somebody can revoke it.  Stated for the provider of \<open>fake.go\<close>, whose deletions work unless
  it is told to fail, and whatever the store does.
\<close>

section \<open>Live keys and the books\<close>

definition live :: "fake \<Rightarrow> string set" where
  "live f = dom (map_of (fk_keys f))"

definition booked :: "fake \<Rightarrow> database \<Rightarrow> bool" where
  "booked g d \<longleftrightarrow> fk_delete_err g = None \<and> live g \<subseteq> ak_ref ` set (api_keys d)"

definition half_booked :: "api_key \<Rightarrow> fake \<Rightarrow> database \<Rightarrow> bool" where
  "half_booked k g d \<longleftrightarrow> booked g d \<and> ak_ref k \<notin> live g \<and> k \<in> set (api_keys d)"

lemma same_keys_refs: "same_keys d d' \<Longrightarrow> ak_ref ` set (api_keys d') = ak_ref ` set (api_keys d)"
  by (auto simp: same_keys_def same_key_def image_image)

lemma live_delete:
  assumes "fk_delete_err g = None"
  shows "live (snd (fake_delete ref g)) = live g - {ref} \<and> fk_delete_err (snd (fake_delete ref g)) = None"
  using assms by (auto simp: fake_delete_def live_def split: option.split)

lemma live_create:
  assumes "fake_create now req g = (Inr res, g')"
  shows "live g' = insert (res_ref res) (live g) \<and> fk_delete_err g' = fk_delete_err g"
  using assms by (auto simp: fake_create_def live_def Let_def split: option.splits if_splits)

lemma live_expiry:
  "live (snd (fake_expiry now ref t g)) = live g \<and> fk_delete_err (snd (fake_expiry now ref t g)) = fk_delete_err g"
  by (auto simp: fake_expiry_def live_def split: option.split)

lemma fake_reads_same:
  "snd (fake_history now own n g) = g" "snd (fake_quota ref own g) = g" "snd (fake_windows ref own g) = g"
  "snd (fake_list_models g) = g" "snd (fake_embedding_models g) = g"
  unfolding fake_history_def fake_quota_def fake_windows_def fake_list_models_def fake_embedding_models_def
  by (cases "fk_usage_err g"; cases "fk_quota_err g"; cases "fk_windows_err g"; simp split: option.split)+

lemma booked_delete: "booked g d \<Longrightarrow> booked (snd (fake_delete ref g)) d"
  using live_delete [of g ref] by (auto simp: booked_def)

text \<open>The rows after a replacement: the others' and the new one.\<close>

lemma replace_api_key_rows:
  assumes "replace_api_key t k d = Inr (k', d')"
  shows "api_keys d' = delete_where (\<lambda>x. ak_user x = ak_user k) (api_keys d)
      @ [k\<lparr>ak_created := t, ak_id := next_key d\<rparr>]"
  using assms by (auto simp: replace_api_key_def insert_key_def delete_keys_def Let_def split: if_splits)

lemma delete_api_key_rows:
  "delete_api_key i d = Inr (u, d') \<Longrightarrow> api_keys d' = delete_where (\<lambda>k. ak_id k = i) (api_keys d)"
  by (auto simp: delete_api_key_def delete_keys_def Let_def)

lemma one_key_per_user:
  assumes "schema_inv d" and "k \<in> set (api_keys d)" and "get_api_key_by_user (ak_user k) d = r"
  shows "r = Some k"
proof -
  have "uniq_on ak_user (api_keys d)" using schema_invD(3) [OF assms(1)] by (simp add: keys_ok_def)
  from find_uniq [OF this assms(2)] show ?thesis using assms(3) by (simp add: get_api_key_by_user_def)
qed

lemma one_key_per_id:
  assumes "schema_inv d" and "k \<in> set (api_keys d)" and "j \<in> set (api_keys d)" and "ak_id j = ak_id k"
  shows "j = k"
proof -
  have "uniq_on ak_id (api_keys d)" using schema_invD(3) [OF assms(1)] by (simp add: keys_ok_def ids_below_def)
  from find_uniq [OF this assms(2)] find_uniq [OF this assms(3)] show ?thesis using assms(4) by simp
qed

lemma fake_portal_simps:
  "po_keys (fake_portal c cs sm i b letter) = fake_provider"
  "po_reporter (fake_portal c cs sm i b letter) = Some fake_reporter"
  "po_lister (fake_portal c cs sm i b letter) = Some fake_list_models"
  "po_embedder (fake_portal c cs sm i b letter) = Some fake_embedding_models"
  "prov_create fake_provider = fake_create" "prov_delete fake_provider = fake_delete"
  "prov_expiry fake_provider = fake_expiry"
  by (simp_all add: fake_portal_def new_portal_def fake_provider_def)

text \<open>What a read of the gateway leaves, for any predicate of its state.\<close>

lemma fake_portal_reads:
  assumes "Q g"
  shows "po_reporter (fake_portal c cs sm i b letter) = Some rep \<Longrightarrow> Q (snd (rep_history rep now own n g))"
    "po_reporter (fake_portal c cs sm i b letter) = Some rep \<Longrightarrow> Q (snd (rep_quota rep ref own g))"
    "po_reporter (fake_portal c cs sm i b letter) = Some rep \<Longrightarrow> Q (snd (rep_windows rep ref own g))"
    "po_lister (fake_portal c cs sm i b letter) = Some ls \<Longrightarrow> Q (snd (ls g))"
    "po_embedder (fake_portal c cs sm i b letter) = Some em \<Longrightarrow> Q (snd (em g))"
  using assms by (auto simp: fake_portal_simps fake_reporter_def fake_reads_same)

lemma booked_by:
  assumes "fk_delete_err g' = None" and "booked g d" and "\<And>r. r \<in> live g' \<Longrightarrow> r \<in> live g \<or> r = new"
    and "new \<in> live g' \<Longrightarrow> new \<in> ak_ref ` set (api_keys d')"
    and "\<And>j. j \<in> set (api_keys d) \<Longrightarrow> ak_ref j \<in> live g' \<Longrightarrow> ak_ref j \<in> ak_ref ` set (api_keys d')"
  shows "booked g' d'"
  unfolding booked_def
proof (intro conjI subsetI)
  fix r assume r: "r \<in> live g'"
  show "r \<in> ak_ref ` set (api_keys d')"
  proof (cases "r = new")
    case False
    then have "r \<in> ak_ref ` set (api_keys d)" using assms(2,3) r by (auto simp: booked_def)
    then show ?thesis using assms(5) r by auto
  qed (use assms(4) r in simp)
qed (rule assms(1))

lemma booked_issued:
  assumes inv: "booked g d" "schema_inv d" and create: "fake_create now req g = (Inr res, g')"
    and rep: "replace_api_key t (new_key_row u p res expiry) d = Inr (k, d')"
  shows "case get_api_key_by_user (us_id u) d of
      None \<Rightarrow> booked g' d' | Some old \<Rightarrow> booked (snd (fake_delete (ak_ref old) g')) d'"
proof -
  note rows = replace_api_key_rows [OF rep]
  have kept: "ak_ref j \<in> ak_ref ` set (api_keys d')" if "j \<in> set (api_keys d)" "ak_user j \<noteq> us_id u" for j
  proof -
    have "j \<in> set (api_keys d')" using that unfolding rows by (simp add: new_key_row_def set_delete_where)
    then show ?thesis by (rule imageI)
  qed
  have new: "res_ref res \<in> ak_ref ` set (api_keys d')"
    unfolding rows by (auto simp: new_key_row_def)
  show ?thesis
  proof (cases "get_api_key_by_user (us_id u) d")
    case None
    then have "\<forall>j \<in> set (api_keys d). ak_user j \<noteq> us_id u" by (auto simp: get_api_key_by_user_def dest: find_NoneD)
    then have "booked g' d'"
      by (intro booked_by [OF _ inv(1), of _ "res_ref res"])
        (use live_create [OF create] inv(1) kept new in \<open>auto simp: booked_def\<close>)
    then show ?thesis using None by simp
  next
    case (Some old)
    have "j = old" if "j \<in> set (api_keys d)" "ak_user j = us_id u" for j
      using one_key_per_user [OF inv(2) that(1)] that(2) Some by simp
    moreover have del: "fk_delete_err g' = None" using live_create [OF create] inv(1) by (simp add: booked_def)
    ultimately have "booked (snd (fake_delete (ak_ref old) g')) d'"
      by (intro booked_by [OF _ inv(1), of _ "res_ref res"])
        (use live_create [OF create] live_delete [OF del, of "ak_ref old"] kept new in auto)
    then show ?thesis using Some by simp
  qed
qed

lemma booked_removed:
  assumes "half_booked k g d" and "schema_inv d" and "delete_api_key (ak_id k) d = Inr (x, d')"
  shows "booked g d'"
proof -
  have "ak_ref j \<in> ak_ref ` set (api_keys d')" if "j \<in> set (api_keys d)" "ak_ref j \<noteq> ak_ref k" for j
  proof -
    have "ak_id j \<noteq> ak_id k" using one_key_per_id [OF assms(2), of k j] assms(1) that by (auto simp: half_booked_def)
    then have "j \<in> set (api_keys d')" using that(1) unfolding delete_api_key_rows [OF assms(3)] by (simp add: set_delete_where)
    then show ?thesis by (rule imageI)
  qed
  note kept = this
  have b: "booked g d" and dead: "ak_ref k \<notin> live g" using assms(1) by (simp_all add: half_booked_def)
  show ?thesis
  proof (rule booked_by [OF _ b, of g "ak_ref k"])
    show "ak_ref j \<in> ak_ref ` set (api_keys d')" if "j \<in> set (api_keys d)" "ak_ref j \<in> live g" for j
      using kept [OF that(1)] that(2) dead by metis
  qed (use b dead in \<open>simp_all add: booked_def\<close>)
qed

interpretation books: portal_invariant "fake_portal c cs sm i b letter" False booked half_booked
  for c cs sm i b letter
proof (unfold_locales, goal_cases)
  case (1 g d d')
  then show ?case using same_keys_refs [OF quiet_keys [OF 1(3)]] by (simp add: booked_def)
next
  case (7 g d now ref t)
  then show ?case using live_expiry [of now ref t g] by (simp add: fake_portal_simps booked_def)
next
  case (8 g d now req e g')
  then show ?case using fake_unchanged(1) by (fastforce simp: fake_portal_simps)
next
  case (9 g d now req res g')
  then have c: "fake_create now req g = (Inr res, g')" by (simp add: fake_portal_simps)
  have "booked (snd (fake_delete (res_ref res) g')) d"
    using live_create [OF c] live_delete [of g' "res_ref res"] 9(1) by (auto simp: booked_def)
  then show ?case by (simp add: fake_portal_simps)
next
  case (10 g d row req now res g' t u expiry k d')
  then show ?case unfolding fake_portal_simps by (intro booked_issued)
next
  case (11 g d k e g')
  then show ?case using booked_delete [of g d "ak_ref k"] by (simp add: fake_portal_simps)
next
  case (12 g d k g')
  then show ?case using booked_delete [of g d "ak_ref k"] live_delete [of g "ak_ref k"]
    by (simp add: fake_portal_simps half_booked_def booked_def)
next
  case (13 k g d t ev x d')
  then show ?case using assignment_keys(3) [OF 13(2)] by (simp add: half_booked_def booked_def)
next
  case (14 k g d x d')
  then show ?case by (rule booked_removed)
next
  case (15 k g d)
  then show ?case by (simp add: half_booked_def)
qed (rule fake_portal_reads [where Q = "\<lambda>g. booked g d" for d]; assumption)+

section \<open>The property\<close>


definition demo_day :: "event list" where
  "demo_day = [Request (demo_http ''POST'' ''/key/generate'' [(''__Host-session_token'', ''t''), (''__Host-csrf_token'', ''v'')]
       [(''csrf_token'', ''sv'')]) None True, ExpiryJob]"

lemma logged_in_schema: "schema_inv (wdb (logged_in_world now))"
proof -
  have "sessions_ok [demo_session] 2 {1}"
    by (simp add: sessions_ok_def demo_session_def ids_below_def)
  then show ?thesis
    using demo_schema [of None] unfolding schema_inv_def logged_in_world_def
    by (simp add: demo_world_def demo_db_def demo_user_def empty_db_def)
qed


end
