(* ===== verification/SyncUpheld.thy ===== *)
theory SyncUpheld
  imports KeyBooks
begin

text \<open>
  Every request and every job keeps what the limit sync relies on (\<open>sync_inv\<close>): a key recorded as in step
  with a profile carries that profile's limits in the gateway.  With the store answering, this holds on any
  gateway that honours \<open>portal_gateway\<close>, and so it does on the provider of \<open>fake.go\<close>; after a run of the
  sync, every key then carries its owner's limits.
\<close>

section \<open>How writes move the profiles\<close>

text \<open>
  A profile that was there before keeps its limits unless its revision was raised; the others have fresh ids.
\<close>

definition profiles_move :: "database \<Rightarrow> database \<Rightarrow> bool" where
  "profiles_move d d' \<longleftrightarrow> next_profile d \<le> next_profile d'
     \<and> (\<forall>i q'. get_profile i d' = Inr q' \<longrightarrow> next_profile d \<le> i
          \<or> (\<exists>q. get_profile i d = Inr q \<and> pf_rev q \<le> pf_rev q' \<and> (pf_rev q = pf_rev q' \<longrightarrow> same_limits q q')))"

lemma same_limits_refl [simp]: "same_limits p p"
  by (simp add: same_limits_def)

lemma profiles_moveI:
  assumes "next_profile d \<le> next_profile d'"
    and "\<And>i q'. get_profile i d' = Inr q' \<Longrightarrow> i < next_profile d \<Longrightarrow>
      \<exists>q. get_profile i d = Inr q \<and> pf_rev q \<le> pf_rev q' \<and> (pf_rev q = pf_rev q' \<longrightarrow> same_limits q q')"
  shows "profiles_move d d'"
  using assms unfolding profiles_move_def by (meson not_le)

lemma profiles_move_eq:
  assumes "profiles d' = profiles d" and "quotas d' = quotas d" and "next_profile d' = next_profile d"
  shows "profiles_move d d'"
proof -
  have "load_quotas d' = load_quotas d" by (rule ext) (simp add: load_quotas_def assms(2))
  then have "get_profile i d' = get_profile i d" for i
    using assms(1) by (simp add: get_profile_def split: option.split)
  then show ?thesis using assms(3) by (intro profiles_moveI) auto
qed

lemma set_profile_quotas_next: "set_profile_quotas i qs d = Inr (u, d') \<Longrightarrow> next_profile d' = next_profile d"
  by (auto simp: set_profile_quotas_def insert_quotas_def Let_def split: if_splits sum.splits)

lemma find_append: "find P (xs @ ys) = (case find P xs of None \<Rightarrow> find P ys | Some x \<Rightarrow> Some x)"
  by (induction xs) auto

lemma create_profile_moves:
  assumes "create_profile now p qs d = Inr ((demoted, p'), d')" and "schema_inv d"
  shows "profiles_move d d'"
proof -
  obtain d1 where d1: "create_profile_tx now p d = Inr (p', d1)" "set_profile_quotas (pf_id p') qs d1 = Inr ((), d')"
    using assms(1) by (rule create_profile_cases)
  define ps where "ps = (if pf_default p then clear_default 0 (profiles d) else profiles d)"
  let ?d = "if pf_default p then d\<lparr>profiles := clear_default 0 (profiles d)\<rparr> else d"
  obtain q where ins: "insert_profile q ?d = Inr (p', d1)"
    using d1(1) by (auto simp: create_profile_tx_def Let_def)
  have id: "pf_id p' = next_profile d" and rows: "profiles d1 = ps @ [p']" "quotas d1 = quotas d"
      "next_profile d1 = next_profile d + 1"
    using insert_profile_cases(1,2) [OF ins] by (simp_all add: ps_def)
  have inv1: "schema_inv d1" using d1(1) assms(2) by (rule create_profile_tx_inv)
  have find: "find (\<lambda>q. pf_id q = i) ps = map_option (\<lambda>q. if pf_default p \<and> pf_default q
      then q\<lparr>pf_default := False\<rparr> else q) (find (\<lambda>q. pf_id q = i) (profiles d))" for i
    unfolding ps_def clear_default_def
    by (cases "pf_default p") (simp_all add: find_update_where option.map_ident)
  show ?thesis
  proof (rule profiles_moveI)
    show "next_profile d \<le> next_profile d'" using set_profile_quotas_next [OF d1(2)] rows(3) by simp
    fix i q' assume q': "get_profile i d' = Inr q'" and i: "i < next_profile d"
    then have "get_profile i d1 = Inr q'" using set_profile_quotas_get(1) [OF d1(2) inv1] id by simp
    then show "\<exists>q. get_profile i d = Inr q \<and> pf_rev q \<le> pf_rev q' \<and> (pf_rev q = pf_rev q' \<longrightarrow> same_limits q q')"
      using i id find [of i]
      by (auto simp: get_profile_def rows find_append load_quotas_def same_limits_def split: option.splits if_splits)
  qed
qed

lemma update_profile_next: "update_profile now p qs d = Inr ((prev, demoted, p1), d') \<Longrightarrow> next_profile d' = next_profile d"
  by (erule update_profile_cases) (auto dest!: set_profile_quotas_next update_profile_tx_cases(5))

lemma update_profile_moves:
  assumes "update_profile now p qs d = Inr ((prev, demoted, p1), d')" and "schema_inv d"
  shows "profiles_move d d'"
proof (rule profiles_moveI)
  show "next_profile d \<le> next_profile d'" using update_profile_next [OF assms(1)] by simp
  fix i q' assume q': "get_profile i d' = Inr q'"
  show "\<exists>q. get_profile i d = Inr q \<and> pf_rev q \<le> pf_rev q' \<and> (pf_rev q = pf_rev q' \<longrightarrow> same_limits q q')"
  proof (cases "i = pf_id p")
    case True
    then show ?thesis using update_profile_get [OF assms] q' by auto
  next
    case False
    then show ?thesis
      using update_profile_others [OF assms False] q'
      by (cases "get_profile i d") (auto simp: same_limits_def)
  qed
qed

lemma delete_profile_moves:
  assumes "delete_profile i d = Inr (u, d')"
  shows "profiles_move d d'"
proof (rule profiles_moveI)
  note c = delete_profile_cases(3) [OF assms]
  show "next_profile d \<le> next_profile d'" by (simp add: c)
  fix j q' assume q': "get_profile j d' = Inr q'"
  then have "j \<noteq> i" by (auto simp: get_profile_def c set_delete_where dest!: find_SomeD split: option.splits)
  then have "get_profile j d = Inr q'"
    using q' by (auto simp: get_profile_def c load_quotas_def find_delete_where filter_delete_where_other
        dest!: find_SomeD split: option.splits)
  then show "\<exists>q. get_profile j d = Inr q \<and> pf_rev q \<le> pf_rev q' \<and> (pf_rev q = pf_rev q' \<longrightarrow> same_limits q q')"
    by simp
qed

lemma other_quotas:
  "insert_user x d = Inr (r, d') \<Longrightarrow> quotas d' = quotas d \<and> next_profile d' = next_profile d"
  "update_identity i email name now d = Inr (u, d') \<Longrightarrow> quotas d' = quotas d \<and> next_profile d' = next_profile d"
  "set_user_admin now i a d = Inr (u, d') \<Longrightarrow> quotas d' = quotas d \<and> next_profile d' = next_profile d"
  "record_audit now e d = Inr (u, d') \<Longrightarrow> quotas d' = quotas d \<and> next_profile d' = next_profile d"
  "update_api_key_expiry i t d = Inr (u, d') \<Longrightarrow> quotas d' = quotas d \<and> next_profile d' = next_profile d"
  "create_session now i tok idt t d = Inr (u, d') \<Longrightarrow> quotas d' = quotas d \<and> next_profile d' = next_profile d"
  "delete_session i d = Inr (u, d') \<Longrightarrow> quotas d' = quotas d \<and> next_profile d' = next_profile d"
  "delete_sessions_by_sub sub d = Inr (u, d') \<Longrightarrow> quotas d' = quotas d \<and> next_profile d' = next_profile d"
  "mark_expiry_notice_sent now i days d = Inr (u, d') \<Longrightarrow> quotas d' = quotas d \<and> next_profile d' = next_profile d"
  by (auto simp: insert_user_def update_identity_def set_user_admin_def record_audit_def insert_audit_def
      update_api_key_expiry_def create_session_def delete_session_def delete_sessions_by_sub_def
      mark_expiry_notice_sent_def Let_def split: if_splits)

lemma assignment_quotas:
  assumes "assign_users i p f d = Inr (u, d')"
  shows "quotas d' = quotas d \<and> next_profile d' = next_profile d"
  using assign_users_cases(1) [OF assms] by simp

lemma deadline_quotas:
  "set_user_profile_until now i p t a b d = Inr (u, d') \<Longrightarrow> quotas d' = quotas d \<and> next_profile d' = next_profile d"
  "apply_profile_expiry now i p d = Inr (u, d') \<Longrightarrow> quotas d' = quotas d \<and> next_profile d' = next_profile d"
  by (simp_all only: set_user_profile_until_def apply_profile_expiry_def Let_def, (erule assignment_quotas)+)

lemma missing_quotas:
  "mark_key_missing now now2 i ow em de d = Inr (b, d') \<Longrightarrow> quotas d' = quotas d \<and> next_profile d' = next_profile d"
  by (erule mark_key_missing_cases) auto

lemma quiet_profiles_move:
  assumes "quiet_step d d'" and "schema_inv d"
  shows "profiles_move d d'"
  using assms(1)
proof cases
  case (create_profile now p qs r)
  then show ?thesis using create_profile_moves assms(2) by (cases r) blast
next
  case (update_profile now p qs r)
  then show ?thesis using update_profile_moves assms(2) by (cases r) blast
next
  case (delete_profile i u)
  then show ?thesis by (rule delete_profile_moves)
qed (rule profiles_move_eq; (erule other_writes_profiles | rule conjunct1, erule other_quotas deadline_quotas missing_quotas
    | rule conjunct2, erule other_quotas deadline_quotas missing_quotas))+

section \<open>The invariant under writes\<close>

lemma same_limits_agree:
  assumes "same_limits p q"
  shows "limits_agree (profile_limits (Some p)) (profile_limits (Some q))"
proof -
  have w: "windows_of qs = map (\<lambda>(t, b). \<lparr>win_budget = b, win_period = t\<rparr>) (map window_key qs)" for qs
    by (simp add: windows_of_def window_key_def)
  have "mset (windows_of (pf_quotas p)) = mset (windows_of (pf_quotas q))"
    using assms unfolding w mset_map [of "\<lambda>(t, b). \<lparr>win_budget = b, win_period = t\<rparr>"] by (simp add: same_limits_def)
  then show ?thesis using assms by (simp add: limits_agree_def profile_limits_def same_limits_def)
qed

lemma limits_agree_sym: "limits_agree a b \<Longrightarrow> limits_agree b a"
  by (simp add: limits_agree_def)

lemma row_profile:
  assumes "schema_inv d" and "row \<in> set (profiles d)"
  shows "get_profile (pf_id row) d = Inr (load_quotas d row) \<and> pf_id row < next_profile d"
proof -
  have "ids_below pf_id (next_profile d) (profiles d)" using profiles_okD [OF schema_invD(1) [OF assms(1)]] by simp
  then have "uniq_on pf_id (profiles d)" "pf_id row < next_profile d" using assms(2) by (auto simp: ids_below_def)
  then show ?thesis using find_uniq [OF _ assms(2), of pf_id] by (simp add: get_profile_def)
qed

text \<open>A row of \<open>profiles\<close> that is not new comes from a row before.\<close>

lemma moved_row:
  assumes "profiles_move d d'" and "schema_inv d" and "schema_inv d'"
    and "row \<in> set (profiles d')" and "pf_id row < next_profile d"
  obtains row0 where "row0 \<in> set (profiles d)" "pf_id row0 = pf_id row" "pf_rev row0 \<le> pf_rev row"
    "pf_rev row0 = pf_rev row \<longrightarrow> limits_agree (row_limits d row0) (row_limits d' row)"
proof -
  obtain q where q: "get_profile (pf_id row) d = Inr q" "pf_rev q \<le> pf_rev row"
      "pf_rev q = pf_rev row \<longrightarrow> same_limits q (load_quotas d' row)"
    using assms(1) row_profile [OF assms(3,4)] assms(5) unfolding profiles_move_def by fastforce
  from q(1) obtain row0 where "row0 \<in> set (profiles d)" "pf_id row0 = pf_id row" "q = load_quotas d row0"
    by (rule get_profile_row)
  then show ?thesis using q same_limits_agree by (intro that [of row0]) (auto simp: row_limits_def)
qed

text \<open>A key that is moved along with the profiles stays in step.\<close>

lemma moved_key:
  assumes "profiles_move d d'" and "schema_inv d" and "schema_inv d'" and "same_key k k'"
    and "not_ahead d k"
  shows "not_ahead d' k'" and "in_step carried d g k \<Longrightarrow> in_step carried d' g k'"
proof -
  note src = moved_row [OF assms(1-3)]
  have np: "next_profile d \<le> next_profile d'" using assms(1) by (simp add: profiles_move_def)
  show "not_ahead d' k'"
    unfolding not_ahead_def
  proof (intro allI impI conjI ballI)
    fix i assume i: "ak_synced_profile k' = Some i"
    then have i0: "ak_synced_profile k = Some i" using assms(4) by (simp add: same_key_def)
    then have lt: "i < next_profile d" using assms(5) by (simp add: not_ahead_def)
    then show "i < next_profile d'" using np by simp
    fix row r assume row: "row \<in> set (profiles d')" "pf_id row = i" "ak_synced_rev k' = Some r"
    then obtain row0 where "row0 \<in> set (profiles d)" "pf_id row0 = i" "pf_rev row0 \<le> pf_rev row"
      using src lt by blast
    moreover have "ak_synced_rev k = Some r" using row(3) assms(4) by (simp add: same_key_def)
    ultimately have "r \<le> pf_rev row0" using assms(5) i0 unfolding not_ahead_def by blast
    then show "r \<le> pf_rev row" using \<open>pf_rev row0 \<le> pf_rev row\<close> by simp
  qed
  show "in_step carried d' g k'" if "in_step carried d g k"
    unfolding in_step_def
  proof (intro ballI impI)
    fix row assume row: "row \<in> set (profiles d')" "recorded k' row"
    then have k: "ak_synced_profile k = Some (pf_id row)" "ak_synced_rev k = Some (pf_rev row)"
        "ak_missing k = None" "ak_failed_at k = None" "ak_ref k' = ak_ref k"
      using assms(4) by (auto simp: recorded_def same_key_def)
    then have "pf_id row < next_profile d" using assms(5) by (simp add: not_ahead_def)
    then obtain row0 where r0: "row0 \<in> set (profiles d)" "pf_id row0 = pf_id row" "pf_rev row0 \<le> pf_rev row"
        "pf_rev row0 = pf_rev row \<longrightarrow> limits_agree (row_limits d row0) (row_limits d' row)"
      using src row(1) by blast
    moreover have "pf_rev row \<le> pf_rev row0" using assms(5) k r0 unfolding not_ahead_def by blast
    ultimately have "recorded k row0" "limits_agree (row_limits d row0) (row_limits d' row)"
      using k by (simp_all add: recorded_def)
    then show "\<exists>l. carried g (ak_ref k') = Some l \<and> limits_agree l (row_limits d' row)"
      using that r0(1) k(5) limits_agree_trans unfolding in_step_def by metis
  qed
qed

lemma in_step_cong:
  assumes "carried g' (ak_ref k) = carried g (ak_ref k)" and "profiles d' = profiles d" and "quotas d' = quotas d"
  shows "in_step carried d' g' k = in_step carried d g k"
proof -
  have "load_quotas d' = load_quotas d" by (rule ext) (simp add: load_quotas_def assms(3))
  then show ?thesis using assms(1,2) by (simp add: in_step_def row_limits_def)
qed

lemma not_ahead_cong:
  "profiles d' = profiles d \<Longrightarrow> next_profile d' = next_profile d \<Longrightarrow> not_ahead d' k = not_ahead d k"
  by (simp add: not_ahead_def)

lemma same_keysE:
  assumes "same_keys d d'" and "k' \<in> set (api_keys d')"
  obtains k where "k \<in> set (api_keys d)" "same_key k k'"
  using assms by (auto simp: same_keys_def)

lemma same_keys_uniq: "same_keys d d' \<Longrightarrow> uniq_on ak_ref (api_keys d) \<Longrightarrow> uniq_on ak_ref (api_keys d')"
proof -
  assume "same_keys d d'" and u: "uniq_on ak_ref (api_keys d)"
  then obtain f where f: "api_keys d' = map f (api_keys d)" "\<And>k. ak_ref (f k) = ak_ref k"
    by (auto simp: same_keys_def same_key_def)
  then have "map ak_ref (api_keys d') = map ak_ref (api_keys d)" by (simp add: comp_def)
  then show ?thesis using u by (simp add: uniq_on_def)
qed

lemma sync_inv_quiet:
  assumes "sync_inv ginv issued carried d g" and "schema_inv d" and "quiet_step d d'"
  shows "sync_inv ginv issued carried d' g"
proof -
  note keys = quiet_keys [OF assms(3)] and move = quiet_profiles_move [OF assms(3,2)]
  have sch: "schema_inv d'" using quiet_db_step [OF assms(3)] assms(2) by (rule db_step_inv)
  have "issued g (ak_ref k') \<and> not_ahead d' k' \<and> in_step carried d' g k'" if k': "k' \<in> set (api_keys d')" for k'
  proof -
    obtain k where k: "k \<in> set (api_keys d)" "same_key k k'" by (rule same_keysE [OF keys k'])
    then have "issued g (ak_ref k)" "not_ahead d k" "in_step carried d g k" "ak_ref k' = ak_ref k"
      using assms(1) by (auto simp: sync_inv_def same_key_def)
    then show ?thesis using moved_key [OF move assms(2) sch k(2)] by simp
  qed
  then show ?thesis using assms(1) same_keys_uniq [OF keys] by (simp add: sync_inv_def)
qed

section \<open>The contract of a gateway towards the portal\<close>

text \<open>
  To what the sync relies on, the portal adds: its reads and a deletion that failed change nothing that the
  sync looks at.
\<close>

definition half_in_step :: "('g \<Rightarrow> bool) \<Rightarrow> ('g \<Rightarrow> string \<Rightarrow> bool) \<Rightarrow> ('g \<Rightarrow> string \<Rightarrow> limits option)
    \<Rightarrow> api_key \<Rightarrow> 'g \<Rightarrow> database \<Rightarrow> bool" where
  "half_in_step ginv issued carried k g d \<longleftrightarrow> ginv g \<and> uniq_on ak_ref (api_keys d) \<and> k \<in> set (api_keys d)
     \<and> (\<forall>j \<in> set (api_keys d). issued g (ak_ref j) \<and> not_ahead d j \<and> (j \<noteq> k \<longrightarrow> in_step carried d g j))"

locale portal_gateway = limit_gateway "po_keys po" ginv issued carried
  for po :: "'g portal" and ginv issued carried +
  assumes read_frame:
      "po_reporter po = Some rep \<Longrightarrow> snd (rep_history rep now own n g) = g"
      "po_reporter po = Some rep \<Longrightarrow> snd (rep_quota rep ref own g) = g"
      "po_reporter po = Some rep \<Longrightarrow> snd (rep_windows rep ref own g) = g"
      "po_lister po = Some ls \<Longrightarrow> snd (ls g) = g"
      "po_embedder po = Some em \<Longrightarrow> snd (em g) = g"
    and delete_err:
      "ginv g \<Longrightarrow> prov_delete (po_keys po) ref g = (Some e, g') \<Longrightarrow> carried g' = carried g"
begin

lemma frame_inv:
  assumes "sync_inv ginv issued carried d g" and "ginv g'" and "issued g' = issued g"
    and "\<And>k. k \<in> set (api_keys d) \<Longrightarrow> carried g' (ak_ref k) = carried g (ak_ref k)"
  shows "sync_inv ginv issued carried d g'"
  using assms in_step_cong [of carried g' _ g d d] by (simp add: sync_inv_def)

lemma new_ref: "sync_inv ginv issued carried d g \<Longrightarrow> prov_create (po_keys po) now req g = (Inr res, g') \<Longrightarrow>
    k \<in> set (api_keys d) \<Longrightarrow> ak_ref k \<noteq> res_ref res"
  using create_ok [of g now req res g'] by (auto simp: sync_inv_def)

lemma roll_back_inv:
  assumes "sync_inv ginv issued carried d g" and "prov_create (po_keys po) now req g = (Inr res, g')"
  shows "sync_inv ginv issued carried d (snd (prov_delete (po_keys po) (res_ref res) g'))"
proof -
  obtain r g2 where del: "prov_delete (po_keys po) (res_ref res) g' = (r, g2)" by fastforce
  note c = create_ok [OF _ assms(2)]
  have gi: "ginv g" using assms(1) by (simp add: sync_inv_def)
  note f = delete_frame [OF conjunct1 [OF c [OF gi]] del]
  have "issued g2 (ak_ref k) \<and> not_ahead d k \<and> in_step carried d g2 k" if k: "k \<in> set (api_keys d)" for k
  proof -
    have ne: "ak_ref k \<noteq> res_ref res" using new_ref [OF assms k] .
    then have "carried g2 (ak_ref k) = carried g (ak_ref k)" "issued g2 (ak_ref k) = issued g (ak_ref k)"
      using c [OF gi] f by auto
    then show ?thesis using assms(1) k in_step_cong [of carried g2 k g d d] by (simp add: sync_inv_def)
  qed
  then show ?thesis using assms(1) f del by (simp add: sync_inv_def)
qed

lemma issued_inv:
  assumes inv: "sync_inv ginv issued carried d g" and sch: "schema_inv d"
    and row: "row \<in> set (profiles d)" "kr_limits req = profile_limits (Some (load_quotas d row))"
    and create: "prov_create (po_keys po) now req g = (Inr res, g')"
    and rep: "replace_api_key t (new_key_row u (load_quotas d row) res expiry) d = Inr (k, d')"
    and g2: "ginv g2" "issued g2 = issued g'"
      "\<And>x. x \<noteq> res_ref res \<Longrightarrow> carried g2 x \<noteq> carried g' x \<Longrightarrow>
         \<exists>old. get_api_key_by_user (us_id u) d = Some old \<and> ak_ref old = x"
      "carried g2 (res_ref res) = carried g' (res_ref res)"
  shows "sync_inv ginv issued carried d' g2"
proof -
  let ?k = "(new_key_row u (load_quotas d row) res expiry)\<lparr>ak_created := t, ak_id := next_key d\<rparr>"
  have gi: "ginv g" using inv by (simp add: sync_inv_def)
  note c = create_ok [OF gi create]
  have d': "profiles d' = profiles d" "quotas d' = quotas d" "next_profile d' = next_profile d"
      "api_keys d' = delete_where (\<lambda>x. ak_user x = us_id u) (api_keys d) @ [?k]"
    using rep by (auto simp: replace_api_key_def insert_key_def delete_keys_def new_key_row_def Let_def split: if_splits)
  have ref: "ak_ref ?k = res_ref res" by (simp add: new_key_row_def)
  have old: "issued g2 (ak_ref j) \<and> not_ahead d' j \<and> in_step carried d' g2 j"
    if j: "j \<in> set (api_keys d)" "ak_user j \<noteq> us_id u" for j
  proof -
    have ne: "ak_ref j \<noteq> res_ref res" using new_ref [OF inv create j(1)] .
    have "carried g2 (ak_ref j) = carried g' (ak_ref j)"
    proof (rule ccontr)
      assume "carried g2 (ak_ref j) \<noteq> carried g' (ak_ref j)"
      then obtain old where o': "get_api_key_by_user (us_id u) d = Some old" "ak_ref old = ak_ref j"
        using g2(3) ne by blast
      then have "old \<in> set (api_keys d)" "ak_user old = us_id u"
        by (auto simp: get_api_key_by_user_def dest: find_SomeD)
      moreover have "uniq_on ak_ref (api_keys d)" using inv by (simp add: sync_inv_def)
      ultimately have "old = j" using find_uniq [of ak_ref "api_keys d"] j(1) o'(2) by (metis option.inject)
      then show False using \<open>ak_user old = us_id u\<close> j(2) by simp
    qed
    then have "carried g2 (ak_ref j) = carried g (ak_ref j)" "issued g2 (ak_ref j) = issued g (ak_ref j)"
      using c g2(2) ne by auto
    then show ?thesis
      using inv j(1) in_step_cong [of carried g2 j g d' d] not_ahead_cong [of d' d j] d'(1-3) by (simp add: sync_inv_def)
  qed
  have below: "pf_id row < next_profile d" using row_profile [OF sch row(1)] by simp
  have one: "x = row" if "x \<in> set (profiles d)" "pf_id x = pf_id row" for x
  proof -
    have "ids_below pf_id (next_profile d) (profiles d)" using profiles_okD [OF schema_invD(1) [OF sch]] by simp
    then have u: "uniq_on pf_id (profiles d)" by (simp add: ids_below_def)
    have "Some x = Some row"
      using find_uniq [OF u that] find_uniq [OF u row(1) refl] by (rule trans [OF sym])
    then show ?thesis by simp
  qed
  have k: "ak_synced_profile ?k = Some (pf_id row)" "ak_synced_rev ?k = Some (pf_rev row)"
    by (simp_all add: new_key_row_def)
  have "issued g2 (ak_ref ?k)" using c g2(2) by (simp add: ref)
  moreover have "not_ahead d' ?k"
    unfolding not_ahead_def k d'(1,3) using below one by fastforce
  moreover have "in_step carried d' g2 ?k"
    unfolding in_step_def d'(1)
  proof (intro ballI impI)
    fix row' assume "row' \<in> set (profiles d)" "recorded ?k row'"
    then have "row' = row" using one by (simp add: recorded_def k)
    moreover have "row_limits d' row = profile_limits (Some (load_quotas d row))"
      by (simp add: row_limits_def load_quotas_def d'(2))
    moreover have "carried g2 (ak_ref ?k) = Some (profile_limits (Some (load_quotas d row)))"
      using c g2(4) row(2) by (simp add: ref)
    ultimately show "\<exists>l. carried g2 (ak_ref ?k) = Some l \<and> limits_agree l (row_limits d' row')" by simp
  qed
  ultimately have new: "issued g2 (ak_ref ?k) \<and> not_ahead d' ?k \<and> in_step carried d' g2 ?k" by blast
  have "\<forall>j \<in> set (api_keys d). ak_ref j \<noteq> res_ref res" using new_ref [OF inv create] by blast
  then have "uniq_on ak_ref (api_keys d')"
    using inv unfolding d'(4) uniq_on_append
    by (auto simp: sync_inv_def set_delete_where uniq_on_delete_where ref)
  moreover have "issued g2 (ak_ref j) \<and> not_ahead d' j \<and> in_step carried d' g2 j" if "j \<in> set (api_keys d')" for j
  proof (cases "j = ?k")
    case False
    then have "j \<in> set (api_keys d)" "ak_user j \<noteq> us_id u" using that unfolding d'(4) by (simp_all add: set_delete_where)
    then show ?thesis by (rule old)
  qed (use new in simp)
  ultimately show ?thesis using g2(1) by (simp add: sync_inv_def)
qed

end

text \<open>A gateway with this contract keeps the invariant of the sync through requests and jobs.\<close>

sublocale portal_gateway \<subseteq> upheld: portal_invariant po True
  "\<lambda>g d. sync_inv ginv issued carried d g" "half_in_step ginv issued carried"
proof (unfold_locales, goal_cases)
  case (1 g d d')
  then show ?case by (rule sync_inv_quiet)
next
  case (7 g d now ref t)
  obtain r g' where e: "prov_expiry (po_keys po) now ref t g = (r, g')" by fastforce
  have "ginv g" using 7 by (simp add: sync_inv_def)
  from expiry_frame [OF this e] show ?case using frame_inv [OF 7, of g'] by (simp add: e)
next
  case (8 g d now req e g')
  then have "ginv g" by (simp add: sync_inv_def)
  from create_err [OF this 8(2)] show ?case using frame_inv [OF 8(1), of g'] by simp
next
  case (9 g d now req res g')
  then show ?case by (rule roll_back_inv)
next
  case (10 g d row req now res g' t u expiry k d')
  have gi: "ginv g" using 10(1) by (simp add: sync_inv_def)
  note c = create_ok [OF gi 10(5)]
  show ?case
  proof (cases "get_api_key_by_user (us_id u) d")
    case None
    then show ?thesis using issued_inv [OF 10, of g'] c by simp
  next
    case (Some old)
    obtain r g2 where del: "prov_delete (po_keys po) (ak_ref old) g' = (r, g2)" by fastforce
    note f = delete_frame [OF conjunct1 [OF c] del]
    have "old \<in> set (api_keys d)" using Some by (auto simp: get_api_key_by_user_def dest: find_SomeD)
    then have "ak_ref old \<noteq> res_ref res" using new_ref [OF 10(1,5)] by blast
    then have "sync_inv ginv issued carried d' g2"
      using issued_inv [OF 10, of g2] f Some by metis
    then show ?thesis using Some del by simp
  qed
next
  case (11 g d k e g')
  then have gi: "ginv g" by (simp add: sync_inv_def)
  show ?case using frame_inv [OF 11(1), of g'] delete_frame [OF gi 11(2)] delete_err [OF gi 11(2)] by simp
next
  case (12 g d k g')
  then have gi: "ginv g" by (simp add: sync_inv_def)
  note f = delete_frame [OF gi 12(4)]
  have "in_step carried d g' j" if j: "j \<in> set (api_keys d)" "j \<noteq> k" for j
  proof -
    have u: "uniq_on ak_ref (api_keys d)" using 12(1) by (simp add: sync_inv_def)
    have "ak_ref j \<noteq> ak_ref k"
    proof
      assume e: "ak_ref j = ak_ref k"
      have "Some j = Some k"
        using find_uniq [OF u j(1) e] find_uniq [OF u 12(3) refl] by (rule trans [OF sym])
      then show False using j(2) by simp
    qed
    then have "carried g' (ak_ref j) = carried g (ak_ref j)" using f by blast
    then show ?thesis using 12(1) j(1) in_step_cong [of carried g' j g d d] by (simp add: sync_inv_def)
  qed
  then show ?case using 12 f by (simp add: half_in_step_def sync_inv_def)
next
  case (13 k g d t ev x d')
  have same: "profiles d' = profiles d" "quotas d' = quotas d" "next_profile d' = next_profile d" "api_keys d' = api_keys d"
    using assignment_profiles(4) [OF 13(2)] other_quotas(4) [OF 13(2)] assignment_keys(3) [OF 13(2)] by simp_all
  have "not_ahead d' j = not_ahead d j" "in_step carried d' g j = in_step carried d g j" for j
    using not_ahead_cong [of d' d j] in_step_cong [of carried g j g d' d] same by simp_all
  then show ?case using 13(1) by (simp add: half_in_step_def same(4))
next
  case (14 k g d x d')
  have same: "profiles d' = profiles d" "quotas d' = quotas d" "next_profile d' = next_profile d"
      "api_keys d' = delete_where (\<lambda>j. ak_id j = ak_id k) (api_keys d)"
    using 14(3) by (auto simp: delete_api_key_def delete_keys_def Let_def)
  have "not_ahead d' j = not_ahead d j" "in_step carried d' g j = in_step carried d g j" for j
    using not_ahead_cong [of d' d j] in_step_cong [of carried g j g d' d] same(1-3) by simp_all
  then show ?case using 14(1)
    by (auto simp: half_in_step_def sync_inv_def same(4) set_delete_where uniq_on_delete_where)
qed (simp_all add: read_frame)

interpretation fake_upheld: portal_gateway "fake_portal c cs sm i b letter" fake_inv fake_issued fake_carried
  for c cs sm i b letter
proof (intro portal_gateway.intro portal_gateway_axioms.intro, unfold fake_portal_simps, goal_cases)
  case 1
  show ?case by (rule fk.limit_gateway_axioms)
next
  case (7 g ref e g')
  then have "g' = g" by (auto simp: fake_delete_def split: option.splits)
  then show ?case by simp
qed (auto simp: fake_reporter_def fake_reads_same)

section \<open>A day followed by a run\<close>

text \<open>
  C1.  The limits an administrator sets reach the keys: after any sequence of requests and runs of the
  jobs, with the store answering, one run of the limit sync that ends without an error brings every key
  that is not expired, not missing from the gateway and not recorded as failed to carry the limits of the
  profile its owner has by then, up to the order of the quota windows.  Nothing a user or an administrator
  does through the portal, in whatever order, can hide a key from the sync.
\<close>

theorem limits_reach_the_keys:
  assumes "schema_inv (wdb w)" and "sync_inv fake_inv fake_issued fake_carried (wdb w) (wgw w)"
    and "\<forall>n. wfault w n = None"
    and "run_state (portal_day (fake_portal cf cs sm i b letter) rm nt es) w = (u, w1)"
    and "run_state (sync_run n c fake_provider) w1 = (Some (res, None), w2)" and "calm w1" and "forward w1"
    and "k \<in> set (api_keys (wdb w2))" and "find (\<lambda>u. us_id u = ak_user k) (users (wdb w2)) = Some owner"
  shows "\<exists>m \<ge> wtick w1. ak_expires k \<le> wclock w1 m \<or> ak_missing k \<noteq> None \<or> ak_failed_at k \<noteq> None
    \<or> (\<exists>row l. effective_profile (wdb w2) owner = Some row \<and> fake_carried (wgw w2) (ak_ref k) = Some l
          \<and> limits_agree l (row_limits (wdb w2) row))"
proof -
  have "fake_upheld.upheld.ok w" using assms(1-3) by (simp add: fake_upheld.upheld.ok_def)
  then have "fake_upheld.upheld.ok (snd (run_state (portal_day (fake_portal cf cs sm i b letter) rm nt es) w))"
    using fake_upheld.upheld.keeps_portal_day unfolding fake_upheld.upheld.keeps_def by blast
  then have "schema_inv (wdb w1)" "sync_inv fake_inv fake_issued fake_carried (wdb w1) (wgw w1)"
    using assms(4) by (simp_all add: fake_upheld.upheld.ok_def)
  then show ?thesis by (rule fk.sync_run_enforces [OF assms(5-7) _ _ assms(8,9)])
qed

text \<open>A quiet day: somebody without a session asks for the dashboard, and the expiry job runs.\<close>

definition quiet_day :: "event list" where
  "quiet_day = [Request (demo_http ''GET'' ''/'' [] []) None True, ExpiryJob]"

lemma quiet_day_run:
  "run_state (portal_day demo_portal (new_reminder [] []) discard quiet_day) (demo_world None)
     = ((), (demo_world None)\<lparr>wtick := 1, wstmt := 1\<rparr>)"
proof -
  have r: "run_state (serve demo_portal None True (demo_http ''GET'' ''/'' [] [])) (demo_world None)
      = (security_headers True (idp_origin (po_cfg demo_portal)) (no_store to_login), demo_world None)"
    by (subst serve_guarded [where e = Dashboard])
      (simp_all add: guarded_def is_plain_endpoint_def is_admin_endpoint_def demo_http_def route_of_def user_routes_def
        has_prefix_def csrf_protect_def safe_method_def as_page_def dashboard_def require_session_def
        token_from_request_def cookie_of_def max_request_body_def map_page_def to_login_def plain_def demo_portal_defs)
  have "us_expires demo_user = None" by (simp add: demo_user_def)
  then show ?thesis
    by (simp add: quiet_day_def portal_event_def r expiry_run_def run_query select_def)
      (simp add: demo_world_def demo_db_def users_with_passed_deadline_def)
qed

definition day_after :: "fake world" where
  "day_after = snd (run_state (sync_run 2 demo_config fake_provider) ((demo_world None)\<lparr>wtick := 1, wstmt := 1\<rparr>))"

lemma day_after_run:
  "fst (run_state (sync_run 2 demo_config fake_provider) ((demo_world None)\<lparr>wtick := 1, wstmt := 1\<rparr>))
     = Some (\<lparr>rr_synced = 1, rr_failed = 0, rr_marked = 0, rr_found = 0, rr_removed = 0\<rparr>, None)"
  "api_keys (wdb day_after) = [demo_key (Some 1)]" "users (wdb day_after) = [demo_user]"
  by code_simp+

lemma limits_reach_the_keys_witness:
  "\<exists>row l. effective_profile (wdb day_after) demo_user = Some row \<and> fake_carried (wgw day_after) (fake_ref 1) = Some l
     \<and> limits_agree l (row_limits (wdb day_after) row)"
proof -
  let ?w1 = "(demo_world None)\<lparr>wtick := 1, wstmt := 1\<rparr>"
  have run: "run_state (sync_run 2 demo_config fake_provider) ?w1
      = (Some (\<lparr>rr_synced = 1, rr_failed = 0, rr_marked = 0, rr_found = 0, rr_removed = 0\<rparr>, None), day_after)"
    using day_after_run(1) by (simp add: day_after_def prod_eq_iff)
  have "calm ?w1" "forward ?w1" using demo_calm [of None] by (simp_all add: calm_def forward_def)
  moreover have "\<forall>n. wfault (demo_world None) n = None" using demo_calm [of None] by (simp add: calm_def)
  ultimately show ?thesis
    using limits_reach_the_keys [OF demo_schema demo_sync_inv _ quiet_day_run [unfolded demo_portal_def] run,
        of "demo_key (Some 1)" demo_user]
    by (simp add: day_after_run) (simp add: demo_key_def demo_user_def demo_world_def)
qed

end
