(* ===== verification/SyncRace.thy ===== *)
theory SyncRace
  imports SyncUpheld
begin

text \<open>
  The limit sync next to everything else that happens.  \<open>LimitSync\<close> runs the pushes of a batch one after
  the other; in the program \<open>forEach\<close> runs several at once, and requests and jobs change the database and
  the gateway in between.  Here a push is cut at each of its calls, and any number of pushes, of writes by
  others, of keys being issued and of keys being deleted interleave.  A push that was overtaken leaves its
  key pending or marked, never counted as in step with limits that it does not carry.  Pushes that the end
  of the process cuts off, or whose record the store loses, are not among the steps: what those can leave
  behind is the subject of \<open>lost_record_stale\<close> in \<open>SyncScenario\<close>.
\<close>

section \<open>Pushes in flight\<close>

text \<open>
  How far the push of one target is (\<open>syncOne\<close>): chosen by the query of the batch, its profile read, the
  limits sent, the label sent, or refused by the gateway or the store.
\<close>

datatype flight =
    Picked sync_target
  | Loaded sync_target profile
  | Pushed sync_target profile
  | Labelled sync_target profile
  | Refused sync_target

fun flight_target :: "flight \<Rightarrow> sync_target" where
  "flight_target (Picked t) = t"
| "flight_target (Loaded t _) = t"
| "flight_target (Pushed t _) = t"
| "flight_target (Labelled t _) = t"
| "flight_target (Refused t) = t"

fun flight_profile :: "flight \<Rightarrow> profile option" where
  "flight_profile (Loaded _ p) = Some p"
| "flight_profile (Pushed _ p) = Some p"
| "flight_profile (Labelled _ p) = Some p"
| "flight_profile _ = None"

text \<open>
  The state: the database, the gateway, the pushes in flight by the id of their key, the keys created in the
  gateway that no row names yet, each with the profile it was created from, and the references that the
  gateway was asked to delete.
\<close>

record 'g race =
  rc_db :: database
  rc_gw :: 'g
  rc_flight :: "int \<rightharpoonup> flight"
  rc_new :: "string \<rightharpoonup> profile"
  rc_leaving :: "string set"

definition refused_if :: "gw_error option \<Rightarrow> sync_target \<Rightarrow> flight \<Rightarrow> flight" where
  "refused_if r t f = (case r of None \<Rightarrow> f | Some _ \<Rightarrow> Refused t)"

inductive race_step :: "sync_config \<Rightarrow> 'g provider \<Rightarrow> 'g race \<Rightarrow> 'g race \<Rightarrow> bool"
  for c :: sync_config and P :: "'g provider" where
  \<comment> \<open>a write of a request or a job, and the gateway calls that change no limits\<close>
  other_write: "quiet_step (rc_db s) d' \<Longrightarrow> race_step c P s (s\<lparr>rc_db := d'\<rparr>)"
| extend: "prov_expiry P now ref until (rc_gw s) = (r, g') \<Longrightarrow> race_step c P s (s\<lparr>rc_gw := g'\<rparr>)"
  \<comment> \<open>a key is issued: created in the gateway, then recorded\<close>
| create: "get_profile pid (rc_db s) = Inr p \<Longrightarrow> kr_limits req = profile_limits (Some p) \<Longrightarrow>
    prov_create P now req (rc_gw s) = (Inr res, g') \<Longrightarrow>
    race_step c P s (s\<lparr>rc_gw := g', rc_new := (rc_new s)(res_ref res \<mapsto> p)\<rparr>)"
| create_failed: "prov_create P now req (rc_gw s) = (Inl e, g') \<Longrightarrow> race_step c P s (s\<lparr>rc_gw := g'\<rparr>)"
| issue: "rc_new s (res_ref res) = Some p \<Longrightarrow>
    replace_api_key now (new_key_row u p res until) (rc_db s) = Inr (k, d') \<Longrightarrow>
    race_step c P s (s\<lparr>rc_db := d', rc_new := (rc_new s)(res_ref res := None)\<rparr>)"
  \<comment> \<open>a key is deleted, or one that could not be recorded is rolled back\<close>
| delete: "prov_delete P ref (rc_gw s) = (None, g') \<Longrightarrow>
    race_step c P s (s\<lparr>rc_gw := g', rc_new := (rc_new s)(ref := None), rc_leaving := insert ref (rc_leaving s)\<rparr>)"
| delete_failed: "prov_delete P ref (rc_gw s) = (Some e, g') \<Longrightarrow> race_step c P s (s\<lparr>rc_gw := g'\<rparr>)"
| remove: "delete_api_key i (rc_db s) = Inr (u, d') \<Longrightarrow> race_step c P s (s\<lparr>rc_db := d'\<rparr>)"
  \<comment> \<open>the calls of \<open>syncOne\<close>\<close>
| pick: "t \<in> set (pending_targets now (rc_db s)) \<Longrightarrow> rc_flight s (ts_key t) = None \<Longrightarrow>
    race_step c P s (s\<lparr>rc_flight := (rc_flight s)(ts_key t \<mapsto> Picked t)\<rparr>)"
| load: "rc_flight s i = Some (Picked t) \<Longrightarrow> ts_profile t = Some pid \<Longrightarrow> get_profile pid (rc_db s) = Inr p \<Longrightarrow>
    race_step c P s (s\<lparr>rc_flight := (rc_flight s)(i \<mapsto> Loaded t p)\<rparr>)"
| load_failed: "rc_flight s i = Some (Picked t) \<Longrightarrow>
    race_step c P s (s\<lparr>rc_flight := (rc_flight s)(i \<mapsto> Refused t)\<rparr>)"
| push: "rc_flight s i = Some (Loaded t p) \<Longrightarrow>
    prov_limits P (ts_ref t) (sc_user c (ts_sub t) (ts_name t) (ts_email t)) (profile_limits (Some p)) (rc_gw s)
      = (r, g') \<Longrightarrow>
    race_step c P s (s\<lparr>rc_gw := g', rc_flight := (rc_flight s)(i \<mapsto> refused_if r t (Pushed t p))\<rparr>)"
| same_label: "rc_flight s i = Some (Pushed t p) \<Longrightarrow> ts_synced_name t = Some (ts_name t) \<Longrightarrow>
    race_step c P s (s\<lparr>rc_flight := (rc_flight s)(i \<mapsto> Labelled t p)\<rparr>)"
| label: "rc_flight s i = Some (Pushed t p) \<Longrightarrow> new_alias b (ts_sub t) (ts_name t) = Inr a \<Longrightarrow>
    prov_alias P (ts_ref t) a (rc_gw s) = (r, g') \<Longrightarrow>
    race_step c P s (s\<lparr>rc_gw := g', rc_flight := (rc_flight s)(i \<mapsto> refused_if r t (Labelled t p))\<rparr>)"
| no_label: "rc_flight s i = Some (Pushed t p) \<Longrightarrow> new_alias b (ts_sub t) (ts_name t) = Inl e \<Longrightarrow>
    race_step c P s (s\<lparr>rc_flight := (rc_flight s)(i \<mapsto> Refused t)\<rparr>)"
| recorded: "rc_flight s i = Some (Labelled t p) \<Longrightarrow>
    mark_limits_synced (ts_key t) (pf_id p) (pf_rev p) (ts_name t) (ts_email t) (rc_db s) = Inr (u, d') \<Longrightarrow>
    race_step c P s (s\<lparr>rc_db := d', rc_flight := (rc_flight s)(i := None)\<rparr>)"
| failed: "rc_flight s i = Some (Refused t) \<Longrightarrow>
    mark_limit_sync_failed (ts_key t) reason now (rc_db s) = Inr (u, d') \<Longrightarrow>
    race_step c P s (s\<lparr>rc_db := d', rc_flight := (rc_flight s)(i := None)\<rparr>)"
| missing: "rc_flight s i = Some (Refused t) \<Longrightarrow>
    mark_key_missing now now2 (ts_key t) (ts_user t) (ts_email t) detail (rc_db s) = Inr (b, d') \<Longrightarrow>
    race_step c P s (s\<lparr>rc_db := d', rc_flight := (rc_flight s)(i := None)\<rparr>)"

section \<open>The invariant\<close>

text \<open>What was read as this profile: the row has the same limits, or a higher revision, or is gone.\<close>

definition known :: "database \<Rightarrow> profile \<Rightarrow> bool" where
  "known d p \<longleftrightarrow> pf_id p < next_profile d
     \<and> (\<forall>row \<in> set (profiles d). pf_id row = pf_id p \<longrightarrow>
          pf_rev p \<le> pf_rev row \<and> (pf_rev p = pf_rev row \<longrightarrow> limits_agree (profile_limits (Some p)) (row_limits d row)))"

definition sent :: "flight option \<Rightarrow> profile option" where
  "sent f = (case f of Some (Pushed _ p) \<Rightarrow> Some p | Some (Labelled _ p) \<Rightarrow> Some p | _ \<Rightarrow> None)"

definition refused :: "flight option \<Rightarrow> bool" where
  "refused f \<longleftrightarrow> (\<exists>t. f = Some (Refused t))"

text \<open>
  A key: in step while no call for it is under way; once the limits are sent, it carries them, whatever its
  row says; and nothing is known of it between a refusal and the note of it.
\<close>

definition race_key :: "('g \<Rightarrow> string \<Rightarrow> limits option) \<Rightarrow> 'g race \<Rightarrow> api_key \<Rightarrow> bool" where
  "race_key carried s k \<longleftrightarrow>
     (let f = rc_flight s (ak_id k)
      in refused f \<or> (case sent f of
           Some p \<Rightarrow> carried (rc_gw s) (ak_ref k) = Some (profile_limits (Some p))
         | None \<Rightarrow> in_step carried (rc_db s) (rc_gw s) k))"

definition race_flight :: "('g \<Rightarrow> string \<Rightarrow> bool) \<Rightarrow> 'g race \<Rightarrow> int \<Rightarrow> flight \<Rightarrow> bool" where
  "race_flight issued s i f \<longleftrightarrow>
     (let t = flight_target f
      in ts_key t = i \<and> i < next_key (rc_db s) \<and> issued (rc_gw s) (ts_ref t) \<and> rc_new s (ts_ref t) = None
         \<and> (\<forall>k \<in> set (api_keys (rc_db s)). ak_id k = i \<longleftrightarrow> ak_ref k = ts_ref t)
         \<and> (\<forall>p. flight_profile f = Some p \<longrightarrow> known (rc_db s) p))"

definition race_inv :: "('g \<Rightarrow> bool) \<Rightarrow> ('g \<Rightarrow> string \<Rightarrow> bool) \<Rightarrow> ('g \<Rightarrow> string \<Rightarrow> limits option) \<Rightarrow> 'g race \<Rightarrow> bool" where
  "race_inv ginv issued carried s \<longleftrightarrow>
     ginv (rc_gw s) \<and> schema_inv (rc_db s) \<and> uniq_on ak_ref (api_keys (rc_db s))
     \<and> (\<forall>k \<in> set (api_keys (rc_db s)). issued (rc_gw s) (ak_ref k) \<and> not_ahead (rc_db s) k \<and> rc_new s (ak_ref k) = None
          \<and> (ak_ref k \<notin> rc_leaving s \<longrightarrow> race_key carried s k))
     \<and> (\<forall>i f. rc_flight s i = Some f \<longrightarrow> race_flight issued s i f)
     \<and> (\<forall>ref p. rc_new s ref = Some p \<longrightarrow> issued (rc_gw s) ref \<and> known (rc_db s) p
          \<and> carried (rc_gw s) ref = Some (profile_limits (Some p)))"


section \<open>Frames\<close>

lemma known_cong: "profiles d' = profiles d \<Longrightarrow> quotas d' = quotas d \<Longrightarrow> next_profile d' = next_profile d \<Longrightarrow>
    known d' p = known d p"
proof -
  assume e: "profiles d' = profiles d" "quotas d' = quotas d" "next_profile d' = next_profile d"
  then have "load_quotas d' = load_quotas d" by (intro ext) (simp add: load_quotas_def)
  then show ?thesis by (simp add: known_def row_limits_def e)
qed

lemma known_read:
  assumes "get_profile pid d = Inr p" and "schema_inv d"
  shows "known d p"
proof -
  obtain row0 where r: "row0 \<in> set (profiles d)" "pf_id row0 = pid" "p = load_quotas d row0"
    using assms(1) by (rule get_profile_row)
  have p: "pf_id p = pf_id row0" "pf_rev p = pf_rev row0" by (simp_all add: r(3) load_quotas_def)
  have u: "uniq_on pf_id (profiles d)" using profiles_okD [OF schema_invD(1) [OF assms(2)]] by (simp add: ids_below_def)
  have one: "row = row0" if "row \<in> set (profiles d)" "pf_id row = pf_id row0" for row
  proof -
    have "Some row = Some row0"
      using find_uniq [OF u that] find_uniq [OF u r(1) refl] by (rule trans [OF sym])
    then show ?thesis by simp
  qed
  show ?thesis
    using row_profile [OF assms(2) r(1)] by (auto simp: known_def p row_limits_def r(3) dest!: one)
qed

lemma known_move:
  assumes "profiles_move d d'" and "schema_inv d" and "schema_inv d'" and "known d p"
  shows "known d' p"
  unfolding known_def
proof (intro conjI ballI impI)
  have "next_profile d \<le> next_profile d'" using assms(1) by (simp add: profiles_move_def)
  then show "pf_id p < next_profile d'" using assms(4) by (simp add: known_def)
next
  fix row assume row: "row \<in> set (profiles d')" "pf_id row = pf_id p"
  then have "pf_id row < next_profile d" using assms(4) by (simp add: known_def)
  then obtain row0 where r0: "row0 \<in> set (profiles d)" "pf_id row0 = pf_id row" "pf_rev row0 \<le> pf_rev row"
      "pf_rev row0 = pf_rev row \<longrightarrow> limits_agree (row_limits d row0) (row_limits d' row)"
    by (rule moved_row [OF assms(1-3) row(1)])
  then have k: "pf_rev p \<le> pf_rev row0"
      "pf_rev p = pf_rev row0 \<longrightarrow> limits_agree (profile_limits (Some p)) (row_limits d row0)"
    using assms(4) row(2) by (simp_all add: known_def)
  then show "pf_rev p \<le> pf_rev row" using r0(3) by simp
  assume "pf_rev p = pf_rev row"
  then have "pf_rev p = pf_rev row0" "pf_rev row0 = pf_rev row" using k(1) r0(3) by simp_all
  then show "limits_agree (profile_limits (Some p)) (row_limits d' row)"
    using k(2) r0(4) limits_agree_trans by blast
qed

text \<open>Rows of \<open>api_keys\<close> that come from rows before, with the same synced state.\<close>

definition keys_from :: "database \<Rightarrow> database \<Rightarrow> bool" where
  "keys_from d d' \<longleftrightarrow> (\<forall>k' \<in> set (api_keys d'). \<exists>k \<in> set (api_keys d). same_key k k')
     \<and> uniq_on ak_ref (api_keys d') \<and> next_key d' = next_key d"

lemma race_invD:
  assumes "race_inv ginv issued carried s"
  shows "ginv (rc_gw s)" "schema_inv (rc_db s)" "uniq_on ak_ref (api_keys (rc_db s))"
    and "k \<in> set (api_keys (rc_db s)) \<Longrightarrow> issued (rc_gw s) (ak_ref k) \<and> not_ahead (rc_db s) k \<and> rc_new s (ak_ref k) = None"
    and "k \<in> set (api_keys (rc_db s)) \<Longrightarrow> ak_ref k \<notin> rc_leaving s \<Longrightarrow> race_key carried s k"
    and "rc_flight s i = Some f \<Longrightarrow> race_flight issued s i f"
    and "rc_new s ref = Some p \<Longrightarrow> issued (rc_gw s) ref \<and> known (rc_db s) p
          \<and> carried (rc_gw s) ref = Some (profile_limits (Some p))"
  using assms by (simp_all add: race_inv_def)

lemma race_invI:
  assumes "ginv (rc_gw s)" "schema_inv (rc_db s)" "uniq_on ak_ref (api_keys (rc_db s))"
    and "\<And>k. k \<in> set (api_keys (rc_db s)) \<Longrightarrow> issued (rc_gw s) (ak_ref k) \<and> not_ahead (rc_db s) k \<and> rc_new s (ak_ref k) = None"
    and "\<And>k. k \<in> set (api_keys (rc_db s)) \<Longrightarrow> ak_ref k \<notin> rc_leaving s \<Longrightarrow> race_key carried s k"
    and "\<And>i f. rc_flight s i = Some f \<Longrightarrow> race_flight issued s i f"
    and "\<And>ref p. rc_new s ref = Some p \<Longrightarrow> issued (rc_gw s) ref \<and> known (rc_db s) p
          \<and> carried (rc_gw s) ref = Some (profile_limits (Some p))"
  shows "race_inv ginv issued carried s"
  using assms by (simp add: race_inv_def)

lemma race_key_mono:
  assumes "race_key carried s k" and "rc_flight s' (ak_id k') = rc_flight s (ak_id k)"
    and "carried (rc_gw s') (ak_ref k') = carried (rc_gw s) (ak_ref k)"
    and "in_step carried (rc_db s) (rc_gw s) k \<Longrightarrow> in_step carried (rc_db s') (rc_gw s') k'"
  shows "race_key carried s' k'"
  using assms by (cases "sent (rc_flight s (ak_id k))") (auto simp: race_key_def)

lemma race_db_frame:
  assumes inv: "race_inv ginv issued carried s" and sch: "schema_inv d'"
    and move: "profiles_move (rc_db s) d'" and src: "keys_from (rc_db s) d'"
  shows "race_inv ginv issued carried (s\<lparr>rc_db := d'\<rparr>)"
proof -
  let ?s = "s\<lparr>rc_db := d'\<rparr>"
  note I = race_invD [OF inv]
  have known: "known d' p" if "known (rc_db s) p" for p using known_move [OF move I(2) sch that] .
  have key: "issued (rc_gw s) (ak_ref k') \<and> not_ahead d' k' \<and> rc_new s (ak_ref k') = None
      \<and> (ak_ref k' \<notin> rc_leaving s \<longrightarrow> race_key carried ?s k')" if k': "k' \<in> set (api_keys d')" for k'
  proof -
    obtain k where k: "k \<in> set (api_keys (rc_db s))" "same_key k k'" using src k' by (auto simp: keys_from_def)
    then have e: "ak_ref k' = ak_ref k" "ak_id k' = ak_id k" by (simp_all add: same_key_def)
    have na: "not_ahead (rc_db s) k" using I(4) [OF k(1)] by simp
    note mv = moved_key [OF move I(2) sch k(2) na]
    have "race_key carried ?s k'" if "ak_ref k \<notin> rc_leaving s"
      by (rule race_key_mono [OF I(5) [OF k(1) that]]) (simp_all add: e mv(2))
    then show ?thesis using I(4) [OF k(1)] mv(1) by (simp add: e)
  qed
  have flight: "race_flight issued ?s i f" if f: "rc_flight s i = Some f" for i f
  proof -
    note F = I(6) [OF f, unfolded race_flight_def Let_def]
    have "ak_id k' = i \<longleftrightarrow> ak_ref k' = ts_ref (flight_target f)" if k': "k' \<in> set (api_keys d')" for k'
    proof -
      obtain k where k: "k \<in> set (api_keys (rc_db s))" "same_key k k'"
        using src k' by (auto simp: keys_from_def)
      then have "ak_id k' = ak_id k" "ak_ref k' = ak_ref k" by (simp_all add: same_key_def)
      moreover have "ak_id k = i \<longleftrightarrow> ak_ref k = ts_ref (flight_target f)" using F k(1) by blast
      ultimately show ?thesis by simp
    qed
    then show ?thesis using F known src by (simp add: race_flight_def Let_def keys_from_def)
  qed
  show ?thesis
  proof (rule race_invI)
    show "ginv (rc_gw ?s)" "schema_inv (rc_db ?s)" using I(1) sch by simp_all
    show "uniq_on ak_ref (api_keys (rc_db ?s))" using src by (simp add: keys_from_def)
    show "issued (rc_gw ?s) (ak_ref k) \<and> not_ahead (rc_db ?s) k \<and> rc_new ?s (ak_ref k) = None"
      if "k \<in> set (api_keys (rc_db ?s))" for k
      using key [of k] that by simp
    show "race_key carried ?s k" if "k \<in> set (api_keys (rc_db ?s))" "ak_ref k \<notin> rc_leaving ?s" for k
      using key [of k] that by simp
    show "race_flight issued ?s i f" if "rc_flight ?s i = Some f" for i f
      using flight that by simp
    show "issued (rc_gw ?s) ref \<and> known (rc_db ?s) p \<and> carried (rc_gw ?s) ref = Some (profile_limits (Some p))"
      if "rc_new ?s ref = Some p" for ref p
      using I(7) [of ref p] known [of p] that by simp
  qed
qed

lemma race_gw_frame:
  assumes inv: "race_inv ginv issued carried s"
    and g: "ginv g'" "issued g' = issued (rc_gw s)" "carried g' = carried (rc_gw s)"
  shows "race_inv ginv issued carried (s\<lparr>rc_gw := g'\<rparr>)"
proof -
  note I = race_invD [OF inv]
  have same: "in_step carried d g' k = in_step carried d (rc_gw s) k" for d k
    using in_step_cong [of carried g' k "rc_gw s" d d] g(3) by simp
  have "race_key carried (s\<lparr>rc_gw := g'\<rparr>) k" if "race_key carried s k" for k
    by (rule race_key_mono [OF that]) (simp_all add: g(3) same)
  moreover have "race_flight issued (s\<lparr>rc_gw := g'\<rparr>) i f = race_flight issued s i f" for i f
    by (simp add: race_flight_def g(2))
  ultimately show ?thesis using I g by (simp add: race_inv_def)
qed

lemma race_flight_frame:
  assumes inv: "race_inv ginv issued carried s"
    and new: "\<And>f. ff = Some f \<Longrightarrow> race_flight issued s i f"
    and key: "\<And>k. k \<in> set (api_keys (rc_db s)) \<Longrightarrow> ak_id k = i \<Longrightarrow> ak_ref k \<notin> rc_leaving s \<Longrightarrow>
      race_key carried (s\<lparr>rc_flight := (rc_flight s)(i := ff)\<rparr>) k"
  shows "race_inv ginv issued carried (s\<lparr>rc_flight := (rc_flight s)(i := ff)\<rparr>)"
proof -
  let ?s = "s\<lparr>rc_flight := (rc_flight s)(i := ff)\<rparr>"
  note I = race_invD [OF inv]
  have "race_key carried ?s k" if "k \<in> set (api_keys (rc_db s))" "ak_ref k \<notin> rc_leaving s" for k
  proof (cases "ak_id k = i")
    case True
    then show ?thesis using key that by blast
  next
    case False
    then show ?thesis by (intro race_key_mono [OF I(5) [OF that]]) simp_all
  qed
  moreover have "race_flight issued ?s j f" if "((rc_flight s)(i := ff)) j = Some f" for j f
    using new I(6) [of j f] that by (cases "j = i") (simp_all add: race_flight_def)
  ultimately show ?thesis using I by (simp add: race_inv_def)
qed


section \<open>Every step keeps it\<close>

lemma quotas_next_key: "set_profile_quotas i qs d = Inr (u, d') \<Longrightarrow> next_key d' = next_key d"
  by (auto simp: set_profile_quotas_def insert_quotas_def Let_def split: if_splits sum.splits)

lemma profile_writes_next_key:
  "create_profile now p qs d = Inr (r, d') \<Longrightarrow> next_key d' = next_key d"
  "update_profile now p qs d = Inr (r', d') \<Longrightarrow> next_key d' = next_key d"
  "delete_profile i d = Inr (u, d') \<Longrightarrow> next_key d' = next_key d"
proof -
  show "next_key d' = next_key d" if "create_profile now p qs d = Inr (r, d')"
    using that
    by (auto simp: create_profile_def create_profile_tx_def insert_profile_def Let_def
        dest!: quotas_next_key split: sum.splits if_splits)
  show "next_key d' = next_key d" if upd: "update_profile now p qs d = Inr (r', d')"
  proof -
    obtain prev demoted p1 where r: "r' = (prev, demoted, p1)" by (cases r')
    from upd [unfolded r] show ?thesis
      by (rule update_profile_cases) (auto dest!: quotas_next_key update_profile_tx_cases(5))
  qed
  show "next_key d' = next_key d" if "delete_profile i d = Inr (u, d')"
    using delete_profile_cases(3) [OF that] by simp
qed

lemma other_writes_next_key:
  "insert_user x d = Inr (r, d') \<Longrightarrow> next_key d' = next_key d"
  "update_identity i email name now d = Inr (u, d') \<Longrightarrow> next_key d' = next_key d"
  "set_user_admin now i a d = Inr (u, d') \<Longrightarrow> next_key d' = next_key d"
  "record_audit now e d = Inr (u, d') \<Longrightarrow> next_key d' = next_key d"
  "update_api_key_expiry i t d = Inr (u, d') \<Longrightarrow> next_key d' = next_key d"
  "create_session now i tok idt t d = Inr (u, d') \<Longrightarrow> next_key d' = next_key d"
  "delete_session i d = Inr (u, d') \<Longrightarrow> next_key d' = next_key d"
  "delete_sessions_by_sub sub d = Inr (u, d') \<Longrightarrow> next_key d' = next_key d"
  "mark_expiry_notice_sent now i days d = Inr (u, d') \<Longrightarrow> next_key d' = next_key d"
  by (auto simp: insert_user_def update_identity_def set_user_admin_def record_audit_def insert_audit_def add_audit_def
      update_api_key_expiry_def create_session_def delete_session_def delete_sessions_by_sub_def
      mark_expiry_notice_sent_def Let_def split: if_splits)

lemma assignment_next_key: "assign_users i p f d = Inr (u, d') \<Longrightarrow> next_key d' = next_key d"
  by (drule assign_users_cases(1)) simp

lemma key_writes_next_key:
  "set_user_profile_until now i p t a b d = Inr (u, d') \<Longrightarrow> next_key d' = next_key d"
  "apply_profile_expiry now i p d = Inr (u, d') \<Longrightarrow> next_key d' = next_key d"
  "mark_key_missing now now2 i' ow em de d = Inr (b', d') \<Longrightarrow> next_key d' = next_key d"
  by (simp_all only: set_user_profile_until_def apply_profile_expiry_def Let_def, (erule assignment_next_key)+)
    (erule mark_key_missing_cases; auto simp: add_audit_def)

lemma quiet_next_key: "quiet_step d d' \<Longrightarrow> next_key d' = next_key d"
  by (induction rule: quiet_step.induct) (erule profile_writes_next_key other_writes_next_key key_writes_next_key)+

lemma insert_key_cases:
  assumes "insert_key k d = Inr (k', d')"
  shows "d' = d\<lparr>api_keys := api_keys d @ [k\<lparr>ak_id := next_key d\<rparr>], next_key := next_key d + 1\<rparr>"
  using assms by (auto simp: insert_key_def Let_def split: if_splits)

context portal_gateway
begin

abbreviation the_inv :: "'g race \<Rightarrow> bool" where
  "the_inv \<equiv> race_inv ginv issued carried"

lemma race_write:
  assumes "the_inv s" and "db_step (rc_db s) d'" and "profiles_move (rc_db s) d'" and "keys_from (rc_db s) d'"
  shows "the_inv (s\<lparr>rc_db := d'\<rparr>)"
  using race_db_frame [OF assms(1) db_step_inv [OF assms(2) race_invD(2) [OF assms(1)]] assms(3,4)] .

lemma race_other_write:
  assumes "the_inv s" and "quiet_step (rc_db s) d'"
  shows "the_inv (s\<lparr>rc_db := d'\<rparr>)"
proof (rule race_write [OF assms(1) quiet_db_step [OF assms(2)]])
  show "profiles_move (rc_db s) d'" using quiet_profiles_move [OF assms(2) race_invD(2) [OF assms(1)]] .
  have "same_keys (rc_db s) d'" using quiet_keys [OF assms(2)] .
  then show "keys_from (rc_db s) d'"
    using same_keys_uniq [OF _ race_invD(3) [OF assms(1)]] quiet_next_key [OF assms(2)] same_keysE
    unfolding keys_from_def by metis
qed

lemma race_delete_keys:
  assumes "the_inv s" and "schema_inv (delete_keys P (rc_db s))"
  shows "the_inv (s\<lparr>rc_db := delete_keys P (rc_db s)\<rparr>)"
proof (rule race_db_frame [OF assms])
  show "profiles_move (rc_db s) (delete_keys P (rc_db s))"
    by (rule profiles_move_eq) (simp_all add: delete_keys_def Let_def)
  have "same_key k k" for k by (simp add: same_key_def)
  then show "keys_from (rc_db s) (delete_keys P (rc_db s))"
    using race_invD(3) [OF assms(1)]
    by (auto simp: keys_from_def delete_keys_def Let_def set_delete_where uniq_on_delete_where)
qed

lemma race_create:
  assumes inv: "the_inv s" and p: "get_profile pid (rc_db s) = Inr p" "kr_limits req = profile_limits (Some p)"
    and create: "prov_create (po_keys po) now req (rc_gw s) = (Inr res, g')"
  shows "the_inv (s\<lparr>rc_gw := g', rc_new := (rc_new s)(res_ref res \<mapsto> p)\<rparr>)"
proof -
  let ?s = "s\<lparr>rc_gw := g', rc_new := (rc_new s)(res_ref res \<mapsto> p)\<rparr>"
  note I = race_invD [OF inv] and c = create_ok [OF race_invD(1) [OF inv] create]
  have ne: "ak_ref k \<noteq> res_ref res" if "k \<in> set (api_keys (rc_db s))" for k using I(4) [OF that] c by auto
  have car: "carried g' ref = carried (rc_gw s) ref" if "ref \<noteq> res_ref res" for ref using c that by simp
  have "race_key carried ?s k" if k: "k \<in> set (api_keys (rc_db s))" "ak_ref k \<notin> rc_leaving s" for k
  proof -
    have "carried g' (ak_ref k) = carried (rc_gw s) (ak_ref k)" using car ne [OF k(1)] by blast
    moreover from this have "in_step carried (rc_db s) g' k = in_step carried (rc_db s) (rc_gw s) k"
      by (rule in_step_cong) simp_all
    ultimately show ?thesis by (intro race_key_mono [OF I(5) [OF k]]) simp_all
  qed
  note key = this
  have flight: "race_flight issued ?s i f" if f: "rc_flight s i = Some f" for i f
  proof -
    have "issued (rc_gw s) (ts_ref (flight_target f))" using I(6) [OF f] by (simp add: race_flight_def Let_def)
    then have "ts_ref (flight_target f) \<noteq> res_ref res" using c by auto
    then show ?thesis using I(6) [OF f] c by (simp add: race_flight_def Let_def)
  qed
  have new: "issued g' ref \<and> known (rc_db s) q \<and> carried g' ref = Some (profile_limits (Some q))"
    if "((rc_new s)(res_ref res \<mapsto> p)) ref = Some q" for ref q
    using that c I(7) [of ref q] known_read [OF p(1) I(2)] p(2) by (cases "ref = res_ref res") simp_all
  show ?thesis
  proof (rule race_invI)
    show "issued (rc_gw ?s) ref \<and> known (rc_db ?s) q \<and> carried (rc_gw ?s) ref = Some (profile_limits (Some q))"
      if "rc_new ?s ref = Some q" for ref q
      using new [of ref q] that by simp
  qed (use I(1-4) c ne key flight in simp_all)
qed

lemma race_deleted:
  assumes inv: "the_inv s" and del: "prov_delete (po_keys po) ref (rc_gw s) = (r, g')"
  shows "the_inv (s\<lparr>rc_gw := g', rc_new := (rc_new s)(ref := None), rc_leaving := insert ref (rc_leaving s)\<rparr>)"
proof -
  let ?s = "s\<lparr>rc_gw := g', rc_new := (rc_new s)(ref := None), rc_leaving := insert ref (rc_leaving s)\<rparr>"
  note I = race_invD [OF inv] and f = delete_frame [OF race_invD(1) [OF inv] del]
  have "race_key carried ?s k" if k: "k \<in> set (api_keys (rc_db s))" "ak_ref k \<notin> insert ref (rc_leaving s)" for k
  proof -
    have "carried g' (ak_ref k) = carried (rc_gw s) (ak_ref k)" using f k(2) by simp
    moreover from this have "in_step carried (rc_db s) g' k = in_step carried (rc_db s) (rc_gw s) k"
      by (rule in_step_cong) simp_all
    ultimately show ?thesis using k(2) by (intro race_key_mono [OF I(5) [OF k(1)]]) simp_all
  qed
  moreover have "race_flight issued ?s i fl" if "rc_flight s i = Some fl" for i fl
    using I(6) [OF that] f by (simp add: race_flight_def Let_def)
  ultimately show ?thesis using I f by (simp add: race_inv_def)
qed

lemma race_issue:
  assumes inv: "the_inv s" and new: "rc_new s (res_ref res) = Some p"
    and rep: "replace_api_key now (new_key_row u p res expiry) (rc_db s) = Inr (k, d')"
  shows "the_inv (s\<lparr>rc_db := d', rc_new := (rc_new s)(res_ref res := None)\<rparr>)"
proof -
  let ?d = "delete_keys (\<lambda>x. ak_user x = us_id u) (rc_db s)" and ?s = "s\<lparr>rc_db := d', rc_new := (rc_new s)(res_ref res := None)\<rparr>"
  let ?s1 = "s\<lparr>rc_db := ?d\<rparr>"
  let ?k = "(new_key_row u p res expiry)\<lparr>ak_created := now, ak_id := next_key (rc_db s)\<rparr>"
  have sch: "schema_inv d'" by (rule db_step_inv [OF db_step.replace_key [OF rep] race_invD(2) [OF inv]])
  have d: "profiles ?d = profiles (rc_db s)" "quotas ?d = quotas (rc_db s)" "next_profile ?d = next_profile (rc_db s)"
      "next_key ?d = next_key (rc_db s)" by (simp_all add: delete_keys_def Let_def)
  have user: "ak_user (new_key_row u p res expiry) = us_id u" by (simp add: new_key_row_def)
  note row = insert_key_cases [OF rep [unfolded replace_api_key_def user]]
  have d': "api_keys d' = api_keys ?d @ [?k]" "next_key d' = next_key (rc_db s) + 1"
      "profiles d' = profiles (rc_db s)" "quotas d' = quotas (rc_db s)" "next_profile d' = next_profile (rc_db s)"
    by (simp_all add: row d)
  have "schema_inv ?d" by (rule delete_keys_inv [OF race_invD(2) [OF inv]])
  from race_delete_keys [OF inv this] have inv1: "the_inv ?s1" .
  note I = race_invD [OF inv1, simplified]
  have kref: "ak_ref ?k = res_ref res" by (simp add: new_key_row_def)
  have ne: "ak_ref j \<noteq> res_ref res" if "j \<in> set (api_keys ?d)" for j using I(4) [OF that] new by auto
  have known: "known d' q = known ?d q" for q by (rule known_cong) (simp_all add: d d')
  have step: "in_step carried d' g j = in_step carried ?d g j" for g j by (rule in_step_cong) (simp_all add: d d')
  have ahead: "not_ahead d' j = not_ahead ?d j" for j by (rule not_ahead_cong) (simp_all add: d d')
  note N = I(7) [OF new]
  have nk: "not_ahead ?d ?k" "in_step carried ?d (rc_gw s) ?k"
    using N by (auto simp: not_ahead_def in_step_def recorded_def known_def new_key_row_def)
  show ?thesis
  proof (rule race_invI)
    show "ginv (rc_gw ?s)" "schema_inv (rc_db ?s)" using I(1) sch by simp_all
    have "res_ref res \<notin> ak_ref ` set (api_keys ?d)" by (metis imageE ne)
    then show "uniq_on ak_ref (api_keys (rc_db ?s))" using I(3) by (simp add: d'(1) uniq_on_append kref)
    show "issued (rc_gw ?s) (ak_ref j) \<and> not_ahead (rc_db ?s) j \<and> rc_new ?s (ak_ref j) = None"
      if "j \<in> set (api_keys (rc_db ?s))" for j
      using that I(4) [of j] N nk(1) by (auto simp: d'(1) ahead kref)
    show "race_key carried ?s j" if j: "j \<in> set (api_keys (rc_db ?s))" "ak_ref j \<notin> rc_leaving ?s" for j
    proof (cases "j = ?k")
      case True
      have "rc_flight s (ak_id ?k) = None"
        using I(6) [of "next_key (rc_db s)"] by (cases "rc_flight s (ak_id ?k)") (auto simp: race_flight_def d)
      then show ?thesis using nk(2) True by (simp add: race_key_def step sent_def)
    next
      case False
      then have "race_key carried ?s1 j" using j I(5) [of j] by (simp add: d'(1))
      then show ?thesis by (rule race_key_mono) (simp_all add: step)
    qed
    show "race_flight issued ?s i f" if "rc_flight ?s i = Some f" for i f
    proof -
      have f: "race_flight issued ?s1 i f" using I(6) that by simp
      then have "rc_new s (ts_ref (flight_target f)) = None" by (simp add: race_flight_def Let_def)
      then have "ts_ref (flight_target f) \<noteq> res_ref res" using new by auto
      then show ?thesis using f by (auto simp: race_flight_def Let_def d' d known kref)
    qed
    show "issued (rc_gw ?s) ref \<and> known (rc_db ?s) q \<and> carried (rc_gw ?s) ref = Some (profile_limits (Some q))"
      if "rc_new ?s ref = Some q" for ref q
      using I(7) [of ref q] that by (simp add: known split: if_splits)
  qed
qed

lemma race_new_flight:
  assumes inv: "the_inv s" and old: "rc_flight s i = Some f0" and same: "flight_target f = flight_target f0"
    and p: "\<And>p. flight_profile f = Some p \<Longrightarrow> known (rc_db s) p"
  shows "race_flight issued s i f"
  using race_invD(6) [OF inv old] p by (simp add: race_flight_def Let_def same)

lemma race_flight_on:
  assumes inv: "the_inv s" and old: "rc_flight s i = Some f0" and same: "flight_target f = flight_target f0"
    and p: "\<And>p. flight_profile f = Some p \<Longrightarrow> known (rc_db s) p"
    and on: "refused (Some f) \<or> sent (Some f) = sent (Some f0) \<and> \<not> refused (Some f0)"
  shows "the_inv (s\<lparr>rc_flight := (rc_flight s)(i \<mapsto> f)\<rparr>)"
proof (rule race_flight_frame [OF inv])
  show "race_flight issued s i f'" if "Some f = Some f'" for f'
    using race_new_flight [OF inv old same p] that by simp
  show "race_key carried (s\<lparr>rc_flight := (rc_flight s)(i \<mapsto> f)\<rparr>) k"
    if "k \<in> set (api_keys (rc_db s))" "ak_id k = i" "ak_ref k \<notin> rc_leaving s" for k
    using race_invD(5) [OF inv that(1,3)] on that(2) old
    by (cases "sent (Some f0)") (auto simp: race_key_def Let_def)
qed

lemma race_pick:
  assumes inv: "the_inv s" and t: "t \<in> set (pending_targets now (rc_db s))" and free: "rc_flight s (ts_key t) = None"
  shows "the_inv (s\<lparr>rc_flight := (rc_flight s)(ts_key t \<mapsto> Picked t)\<rparr>)"
proof (rule race_flight_frame [OF inv])
  note I = race_invD [OF inv]
  obtain k u where k: "k \<in> set (api_keys (rc_db s))" "t = target_of (rc_db s) u k" using t by (rule pending_targetE)
  have e: "ts_key t = ak_id k" "ts_ref t = ak_ref k" by (simp_all add: k(2) target_of_def)
  have ids: "ids_below ak_id (next_key (rc_db s)) (api_keys (rc_db s))"
    using schema_invD(3) [OF I(2)] by (simp add: keys_ok_def)
  then have u: "uniq_on ak_id (api_keys (rc_db s))" and below: "ak_id k < next_key (rc_db s)"
    using k(1) by (auto simp: ids_below_def)
  have "ak_id j = ak_id k \<longleftrightarrow> ak_ref j = ak_ref k" if j: "j \<in> set (api_keys (rc_db s))" for j
  proof
    assume a: "ak_id j = ak_id k"
    have "Some j = Some k" using find_uniq [OF u j a] find_uniq [OF u k(1) refl] by (rule trans [OF sym])
    then show "ak_ref j = ak_ref k" by simp
  next
    assume a: "ak_ref j = ak_ref k"
    have "Some j = Some k" using find_uniq [OF I(3) j a] find_uniq [OF I(3) k(1) refl] by (rule trans [OF sym])
    then show "ak_id j = ak_id k" by simp
  qed
  then show "race_flight issued s (ts_key t) f" if "Some (Picked t) = Some f" for f
    using that I(4) [OF k(1)] below by (auto simp: race_flight_def Let_def e)
  show "race_key carried (s\<lparr>rc_flight := (rc_flight s)(ts_key t \<mapsto> Picked t)\<rparr>) j"
    if "j \<in> set (api_keys (rc_db s))" "ak_id j = ts_key t" "ak_ref j \<notin> rc_leaving s" for j
    using I(5) [OF that(1,3)] free that(2) by (simp add: race_key_def Let_def sent_def refused_def)
qed

text \<open>A gateway call for one key leaves what the others carry.\<close>

lemma race_push:
  assumes inv: "the_inv s" and fl: "rc_flight s i = Some (Loaded t p)"
    and push: "prov_limits (po_keys po) (ts_ref t) u (profile_limits (Some p)) (rc_gw s) = (r, g')"
  shows "the_inv (s\<lparr>rc_gw := g', rc_flight := (rc_flight s)(i \<mapsto> refused_if r t (Pushed t p))\<rparr>)"
proof -
  let ?f = "refused_if r t (Pushed t p)" and ?s = "s\<lparr>rc_gw := g', rc_flight := (rc_flight s)(i \<mapsto> refused_if r t (Pushed t p))\<rparr>"
  note I = race_invD [OF inv] and F = race_invD(6) [OF inv fl, unfolded race_flight_def Let_def flight_target.simps]
  have iss: "issued (rc_gw s) (ts_ref t)" using F by blast
  note fr = limits_frame [OF I(1) iss push]
  have tgt: "flight_target ?f = t" by (simp add: refused_if_def split: option.split)
  have prof: "known (rc_db s) q" if "flight_profile ?f = Some q" for q
    using that F by (simp add: refused_if_def split: option.splits)
  show ?thesis
  proof (rule race_invI)
    show "ginv (rc_gw ?s)" "schema_inv (rc_db ?s)" "uniq_on ak_ref (api_keys (rc_db ?s))" using I(2,3) fr by simp_all
    show "issued (rc_gw ?s) (ak_ref k) \<and> not_ahead (rc_db ?s) k \<and> rc_new ?s (ak_ref k) = None"
      if "k \<in> set (api_keys (rc_db ?s))" for k using I(4) [of k] that fr by simp
    show "race_key carried ?s k" if k: "k \<in> set (api_keys (rc_db ?s))" "ak_ref k \<notin> rc_leaving ?s" for k
    proof (cases "ak_id k = i")
      case True
      then have "ak_ref k = ts_ref t" using F k(1) by simp
      then show ?thesis
        using limits_ok [OF I(1) iss] push True
        by (cases r) (auto simp: race_key_def refused_if_def sent_def refused_def)
    next
      case False
      then have "ak_ref k \<noteq> ts_ref t" using F k(1) by simp
      then have c: "carried g' (ak_ref k) = carried (rc_gw s) (ak_ref k)" using fr by blast
      then have "in_step carried (rc_db s) g' k = in_step carried (rc_db s) (rc_gw s) k"
        by (rule in_step_cong) simp_all
      then show ?thesis using False c k by (intro race_key_mono [OF I(5) [of k]]) simp_all
    qed
    show "race_flight issued ?s j f" if f: "rc_flight ?s j = Some f" for j f
    proof (cases "j = i")
      case True
      then have "f = ?f" using f by simp
      then show ?thesis using F prof fr True by (simp add: race_flight_def Let_def tgt)
    next
      case False
      then show ?thesis using I(6) [of j f] f fr by (simp add: race_flight_def)
    qed
    show "issued (rc_gw ?s) ref \<and> known (rc_db ?s) q \<and> carried (rc_gw ?s) ref = Some (profile_limits (Some q))"
      if q: "rc_new ?s ref = Some q" for ref q
    proof -
      have "ref \<noteq> ts_ref t" using F q by auto
      then show ?thesis using I(7) [of ref q] q fr by simp
    qed
  qed
qed

lemma race_label:
  assumes inv: "the_inv s" and fl: "rc_flight s i = Some (Pushed t p)"
    and a: "prov_alias (po_keys po) (ts_ref t) a (rc_gw s) = (r, g')"
  shows "the_inv (s\<lparr>rc_gw := g', rc_flight := (rc_flight s)(i \<mapsto> refused_if r t (Labelled t p))\<rparr>)"
proof -
  have "the_inv (s\<lparr>rc_gw := g'\<rparr>)"
    using race_gw_frame [OF inv] alias_frame [OF race_invD(1) [OF inv] a] by blast
  moreover have "known (rc_db s) p" using race_invD(6) [OF inv fl] by (simp add: race_flight_def)
  ultimately show ?thesis
    using race_flight_on [of "s\<lparr>rc_gw := g'\<rparr>" i "Pushed t p" "refused_if r t (Labelled t p)"] fl
    by (cases r) (auto simp: refused_if_def sent_def refused_def)
qed

lemma race_loaded:
  assumes inv: "the_inv s" and fl: "rc_flight s i = Some (Picked t)" and p: "get_profile pid (rc_db s) = Inr p"
  shows "the_inv (s\<lparr>rc_flight := (rc_flight s)(i \<mapsto> Loaded t p)\<rparr>)"
  using known_read [OF p race_invD(2) [OF inv]]
  by (intro race_flight_on [OF inv fl]) (auto simp: sent_def refused_def)

lemma race_same_label:
  assumes inv: "the_inv s" and fl: "rc_flight s i = Some (Pushed t p)"
  shows "the_inv (s\<lparr>rc_flight := (rc_flight s)(i \<mapsto> Labelled t p)\<rparr>)"
  using race_invD(6) [OF inv fl]
  by (intro race_flight_on [OF inv fl]) (auto simp: sent_def refused_def race_flight_def)

lemma race_refused:
  assumes inv: "the_inv s" and fl: "rc_flight s i = Some f" and t: "flight_target f = t"
  shows "the_inv (s\<lparr>rc_flight := (rc_flight s)(i \<mapsto> Refused t)\<rparr>)"
  by (intro race_flight_on [OF inv fl]) (auto simp: refused_def t)

text \<open>The end of a push: its row is written, and the others stay as they were.\<close>

lemma race_settled:
  assumes inv: "the_inv s" and fl: "rc_flight s i = Some f0" and sch: "schema_inv d'"
    and same: "profiles d' = profiles (rc_db s)" "quotas d' = quotas (rc_db s)"
      "next_profile d' = next_profile (rc_db s)" "next_key d' = next_key (rc_db s)"
    and rows: "api_keys d' = map h (api_keys (rc_db s))"
    and h: "\<And>k. ak_id (h k) = ak_id k" "\<And>k. ak_ref (h k) = ak_ref k" "\<And>k. ak_id k \<noteq> i \<Longrightarrow> h k = k"
    and ok: "\<And>k. k \<in> set (api_keys (rc_db s)) \<Longrightarrow> ak_id k = i \<Longrightarrow> not_ahead (rc_db s) (h k)
        \<and> (ak_ref k \<notin> rc_leaving s \<longrightarrow> in_step carried (rc_db s) (rc_gw s) (h k))"
  shows "the_inv (s\<lparr>rc_db := d', rc_flight := (rc_flight s)(i := None)\<rparr>)"
proof -
  let ?s = "s\<lparr>rc_db := d', rc_flight := (rc_flight s)(i := None)\<rparr>"
  note I = race_invD [OF inv]
  have known: "known d' q = known (rc_db s) q" for q by (rule known_cong) (simp_all add: same)
  have step: "in_step carried d' g j = in_step carried (rc_db s) g j" for g j by (rule in_step_cong) (simp_all add: same)
  have ahead: "not_ahead d' j = not_ahead (rc_db s) j" for j by (rule not_ahead_cong) (simp_all add: same)
  have row: "issued (rc_gw s) (ak_ref (h k)) \<and> not_ahead d' (h k) \<and> rc_new s (ak_ref (h k)) = None"
    if "k \<in> set (api_keys (rc_db s))" for k
    using I(4) [OF that] ok [OF that] h(3) [of k] by (cases "ak_id k = i") (simp_all add: ahead h(2))
  have key: "race_key carried ?s (h k)" if k: "k \<in> set (api_keys (rc_db s))" "ak_ref k \<notin> rc_leaving s" for k
  proof (cases "ak_id k = i")
    case True
    then show ?thesis using ok [OF k(1)] k(2) by (simp add: race_key_def h(1) sent_def step)
  next
    case False
    then show ?thesis by (intro race_key_mono [OF I(5) [OF k]]) (simp_all add: h step)
  qed
  show ?thesis
  proof (rule race_invI)
    show "ginv (rc_gw ?s)" "schema_inv (rc_db ?s)" using I(1) sch by simp_all
    have "map ak_ref (api_keys d') = map ak_ref (api_keys (rc_db s))" by (simp add: rows comp_def h(2))
    then show "uniq_on ak_ref (api_keys (rc_db ?s))" using I(3) by (simp add: uniq_on_def)
    show "issued (rc_gw ?s) (ak_ref k) \<and> not_ahead (rc_db ?s) k \<and> rc_new ?s (ak_ref k) = None"
      if "k \<in> set (api_keys (rc_db ?s))" for k using that row by (auto simp: rows)
    show "race_key carried ?s k" if "k \<in> set (api_keys (rc_db ?s))" "ak_ref k \<notin> rc_leaving ?s" for k
      using that key by (auto simp: rows h(2))
    show "race_flight issued ?s j f" if f: "rc_flight ?s j = Some f" for j f
    proof -
      have "rc_flight s j = Some f" using f by (simp split: if_splits)
      from I(6) [OF this] show ?thesis by (auto simp: race_flight_def Let_def same(4) known rows h(1,2))
    qed
    show "issued (rc_gw ?s) ref \<and> known (rc_db ?s) q \<and> carried (rc_gw ?s) ref = Some (profile_limits (Some q))"
      if "rc_new ?s ref = Some q" for ref q using I(7) [of ref q] that by (simp add: known)
  qed
qed

lemma race_recorded:
  assumes inv: "the_inv s" and fl: "rc_flight s i = Some (Labelled t p)"
    and mark: "mark_limits_synced (ts_key t) (pf_id p) (pf_rev p) name email (rc_db s) = Inr (u, d')"
  shows "the_inv (s\<lparr>rc_db := d', rc_flight := (rc_flight s)(i := None)\<rparr>)"
proof -
  note I = race_invD [OF inv] and F = race_invD(6) [OF inv fl, unfolded race_flight_def Let_def flight_target.simps]
  define h :: "api_key \<Rightarrow> api_key" where "h k = (if ak_id k = i then k\<lparr>ak_synced_profile := Some (pf_id p), ak_synced_rev := Some (pf_rev p),
      ak_synced_name := Some name, ak_synced_email := Some email, ak_sync_error := [], ak_failed_at := None\<rparr> else k)" for k
  have d': "d' = (rc_db s)\<lparr>api_keys := map h (api_keys (rc_db s))\<rparr>"
    using mark F by (simp add: mark_limits_synced_def update_where_def h_def [abs_def])
  have kn: "known (rc_db s) p" using F by simp
  have ok: "not_ahead (rc_db s) (h k) \<and> (ak_ref k \<notin> rc_leaving s \<longrightarrow> in_step carried (rc_db s) (rc_gw s) (h k))"
    if k: "k \<in> set (api_keys (rc_db s))" "ak_id k = i" for k
  proof (intro conjI impI)
    show "not_ahead (rc_db s) (h k)" using kn k(2) by (auto simp: not_ahead_def h_def known_def)
    assume "ak_ref k \<notin> rc_leaving s"
    then have "race_key carried s k" using I(5) k(1) by simp
    then have "carried (rc_gw s) (ak_ref k) = Some (profile_limits (Some p))"
      using fl k(2) by (simp add: race_key_def sent_def refused_def)
    then show "in_step carried (rc_db s) (rc_gw s) (h k)"
      using kn k(2) by (auto simp: in_step_def recorded_def h_def known_def)
  qed
  show ?thesis
    by (rule race_settled [OF inv fl sync_marks_inv(1) [OF I(2) mark], of h])
      (use ok in \<open>simp_all add: d'\<close>, simp_all add: h_def)
qed

lemma race_failed:
  assumes inv: "the_inv s" and fl: "rc_flight s i = Some (Refused t)"
    and mark: "mark_limit_sync_failed (ts_key t) reason now (rc_db s) = Inr (u, d')"
  shows "the_inv (s\<lparr>rc_db := d', rc_flight := (rc_flight s)(i := None)\<rparr>)"
proof -
  note I = race_invD [OF inv] and F = race_invD(6) [OF inv fl, unfolded race_flight_def Let_def flight_target.simps]
  define h :: "api_key \<Rightarrow> api_key" where "h k = (if ak_id k = i then k\<lparr>ak_sync_error := reason, ak_failed_at := Some now\<rparr> else k)" for k
  have d': "d' = (rc_db s)\<lparr>api_keys := map h (api_keys (rc_db s))\<rparr>"
    using mark F by (simp add: mark_limit_sync_failed_def update_where_def h_def [abs_def])
  have ok: "not_ahead (rc_db s) (h k) \<and> (ak_ref k \<notin> rc_leaving s \<longrightarrow> in_step carried (rc_db s) (rc_gw s) (h k))"
    if k: "k \<in> set (api_keys (rc_db s))" "ak_id k = i" for k
    using I(4) [OF k(1)] k(2) by (simp add: not_ahead_def in_step_def recorded_def h_def)
  show ?thesis
    by (rule race_settled [OF inv fl sync_marks_inv(2) [OF I(2) mark], of h])
      (use ok in \<open>simp_all add: d'\<close>, simp_all add: h_def)
qed

lemma race_missing:
  assumes inv: "the_inv s" and fl: "rc_flight s i = Some (Refused t)"
    and mark: "mark_key_missing now now2 (ts_key t) ow em detail (rc_db s) = Inr (b, d')"
  shows "the_inv (s\<lparr>rc_db := d', rc_flight := (rc_flight s)(i := None)\<rparr>)"
proof -
  note I = race_invD [OF inv] and F = race_invD(6) [OF inv fl, unfolded race_flight_def Let_def flight_target.simps]
  have i: "ts_key t = i" using F by simp
  define h :: "api_key \<Rightarrow> api_key" where "h k = (if ak_id k = i \<and> ak_missing k = None then k\<lparr>ak_missing := Some now\<rparr> else k)" for k
  have d': "api_keys d' = map h (api_keys (rc_db s)) \<and> profiles d' = profiles (rc_db s) \<and> quotas d' = quotas (rc_db s)
      \<and> next_profile d' = next_profile (rc_db s) \<and> next_key d' = next_key (rc_db s)"
    using mark
  proof (rule mark_key_missing_cases)
    assume "\<exists>e. d' = add_audit e ((rc_db s)\<lparr>api_keys := update_where (\<lambda>k. ak_id k = ts_key t \<and> ak_missing k = None)
        (\<lambda>k. k\<lparr>ak_missing := Some now\<rparr>) (api_keys (rc_db s))\<rparr>)"
    then show ?thesis by (auto simp: add_audit_def update_where_def h_def i cong: if_cong)
  next
    assume a: "\<forall>k \<in> set (api_keys (rc_db s)). ak_id k = ts_key t \<longrightarrow> ak_missing k \<noteq> None" "d' = rc_db s"
    then have "map h (api_keys (rc_db s)) = api_keys (rc_db s)"
      by (intro map_idI) (simp add: h_def i)
    then show ?thesis by (simp add: a(2))
  qed
  have ok: "not_ahead (rc_db s) (h k) \<and> (ak_ref k \<notin> rc_leaving s \<longrightarrow> in_step carried (rc_db s) (rc_gw s) (h k))"
    if k: "k \<in> set (api_keys (rc_db s))" "ak_id k = i" for k
    using I(4) [OF k(1)] k(2) by (auto simp: not_ahead_def in_step_def recorded_def h_def)
  have "schema_inv d'"
    using quiet_db_step [OF quiet_step.mark_missing [OF mark]] I(2) by (rule db_step_inv)
  then show ?thesis
    by (rule race_settled [OF inv fl, of d' h]) (use d' ok in \<open>simp_all\<close>, simp_all add: h_def)
qed

theorem race_step_inv:
  assumes "race_step c (po_keys po) s s'" and "the_inv s"
  shows "the_inv s'"
  using assms
proof (induction rule: race_step.induct)
  case (other_write s d')
  then show ?case by (intro race_other_write)
next
  case (extend now ref expiry s r g')
  then show ?case using race_gw_frame expiry_frame race_invD(1) by metis
next
  case (create pid s p req now res g')
  then show ?case by (intro race_create)
next
  case (create_failed now req s e g')
  then show ?case using race_gw_frame create_err race_invD(1) by metis
next
  case (issue s res p now u expiry k d')
  then show ?case by (intro race_issue)
next
  case (delete ref s g')
  then show ?case by (intro race_deleted)
next
  case (delete_failed ref s e g')
  then show ?case using race_gw_frame delete_frame delete_err race_invD(1) by metis
next
  case (remove i s u d')
  then have "d' = delete_keys (\<lambda>k. ak_id k = i) (rc_db s)" by (simp add: delete_api_key_def)
  then show ?case using race_delete_keys remove.prems delete_keys_inv race_invD(2) by metis
next
  case (load_failed s i t)
  then show ?case using race_refused by fastforce
next
  case (no_label s i t p b e)
  then show ?case using race_refused by fastforce
qed (rule race_pick race_loaded race_push race_same_label race_label race_recorded race_failed race_missing; assumption)+

text \<open>A key that no call is under way for, and that is not due a push, carries its owner's limits.\<close>

lemma race_settled_key:
  assumes inv: "the_inv s" and k: "k \<in> set (api_keys (rc_db s))" "rc_flight s (ak_id k) = None" "ak_ref k \<notin> rc_leaving s"
    and live: "\<not> ak_expires k \<le> now" "ak_missing k = None" "ak_failed_at k = None" "\<not> is_pending now (rc_db s) u k"
  shows "\<exists>row l. effective_profile (rc_db s) u = Some row \<and> carried (rc_gw s) (ak_ref k) = Some l
    \<and> limits_agree l (row_limits (rc_db s) row)"
proof -
  have "\<not> out_of_date (rc_db s) u k" using live by (simp add: is_pending_def)
  then obtain row where row: "effective_profile (rc_db s) u = Some row" "row \<in> set (profiles (rc_db s))" "recorded k row"
    using live(2,3) by (rule up_to_date_recorded)
  have "in_step carried (rc_db s) (rc_gw s) k"
    using race_invD(5) [OF inv k(1,3)] k(2) by (simp add: race_key_def sent_def refused_def)
  then show ?thesis using row unfolding in_step_def by blast
qed

lemma race_reachable:
  assumes "(race_step c (po_keys po))\<^sup>*\<^sup>* s s'" and "the_inv s"
  shows "the_inv s'"
  using assms by (induction rule: rtranclp_induct) (auto intro: race_step_inv)

end

section \<open>Any interleaving\<close>

definition idle_race :: "database \<Rightarrow> 'g \<Rightarrow> 'g race" where
  "idle_race d g = \<lparr>rc_db = d, rc_gw = g, rc_flight = Map.empty, rc_new = Map.empty, rc_leaving = {}\<rparr>"

lemma idle_race_inv:
  assumes "schema_inv d" and "sync_inv ginv issued carried d g"
  shows "race_inv ginv issued carried (idle_race d g)"
  using assms by (simp add: race_inv_def idle_race_def sync_inv_def race_key_def sent_def)

lemma fake_race_inv:
  assumes "(race_step c fake_provider)\<^sup>*\<^sup>* (idle_race d g) s" and "schema_inv d"
    and "sync_inv fake_inv fake_issued fake_carried d g"
  shows "race_inv fake_inv fake_issued fake_carried s"
  using fake_upheld.race_reachable [unfolded fake_portal_simps, OF assms(1) idle_race_inv [OF assms(2,3)]] .

text \<open>
  C2.  However the pushes of the sync, the writes of requests and jobs, and the issue and deletion of keys
  interleave, from a state in which the sync's promise holds: a key that no push is under way for and that
  nobody asked the gateway to delete is expired, marked missing, recorded as failed, still due a push, or
  carries in the gateway the limits of its owner's effective profile.  So a change that overtakes a push is
  never lost: the push is recorded with what it read, and the key stays due.
\<close>

theorem no_change_overtaken:
  assumes "(race_step c fake_provider)\<^sup>*\<^sup>* (idle_race d g) s" and "schema_inv d"
    and "sync_inv fake_inv fake_issued fake_carried d g"
    and "k \<in> set (api_keys (rc_db s))" and "rc_flight s (ak_id k) = None" and "ak_ref k \<notin> rc_leaving s"
  shows "ak_expires k \<le> now \<or> ak_missing k \<noteq> None \<or> ak_failed_at k \<noteq> None \<or> is_pending now (rc_db s) u k
    \<or> (\<exists>row l. effective_profile (rc_db s) u = Some row \<and> fake_carried (rc_gw s) (ak_ref k) = Some l
          \<and> limits_agree l (row_limits (rc_db s) row))"
  using fake_upheld.race_settled_key [OF fake_race_inv [OF assms(1-3)] assms(4-6)] by blast

section \<open>A push on its own\<close>

text \<open>The state with one push in flight; \<open>sync_one\<close> of \<open>LimitSync\<close> is one of the interleavings.\<close>

definition lone :: "database \<Rightarrow> 'g \<Rightarrow> int \<Rightarrow> flight option \<Rightarrow> 'g race" where
  "lone d g i f = (idle_race d g)\<lparr>rc_flight := Map.empty(i := f)\<rparr>"

lemma lone_fields [simp]:
  "rc_db (lone d g i f) = d" "rc_gw (lone d g i f) = g" "rc_flight (lone d g i f) = Map.empty(i := f)"
  "(lone d g i f)\<lparr>rc_flight := Map.empty(i := f')\<rparr> = lone d g i f'"
  "(lone d g i f)\<lparr>rc_flight := Map.empty\<rparr> = lone d g i None"
  "(lone d g i f)\<lparr>rc_db := d'\<rparr> = lone d' g i f"
  "(lone d g i f)\<lparr>rc_gw := g'\<rparr> = lone d g' i f"
  by (simp_all add: lone_def idle_race_def)

lemma lone_refused:
  fixes c :: sync_config and P :: "'g provider"
  assumes "mark_limit_sync_failed (ts_key t) reason now d = Inr (u, d') \<or>
    mark_key_missing now now2 (ts_key t) (ts_user t) (ts_email t) detail d = Inr (b, d')"
  shows "race_step c P (lone d g (ts_key t) (Some (Refused t))) (lone d' g (ts_key t) None)"
  using assms race_step.failed [of "lone d g (ts_key t) (Some (Refused t))" "ts_key t" t reason now u d' c P]
    race_step.missing [of "lone d g (ts_key t) (Some (Refused t))" "ts_key t" t now now2 detail b d' c P]
  by auto

lemma lone_sync_fail:
  fixes c :: sync_config and P :: "'g provider"
  assumes "calm w" and "run_state (sync_fail t r) w = (e, w')"
  shows "race_step c P (lone (wdb w) (wgw w) (ts_key t) (Some (Refused t))) (lone (wdb w') (wgw w') (ts_key t) None)"
proof -
  obtain d' where d': "mark_limit_sync_failed (ts_key t) (shorten_reason r) (wclock w (wtick w)) (wdb w) = Inr ((), d')"
    by (simp add: mark_limit_sync_failed_def)
  then have "wdb w' = d'" "wgw w' = wgw w"
    using assms by (auto simp: sync_fail_def run_store_now run_store calm_def)
  then show ?thesis using d' lone_refused by metis
qed

lemma lone_push_failed:
  fixes c :: sync_config and P :: "'g provider"
  assumes "calm w" and "run_state (push_failed t err) w = (a, w')"
  shows "race_step c P (lone (wdb w) (wgw w) (ts_key t) (Some (Refused t))) (lone (wdb w') (wgw w') (ts_key t) None)"
proof (cases "is_key_not_found err")
  case False
  let ?w = "w\<lparr>wlook := Suc (wlook w)\<rparr>"
  obtain e1 w1 where f: "run_state (sync_fail t (gw_error_text err)) ?w = (e1, w1)" by fastforce
  have "calm ?w" using assms(1) by (simp add: calm_def)
  from lone_sync_fail [OF this f] show ?thesis using assms False f by (auto simp: push_failed_def calm_def)
next
  case True
  obtain b d' where m: "mark_key_missing (wclock w (wtick w)) (wclock w (Suc (wtick w))) (ts_key t) (ts_user t) (ts_email t)
      (''key '' @ ts_prefix t @ '' no longer exists in the gateway ('' @ source_sync @ '')'') (wdb w) = Inr (b, d')"
    using mark_key_missing_total by blast
  have "wdb w' = d'" "wgw w' = wgw w"
    using assms True m
    by (auto simp: push_failed_def calm_def run_store_now2 run_store split: if_splits)
  then show ?thesis using m lone_refused by metis
qed

lemma lone_relabel:
  assumes "run_state (relabel P t) w = (l, w')"
  shows "race_step c P (lone (wdb w) (wgw w) (ts_key t) (Some (Pushed t p)))
    (lone (wdb w') (wgw w') (ts_key t) (Some (refused_if l t (Labelled t p))))"
proof (cases "ts_synced_name t = Some (ts_name t)")
  case True
  then show ?thesis
    using assms race_step.same_label [of "lone (wdb w) (wgw w) (ts_key t) (Some (Pushed t p))" "ts_key t" t p c P]
    by (auto simp: relabel_def refused_if_def)
next
  case False
  let ?b = "wrand w (wdraw w)"
  show ?thesis
  proof (cases "new_alias ?b (ts_sub t) (ts_name t)")
    case (Inl e)
    then show ?thesis
      using assms False
        race_step.no_label [of "lone (wdb w) (wgw w) (ts_key t) (Some (Pushed t p))" "ts_key t" t p ?b e c P]
      by (auto simp: relabel_def refused_if_def)
  next
    case (Inr a)
    obtain r g' where g: "prov_alias P (ts_ref t) a (wgw w) = (r, g')" by fastforce
    then show ?thesis
      using assms False Inr
        race_step.label [of "lone (wdb w) (wgw w) (ts_key t) (Some (Pushed t p))" "ts_key t" t p ?b a P r g' c]
      by (auto simp: relabel_def run_gateway)
  qed
qed

lemma lone_record:
  assumes "calm w" and "run_state (record_sync t p) w = (a, w')"
  shows "race_step c P (lone (wdb w) (wgw w) (ts_key t) (Some (Labelled t p))) (lone (wdb w') (wgw w') (ts_key t) None)"
proof -
  obtain d' where m: "mark_limits_synced (ts_key t) (pf_id p) (pf_rev p) (ts_name t) (ts_email t) (wdb w) = Inr ((), d')"
    by (simp add: mark_limits_synced_def)
  then have "wdb w' = d'" "wgw w' = wgw w" using assms by (auto simp: record_sync_def calm_def run_store)
  then show ?thesis
    using m race_step.recorded [of "lone (wdb w) (wgw w) (ts_key t) (Some (Labelled t p))" "ts_key t" t p "()" d' c P]
    by simp
qed


section \<open>An administrator overtakes a push\<close>

definition demo_target :: sync_target where
  "demo_target = target_of (demo_db None) demo_user (demo_key None)"

definition demo_raised :: database where
  "demo_raised = (case update_profile 100 (demo_profile 1 ''default'' True (Some 20)) [] (demo_db None) of
     Inr (_, d) \<Rightarrow> d | Inl _ \<Rightarrow> demo_db None)"

definition demo_pushed :: fake where
  "demo_pushed = snd (fake_limits (fake_ref 1) (sc_user demo_config ''s'' ''n'' ''e'') demo_limits demo_gateway)"

definition demo_late :: database where
  "demo_late = demo_raised\<lparr>api_keys := [demo_key (Some 1)]\<rparr>"

lemma demo_chosen: "pending_targets 100 (demo_db None) = [demo_target]"
  by code_simp

lemma demo_read: "get_profile 1 (demo_db None) = Inr (demo_profile 1 ''default'' True (Some 10))"
  by code_simp

lemma demo_raise: "\<exists>r. update_profile 100 (demo_profile 1 ''default'' True (Some 20)) [] (demo_db None) = Inr (r, demo_raised)"
proof -
  have "\<not> isl (update_profile 100 (demo_profile 1 ''default'' True (Some 20)) [] (demo_db None))" by code_simp
  then show ?thesis
    by (cases "update_profile 100 (demo_profile 1 ''default'' True (Some 20)) [] (demo_db None)") (auto simp: demo_raised_def)
qed

lemma demo_push:
  "fake_limits (fake_ref 1) (sc_user demo_config ''s'' ''n'' ''e'')
     (profile_limits (Some (demo_profile 1 ''default'' True (Some 10)))) demo_gateway = (None, demo_pushed)"
  by (simp add: demo_pushed_def fake_limits_def demo_defs profile_limits_def windows_of_def)

lemma demo_record:
  "mark_limits_synced 1 1 1 ''n'' ''e'' demo_raised = Inr ((), demo_late)"
proof -
  have "api_keys demo_raised = [demo_key None]" by code_simp
  then show ?thesis by (simp add: mark_limits_synced_def demo_late_def update_where_def demo_key_def)
qed

lemma demo_target_fields [simp]:
  "ts_key demo_target = 1" "ts_ref demo_target = fake_ref 1" "ts_sub demo_target = ''s''" "ts_name demo_target = ''n''"
  "ts_email demo_target = ''e''" "ts_profile demo_target = Some 1" "ts_synced_name demo_target = Some ''n''"
  by (simp_all add: demo_target_def target_of_def demo_user_def demo_key_def effective_id_def default_id_def demo_db_def
      demo_profile_def empty_db_def)

lemma demo_overtaken:
  "(race_step demo_config fake_provider)\<^sup>*\<^sup>* (idle_race (demo_db None) demo_gateway) (lone demo_late demo_pushed 1 None)"
proof -
  let ?R = "race_step demo_config fake_provider" and ?t = demo_target and ?p = "demo_profile 1 ''default'' True (Some 10)"
  let ?s = "\<lambda>d g f. lone d g 1 f"
  have "?R\<^sup>*\<^sup>* (idle_race (demo_db None) demo_gateway) (?s (demo_db None) demo_gateway None)"
    by (simp add: lone_def idle_race_def)
  also have "?R (?s (demo_db None) demo_gateway None) (?s (demo_db None) demo_gateway (Some (Picked ?t)))"
    using race_step.pick [of ?t 100 "?s (demo_db None) demo_gateway None"] demo_chosen by simp
  also (rtranclp.rtrancl_into_rtrancl) have "?R (?s (demo_db None) demo_gateway (Some (Picked ?t))) (?s (demo_db None) demo_gateway (Some (Loaded ?t ?p)))"
    using race_step.load [of "?s (demo_db None) demo_gateway (Some (Picked ?t))" 1 ?t 1 ?p] demo_read by simp
  also (rtranclp.rtrancl_into_rtrancl) have "?R (?s (demo_db None) demo_gateway (Some (Loaded ?t ?p))) (?s demo_raised demo_gateway (Some (Loaded ?t ?p)))"
    using race_step.other_write [of "?s (demo_db None) demo_gateway (Some (Loaded ?t ?p))" demo_raised]
      demo_raise quiet_step.update_profile by fastforce
  also (rtranclp.rtrancl_into_rtrancl) have "?R (?s demo_raised demo_gateway (Some (Loaded ?t ?p))) (?s demo_raised demo_pushed (Some (Pushed ?t ?p)))"
    using race_step.push [of "?s demo_raised demo_gateway (Some (Loaded ?t ?p))" 1 ?t ?p fake_provider demo_config None demo_pushed]
      demo_push by (simp add: refused_if_def fake_provider_def)
  also (rtranclp.rtrancl_into_rtrancl) have "?R (?s demo_raised demo_pushed (Some (Pushed ?t ?p))) (?s demo_raised demo_pushed (Some (Labelled ?t ?p)))"
    using race_step.same_label [of "?s demo_raised demo_pushed (Some (Pushed ?t ?p))" 1 ?t ?p] by simp
  also (rtranclp.rtrancl_into_rtrancl) have "?R (?s demo_raised demo_pushed (Some (Labelled ?t ?p))) (?s demo_late demo_pushed None)"
    using race_step.recorded [of "?s demo_raised demo_pushed (Some (Labelled ?t ?p))" 1 ?t ?p "()" demo_late] demo_record
    by (simp add: demo_profile_def)
  finally (rtranclp.rtrancl_into_rtrancl) show ?thesis .
qed

lemma no_change_overtaken_witness:
  "is_pending 100 demo_late demo_user (demo_key (Some 1))
    \<and> (ak_expires (demo_key (Some 1)) \<le> 100 \<or> ak_missing (demo_key (Some 1)) \<noteq> None \<or> ak_failed_at (demo_key (Some 1)) \<noteq> None
      \<or> is_pending 100 demo_late demo_user (demo_key (Some 1))
      \<or> (\<exists>row l. effective_profile demo_late demo_user = Some row
          \<and> fake_carried demo_pushed (ak_ref (demo_key (Some 1))) = Some l \<and> limits_agree l (row_limits demo_late row)))"
  (is "?p \<and> ?q")
proof
  show ?p by code_simp
  have k: "demo_key (Some 1) \<in> set (api_keys demo_late)" by (simp add: demo_late_def)
  show ?q
    using no_change_overtaken [OF demo_overtaken demo_schema [of None, unfolded demo_world_def world.simps]
        demo_sync_inv [unfolded demo_world_def world.simps], of "demo_key (Some 1)" 100 demo_user] k
    by (simp add: lone_def idle_race_def)
qed


end
