(* ===== verification/Process.thy ===== *)
theory Process
  imports SyncRace
begin

text \<open>
  \<open>cmd/server\<close>: the commands of the binary (\<open>makeadmin.go\<close>, \<open>resync.go\<close>, \<open>database.go\<close>, \<open>healthcheck.go\<close>), the
  start of the server up to the point where it listens (\<open>main.go\<close>), and the loops that wake the jobs.  What
  the operating system answers is a parameter, log lines are left out but for the warnings of the start.
\<close>

section \<open>Commands\<close>

text \<open>The flags; \<open>-make-admin\<close> has no value that means "not given".\<close>

record flags =
  fl_health :: bool
  fl_resync :: bool
  fl_admin :: "int option"

datatype mode = HealthCheck | ResyncLimits | MakeAdmin int | Serve

definition choose_mode :: "flags \<Rightarrow> mode" where
  "choose_mode f =
     (if fl_health f then HealthCheck
      else if fl_resync f then ResyncLimits
      else case fl_admin f of Some i \<Rightarrow> MakeAdmin i | None \<Rightarrow> Serve)"

text \<open>\<open>checkHealth\<close>: what a GET of the address answers is a parameter, as status code and status.\<close>

definition check_health :: "(string \<Rightarrow> string + (nat \<times> string)) \<Rightarrow> string \<Rightarrow> string option" where
  "check_health get url =
     (case get url of
        Inl e \<Rightarrow> Some e
      | Inr (code, status) \<Rightarrow> if code \<noteq> 200 then Some (url @ '': '' @ status) else None)"

definition probe_exit :: "(string \<Rightarrow> string) \<Rightarrow> (string \<Rightarrow> string + (nat \<times> string)) \<Rightarrow> nat" where
  "probe_exit env get =
     (case healthcheck_url (listen_addr env) of
        None \<Rightarrow> 1
      | Some url \<Rightarrow> if check_health get url = None then 0 else 1)"

text \<open>What \<open>os.Stat\<close> says of the database file, and whether opening it fails.\<close>

datatype stat_result = Present | Absent | StatError string

record db_file =
  df_path :: string
  df_stat :: stat_result
  df_open :: "string option"

definition require_database :: "db_file \<Rightarrow> string option" where
  "require_database f =
     (case df_stat f of
        Present \<Rightarrow> None
      | Absent \<Rightarrow> Some (''no database at '' @ df_path f @ ''; set DB_PATH to the server's database'')
      | StatError e \<Rightarrow> Some e)"

definition open_existing :: "db_file \<Rightarrow> string option" where
  "open_existing f = (case require_database f of Some e \<Rightarrow> Some e | None \<Rightarrow> df_open f)"

definition describe_user :: "user \<Rightarrow> string" where
  "describe_user u = ''Account '' @ format_int (us_id u) @ '' ('' @ us_name u @ '', '' @ us_email u @ '')''"

definition command_line :: string where "command_line = ''command line''"

text \<open>\<open>makeAdmin\<close>: an error or the line printed.\<close>

definition promote :: "user \<Rightarrow> ('g, string + string) act" where
  "promote u = do {
     r \<leftarrow> store_now (\<lambda>t. set_user_admin t (us_id u) True);
     case r of
       Inl e \<Rightarrow> State_Monad.return (Inl (db_error_text e))
     | Inr _ \<Rightarrow> do {
         _ \<leftarrow> store_now (\<lambda>t. record_audit t \<lparr>au_id = 0, au_created = 0, au_action = audit_admin_granted,
                au_actor = command_line, au_subject = us_email u, au_subject_id = Some (us_id u),
                au_detail = ''admin granted''\<rparr>);
         State_Monad.return (Inr (describe_user u @ '' is now an admin. It takes effect on their next request.'')) } }"

definition make_admin :: "db_file \<Rightarrow> bool \<Rightarrow> int \<Rightarrow> ('g, string + string) act" where
  "make_admin f admin_group i =
     (if admin_group then
        State_Monad.return (Inl ''ADMIN_GROUP is set, so admins are the members of that group in the login system; add the person there'')
      else if i \<le> 0 then
        State_Monad.return (Inl (format_int i @ '' is not an account ID; the ID is shown on the person's account settings page''))
      else case open_existing f of
        Some e \<Rightarrow> State_Monad.return (Inl e)
      | None \<Rightarrow> do {
          r \<leftarrow> query (get_user_by_id i);
          case r of
            Inl NoRows \<Rightarrow> State_Monad.return (Inl (''no account with ID '' @ format_int i @
              ''; the person has to log in once first, and the ID is shown on their account settings page''))
          | Inl e \<Rightarrow> State_Monad.return (Inl (db_error_text e))
          | Inr u \<Rightarrow>
              if us_admin u then State_Monad.return (Inr (describe_user u @ '' is already an admin.''))
              else promote u })"

text \<open>\<open>resyncLimits\<close>.\<close>

definition resync_limits :: "db_file \<Rightarrow> ('g, string + string) act" where
  "resync_limits f =
     (case open_existing f of
        Some e \<Rightarrow> State_Monad.return (Inl e)
      | None \<Rightarrow> do {
          r \<leftarrow> store mark_all_limits_pending;
          State_Monad.return (case r of
              Inl e \<Rightarrow> Inl (''mark keys for a resync (has this version of the server run once, to migrate the database?): '' @
                        db_error_text e)
            | Inr n \<Rightarrow> Inr (''Marked '' @ format_int (int n) @ '' '' @ (if n = 1 then ''key'' else ''keys'') @
                '' for a limit resync. The running server pushes the limits within LIMIT_SYNC_INTERVAL; the admin panel shows the progress.'')) })"

section \<open>The start of the server\<close>

text \<open>What the start finds outside the database: every call that may fail and the parts made elsewhere.\<close>

record 'g outside =
  os_env :: "string \<Rightarrow> string"
  os_files :: "string \<Rightarrow> string + string"
  os_open :: "string option"
  os_migrate :: "string option"
  os_idp :: "config \<Rightarrow> string + idp"
  os_mac :: "string \<Rightarrow> string \<Rightarrow> string"
  os_sha :: "string \<Rightarrow> string"
  os_gateway :: "config \<Rightarrow> 'g provider"
  os_reporter :: "config \<Rightarrow> 'g reporter option"
  os_lister :: "config \<Rightarrow> 'g model_lister option"
  os_embedder :: "config \<Rightarrow> 'g embedding_lister option"
  os_pricing :: "config \<Rightarrow> 'g \<Rightarrow> (gw_error + string list) \<times> 'g"
  os_relay :: "config \<Rightarrow> notifier"
  os_letter :: "string \<Rightarrow> bool"

text \<open>What runs once the start is over; \<open>sv_warned\<close> are the settings, models and gaps it warned of.\<close>

record 'g server =
  sv_portal :: "'g portal"
  sv_syncer :: sync_config
  sv_interval :: duration
  sv_reminder :: reminder
  sv_notifier :: notifier
  sv_gauges :: "(nat \<times> nat) option"
  sv_warned :: "string list"

text \<open>The part at which \<open>fatal\<close> ends the process.\<close>

datatype fatal_at = AtConfig config_error | AtDatabase string | AtMigrations string | AtSeed db_error | AtIdp string | AtCsrf string

definition admin_warning :: "config \<Rightarrow> db_error + nat \<Rightarrow> string list" where
  "admin_warning c r =
     (if admin_from_groups c then []
      else case r of Inr n \<Rightarrow> if n = 0 then [''no admin''] else [] | Inl _ \<Rightarrow> [])"

definition price_warning :: "gw_error + string list \<Rightarrow> string list" where
  "price_warning r = (case r of Inl _ \<Rightarrow> [''pricing''] | Inr ms \<Rightarrow> ms)"

definition make_syncer :: "config \<Rightarrow> sync_config" where
  "make_syncer c = with_missing_grace (cf_missing_grace c) (new_syncer (litellm_user c) (cf_workers c))"

definition gauge_days :: int where "gauge_days = 7"

definition refresh_gauges :: "('g, (nat \<times> nat) option) act" where
  "refresh_gauges = do {
     now \<leftarrow> time_now;
     r \<leftarrow> select (count_api_keys now gauge_days);
     State_Monad.return (case r of Inl _ \<Rightarrow> None | Inr g \<Rightarrow> Some g) }"

text \<open>\<open>NewProvider\<close> to the start of the jobs: the parts put together.\<close>

definition assemble :: "'g outside \<Rightarrow> config \<Rightarrow> string list \<Rightarrow> ('g, fatal_at + 'g server) act" where
  "assemble o' c warned =
     (case os_idp o' c of
        Inl e \<Rightarrow> State_Monad.return (Inl (AtIdp e))
      | Inr i \<Rightarrow> do {
          cs \<leftarrow> new_csrf (os_mac o') (os_sha o') (cf_cookie_secure c) (cf_client_secret c);
          case cs of
            Inl e \<Rightarrow> State_Monad.return (Inl (AtCsrf e))
          | Inr csrf \<Rightarrow> do {
              prices \<leftarrow> gateway (os_pricing o' c);
              gauges \<leftarrow> refresh_gauges;
              State_Monad.return (Inr
                \<lparr>sv_portal = new_portal c (os_gateway o' c) (os_reporter o' c) (os_lister o' c) (os_embedder o' c)
                   csrf (new_manager (cf_session c) (cf_cookie_secure c)) i True (os_letter o'),
                 sv_syncer = make_syncer c,
                 sv_interval = cf_sync_interval c,
                 sv_reminder = new_reminder (cf_frontend c) [],
                 sv_notifier = (if cf_smtp_host c \<noteq> [] then os_relay o' c else discard),
                 sv_gauges = gauges,
                 sv_warned = warned @ price_warning prices
                   @ (if cf_metrics_token c = [] then [''METRICS_TOKEN''] else [])
                   @ (if cf_smtp_host c = [] then [''SMTP_HOST''] else [])\<rparr>) } })"

definition start_up :: "'g outside \<Rightarrow> ('g, fatal_at + 'g server) act" where
  "start_up o' =
     (case load_config (os_env o') (os_files o') of
        Inl e \<Rightarrow> State_Monad.return (Inl (AtConfig e))
      | Inr c \<Rightarrow>
     (case os_open o' of
        Some e \<Rightarrow> State_Monad.return (Inl (AtDatabase e))
      | None \<Rightarrow>
     (case os_migrate o' of
        Some e \<Rightarrow> State_Monad.return (Inl (AtMigrations e))
      | None \<Rightarrow> do {
          seeded \<leftarrow> store_now seed_default_profile;
          case seeded of
            Inl e \<Rightarrow> State_Monad.return (Inl (AtSeed e))
          | Inr _ \<Rightarrow> do {
              _ \<leftarrow> store_now delete_expired_sessions;
              admins \<leftarrow> (if admin_from_groups c then State_Monad.return (Inr 0) else select count_admins);
              assemble o' c (map fst (cf_obsolete c) @ admin_warning c admins) } })))"

section \<open>What wakes the jobs\<close>

text \<open>
  The loops of \<open>Start\<close>: a run at the beginning, then one at each tick of the timer, and for the limit sync at
  each kick, until the context ends.  The list is what the \<open>select\<close> of the loop picks, in order.
\<close>

datatype wake = Tick | Kicked | Done

fun job_loop :: "('g, unit) act \<Rightarrow> wake list \<Rightarrow> ('g, unit) act" where
  "job_loop job [] = job"
| "job_loop job (x # ws) = do { _ \<leftarrow> job; if x = Done then State_Monad.return () else job_loop job ws }"

definition sync_start :: "nat \<Rightarrow> sync_config \<Rightarrow> 'g provider \<Rightarrow> wake list \<Rightarrow> ('g, unit) act" where
  "sync_start n c P = job_loop (do { _ \<leftarrow> sync_run n c P; State_Monad.return () })"

definition expiry_start :: "'g provider \<Rightarrow> bool \<Rightarrow> wake list \<Rightarrow> ('g, unit) act" where
  "expiry_start P kicks = job_loop (do { _ \<leftarrow> expiry_run P kicks; State_Monad.return () })"

definition reminder_start :: "reminder \<Rightarrow> notifier \<Rightarrow> wake list \<Rightarrow> ('g, unit) act" where
  "reminder_start r n = job_loop (do { _ \<leftarrow> reminder_run r n; State_Monad.return () })"

text \<open>
  The loop of the sync next to the callers of \<open>Kick\<close>, with the channel of one slot: where the loop is, and
  what can happen.
\<close>

datatype loop_phase = AtRun | InRun | Waiting | Ended

datatype loop_event = KickCall | RunBegins | RunEnds time | WokenByKick | WokenByTick | ContextDone

fun loop_step :: "loop_event \<Rightarrow> loop_phase \<times> sync_state \<Rightarrow> (loop_phase \<times> sync_state) option" where
  "loop_step KickCall (p, s) = Some (p, kick_sync s)"
| "loop_step RunBegins (p, s) = (if p = AtRun then Some (InRun, begin_run s) else None)"
| "loop_step (RunEnds t) (p, s) = (if p = InRun then Some (Waiting, finish_run t s) else None)"
| "loop_step WokenByKick (p, s) =
     (if p = Waiting \<and> sy_kicked s then Some (AtRun, s\<lparr>sy_kicked := False\<rparr>) else None)"
| "loop_step WokenByTick (p, s) = (if p = Waiting then Some (AtRun, s) else None)"
| "loop_step ContextDone (p, s) = (if p = Waiting then Some (Ended, s) else None)"

fun loop_steps :: "loop_event list \<Rightarrow> loop_phase \<times> sync_state \<Rightarrow> (loop_phase \<times> sync_state) option" where
  "loop_steps [] x = Some x"
| "loop_steps (e # es) x = (case loop_step e x of None \<Rightarrow> None | Some y \<Rightarrow> loop_steps es y)"

definition loop_start :: "loop_phase \<times> sync_state" where
  "loop_start = (AtRun, \<lparr>sy_running = False, sy_finished = None, sy_kicked = False\<rparr>)"

text \<open>The kicks since the last run began.\<close>

definition unanswered :: "loop_event list \<Rightarrow> bool" where
  "unanswered es \<longleftrightarrow> KickCall \<in> set (takeWhile (\<lambda>e. e \<noteq> RunBegins) (rev es))"

lemma loop_steps_append: "loop_steps (es @ fs) x = (case loop_steps es x of None \<Rightarrow> None | Some y \<Rightarrow> loop_steps fs y)"
  by (induction es arbitrary: x) (auto split: option.split)

lemma unanswered_snoc:
  "unanswered (es @ [e]) \<longleftrightarrow> e = KickCall \<or> e \<noteq> RunBegins \<and> unanswered es"
  by (auto simp: unanswered_def)

lemma kick_kept:
  assumes "loop_steps es loop_start = Some (p, s)" and "unanswered es"
  shows "sy_kicked s \<or> p = AtRun"
  using assms
proof (induction es arbitrary: p s rule: rev_induct)
  case Nil
  then show ?case by (simp add: unanswered_def)
next
  case (snoc e es)
  obtain q r where qr: "loop_steps es loop_start = Some (q, r)" "loop_step e (q, r) = Some (p, s)"
    using snoc.prems(1) by (auto simp: loop_steps_append split: option.splits)
  show ?case
  proof (cases "e = KickCall")
    case True
    then show ?thesis using qr(2) by (auto simp: kick_sync_def split: if_splits)
  next
    case False
    then have "sy_kicked r \<or> q = AtRun" "e \<noteq> RunBegins" using snoc qr(1) by (auto simp: unanswered_snoc)
    then show ?thesis
      using qr(2) False by (cases e) (auto simp: finish_run_def split: if_splits)
  qed
qed

text \<open>
  C14.  No kick of the sync is lost: after any sequence of events of the loop and its callers in which
  somebody kicked since the last run began, and unless the context ended, a run can begin with no further
  kick and no tick of the timer: at once, after taking the kick from the channel, or after that once the
  present run has ended.
\<close>

theorem kicks_answered:
  assumes "loop_steps es loop_start = Some (p, s)" and "unanswered es" and "p \<noteq> Ended"
  shows "\<exists>s'. loop_steps (es @ [RunBegins]) loop_start = Some (InRun, s')
    \<or> loop_steps (es @ [WokenByKick, RunBegins]) loop_start = Some (InRun, s')
    \<or> loop_steps (es @ [RunEnds t, WokenByKick, RunBegins]) loop_start = Some (InRun, s')"
  using kick_kept [OF assms(1,2)] assms(1,3)
  by (cases p) (auto simp: loop_steps_append finish_run_def)

lemma kicks_answered_witness:
  "\<exists>s'. loop_steps ([RunBegins, KickCall, RunEnds 5, WokenByTick, RunBegins, KickCall] @ [RunBegins]) loop_start = Some (InRun, s')
    \<or> loop_steps ([RunBegins, KickCall, RunEnds 5, WokenByTick, RunBegins, KickCall] @ [WokenByKick, RunBegins]) loop_start = Some (InRun, s')
    \<or> loop_steps ([RunBegins, KickCall, RunEnds 5, WokenByTick, RunBegins, KickCall] @ [RunEnds 9, WokenByKick, RunBegins]) loop_start
        = Some (InRun, s')"
  by (rule kicks_answered [of "[RunBegins, KickCall, RunEnds 5, WokenByTick, RunBegins, KickCall]" InRun
        "\<lparr>sy_running = True, sy_finished = Some 5, sy_kicked = True\<rparr>"])
    (simp_all add: loop_start_def kick_sync_def begin_run_def finish_run_def unanswered_def)

section \<open>What the commands and the start do\<close>

text \<open>\<open>-make-admin\<close>: it changes at most the flag of that account, and when it reports success the account has it.\<close>

lemma promote_outcome:
  assumes "run_state (promote u) w = (r, w')"
  shows "users (wdb w') = users (wdb w) \<and> (\<exists>e. r = Inl e)
    \<or> (\<exists>t. users (wdb w') = update_where (\<lambda>x. us_id x = us_id u) (\<lambda>x. x\<lparr>us_admin := True, us_updated := t\<rparr>) (users (wdb w)))
       \<and> (\<exists>out. r = Inr out)"
proof -
  obtain r1 w1 where set: "run_state (store_now (\<lambda>t. set_user_admin t (us_id u) True)) w = (r1, w1)" by fastforce
  show ?thesis
  proof (cases r1)
    case (Inl e)
    then have "users (wdb w1) = users (wdb w)"
      using set by (auto simp: run_store_now run_store split: option.splits sum.splits)
    then show ?thesis using assms set Inl by (auto simp: promote_def)
  next
    case (Inr x)
    then have u: "\<exists>t. users (wdb w1) = update_where (\<lambda>x. us_id x = us_id u)
        (\<lambda>x. x\<lparr>us_admin := True, us_updated := t\<rparr>) (users (wdb w))"
      using set by (auto simp: run_store_now run_store set_user_admin_def split: option.splits sum.splits if_splits)
    obtain r2 w2 where audit: "run_state (store_now (\<lambda>t. record_audit t \<lparr>au_id = 0, au_created = 0, au_action = audit_admin_granted,
                au_actor = command_line, au_subject = us_email u, au_subject_id = Some (us_id u),
                au_detail = ''admin granted''\<rparr>)) w1 = (r2, w2)" by fastforce
    have "users (wdb w2) = users (wdb w1)"
      using audit by (auto simp: run_store_now run_store record_audit_def insert_audit_def add_audit_def
          split: option.splits sum.splits)
    then show ?thesis using assms set Inr u audit by (auto simp: promote_def)
  qed
qed

text \<open>The start: a server that gets as far as listening has a store in order, with a default profile.\<close>

lemma assemble_db: "wdb (snd (run_state (assemble o' c ws) w)) = wdb w"
  by (auto simp: assemble_def new_csrf_def refresh_gauges_def select_def run_query run_gateway
      split: sum.split prod.split if_split)

lemma assemble_made:
  assumes "run_state (assemble o' c ws) w = (Inr sv, w')"
  shows "po_cfg (sv_portal sv) = c \<and> sv_syncer sv = make_syncer c"
  using assms
  by (auto simp: assemble_def refresh_gauges_def select_def run_query run_gateway new_portal_def
      split: sum.splits prod.splits)

lemma clean_sessions:
  assumes "run_state (store_now delete_expired_sessions) w = (r, w1)" and "schema_inv (wdb w)"
  shows "schema_inv (wdb w1) \<and> profiles (wdb w1) = profiles (wdb w)"
proof -
  obtain d where d: "delete_expired_sessions (wclock w (wtick w)) (wdb w) = Inr ((), d)"
    by (simp add: delete_expired_sessions_def)
  have "wdb w1 = d \<or> wdb w1 = wdb w" using assms(1) d by (auto simp: run_store_now run_store split: option.splits)
  moreover have "schema_inv d" using db_step_inv [OF db_step.delete_expired [OF d] assms(2)] .
  moreover have "profiles d = profiles (wdb w)" using d by (auto simp: delete_expired_sessions_def)
  ultimately show ?thesis using assms(2) by auto
qed

lemma start_up_ready:
  assumes "run_state (start_up o') w = (Inr sv, w')" and "schema_inv (wdb w)"
  shows "schema_inv (wdb w') \<and> default_count (wdb w') = 1
    \<and> load_config (os_env o') (os_files o') = Inr (po_cfg (sv_portal sv)) \<and> sv_syncer sv = make_syncer (po_cfg (sv_portal sv))"
proof -
  obtain c where c: "load_config (os_env o') (os_files o') = Inr c" "os_open o' = None" "os_migrate o' = None"
    using assms(1) by (cases "load_config (os_env o') (os_files o')"; cases "os_open o'"; cases "os_migrate o'")
      (auto simp: start_up_def)
  obtain r1 w1 where seed: "run_state (store_now seed_default_profile) w = (r1, w1)" by fastforce
  obtain r2 w2 where clean: "run_state (store_now delete_expired_sessions) w1 = (r2, w2)" by fastforce
  obtain ok: "r1 = Inr ()" using assms(1) c seed by (cases r1) (auto simp: start_up_def)
  have s1: "schema_inv (wdb w1)" "has_default (profiles (wdb w1))"
    using seed ok assms(2) seed_default_profile_inv seed_default_profile_default
    by (auto simp: run_store_now run_store split: option.splits sum.splits)
  have s2: "schema_inv (wdb w2)" "has_default (profiles (wdb w2))"
    using clean_sessions [OF clean s1(1)] s1(2) by simp_all
  define admins :: "('a, db_error + nat) act" where
    "admins = (if admin_from_groups c then State_Monad.return (Inr 0) else select count_admins)"
  obtain r3 w3 where adm: "run_state admins w2 = (r3, w3)" by fastforce
  then have "wdb w3 = wdb w2" by (auto simp: admins_def select_def run_query split: if_splits)
  have asm: "run_state (assemble o' c (map fst (cf_obsolete c) @ admin_warning c r3)) w3 = (Inr sv, w')"
    using assms(1) c seed ok clean adm by (simp add: start_up_def admins_def)
  then have "wdb w' = wdb w3" using assemble_db [of o' c _ w3] by (metis snd_conv)
  with \<open>wdb w3 = wdb w2\<close> s2 have "schema_inv (wdb w')" "has_default (profiles (wdb w'))" by simp_all
  then show ?thesis
    using schema_invD(1) default_count_1 assemble_made [OF asm] c(1) by blast
qed

section \<open>Undoing changes made in the gateway\<close>

lemma resync_marks:
  assumes "run_state (resync_limits f) w = (Inr out, w1)"
  shows "wdb w1 = (wdb w)\<lparr>api_keys := map (\<lambda>k. k\<lparr>ak_synced_rev := None\<rparr>) (api_keys (wdb w))\<rparr> \<and> wgw w1 = wgw w
    \<and> wclock w1 = wclock w \<and> wfault w1 = wfault w \<and> wcancel w1 = wcancel w"
  using assms
  by (auto simp: resync_limits_def mark_all_limits_pending_def update_where_def run_store
      split: option.splits sum.splits)

lemma resync_inv:
  assumes "schema_inv d" and "ginv g" and "uniq_on ak_ref (api_keys d)"
    and "\<And>k. k \<in> set (api_keys d) \<Longrightarrow> issued g (ak_ref k) \<and> not_ahead d k"
    and "d' = d\<lparr>api_keys := map (\<lambda>k. k\<lparr>ak_synced_rev := None\<rparr>) (api_keys d)\<rparr>"
  shows "sync_inv ginv issued carried d' g"
  using assms(2-4)
  by (auto simp: sync_inv_def assms(5) uniq_on_def comp_def not_ahead_def in_step_def recorded_def)

text \<open>
  C12.  A resync repairs what was changed behind the portal's back: whatever limits the keys carry in the
  gateway and whatever the portal has recorded of them, after \<open>-resync-limits\<close> and a run of the sync that
  ended without an error every key is expired, marked missing, recorded as failed, or carries the limits
  of its owner's effective profile.
\<close>

theorem resync_repairs:
  assumes "run_state (resync_limits f) w = (Inr out, w1)"
    and "run_state (sync_run n c fake_provider) w1 = (Some (res, None), w')" and "calm w" and "forward w"
    and "schema_inv (wdb w)" and "fake_inv (wgw w)" and "uniq_on ak_ref (api_keys (wdb w))"
    and "\<forall>k \<in> set (api_keys (wdb w)). fake_issued (wgw w) (ak_ref k) \<and> not_ahead (wdb w) k"
    and "k \<in> set (api_keys (wdb w'))" and "find (\<lambda>u. us_id u = ak_user k) (users (wdb w')) = Some u"
  shows "\<exists>m \<ge> wtick w1. ak_expires k \<le> wclock w1 m \<or> ak_missing k \<noteq> None \<or> ak_failed_at k \<noteq> None
    \<or> (\<exists>row l. effective_profile (wdb w') u = Some row \<and> fake_carried (wgw w') (ak_ref k) = Some l
          \<and> limits_agree l (row_limits (wdb w') row))"
proof -
  note m = resync_marks [OF assms(1)]
  have "mark_all_limits_pending (wdb w) = Inr (length (api_keys (wdb w)), wdb w1)"
    using m by (simp add: mark_all_limits_pending_def update_where_def)
  then have "schema_inv (wdb w1)" using sync_marks_inv(3) [OF assms(5)] by blast
  moreover have "sync_inv fake_inv fake_issued fake_carried (wdb w1) (wgw w1)"
    using assms(8) m by (intro resync_inv [OF assms(5) _ assms(7)]) (simp_all add: assms(6))
  moreover have "calm w1" "forward w1" using assms(3,4) m by (simp_all add: calm_def forward_def)
  ultimately show ?thesis using assms(2,9,10) by (intro fk.sync_run_enforces)
qed

text \<open>The key of the small portal was set to no limits in the gateway, and its row says that it is in step.\<close>

definition tampered_world :: "fake world" where
  "tampered_world = (demo_world (Some 1))\<lparr>wgw := demo_gateway\<lparr>fk_limits_by_ref :=
     [(fake_ref 1, \<lparr>lim_models = [], lim_tpm = None, lim_rpm = None, lim_quotas = []\<rparr>)]\<rparr>\<rparr>"

definition demo_file :: db_file where
  "demo_file = \<lparr>df_path = ''data.db'', df_stat = Present, df_open = None\<rparr>"

definition marked_world :: "fake world" where
  "marked_world = snd (run_state (resync_limits demo_file) tampered_world)"

definition repaired_world :: "fake world" where
  "repaired_world = snd (run_state (sync_run 2 demo_config fake_provider) marked_world)"

lemma tampered_runs:
  "\<exists>out. run_state (resync_limits demo_file) tampered_world = (Inr out, marked_world)"
  "fst (run_state (sync_run 2 demo_config fake_provider) marked_world)
     = Some (\<lparr>rr_synced = 1, rr_failed = 0, rr_marked = 0, rr_found = 0, rr_removed = 0\<rparr>, None)"
  "api_keys (wdb repaired_world) = [demo_key (Some 1)]" "users (wdb repaired_world) = [demo_user]"
proof -
  have "run_state (resync_limits demo_file) tampered_world
      = (fst (run_state (resync_limits demo_file) tampered_world), marked_world)"
    by (simp add: marked_world_def)
  moreover have "\<not> isl (fst (run_state (resync_limits demo_file) tampered_world))"
    by (simp add: resync_limits_def open_existing_def require_database_def demo_file_def tampered_world_def demo_world_def
        run_store mark_all_limits_pending_def)
  ultimately show "\<exists>out. run_state (resync_limits demo_file) tampered_world = (Inr out, marked_world)"
    by (cases "fst (run_state (resync_limits demo_file) tampered_world)") auto
  show "fst (run_state (sync_run 2 demo_config fake_provider) marked_world)
     = Some (\<lparr>rr_synced = 1, rr_failed = 0, rr_marked = 0, rr_found = 0, rr_removed = 0\<rparr>, None)" by code_simp
  show "api_keys (wdb repaired_world) = [demo_key (Some 1)]" "users (wdb repaired_world) = [demo_user]" by code_simp+
qed

lemma resync_repairs_witness:
  "\<exists>m \<ge> wtick marked_world. ak_expires (demo_key (Some 1)) \<le> wclock marked_world m
    \<or> ak_missing (demo_key (Some 1)) \<noteq> None \<or> ak_failed_at (demo_key (Some 1)) \<noteq> None
    \<or> (\<exists>row l. effective_profile (wdb repaired_world) demo_user = Some row
          \<and> fake_carried (wgw repaired_world) (ak_ref (demo_key (Some 1))) = Some l
          \<and> limits_agree l (row_limits (wdb repaired_world) row))"
proof -
  obtain out where r: "run_state (resync_limits demo_file) tampered_world = (Inr out, marked_world)"
    using tampered_runs(1) by blast
  have s: "run_state (sync_run 2 demo_config fake_provider) marked_world
      = (Some (\<lparr>rr_synced = 1, rr_failed = 0, rr_marked = 0, rr_found = 0, rr_removed = 0\<rparr>, None), repaired_world)"
    using tampered_runs(2) by (simp add: repaired_world_def prod_eq_iff)
  have w: "calm tampered_world" "forward tampered_world" "schema_inv (wdb tampered_world)"
    using demo_calm(1,2) [of "Some 1"] demo_schema [of "Some 1"]
    by (simp_all add: tampered_world_def calm_def forward_def)
  have g: "fake_inv (wgw tampered_world)" "uniq_on ak_ref (api_keys (wdb tampered_world))"
      "\<forall>k \<in> set (api_keys (wdb tampered_world)). fake_issued (wgw tampered_world) (ak_ref k) \<and> not_ahead (wdb tampered_world) k"
    by (simp_all add: tampered_world_def demo_defs fake_inv_def fake_issued_def not_ahead_def)
  show ?thesis
    by (rule resync_repairs [OF r s w g]) (simp_all add: tampered_runs, simp add: demo_key_def demo_user_def)
qed

end
