(* ===== verification/Lifecycle.thy ===== *)
theory Lifecycle
  imports Process
begin

text \<open>
  The rest of \<open>cmd/server/main.go\<close>: the level of the log, the settings of the HTTP server, the hourly cleanup, and
  the life of the process from the moment it serves to its exit, as a step relation: the goroutines of the jobs,
  the requests in flight, and what the main goroutine tells and awaits in which order.
\<close>

section \<open>The log and the server\<close>

text \<open>\<open>slog.Level.UnmarshalText\<close>: a name in either case, and an offset behind it.\<close>

definition level_name :: "string \<Rightarrow> int option" where
  "level_name s =
     (if equal_fold s ''DEBUG'' then Some (-4) else if equal_fold s ''INFO'' then Some 0
      else if equal_fold s ''WARN'' then Some 4 else if equal_fold s ''ERROR'' then Some 8 else None)"

definition parse_level :: "string \<Rightarrow> int option" where
  "parse_level s =
     (let name = takeWhile (\<lambda>c. c \<noteq> CHR ''+'' \<and> c \<noteq> CHR ''-'') s;
          rest = drop (length name) s
      in case (if rest = [] then Some 0 else parse_int64 rest) of
           None \<Rightarrow> None
         | Some off \<Rightarrow> map_option (\<lambda>l. l + off) (level_name name))"

text \<open>The level, and whether the setting is complained about.\<close>

definition log_level :: "(string \<Rightarrow> string) \<Rightarrow> int \<times> bool" where
  "log_level env = (case parse_level (env ''LOG_LEVEL'') of Some l \<Rightarrow> (l, False) | None \<Rightarrow> (0, env ''LOG_LEVEL'' \<noteq> []))"

record http_server =
  hs_addr :: string
  hs_header_timeout :: duration
  hs_read_timeout :: duration
  hs_write_timeout :: duration
  hs_idle_timeout :: duration

definition make_server :: "config \<Rightarrow> http_server" where
  "make_server c = \<lparr>hs_addr = cf_listen c, hs_header_timeout = 10 * second, hs_read_timeout = 30 * second,
     hs_write_timeout = 60 * second, hs_idle_timeout = 120 * second\<rparr>"

definition reminder_every :: duration where "reminder_every = 6 * hour"
definition expiry_every :: duration where "expiry_every = 15 * minute"
definition drain_timeout :: duration where "drain_timeout = 20 * second"

text \<open>What the cleanup does at each tick of the hour; nothing before the first one.\<close>

definition cleanup :: "('g, (nat \<times> nat) option) act" where
  "cleanup = do { _ \<leftarrow> store_now delete_expired_sessions; refresh_gauges }"

primrec cleanup_loop :: "nat \<Rightarrow> ('g, unit) act" where
  "cleanup_loop 0 = State_Monad.return ()"
| "cleanup_loop (Suc n) = do { _ \<leftarrow> cleanup; cleanup_loop n }"

lemma cleanup_steps [steps]: "db_steps cleanup" "db_steps (cleanup_loop n)"
proof -
  show 1: "db_steps cleanup" unfolding cleanup_def refresh_gauges_def
    by (intro steps db_steps_store_now) (erule db_step.delete_expired)
  show "db_steps (cleanup_loop n)" by (induction n) (auto intro: steps 1)
qed

section \<open>The life of the process\<close>

datatype job = Cleanup | Reminders | Expiry | Sync

text \<open>A job waits in its \<open>select\<close>, is in a run, or its goroutine has returned.\<close>

datatype job_state = JobWaits | JobRuns | JobGone

text \<open>
  Where the main goroutine is: in the \<open>select\<close> on the signal, telling the jobs to stop, in \<open>srv.Shutdown\<close>, past
  it, at \<open><-syncDone\<close>, or past the end with an exit code.
\<close>

datatype main_at = Serving | Stopping nat | Draining | Drained | AwaitingSync | Exited nat

record process =
  ps_main :: main_at
  ps_job :: "job \<Rightarrow> job_state"
  ps_told :: "job \<Rightarrow> bool"
  ps_listening :: bool
  ps_requests :: nat
  ps_timed_out :: bool
  ps_db :: bool \<comment> \<open>open\<close>

definition started :: process where
  "started = \<lparr>ps_main = Serving, ps_job = (\<lambda>j. if j = Cleanup then JobWaits else JobRuns), ps_told = (\<lambda>_. False),
     ps_listening = True, ps_requests = 0, ps_timed_out = False, ps_db = True\<rparr>"

definition alive :: "process \<Rightarrow> bool" where
  "alive s \<longleftrightarrow> (case ps_main s of Exited _ \<Rightarrow> False | _ \<Rightarrow> True)"

definition stop_order :: "job list" where "stop_order = [Cleanup, Reminders, Expiry]"

text \<open>
  A \<open>select\<close> may pick the timer of a job that has already been told to stop.  A failure of the listener ends the
  process at once (\<open>os.Exit\<close>, which runs nothing that was deferred).  The database is closed on return from
  \<open>main\<close>, which is the exit with code 0.
\<close>

inductive process_step :: "process \<Rightarrow> process \<Rightarrow> bool" where
  arrives: "alive s \<Longrightarrow> ps_listening s \<Longrightarrow> process_step s (s\<lparr>ps_requests := ps_requests s + 1\<rparr>)"
| answered: "alive s \<Longrightarrow> ps_requests s > 0 \<Longrightarrow> process_step s (s\<lparr>ps_requests := ps_requests s - 1\<rparr>)"
| wakes: "alive s \<Longrightarrow> ps_job s j = JobWaits \<Longrightarrow> process_step s (s\<lparr>ps_job := (ps_job s)(j := JobRuns)\<rparr>)"
| rests: "alive s \<Longrightarrow> ps_job s j = JobRuns \<Longrightarrow> process_step s (s\<lparr>ps_job := (ps_job s)(j := JobWaits)\<rparr>)"
| leaves: "alive s \<Longrightarrow> ps_job s j = JobWaits \<Longrightarrow> ps_told s j \<Longrightarrow> process_step s (s\<lparr>ps_job := (ps_job s)(j := JobGone)\<rparr>)"
| fails: "ps_main s = Serving \<Longrightarrow> process_step s (s\<lparr>ps_main := Exited 1\<rparr>)"
| signalled: "ps_main s = Serving \<Longrightarrow> process_step s (s\<lparr>ps_main := Stopping 0\<rparr>)"
| tells: "ps_main s = Stopping k \<Longrightarrow> k < length stop_order \<Longrightarrow>
    process_step s (s\<lparr>ps_main := Stopping (k + 1), ps_told := (ps_told s)(stop_order ! k := True)\<rparr>)"
| shuts: "ps_main s = Stopping (length stop_order) \<Longrightarrow> process_step s (s\<lparr>ps_main := Draining, ps_listening := False\<rparr>)"
| drained: "ps_main s = Draining \<Longrightarrow> ps_requests s = 0 \<Longrightarrow> process_step s (s\<lparr>ps_main := Drained\<rparr>)"
| times_out: "ps_main s = Draining \<Longrightarrow> process_step s (s\<lparr>ps_main := Drained, ps_timed_out := True\<rparr>)"
| stops_sync: "ps_main s = Drained \<Longrightarrow> process_step s (s\<lparr>ps_main := AwaitingSync, ps_told := (ps_told s)(Sync := True)\<rparr>)"
| exits: "ps_main s = AwaitingSync \<Longrightarrow> ps_job s Sync = JobGone \<Longrightarrow> process_step s (s\<lparr>ps_main := Exited 0, ps_db := False\<rparr>)"

inductive_cases process_stepE: "process_step s s'"

text \<open>The order of the main goroutine, as what holds at each place of it.\<close>

fun closing_order :: "process \<Rightarrow> bool" where
  "closing_order s \<longleftrightarrow>
     (case ps_main s of
        Serving \<Rightarrow> ps_db s \<and> ps_job s Sync \<noteq> JobGone \<and> \<not> ps_told s Sync
      | Stopping k \<Rightarrow> ps_db s \<and> k \<le> length stop_order \<and> \<not> ps_told s Sync \<and> ps_job s Sync \<noteq> JobGone
          \<and> (\<forall>j \<in> set (take k stop_order). ps_told s j)
      | Draining \<Rightarrow> ps_db s \<and> \<not> ps_listening s \<and> \<not> ps_told s Sync \<and> ps_job s Sync \<noteq> JobGone \<and> (\<forall>j \<in> set stop_order. ps_told s j)
      | Drained \<Rightarrow> ps_db s \<and> \<not> ps_listening s \<and> \<not> ps_told s Sync \<and> ps_job s Sync \<noteq> JobGone \<and> (\<forall>j \<in> set stop_order. ps_told s j)
          \<and> (ps_timed_out s \<or> ps_requests s = 0)
      | AwaitingSync \<Rightarrow> ps_db s \<and> \<not> ps_listening s \<and> (\<forall>j. ps_told s j) \<and> (ps_timed_out s \<or> ps_requests s = 0)
      | Exited c \<Rightarrow> c = 1 \<and> ps_db s \<or> c = 0 \<and> \<not> ps_db s \<and> ps_job s Sync = JobGone \<and> \<not> ps_listening s
          \<and> (\<forall>j. ps_told s j) \<and> (ps_timed_out s \<or> ps_requests s = 0))"

lemma all_jobs: "(\<forall>j. P j) \<longleftrightarrow> P Sync \<and> (\<forall>j \<in> set stop_order. P j)"
proof -
  have "P j" if "P Sync" "\<forall>j \<in> set stop_order. P j" for j using that by (cases j) (simp_all add: stop_order_def)
  then show ?thesis by blast
qed

lemma closing_order_step: "process_step s s' \<Longrightarrow> closing_order s \<Longrightarrow> closing_order s'"
proof (induction rule: process_step.induct)
  case (tells s k)
  have "stop_order ! k \<in> set stop_order" using tells.hyps(2) by (rule nth_mem)
  then have "stop_order ! k \<noteq> Sync" by (auto simp: stop_order_def)
  moreover have "take (Suc k) stop_order = take k stop_order @ [stop_order ! k]"
    using tells.hyps(2) by (rule take_Suc_conv_app_nth)
  ultimately show ?case using tells by simp
next
  case (stops_sync s)
  then show ?case by (simp add: all_jobs)
qed (auto simp: alive_def split: main_at.splits)

lemma closing_order_reachable: "process_step\<^sup>*\<^sup>* started s \<Longrightarrow> closing_order s"
  by (induction rule: rtranclp_induct) (auto simp: started_def closing_order_step simp del: closing_order.simps(1), simp)

text \<open>
  C15.  The database is not closed under the limit sync: in every interleaving of requests, jobs, signals and
  failures it is open whenever a run of the sync is in flight, and it is closed only by an orderly exit, when
  the sync's goroutine has returned, the listener is shut, every job has been told to stop, and no request is
  in flight unless the wait for them timed out.
\<close>

theorem orderly_exit:
  assumes "process_step\<^sup>*\<^sup>* started s"
  shows "(alive s \<and> ps_job s Sync = JobRuns \<longrightarrow> ps_db s)
    \<and> (\<not> ps_db s \<longrightarrow> ps_main s = Exited 0 \<and> ps_job s Sync = JobGone \<and> \<not> ps_listening s \<and> (\<forall>j. ps_told s j)
        \<and> (ps_timed_out s \<or> ps_requests s = 0))"
  using closing_order_reachable [OF assms] by (auto simp: alive_def split: main_at.splits)

text \<open>And once signalled, the process can always get there, with no request cut off.\<close>

fun main_rank :: "main_at \<Rightarrow> nat" where
  "main_rank Serving = 9"
| "main_rank (Stopping k) = 8 - k"
| "main_rank Draining = 3"
| "main_rank Drained = 2"
| "main_rank AwaitingSync = 1"
| "main_rank (Exited _) = 0"

fun sync_rank :: "job_state \<Rightarrow> nat" where
  "sync_rank JobRuns = 2"
| "sync_rank JobWaits = 1"
| "sync_rank JobGone = 0"

definition way_to_go :: "process \<Rightarrow> nat" where
  "way_to_go s = 3 * main_rank (ps_main s) + sync_rank (ps_job s Sync) + ps_requests s"

lemma can_go_on:
  assumes "closing_order s" and "alive s" and "ps_main s \<noteq> Serving"
  shows "\<exists>s'. process_step s s' \<and> way_to_go s' < way_to_go s \<and> ps_timed_out s' = ps_timed_out s
    \<and> ps_main s' \<noteq> Serving \<and> (alive s' \<or> ps_main s' = Exited 0)"
proof (cases "ps_main s")
  case (Stopping k)
  show ?thesis
  proof (cases "k < length stop_order")
    case True
    show ?thesis by (rule exI, rule conjI, rule process_step.tells [OF Stopping True])
      (use Stopping True in \<open>simp add: way_to_go_def alive_def stop_order_def\<close>)
  next
    case False
    then have k: "ps_main s = Stopping (length stop_order)" using assms(1) Stopping by simp
    show ?thesis by (rule exI, rule conjI, rule process_step.shuts [OF k])
      (use k in \<open>simp add: way_to_go_def alive_def stop_order_def\<close>)
  qed
next
  case Draining
  show ?thesis
  proof (cases "ps_requests s = 0")
    case True
    show ?thesis by (rule exI, rule conjI, rule process_step.drained [OF Draining True])
      (use Draining in \<open>simp add: way_to_go_def alive_def\<close>)
  next
    case False
    then have "ps_requests s > 0" by simp
    then show ?thesis by (intro exI conjI, rule process_step.answered [OF assms(2)])
      (use Draining in \<open>simp_all add: way_to_go_def alive_def\<close>)
  qed
next
  case Drained
  show ?thesis by (rule exI, rule conjI, rule process_step.stops_sync [OF Drained])
    (use Drained in \<open>simp add: way_to_go_def alive_def\<close>)
next
  case AwaitingSync
  then have told: "ps_told s Sync" using assms(1) by simp
  show ?thesis
  proof (cases "ps_job s Sync")
    case JobWaits
    show ?thesis by (rule exI, rule conjI, rule process_step.leaves [OF assms(2) JobWaits told])
      (use AwaitingSync JobWaits in \<open>simp add: way_to_go_def alive_def\<close>)
  next
    case JobRuns
    show ?thesis by (rule exI, rule conjI, rule process_step.rests [OF assms(2) JobRuns])
      (use AwaitingSync JobRuns in \<open>simp add: way_to_go_def alive_def\<close>)
  next
    case JobGone
    show ?thesis by (rule exI, rule conjI, rule process_step.exits [OF AwaitingSync JobGone])
      (use AwaitingSync JobGone in \<open>simp add: way_to_go_def alive_def\<close>)
  qed
qed (use assms in \<open>simp_all add: alive_def\<close>)

lemma shutdown_completes:
  assumes "process_step\<^sup>*\<^sup>* started s" and "alive s" and "ps_main s \<noteq> Serving"
  shows "\<exists>s'. process_step\<^sup>*\<^sup>* s s' \<and> ps_main s' = Exited 0 \<and> ps_timed_out s' = ps_timed_out s"
proof -
  have "closing_order s \<Longrightarrow> ps_main s \<noteq> Serving \<Longrightarrow> alive s \<or> ps_main s = Exited 0 \<Longrightarrow>
      \<exists>s'. process_step\<^sup>*\<^sup>* s s' \<and> ps_main s' = Exited 0 \<and> ps_timed_out s' = ps_timed_out s" for s
  proof (induction "way_to_go s" arbitrary: s rule: less_induct)
    case less
    show ?case
    proof (cases "alive s")
      case True
      obtain s1 where s1: "process_step s s1" "way_to_go s1 < way_to_go s" "ps_timed_out s1 = ps_timed_out s"
          "ps_main s1 \<noteq> Serving" "alive s1 \<or> ps_main s1 = Exited 0"
        using can_go_on [OF less.prems(1) True less.prems(2)] by blast
      obtain s' where "process_step\<^sup>*\<^sup>* s1 s'" "ps_main s' = Exited 0" "ps_timed_out s' = ps_timed_out s1"
        using less.hyps [OF s1(2) closing_order_step [OF s1(1) less.prems(1)] s1(4,5)] by blast
      then show ?thesis using s1(1,3) by (metis converse_rtranclp_into_rtranclp)
    qed (use less.prems in auto)
  qed
  then show ?thesis using closing_order_reachable [OF assms(1)] assms(2,3) by blast
qed

text \<open>An exit while the sync is in a push: the main goroutine waits for it.\<close>

lemma orderly_exit_witness:
  "\<exists>s. process_step\<^sup>*\<^sup>* started s \<and> ps_main s = AwaitingSync \<and> ps_job s Sync = JobRuns \<and> ps_db s"
proof -
  let ?told = "(\<lambda>_. False)(Cleanup := True, Reminders := True, Expiry := True)"
  let ?s3 = "started\<lparr>ps_main := Stopping 3, ps_told := ?told\<rparr>"
  let ?s4 = "?s3\<lparr>ps_main := Draining, ps_listening := False\<rparr>"
  let ?s5 = "?s4\<lparr>ps_main := Drained\<rparr>"
  let ?s6 = "?s5\<lparr>ps_main := AwaitingSync, ps_told := ?told(Sync := True)\<rparr>"
  have "process_step started (started\<lparr>ps_main := Stopping 0\<rparr>)" by (rule process_step.signalled) (simp add: started_def)
  moreover have "process_step (started\<lparr>ps_main := Stopping 0\<rparr>) (started\<lparr>ps_main := Stopping 1, ps_told := (\<lambda>_. False)(Cleanup := True)\<rparr>)"
    using process_step.tells [of "started\<lparr>ps_main := Stopping 0\<rparr>" 0] by (simp add: started_def stop_order_def)
  moreover have "process_step (started\<lparr>ps_main := Stopping 1, ps_told := (\<lambda>_. False)(Cleanup := True)\<rparr>)
      (started\<lparr>ps_main := Stopping 2, ps_told := (\<lambda>_. False)(Cleanup := True, Reminders := True)\<rparr>)"
    using process_step.tells [of "started\<lparr>ps_main := Stopping 1, ps_told := (\<lambda>_. False)(Cleanup := True)\<rparr>" 1]
    by (simp add: started_def stop_order_def numeral_2_eq_2)
  moreover have "process_step (started\<lparr>ps_main := Stopping 2, ps_told := (\<lambda>_. False)(Cleanup := True, Reminders := True)\<rparr>) ?s3"
    using process_step.tells [of "started\<lparr>ps_main := Stopping 2, ps_told := (\<lambda>_. False)(Cleanup := True, Reminders := True)\<rparr>" 2]
    by (simp add: started_def stop_order_def)
  moreover have "process_step ?s3 ?s4" using process_step.shuts [of ?s3] by (simp add: stop_order_def numeral_3_eq_3)
  moreover have "process_step ?s4 ?s5" using process_step.drained [of ?s4] by (simp add: started_def)
  moreover have "process_step ?s5 ?s6" using process_step.stops_sync [of ?s5] by simp
  ultimately have run: "process_step\<^sup>*\<^sup>* started ?s6" by (meson converse_rtranclp_into_rtranclp rtranclp.rtrancl_refl)
  have "alive ?s6" "ps_job ?s6 Sync = JobRuns" "ps_main ?s6 = AwaitingSync" by (simp_all add: alive_def started_def)
  then show ?thesis using orderly_exit [OF run] run by blast
qed

end
