(* ===== verification/Migrations.thy ===== *)
theory Migrations
  imports Float64 GoText
begin

text \<open>
  \<open>internal/database/migrations\<close> and \<open>RunMigrations\<close> of \<open>db.go\<close>: each migration is the list of its SQL statements
  over tables with named columns, run in one transaction; the migrator records one as applied only after it
  has committed.  Of SQL the model has what the statements use: which tables, columns and indexes exist,
  uniqueness, and the rows.  Types, \<open>NOT NULL\<close> and foreign keys of columns are left out.
\<close>

section \<open>Tables\<close>

datatype sql_value = SqlNull | SqlInt int | SqlReal rat | SqlText string

type_synonym sql_row = "string \<Rightarrow> sql_value"

record sql_table =
  tb_columns :: "string list"
  tb_unique :: "((sql_row \<Rightarrow> bool) \<times> string list) list" \<comment> \<open>of which rows, over which columns\<close>
  tb_rows :: "sql_row list"
  tb_next :: int

record sql_db =
  sq_tables :: "string \<rightharpoonup> sql_table"
  sq_indexes :: "(string \<times> string) list" \<comment> \<open>each with its table\<close>

type_synonym stmt = "sql_db \<Rightarrow> string + sql_db"

definition key_of :: "string list \<Rightarrow> sql_row \<Rightarrow> sql_value list" where
  "key_of cs r = map r cs"

text \<open>Rows with a null in an indexed column never collide.\<close>

definition unique_ok :: "(sql_row \<Rightarrow> bool) \<times> string list \<Rightarrow> sql_row list \<Rightarrow> bool" where
  "unique_ok u rows = (case u of (P, cs) \<Rightarrow>
     distinct (map (key_of cs) (filter (\<lambda>r. P r \<and> SqlNull \<notin> set (key_of cs r)) rows)))"

definition table_ok :: "sql_table \<Rightarrow> bool" where
  "table_ok tb \<longleftrightarrow> list_all (\<lambda>u. unique_ok u (tb_rows tb)) (tb_unique tb)"

section \<open>Statements\<close>

definition put_table :: "string \<Rightarrow> sql_table \<Rightarrow> sql_db \<Rightarrow> sql_db" where
  "put_table t tb d = d\<lparr>sq_tables := (sq_tables d)(t \<mapsto> tb)\<rparr>"

text \<open>A statement on a table that uses some of its columns.\<close>

definition on_table :: "string \<Rightarrow> string list \<Rightarrow> (sql_table \<Rightarrow> string + sql_table) \<Rightarrow> stmt" where
  "on_table t used f d =
     (case sq_tables d t of
        None \<Rightarrow> Inl (''no such table: '' @ t)
      | Some tb \<Rightarrow>
          if \<not> set used \<subseteq> set (tb_columns tb) then Inl ''no such column''
          else case f tb of Inl e \<Rightarrow> Inl e | Inr tb' \<Rightarrow> Inr (put_table t tb' d))"

definition create_table :: "bool \<Rightarrow> string \<Rightarrow> string list \<Rightarrow> string list list \<Rightarrow> stmt" where
  "create_table if_absent t cols uniques d =
     (case sq_tables d t of
        Some _ \<Rightarrow> if if_absent then Inr d else Inl (''table '' @ t @ '' already exists'')
      | None \<Rightarrow> Inr (put_table t \<lparr>tb_columns = cols, tb_unique = map (\<lambda>cs. (\<lambda>_. True, cs)) uniques,
                                 tb_rows = [], tb_next = 1\<rparr> d))"

definition drop_table :: "bool \<Rightarrow> string \<Rightarrow> stmt" where
  "drop_table if_present t d =
     (case sq_tables d t of
        None \<Rightarrow> if if_present then Inr d else Inl (''no such table: '' @ t)
      | Some _ \<Rightarrow> Inr (d\<lparr>sq_tables := (sq_tables d)(t := None), sq_indexes := filter (\<lambda>x. snd x \<noteq> t) (sq_indexes d)\<rparr>))"

definition add_column :: "string \<Rightarrow> string \<Rightarrow> sql_value \<Rightarrow> stmt" where
  "add_column t c v = on_table t [] (\<lambda>tb.
     if c \<in> set (tb_columns tb) then Inl (''duplicate column name: '' @ c)
     else Inr (tb\<lparr>tb_columns := tb_columns tb @ [c], tb_rows := map (\<lambda>r. r(c := v)) (tb_rows tb)\<rparr>))"

definition drop_column :: "string \<Rightarrow> string \<Rightarrow> stmt" where
  "drop_column t c = on_table t [c] (\<lambda>tb.
     if list_ex (\<lambda>u. c \<in> set (snd u)) (tb_unique tb) then Inl (''error in index after drop column'')
     else Inr (tb\<lparr>tb_columns := filter (\<lambda>x. x \<noteq> c) (tb_columns tb)\<rparr>))"

text \<open>A renamed column is renamed in the indexes too, in their columns and their conditions.\<close>

definition rename_column :: "string \<Rightarrow> string \<Rightarrow> string \<Rightarrow> stmt" where
  "rename_column t c c' = on_table t [c] (\<lambda>tb.
     if c' \<in> set (tb_columns tb) then Inl (''duplicate column name: '' @ c')
     else Inr (tb\<lparr>tb_columns := map (\<lambda>x. if x = c then c' else x) (tb_columns tb),
                  tb_unique := map (\<lambda>(P, cs). (\<lambda>r. P (r(c := r c')), map (\<lambda>x. if x = c then c' else x) cs)) (tb_unique tb),
                  tb_rows := map (\<lambda>r. r(c' := r c)) (tb_rows tb)\<rparr>))"

definition update_rows :: "string \<Rightarrow> string list \<Rightarrow> (sql_row list \<Rightarrow> sql_row \<Rightarrow> bool) \<Rightarrow> (sql_row \<Rightarrow> sql_row) \<Rightarrow> stmt" where
  "update_rows t used cond f = on_table t used (\<lambda>tb.
     let tb' = tb\<lparr>tb_rows := map (\<lambda>r. if cond (tb_rows tb) r then f r else r) (tb_rows tb)\<rparr>
     in if table_ok tb' then Inr tb' else Inl ''UNIQUE constraint failed'')"

definition delete_rows :: "string \<Rightarrow> string list \<Rightarrow> (sql_row list \<Rightarrow> sql_row \<Rightarrow> bool) \<Rightarrow> stmt" where
  "delete_rows t used cond = on_table t used (\<lambda>tb.
     Inr (tb\<lparr>tb_rows := filter (\<lambda>r. \<not> cond (tb_rows tb) r) (tb_rows tb)\<rparr>))"

text \<open>\<open>INSERT INTO t SELECT\<close>: with \<open>OR IGNORE\<close>, rows that collide are left out.\<close>

fun add_rows :: "bool \<Rightarrow> sql_row list \<Rightarrow> sql_table \<Rightarrow> string + sql_table" where
  "add_rows or_ignore [] tb = Inr tb"
| "add_rows or_ignore (r # rs) tb =
     (let tb' = tb\<lparr>tb_rows := tb_rows tb @ [r(''id'' := SqlInt (tb_next tb))], tb_next := tb_next tb + 1\<rparr>
      in if table_ok tb' then add_rows or_ignore rs tb'
         else if or_ignore then add_rows or_ignore rs tb
         else Inl ''UNIQUE constraint failed'')"

definition rows_of :: "string \<Rightarrow> sql_db \<Rightarrow> sql_row list" where
  "rows_of t d = (case sq_tables d t of None \<Rightarrow> [] | Some tb \<Rightarrow> tb_rows tb)"

definition has_columns :: "string \<Rightarrow> string list \<Rightarrow> sql_db \<Rightarrow> bool" where
  "has_columns t cs d = (case sq_tables d t of None \<Rightarrow> False | Some tb \<Rightarrow> set cs \<subseteq> set (tb_columns tb))"

definition insert_select :: "bool \<Rightarrow> string \<Rightarrow> string list \<Rightarrow> string \<Rightarrow> string list \<Rightarrow> (sql_row \<Rightarrow> sql_row list) \<Rightarrow> stmt" where
  "insert_select or_ignore t cols src used f d =
     (if \<not> has_columns src used d then Inl ''no such column''
      else on_table t cols (add_rows or_ignore (concat (map f (rows_of src d)))) d)"

definition create_index :: "bool \<Rightarrow> string \<Rightarrow> string \<Rightarrow> stmt" where
  "create_index if_absent i t d =
     (if i \<in> fst ` set (sq_indexes d) then if if_absent then Inr d else Inl (''index '' @ i @ '' already exists'')
      else if sq_tables d t = None then Inl (''no such table: '' @ t)
      else Inr (d\<lparr>sq_indexes := (i, t) # sq_indexes d\<rparr>))"

definition create_unique :: "string \<Rightarrow> string \<Rightarrow> string list \<Rightarrow> (sql_row \<Rightarrow> bool) \<Rightarrow> stmt" where
  "create_unique i t cs P d =
     (if i \<in> fst ` set (sq_indexes d) then Inr d
      else case on_table t cs (\<lambda>tb. if unique_ok (P, cs) (tb_rows tb) then Inr (tb\<lparr>tb_unique := (P, cs) # tb_unique tb\<rparr>)
                                     else Inl ''UNIQUE constraint failed'') d of
             Inl e \<Rightarrow> Inl e
           | Inr d' \<Rightarrow> create_index False i t d')"

text \<open>Statements one after the other, with the text an error is wrapped in.\<close>

fun stmts :: "string \<Rightarrow> stmt list \<Rightarrow> stmt" where
  "stmts msg [] d = Inr d"
| "stmts msg (s # ss) d = (case s d of Inl e \<Rightarrow> Inl (msg @ e) | Inr d' \<Rightarrow> stmts msg ss d')"

section \<open>Values\<close>

fun sql_int :: "sql_value \<Rightarrow> int" where
  "sql_int (SqlInt i) = i"
| "sql_int _ = 0"

fun sql_text :: "sql_value \<Rightarrow> string" where
  "sql_text (SqlText t) = t"
| "sql_text _ = []"

fun sql_real :: "sql_value \<Rightarrow> rat" where
  "sql_real (SqlReal r) = r"
| "sql_real (SqlInt i) = float_of_int i"
| "sql_real _ = 0"

definition or_else :: "sql_value \<Rightarrow> sql_value \<Rightarrow> sql_value" where
  "or_else v x = (if v = SqlNull then x else v)"

text \<open>\<open>CAST(x AS INTEGER)\<close> truncates and stays in 64 bits.\<close>

definition cast_int :: "rat \<Rightarrow> int" where
  "cast_int x = max (- (2 ^ 63)) (min (2 ^ 63 - 1) (if x \<ge> 0 then \<lfloor>x\<rfloor> else \<lceil>x\<rceil>))"

text \<open>The price of a token, \<open>0.0000001\<close>.\<close>

definition token_price :: rat where "token_price = fl64 (1 / 10000000)"

section \<open>The migrations\<close>

record migration =
  mg_name :: string
  mg_up :: stmt
  mg_down :: stmt

definition init_up :: stmt where
  "init_up d =
     (case create_table True ''profiles'' [''id'', ''name'', ''description'', ''models'', ''tpm_limit'', ''rpm_limit'', ''max_budget'',
            ''budget_duration'', ''is_default'', ''created_at'', ''updated_at''] [[''id''], [''name'']] d of
        Inl e \<Rightarrow> Inl (''create profiles: '' @ e)
      | Inr d \<Rightarrow>
     (case create_table True ''users'' [''id'', ''oidc_sub'', ''email'', ''name'', ''profile_id'', ''created_at'', ''updated_at'']
            [[''id''], [''oidc_sub'']] d of
        Inl e \<Rightarrow> Inl (''create users: '' @ e)
      | Inr d \<Rightarrow>
     (case create_table True ''api_keys'' [''id'', ''user_id'', ''litellm_key'', ''key_prefix'', ''expires_at'', ''created_at''] [[''id'']] d of
        Inl e \<Rightarrow> Inl (''create api_keys: '' @ e)
      | Inr d \<Rightarrow> stmts ''create sessions: ''
          [create_table True ''sessions'' [''id'', ''user_id'', ''token'', ''id_token'', ''expires_at'', ''created_at''] [[''id''], [''token'']]] d)))"

definition m_init :: migration where
  "m_init = \<lparr>mg_name = ''20240001'', mg_up = init_up,
     mg_down = stmts [] [drop_table True ''sessions'', drop_table True ''api_keys'', drop_table True ''users'', drop_table True ''profiles'']\<rparr>"

text \<open>\<open>id NOT IN (SELECT MAX(id) FROM api_keys GROUP BY user_id)\<close>, and the defaults but the first.\<close>

definition not_latest :: "sql_row list \<Rightarrow> sql_row \<Rightarrow> bool" where
  "not_latest rows r \<longleftrightarrow> list_ex (\<lambda>x. x ''user_id'' = r ''user_id'' \<and> sql_int (x ''id'') > sql_int (r ''id'')) rows"

definition is_marked :: "sql_row \<Rightarrow> bool" where
  "is_marked r \<longleftrightarrow> r ''is_default'' \<noteq> SqlNull \<and> r ''is_default'' \<noteq> SqlInt 0"

definition not_first_default :: "sql_row list \<Rightarrow> sql_row \<Rightarrow> bool" where
  "not_first_default rows r \<longleftrightarrow> is_marked r \<and> list_ex (\<lambda>x. is_marked x \<and> sql_int (x ''id'') < sql_int (r ''id'')) rows"

definition constraints_up :: stmt where
  "constraints_up d =
     (case stmts ''dedupe api_keys: '' [delete_rows ''api_keys'' [''id'', ''user_id''] not_latest] d of Inl e \<Rightarrow> Inl e | Inr d \<Rightarrow>
     (case stmts ''unique index on api_keys.user_id: ''
             [create_unique ''idx_api_keys_user_id'' ''api_keys'' [''user_id''] (\<lambda>_. True)] d of Inl e \<Rightarrow> Inl e | Inr d \<Rightarrow>
     (case stmts ''dedupe default profiles: ''
             [update_rows ''profiles'' [''id'', ''is_default''] not_first_default (\<lambda>r. r(''is_default'' := SqlInt 0))] d of Inl e \<Rightarrow> Inl e | Inr d \<Rightarrow>
     (case stmts ''unique index on profiles.is_default: ''
             [create_unique ''idx_profiles_single_default'' ''profiles'' [''is_default''] is_marked] d of Inl e \<Rightarrow> Inl e | Inr d \<Rightarrow>
      stmts ''index on sessions.expires_at: '' [create_index True ''idx_sessions_expires_at'' ''sessions''] d))))"

definition drop_index :: "bool \<Rightarrow> string \<Rightarrow> stmt" where
  "drop_index if_present i d =
     (if i \<in> fst ` set (sq_indexes d) then Inr (d\<lparr>sq_indexes := filter (\<lambda>x. fst x \<noteq> i) (sq_indexes d)\<rparr>)
      else if if_present then Inr d else Inl (''no such index: '' @ i))"

text \<open>Dropping a unique index also ends what it enforced.\<close>

definition drop_unique :: "string \<Rightarrow> string \<Rightarrow> string list \<Rightarrow> stmt" where
  "drop_unique i t cs d =
     (if i \<in> fst ` set (sq_indexes d) then
        stmts [] [on_table t [] (\<lambda>tb. Inr (tb\<lparr>tb_unique := filter (\<lambda>u. snd u \<noteq> cs) (tb_unique tb)\<rparr>)), drop_index True i] d
      else Inr d)"

definition m_constraints :: migration where
  "m_constraints = \<lparr>mg_name = ''20240002'', mg_up = constraints_up,
     mg_down = stmts [] [drop_index True ''idx_sessions_expires_at'',
       drop_unique ''idx_profiles_single_default'' ''profiles'' [''is_default''],
       drop_unique ''idx_api_keys_user_id'' ''api_keys'' [''user_id'']]\<rparr>"

definition budget_set :: "sql_row \<Rightarrow> bool" where
  "budget_set r \<longleftrightarrow> r ''max_budget'' \<noteq> SqlNull \<and> sql_real (r ''max_budget'') > 0"

definition m_profile_quotas :: migration where
  "m_profile_quotas = \<lparr>mg_name = ''20240003'',
     mg_up = (\<lambda>d. case stmts ''add profile quota columns: ''
            [add_column ''profiles'' ''key_duration_days'' (SqlInt 0), add_column ''profiles'' ''quota_tokens'' (SqlInt 0),
             add_column ''profiles'' ''quota_period'' (SqlText [])] d of
          Inl e \<Rightarrow> Inl e
        | Inr d \<Rightarrow> stmts ''convert existing budgets to token quotas: ''
            [update_rows ''profiles'' [''max_budget'', ''budget_duration'', ''quota_tokens'', ''quota_period''] (\<lambda>_. budget_set)
               (\<lambda>r. r(''quota_tokens'' := SqlInt (cast_int (fdiv (sql_real (r ''max_budget'')) token_price)),
                      ''quota_period'' := or_else (r ''budget_duration'') (SqlText ''30d'')))] d),
     mg_down = stmts [] [drop_column ''profiles'' ''quota_period'', drop_column ''profiles'' ''quota_tokens'',
       drop_column ''profiles'' ''key_duration_days'']\<rparr>"

definition m_audit :: migration where
  "m_audit = \<lparr>mg_name = ''20240004'',
     mg_up = (\<lambda>d. case stmts ''create audit_events: '' [create_table True ''audit_events''
            [''id'', ''created_at'', ''action'', ''actor_email'', ''subject_email'', ''subject_id'', ''detail''] [[''id'']]] d of
          Inl e \<Rightarrow> Inl e
        | Inr d \<Rightarrow> stmts ''index audit_events: '' [create_index True ''idx_audit_created_at'' ''audit_events'', create_index True ''idx_audit_subject'' ''audit_events''] d),
     mg_down = drop_table True ''audit_events''\<rparr>"

definition m_notices :: migration where
  "m_notices = \<lparr>mg_name = ''20240005'',
     mg_up = (\<lambda>d. case stmts ''create expiry_notices: '' [create_table True ''expiry_notices''
            [''id'', ''api_key_id'', ''days_before'', ''sent_at''] [[''id'']]] d of
          Inl e \<Rightarrow> Inl e
        | Inr d \<Rightarrow> stmts ''index expiry_notices: ''
            [create_unique ''idx_expiry_notice_once'' ''expiry_notices'' [''api_key_id'', ''days_before''] (\<lambda>_. True)] d),
     mg_down = drop_table True ''expiry_notices''\<rparr>"

definition quota_set :: "sql_row \<Rightarrow> bool" where
  "quota_set r \<longleftrightarrow> sql_int (r ''quota_tokens'') > 0 \<and> r ''quota_period'' \<noteq> SqlNull \<and> r ''quota_period'' \<noteq> SqlText []"

definition blank_row :: sql_row where "blank_row = (\<lambda>_. SqlNull)"

definition m_stacked_quotas :: migration where
  "m_stacked_quotas = \<lparr>mg_name = ''20240006'',
     mg_up = (\<lambda>d. case stmts ''create profile_quotas: '' [create_table True ''profile_quotas''
            [''id'', ''profile_id'', ''tokens'', ''period''] [[''id''], [''profile_id'', ''period'']]] d of Inl e \<Rightarrow> Inl e | Inr d \<Rightarrow>
        (case stmts ''carry quotas into profile_quotas: '' [insert_select False ''profile_quotas'' [''profile_id'', ''tokens'', ''period'']
            ''profiles'' [''id'', ''quota_tokens'', ''quota_period'']
            (\<lambda>r. if quota_set r then [blank_row(''profile_id'' := r ''id'', ''tokens'' := r ''quota_tokens'', ''period'' := r ''quota_period'')]
                 else [])] d of Inl e \<Rightarrow> Inl e | Inr d \<Rightarrow>
         stmts ''drop single-quota columns: '' [drop_column ''profiles'' ''quota_tokens'', drop_column ''profiles'' ''quota_period''] d)),
     mg_down = stmts [] [add_column ''profiles'' ''quota_tokens'' (SqlInt 0), add_column ''profiles'' ''quota_period'' (SqlText []),
       drop_table True ''profile_quotas'']\<rparr>"

definition m_budget_quotas :: migration where
  "m_budget_quotas = \<lparr>mg_name = ''20240007'',
     mg_up = stmts ''convert token quotas to budgets: ''
       [add_column ''profile_quotas'' ''budget'' (SqlReal 0),
        update_rows ''profile_quotas'' [''budget'', ''tokens''] (\<lambda>_ _. True)
          (\<lambda>r. r(''budget'' := SqlReal (fmul (sql_real (r ''tokens'')) token_price))),
        drop_column ''profile_quotas'' ''tokens''],
     mg_down = stmts ''revert budgets to token quotas: ''
       [add_column ''profile_quotas'' ''tokens'' (SqlInt 0),
        update_rows ''profile_quotas'' [''tokens'', ''budget''] (\<lambda>_ _. True)
          (\<lambda>r. r(''tokens'' := SqlInt (cast_int (fdiv (sql_real (r ''budget'')) token_price)))),
        drop_column ''profile_quotas'' ''budget'']\<rparr>"

definition grant_columns :: "string list" where
  "grant_columns = [''id'', ''oidc_sub'', ''email'', ''granted_by_email'', ''created_at'']"

text \<open>\<open>COLLATE NOCASE\<close>: the unique email is compared in lower case; the folded address is a column of its own here.\<close>

definition m_admin_grants :: migration where
  "m_admin_grants = \<lparr>mg_name = ''20240008'',
     mg_up = stmts ''create admin_grants: '' [create_table False ''admin_grants'' (grant_columns @ [''email nocase'']) [[''id''], [''email nocase'']]],
     mg_down = stmts ''drop admin_grants: '' [drop_table False ''admin_grants'']\<rparr>"

definition m_profile_expiry :: migration where
  "m_profile_expiry = \<lparr>mg_name = ''20240009'',
     mg_up = stmts ''add profile expiry columns: ''
       [add_column ''users'' ''profile_expires_at'' SqlNull, add_column ''users'' ''profile_after_expiry'' SqlNull,
        add_column ''users'' ''revoke_key_at_expiry'' (SqlInt 0), create_index False ''idx_users_profile_expires_at'' ''users''],
     mg_down = stmts ''drop profile expiry columns: ''
       [drop_index False ''idx_users_profile_expires_at'', drop_column ''users'' ''revoke_key_at_expiry'',
        drop_column ''users'' ''profile_after_expiry'', drop_column ''users'' ''profile_expires_at'']\<rparr>"

definition m_limit_sync :: migration where
  "m_limit_sync = \<lparr>mg_name = ''20240010'',
     mg_up = stmts ''add limit sync columns: ''
       [add_column ''profiles'' ''limits_rev'' (SqlInt 1), add_column ''api_keys'' ''synced_profile_id'' SqlNull,
        add_column ''api_keys'' ''synced_rev'' SqlNull, add_column ''api_keys'' ''sync_error'' (SqlText []),
        add_column ''api_keys'' ''sync_failed_at'' SqlNull],
     mg_down = stmts ''drop limit sync columns: ''
       [drop_column ''api_keys'' ''sync_failed_at'', drop_column ''api_keys'' ''sync_error'', drop_column ''api_keys'' ''synced_rev'',
        drop_column ''api_keys'' ''synced_profile_id'', drop_column ''profiles'' ''limits_rev'']\<rparr>"

text \<open>The hash of a key; SHA-256 is a parameter.\<close>

definition key_ref_name :: string where "key_ref_name = ''20240011''"

definition is_sha256_hex :: "string \<Rightarrow> bool" where
  "is_sha256_hex s \<longleftrightarrow> length s = 64 \<and> list_all (\<lambda>c. CHR ''0'' \<le> c \<and> c \<le> CHR ''9'' \<or> CHR ''a'' \<le> c \<and> c \<le> CHR ''f'') s"

definition m_key_ref :: "(string \<Rightarrow> string) \<Rightarrow> migration" where
  "m_key_ref sha = \<lparr>mg_name = key_ref_name,
     mg_up = (\<lambda>d. case stmts ''rename litellm_key: '' [rename_column ''api_keys'' ''litellm_key'' ''key_ref''] d of Inl e \<Rightarrow> Inl e | Inr d \<Rightarrow>
        stmts ''hash key: '' [update_rows ''api_keys'' [''id'', ''key_ref''] (\<lambda>_ r. \<not> is_sha256_hex (sql_text (r ''key_ref'')))
          (\<lambda>r. r(''key_ref'' := SqlText (hex_encode (sha (sql_text (r ''key_ref'')))))) ] d),
     mg_down = (\<lambda>d. Inl ''api_keys.key_ref holds hashes, which cannot be turned back into keys'')\<rparr>"

definition m_synced_owner :: migration where
  "m_synced_owner = \<lparr>mg_name = ''20240012'',
     mg_up = stmts ''add synced owner columns: ''
       [add_column ''api_keys'' ''synced_owner_name'' SqlNull, add_column ''api_keys'' ''synced_owner_email'' SqlNull],
     mg_down = stmts ''drop synced owner columns: ''
       [drop_column ''api_keys'' ''synced_owner_email'', drop_column ''api_keys'' ''synced_owner_name'']\<rparr>"

definition anchored :: "sql_db \<Rightarrow> sql_value list" where
  "anchored d = filter (\<lambda>v. v \<noteq> SqlNull) (map (\<lambda>g. g ''oidc_sub'') (rows_of ''admin_grants'' d))"

definition carry_grants :: stmt where
  "carry_grants d =
     (if \<not> has_columns ''admin_grants'' [''oidc_sub''] d then Inl ''no such table: admin_grants''
      else update_rows ''users'' [''oidc_sub'', ''is_admin''] (\<lambda>_ r. r ''oidc_sub'' \<in> set (anchored d))
             (\<lambda>r. r(''is_admin'' := SqlInt 1)) d)"

definition admin_flag_name :: string where "admin_flag_name = ''20240013''"

definition m_admin_flag :: migration where
  "m_admin_flag = \<lparr>mg_name = admin_flag_name,
     mg_up = stmts ''move admin rights onto users: ''
       [add_column ''users'' ''is_admin'' (SqlInt 0), carry_grants, drop_table False ''admin_grants''],
     mg_down = stmts ''move admin rights back to grants: ''
       [create_table False ''admin_grants'' (grant_columns @ [''email nocase'']) [[''id''], [''email nocase'']],
        insert_select True ''admin_grants'' [''oidc_sub'', ''email'', ''granted_by_email'', ''created_at''] ''users''
          [''oidc_sub'', ''email'', ''updated_at'', ''is_admin'']
          (\<lambda>r. if r ''is_admin'' \<noteq> SqlNull \<and> r ''is_admin'' \<noteq> SqlInt 0
               then [blank_row(''oidc_sub'' := r ''oidc_sub'', ''email'' := r ''email'', ''granted_by_email'' := SqlText ''rollback'',
                       ''created_at'' := r ''updated_at'', ''email nocase'' := SqlText (to_lower (sql_text (r ''email''))))]
               else []),
        drop_column ''users'' ''is_admin'']\<rparr>"

definition m_key_missing :: migration where
  "m_key_missing = \<lparr>mg_name = ''20240014'',
     mg_up = stmts ''add missing_since: '' [add_column ''api_keys'' ''missing_since'' SqlNull],
     mg_down = stmts ''drop missing_since: '' [drop_column ''api_keys'' ''missing_since'']\<rparr>"

definition migrations :: "(string \<Rightarrow> string) \<Rightarrow> migration list" where
  "migrations sha = [m_init, m_constraints, m_profile_quotas, m_audit, m_notices, m_stacked_quotas, m_budget_quotas,
     m_admin_grants, m_profile_expiry, m_limit_sync, m_key_ref sha, m_synced_owner, m_admin_flag, m_key_missing]"

section \<open>The migrator\<close>

text \<open>
  The database with the names recorded as applied.  \<open>migrate n ms\<close> runs the migrations of \<open>ms\<close> that are not
  recorded, in order; the process may die after \<open>n\<close> of them.  One that fails changes nothing (\<open>inTx\<close>) and ends
  the run; one is recorded only after it has succeeded (\<open>WithMarkAppliedOnSuccess\<close>).
\<close>

record migrated =
  md_db :: sql_db
  md_applied :: "string list"

datatype migrate_end = Finished | Died | MigrationFailed string

fun migrate :: "nat \<Rightarrow> migration list \<Rightarrow> migrated \<Rightarrow> migrate_end \<times> string list \<times> migrated" where
  "migrate n [] s = (Finished, [], s)"
| "migrate n (m # ms) s =
     (if mg_name m \<in> set (md_applied s) then migrate n ms s
      else case n of
        0 \<Rightarrow> (Died, [], s)
      | Suc k \<Rightarrow>
          (case mg_up m (md_db s) of
             Inl e \<Rightarrow> (MigrationFailed e, [], s)
           | Inr d \<Rightarrow>
               (case migrate k ms (s\<lparr>md_db := d, md_applied := md_applied s @ [mg_name m]\<rparr>) of
                  (r, names, s') \<Rightarrow> (r, mg_name m # names, s'))))"

text \<open>\<open>RunMigrations\<close>: the error, if any, and whether the free pages are scrubbed (best effort, and only logged).\<close>

definition run_migrations :: "(string \<Rightarrow> string) \<Rightarrow> migrated \<Rightarrow> string option \<times> bool \<times> migrated" where
  "run_migrations sha s =
     (case migrate (length (migrations sha)) (migrations sha) s of
        (MigrationFailed e, _, s') \<Rightarrow> (Some (''run migrations: '' @ e), False, s')
      | (_, names, s') \<Rightarrow> (None, key_ref_name \<in> set names, s'))"

text \<open>\<open>scrub\<close>: what \<open>VACUUM\<close> and the checkpoint answer; a checkpoint that was kept from finishing is a failure.\<close>

definition scrub :: "string option \<Rightarrow> string + int \<Rightarrow> string option" where
  "scrub vacuum checkpoint =
     (case vacuum of
        Some e \<Rightarrow> Some (''VACUUM: '' @ e)
      | None \<Rightarrow> (case checkpoint of
            Inl e \<Rightarrow> Some (''wal_checkpoint: '' @ e)
          | Inr busy \<Rightarrow> if busy \<noteq> 0 then Some ''wal_checkpoint: another connection kept it from finishing'' else None))"

section \<open>An upgrade that is interrupted\<close>

lemma migrate_enough:
  assumes "length ms \<le> n" and "length ms \<le> n'"
  shows "migrate n ms s = migrate n' ms s"
  using assms
proof (induction ms arbitrary: n n' s)
  case (Cons m ms)
  obtain k k' where "n = Suc k" "n' = Suc k'" "length ms \<le> k" "length ms \<le> k'"
    using Cons.prems by (cases n; cases n') auto
  then show ?case using Cons.IH [of n n'] Cons.IH [of k k'] by (simp split: sum.split)
qed simp

lemma migrate_applied:
  assumes "migrate n ms s = (r, names, s')"
  shows "md_applied s' = md_applied s @ names \<and> set names \<subseteq> mg_name ` set ms"
  using assms
proof (induction ms arbitrary: n s names)
  case Nil
  then show ?case by simp
next
  case (Cons m ms)
  show ?case
  proof (cases "\<exists>k d. mg_name m \<notin> set (md_applied s) \<and> n = Suc k \<and> mg_up m (md_db s) = Inr d")
    case False
    then have "migrate n ms s = (r, names, s') \<or> names = [] \<and> s' = s"
      using Cons.prems by (auto split: nat.splits sum.splits if_splits)
    then show ?thesis using Cons.IH by auto
  next
    case True
    then obtain k d where k: "mg_name m \<notin> set (md_applied s)" "n = Suc k" "mg_up m (md_db s) = Inr d" by blast
    obtain names' where n': "migrate k ms (s\<lparr>md_db := d, md_applied := md_applied s @ [mg_name m]\<rparr>) = (r, names', s')"
        "names = mg_name m # names'"
      using Cons.prems k by (auto split: prod.splits)
    then show ?thesis using Cons.IH [OF n'(1)] by auto
  qed
qed

lemma migrate_resume:
  assumes "migrate n ms s = (r, names, s1)" and "length ms \<le> N"
  shows "\<exists>rest. migrate N ms s = (fst (migrate N ms s1), names @ rest, snd (snd (migrate N ms s1)))
    \<and> fst (snd (migrate N ms s1)) = rest"
  using assms
proof (induction ms arbitrary: n N s names)
  case Nil
  then show ?case by simp
next
  case (Cons m ms)
  show ?case
  proof (cases "mg_name m \<in> set (md_applied s)")
    case True
    then have run: "migrate n ms s = (r, names, s1)" using Cons.prems(1) by simp
    then have "mg_name m \<in> set (md_applied s1)" using migrate_applied [OF run] True by simp
    then show ?thesis using Cons.IH [OF run, of N] Cons.prems(2) True by simp
  next
    case False
    show ?thesis
    proof (cases "\<exists>k d. n = Suc k \<and> mg_up m (md_db s) = Inr d")
      case False
      then have "s1 = s" "names = []"
        using Cons.prems(1) \<open>mg_name m \<notin> set (md_applied s)\<close> by (auto split: nat.splits sum.splits)
      then show ?thesis by (simp add: prod_eq_iff)
    next
      case True
      then obtain k d where k: "n = Suc k" "mg_up m (md_db s) = Inr d" by blast
      let ?s = "s\<lparr>md_db := d, md_applied := md_applied s @ [mg_name m]\<rparr>"
      obtain names' where run: "migrate k ms ?s = (r, names', s1)" and names: "names = mg_name m # names'"
        using Cons.prems(1) False k by (auto split: prod.splits)
      obtain N' where N: "N = Suc N'" "length ms \<le> N'" using Cons.prems(2) by (cases N) auto
      have skip: "migrate N (m # ms) s1 = migrate N' ms s1"
        using migrate_applied [OF run] migrate_enough [of ms N N' s1] Cons.prems(2) N(2) by simp
      obtain rest where "migrate N' ms ?s = (fst (migrate N' ms s1), names' @ rest, snd (snd (migrate N' ms s1)))"
          "fst (snd (migrate N' ms s1)) = rest"
        using Cons.IH [OF run N(2)] by blast
      then show ?thesis using False k names N(1) unfolding skip by simp
    qed
  qed
qed


section \<open>No secret left\<close>

text \<open>Every reference of a key is a hash.\<close>

definition hashed :: "sql_db \<Rightarrow> bool" where
  "hashed d \<longleftrightarrow> (\<forall>r \<in> set (rows_of ''api_keys'' d). is_sha256_hex (sql_text (r ''key_ref'')))"

lemma on_table_cases:
  assumes "on_table t used f d = Inr d'"
  obtains tb tb' where "sq_tables d t = Some tb" "f tb = Inr tb'" "d' = put_table t tb' d"
  using assms by (auto simp: on_table_def split: option.splits if_splits sum.splits)

lemma rows_of_put [simp]: "rows_of t (put_table t' tb d) = (if t = t' then tb_rows tb else rows_of t d)"
  by (simp add: rows_of_def put_table_def)

lemma on_other_table:
  "on_table t used f d = Inr d' \<Longrightarrow> t \<noteq> t' \<Longrightarrow> rows_of t' d' = rows_of t' d"
  by (erule on_table_cases) simp

lemma add_column_hashed:
  assumes "add_column t c v d = Inr d'" and "hashed d" and "c \<noteq> ''key_ref''"
  shows "hashed d'"
proof (cases "t = ''api_keys''")
  case False
  then have "rows_of ''api_keys'' d' = rows_of ''api_keys'' d"
    using on_other_table [of t "[]" _ d d' "''api_keys''"] assms(1) unfolding add_column_def by blast
  then show ?thesis using assms(2) by (simp add: hashed_def)
next
  case True
  then obtain tb where "sq_tables d ''api_keys'' = Some tb" "rows_of ''api_keys'' d' = map (\<lambda>r. r(c := v)) (tb_rows tb)"
    using assms(1) unfolding add_column_def
    by (elim on_table_cases) (auto split: if_splits)
  then show ?thesis using assms(2,3) by (auto simp: hashed_def rows_of_def)
qed

lemma stmts_keep:
  assumes "stmts msg ss d = Inr d'" and "Q d" and "\<And>s d d'. s \<in> set ss \<Longrightarrow> Q d \<Longrightarrow> s d = Inr d' \<Longrightarrow> Q d'"
  shows "Q d'"
  using assms
proof (induction ss arbitrary: d)
  case (Cons s ss)
  obtain d1 where "s d = Inr d1" "stmts msg ss d1 = Inr d'" using Cons.prems(1) by (auto split: sum.splits)
  moreover have "Q d1" using Cons.prems(3) [of s d d1] Cons.prems(2) calculation(1) by simp
  moreover have "Q e'" if "x \<in> set ss" "Q e" "x e = Inr e'" for x e e' using Cons.prems(3) [of x e e'] that by simp
  ultimately show ?case using Cons.IH [of d1] by blast
qed simp

lemma hex_digit_ok:
  assumes "n < 16"
  shows "CHR ''0'' \<le> hex_digit n \<and> hex_digit n \<le> CHR ''9'' \<or> CHR ''a'' \<le> hex_digit n \<and> hex_digit n \<le> CHR ''f''"
proof -
  have "\<forall>n \<in> set [0..<16]. CHR ''0'' \<le> hex_digit n \<and> hex_digit n \<le> CHR ''9''
      \<or> CHR ''a'' \<le> hex_digit n \<and> hex_digit n \<le> CHR ''f''" by code_simp
  then show ?thesis using assms by simp
qed

lemma hex_encode_ok:
  assumes "length bs = 32"
  shows "is_sha256_hex (hex_encode bs)"
proof -
  have "length (hex_encode bs) = 2 * length bs" by (induction bs) (simp_all add: hex_encode_def)
  moreover have "list_all (\<lambda>c. CHR ''0'' \<le> c \<and> c \<le> CHR ''9'' \<or> CHR ''a'' \<le> c \<and> c \<le> CHR ''f'') (hex_encode bs)"
  proof (induction bs)
    case (Cons b bs)
    have "(of_char b :: nat) div 16 < 16" by (rule less_mult_imp_div_less) simp
    moreover have "(of_char b :: nat) mod 16 < 16" by simp
    ultimately have "(of_char b :: nat) div 16 < 16" "(of_char b :: nat) mod 16 < 16" by simp_all
    then show ?case using Cons hex_digit_ok by (simp add: hex_encode_def)
  qed (simp add: hex_encode_def)
  ultimately show ?thesis using assms by (simp add: is_sha256_hex_def)
qed

lemma key_ref_hashes:
  assumes "mg_up (m_key_ref sha) d = Inr d'" and "\<And>x. length (sha x) = 32"
  shows "hashed d'"
proof -
  obtain d1 where "update_rows ''api_keys'' [''id'', ''key_ref''] (\<lambda>_ r. \<not> is_sha256_hex (sql_text (r ''key_ref'')))
          (\<lambda>r. r(''key_ref'' := SqlText (hex_encode (sha (sql_text (r ''key_ref'')))))) d1 = Inr d'"
    using assms(1) by (auto simp: m_key_ref_def split: sum.splits)
  then show ?thesis
    unfolding update_rows_def
    by (elim on_table_cases) (auto simp: hashed_def Let_def hex_encode_ok assms(2) split: if_splits)
qed

lemma later_keep_hashed:
  assumes "m \<in> {m_synced_owner, m_admin_flag, m_key_missing}" and "mg_up m d = Inr d'" and "hashed d"
  shows "hashed d'"
proof -
  have carry: "hashed e'" if "carry_grants e = Inr e'" "hashed e" for e e'
    using that on_other_table [of "''users''" _ _ e e' "''api_keys''"]
    by (auto simp: carry_grants_def update_rows_def hashed_def split: if_splits)
  have drop: "hashed e'" if "drop_table False ''admin_grants'' e = Inr e'" "hashed e" for e e'
  proof -
    have "rows_of ''api_keys'' e' = rows_of ''api_keys'' e"
      using that(1) by (auto simp: drop_table_def rows_of_def split: option.splits)
    then show ?thesis using that(2) by (simp add: hashed_def)
  qed
  obtain msg ss where up: "mg_up m = stmts msg ss" and ss: "set ss \<subseteq> {add_column ''api_keys'' ''synced_owner_name'' SqlNull, add_column ''api_keys'' ''synced_owner_email'' SqlNull,
         add_column ''users'' ''is_admin'' (SqlInt 0), carry_grants, drop_table False ''admin_grants'',
         add_column ''api_keys'' ''missing_since'' SqlNull}"
    using assms(1) by (auto simp: m_synced_owner_def m_admin_flag_def m_key_missing_def)
  have "hashed e'" if x: "x \<in> set ss" "hashed e" "x e = Inr e'" for x e e'
  proof -
    have "(\<exists>t c v. x = add_column t c v \<and> c \<noteq> ''key_ref'') \<or> x = carry_grants \<or> x = drop_table False ''admin_grants''"
      using ss x(1) by fastforce
    then show ?thesis using x(2,3) carry drop add_column_hashed by blast
  qed
  then show ?thesis using stmts_keep [of msg ss d d' hashed] assms(2,3) up by simp
qed

lemma migrate_completes: "length ms \<le> n \<Longrightarrow> fst (migrate n ms s) \<noteq> Died"
proof (induction ms arbitrary: n s)
  case (Cons m ms)
  then obtain k where k: "n = Suc k" "length ms \<le> k" by (cases n) auto
  show ?case
    using Cons.IH [of k] Cons.IH [of n s] k by (auto split: sum.split prod.split simp: prod_eq_iff)
qed simp

lemma migrate_append:
  assumes "migrate n (xs @ ys) s = (Finished, names, s')"
  obtains n1 n2 g1 g2 s1 where "migrate n1 xs s = (Finished, g1, s1)" "migrate n2 ys s1 = (Finished, g2, s')" "names = g1 @ g2"
  using assms
proof (induction xs arbitrary: n s names thesis)
  case Nil
  from Nil(1) [of 0 "[]" s n names] show ?case using Nil(2) by simp
next
  case (Cons m xs)
  show ?case
  proof (cases "mg_name m \<in> set (md_applied s)")
    case True
    then have "migrate n (xs @ ys) s = (Finished, names, s')" using Cons.prems(2) by simp
    then show ?thesis using Cons.IH Cons.prems(1) True by (metis migrate.simps(2))
  next
    case False
    then obtain k d names' where k: "n = Suc k" "mg_up m (md_db s) = Inr d" "names = mg_name m # names'"
        "migrate k (xs @ ys) (s\<lparr>md_db := d, md_applied := md_applied s @ [mg_name m]\<rparr>) = (Finished, names', s')"
      using Cons.prems(2) by (auto split: nat.splits sum.splits prod.splits)
    obtain n1 n2 g1 g2 s1 where
      i: "migrate n1 xs (s\<lparr>md_db := d, md_applied := md_applied s @ [mg_name m]\<rparr>) = (Finished, g1, s1)"
        "migrate n2 ys s1 = (Finished, g2, s')" "names' = g1 @ g2"
      using Cons.IH [OF _ k(4)] by blast
    have "migrate (Suc n1) (m # xs) s = (Finished, mg_name m # g1, s1)" using False k(2) i(1) by simp
    then show ?thesis using Cons.prems(1) [OF _ i(2)] i(3) k(3) by simp
  qed
qed

lemma migrate_keeps:
  assumes "migrate n ms s = (r, names, s')" and "Q (md_db s)"
    and "\<And>m d d'. m \<in> set ms \<Longrightarrow> mg_up m d = Inr d' \<Longrightarrow> Q d \<Longrightarrow> Q d'"
  shows "Q (md_db s')"
  using assms
proof (induction ms arbitrary: n s names)
  case (Cons m ms)
  have keep: "Q d'" if "x \<in> set ms" "mg_up x d = Inr d'" "Q d" for x d d'
    using Cons.prems(3) [of x d d'] that by simp
  show ?case
  proof (cases "\<exists>k d. mg_name m \<notin> set (md_applied s) \<and> n = Suc k \<and> mg_up m (md_db s) = Inr d")
    case False
    then have "migrate n ms s = (r, names, s') \<or> s' = s"
      using Cons.prems(1) by (auto split: nat.splits sum.splits if_splits)
    then show ?thesis
    proof
      assume "migrate n ms s = (r, names, s')"
      then show ?thesis by (rule Cons.IH) (use Cons.prems(2) keep in \<open>blast+\<close>)
    qed (use Cons.prems(2) in simp)
  next
    case True
    then obtain k d where k: "mg_name m \<notin> set (md_applied s)" "n = Suc k" "mg_up m (md_db s) = Inr d" by blast
    obtain names' where later: "migrate k ms (s\<lparr>md_db := d, md_applied := md_applied s @ [mg_name m]\<rparr>) = (r, names', s')"
      using Cons.prems(1) k by (auto split: prod.splits)
    have "Q d" using Cons.prems(3) [of m "md_db s" d] Cons.prems(2) k(3) by simp
    then show ?thesis using keep by (intro Cons.IH [OF later]) simp_all
  qed
qed simp

text \<open>
  C31.  No secret is left: a start that upgrades a database from before 20240011 to the end leaves only hashes
  in the keys' table and asks for the scrub of the pages that held the keys.
\<close>

theorem no_secret_left:
  assumes "run_migrations sha s = (None, scrubbed, s')" and "key_ref_name \<notin> set (md_applied s)"
    and "\<And>x. length (sha x) = 32"
  shows "hashed (md_db s') \<and> scrubbed"
proof -
  let ?pre = "[m_init, m_constraints, m_profile_quotas, m_audit, m_notices, m_stacked_quotas, m_budget_quotas,
     m_admin_grants, m_profile_expiry, m_limit_sync]" and ?post = "[m_synced_owner, m_admin_flag, m_key_missing]"
  have split: "migrations sha = ?pre @ m_key_ref sha # ?post" by (simp add: migrations_def)
  obtain r names s2 where run: "migrate (length (migrations sha)) (migrations sha) s = (r, names, s2)" by (metis surj_pair)
  have "r = Finished" "s2 = s'" "scrubbed = (key_ref_name \<in> set names)"
    using assms(1) run migrate_completes [of "migrations sha" "length (migrations sha)" s]
    by (auto simp: run_migrations_def split: migrate_end.splits)
  then have run': "migrate (length (migrations sha)) (?pre @ m_key_ref sha # ?post) s = (Finished, names, s')"
    using run split by simp
  obtain n1 n2 g1 g2 s1 where pre: "migrate n1 ?pre s = (Finished, g1, s1)"
    and rest: "migrate n2 (m_key_ref sha # ?post) s1 = (Finished, g2, s')" and names: "names = g1 @ g2"
    using run' by (rule migrate_append)
  have "key_ref_name \<notin> set (md_applied s1)"
    using migrate_applied [OF pre] assms(2)
    by (auto simp: key_ref_name_def m_init_def m_constraints_def m_profile_quotas_def m_audit_def m_notices_def
        m_stacked_quotas_def m_budget_quotas_def m_admin_grants_def m_profile_expiry_def m_limit_sync_def)
  moreover have name: "mg_name (m_key_ref sha) = key_ref_name" by (simp add: m_key_ref_def)
  ultimately obtain k d names' where k: "mg_up (m_key_ref sha) (md_db s1) = Inr d" "g2 = key_ref_name # names'"
      "migrate k ?post (s1\<lparr>md_db := d, md_applied := md_applied s1 @ [key_ref_name]\<rparr>) = (Finished, names', s')"
    using rest by (auto simp del: migrate.simps simp: migrate.simps(2) [of _ "m_key_ref sha"] split: nat.splits sum.splits prod.splits)
  have "hashed d" using key_ref_hashes [OF k(1)] assms(3) by blast
  then have "hashed (md_db s')"
    using migrate_keeps [OF k(3), of hashed] later_keep_hashed by auto
  then show ?thesis using \<open>scrubbed = (key_ref_name \<in> set names)\<close> names k(2) by simp
qed

text \<open>But a process that dies, or fails, after the keys were hashed and before the run is over never asks for it.\<close>

lemma migrate_fresh:
  assumes "migrate n ms s = (r, names, s')"
  shows "set names \<inter> set (md_applied s) = {}"
  using assms
proof (induction ms arbitrary: n s names)
  case (Cons m ms)
  show ?case
  proof (cases "\<exists>k d. mg_name m \<notin> set (md_applied s) \<and> n = Suc k \<and> mg_up m (md_db s) = Inr d")
    case False
    then have "migrate n ms s = (r, names, s') \<or> names = []"
      using Cons.prems by (auto split: nat.splits sum.splits if_splits)
    then show ?thesis using Cons.IH by auto
  next
    case True
    then obtain k d where k: "mg_name m \<notin> set (md_applied s)" "n = Suc k" "mg_up m (md_db s) = Inr d" by blast
    obtain names' where n': "migrate k ms (s\<lparr>md_db := d, md_applied := md_applied s @ [mg_name m]\<rparr>) = (r, names', s')"
        "names = mg_name m # names'"
      using Cons.prems k by (auto split: prod.splits)
    then show ?thesis using Cons.IH [OF n'(1)] k(1) by auto
  qed
qed simp

lemma scrub_lost:
  assumes "migrate n (migrations sha) s = (r, names, s1)" and "key_ref_name \<in> set names"
  shows "\<not> fst (snd (run_migrations sha s1))"
proof -
  obtain r' names' s2 where run: "migrate (length (migrations sha)) (migrations sha) s1 = (r', names', s2)" by (metis surj_pair)
  have "key_ref_name \<in> set (md_applied s1)" using migrate_applied [OF assms(1)] assms(2) by simp
  then have "key_ref_name \<notin> set names'" using migrate_fresh [OF run] by blast
  then show ?thesis using run by (simp add: run_migrations_def split: migrate_end.split)
qed

section \<open>A database from before the hashes\<close>

definition old_key :: sql_row where
  "old_key = blank_row(''id'' := SqlInt 1, ''user_id'' := SqlInt 1, ''litellm_key'' := SqlText ''sk-abc'')"

definition old_table :: "string list \<Rightarrow> sql_row list \<Rightarrow> sql_table" where
  "old_table cs rows = \<lparr>tb_columns = cs, tb_unique = [], tb_rows = rows, tb_next = 2\<rparr>"

definition old_state :: migrated where
  "old_state =
     \<lparr>md_db = \<lparr>sq_tables = [''api_keys'' \<mapsto> old_table [''id'', ''user_id'', ''litellm_key''] [old_key],
                            ''users'' \<mapsto> old_table [''id'', ''oidc_sub''] [blank_row(''id'' := SqlInt 1, ''oidc_sub'' := SqlText ''s'')],
                            ''admin_grants'' \<mapsto> old_table grant_columns [blank_row(''oidc_sub'' := SqlText ''s'')]],
              sq_indexes = []\<rparr>,
      md_applied = [''20240001'', ''20240002'', ''20240003'', ''20240004'', ''20240005'', ''20240006'', ''20240007'', ''20240008'',
        ''20240009'', ''20240010'']\<rparr>"

definition upgraded :: "string option \<times> bool \<times> migrated" where
  "upgraded = run_migrations (\<lambda>_. replicate 32 (CHR ''x'')) old_state"

lemma upgraded_fine: "fst upgraded = None"
  by code_simp

lemma no_secret_left_witness:
  "hashed (md_db (snd (snd upgraded))) \<and> fst (snd upgraded)"
proof (rule no_secret_left)
  show "run_migrations (\<lambda>_. replicate 32 (CHR ''x'')) old_state = (None, fst (snd upgraded), snd (snd upgraded))"
    using upgraded_fine by (simp add: upgraded_def prod_eq_iff)
  show "key_ref_name \<notin> set (md_applied old_state)" by (simp add: old_state_def key_ref_name_def)
qed simp

end
