(* ===== verification/Upgrade.thy ===== *)
theory Upgrade
  imports Migrations DbInvariant
begin

text \<open>
  From the tables that the migrations make to the records that the rest of the model works on: the columns that
  each struct of \<open>models.go\<close> is stored in, what it means that a table holds a list of records, and what any
  database has that was brought up by the migrations, whatever the versions of the program in between wrote.
\<close>

section \<open>Records in tables\<close>

text \<open>
  The values of the columns of a record (the \<open>bun\<close> tags of its struct).  How a time and a list of models are
  stored is left open.
\<close>

record codec =
  cd_time :: "time \<Rightarrow> sql_value"
  cd_models :: "string list \<Rightarrow> sql_value"

type_synonym stored_row = "(string \<times> sql_value) list"

definition sql_option :: "('a \<Rightarrow> sql_value) \<Rightarrow> 'a option \<Rightarrow> sql_value" where
  "sql_option f x = (case x of None \<Rightarrow> SqlNull | Some a \<Rightarrow> f a)"

definition sql_bool :: "bool \<Rightarrow> sql_value" where
  "sql_bool b = SqlInt (if b then 1 else 0)"

definition profile_row :: "codec \<Rightarrow> profile \<Rightarrow> stored_row" where
  "profile_row cd p =
     [(''id'', SqlInt (pf_id p)), (''name'', SqlText (pf_name p)), (''description'', SqlText (pf_description p)),
      (''models'', cd_models cd (pf_models p)), (''tpm_limit'', sql_option SqlInt (pf_tpm p)),
      (''rpm_limit'', sql_option SqlInt (pf_rpm p)), (''max_budget'', sql_option SqlReal (pf_max_budget p)),
      (''budget_duration'', sql_option SqlText (pf_budget_duration p)), (''key_duration_days'', SqlInt (pf_key_days p)),
      (''is_default'', sql_bool (pf_default p)), (''limits_rev'', SqlInt (pf_rev p)),
      (''created_at'', cd_time cd (pf_created p)), (''updated_at'', cd_time cd (pf_updated p))]"

definition quota_row :: "codec \<Rightarrow> profile_quota \<Rightarrow> stored_row" where
  "quota_row cd q =
     [(''id'', SqlInt (pq_id q)), (''profile_id'', SqlInt (pq_profile q)), (''budget'', SqlReal (pq_budget q)),
      (''period'', SqlText (pq_period q))]"

definition stored_user :: "codec \<Rightarrow> user \<Rightarrow> stored_row" where
  "stored_user cd u =
     [(''id'', SqlInt (us_id u)), (''oidc_sub'', SqlText (us_sub u)), (''email'', SqlText (us_email u)),
      (''name'', SqlText (us_name u)), (''profile_id'', sql_option SqlInt (us_profile u)),
      (''profile_expires_at'', sql_option (cd_time cd) (us_expires u)),
      (''profile_after_expiry'', sql_option SqlInt (us_after u)), (''revoke_key_at_expiry'', sql_bool (us_revoke u)),
      (''is_admin'', sql_bool (us_admin u)), (''created_at'', cd_time cd (us_created u)),
      (''updated_at'', cd_time cd (us_updated u))]"

definition key_row :: "codec \<Rightarrow> api_key \<Rightarrow> stored_row" where
  "key_row cd k =
     [(''id'', SqlInt (ak_id k)), (''user_id'', SqlInt (ak_user k)), (''key_ref'', SqlText (ak_ref k)),
      (''key_prefix'', SqlText (ak_prefix k)), (''expires_at'', cd_time cd (ak_expires k)),
      (''created_at'', cd_time cd (ak_created k)), (''synced_profile_id'', sql_option SqlInt (ak_synced_profile k)),
      (''synced_rev'', sql_option SqlInt (ak_synced_rev k)), (''synced_owner_name'', sql_option SqlText (ak_synced_name k)),
      (''synced_owner_email'', sql_option SqlText (ak_synced_email k)), (''sync_error'', SqlText (ak_sync_error k)),
      (''sync_failed_at'', sql_option (cd_time cd) (ak_failed_at k)),
      (''missing_since'', sql_option (cd_time cd) (ak_missing k))]"

definition stored_session :: "codec \<Rightarrow> session_row \<Rightarrow> stored_row" where
  "stored_session cd s =
     [(''id'', SqlInt (se_id s)), (''user_id'', SqlInt (se_user s)), (''token'', SqlText (se_token s)),
      (''id_token'', SqlText (se_id_token s)), (''expires_at'', cd_time cd (se_expires s)),
      (''created_at'', cd_time cd (se_created s))]"

definition audit_row :: "codec \<Rightarrow> audit_event \<Rightarrow> stored_row" where
  "audit_row cd e =
     [(''id'', SqlInt (au_id e)), (''created_at'', cd_time cd (au_created e)), (''action'', SqlText (au_action e)),
      (''actor_email'', SqlText (au_actor e)), (''subject_email'', SqlText (au_subject e)),
      (''subject_id'', sql_option SqlInt (au_subject_id e)), (''detail'', SqlText (au_detail e))]"

definition notice_row :: "codec \<Rightarrow> expiry_notice \<Rightarrow> stored_row" where
  "notice_row cd n =
     [(''id'', SqlInt (en_id n)), (''api_key_id'', SqlInt (en_key n)), (''days_before'', SqlInt (en_days n)),
      (''sent_at'', cd_time cd (en_sent n))]"

text \<open>A table holds records if each row has the values of its record, and the counter is the next id.\<close>

definition holds :: "sql_db \<Rightarrow> string \<Rightarrow> ('a \<Rightarrow> stored_row) \<Rightarrow> 'a list \<Rightarrow> int \<Rightarrow> bool" where
  "holds d t f xs n =
     (case sq_tables d t of
        None \<Rightarrow> False
      | Some tb \<Rightarrow> tb_next tb = n
          \<and> list_all2 (\<lambda>x r. list_all (\<lambda>(c, v). c \<in> set (tb_columns tb) \<and> r c = v) (f x)) xs (tb_rows tb))"

definition reads_as :: "codec \<Rightarrow> sql_db \<Rightarrow> database \<Rightarrow> bool" where
  "reads_as cd d D \<longleftrightarrow>
     holds d ''profiles'' (profile_row cd) (profiles D) (next_profile D)
     \<and> holds d ''profile_quotas'' (quota_row cd) (quotas D) (next_quota D)
     \<and> holds d ''users'' (stored_user cd) (users D) (next_user D)
     \<and> holds d ''api_keys'' (key_row cd) (api_keys D) (next_key D)
     \<and> holds d ''sessions'' (stored_session cd) (sessions D) (next_session D)
     \<and> holds d ''audit_events'' (audit_row cd) (audit_log D) (next_audit D)
     \<and> holds d ''expiry_notices'' (notice_row cd) (notices D) (next_notice D)"

text \<open>The columns that each struct needs.\<close>

definition model_columns :: "(string \<times> string list) list" where
  "model_columns =
     [(''profiles'', [''id'', ''name'', ''description'', ''models'', ''tpm_limit'', ''rpm_limit'', ''max_budget'', ''budget_duration'',
         ''key_duration_days'', ''is_default'', ''limits_rev'', ''created_at'', ''updated_at'']),
      (''profile_quotas'', [''id'', ''profile_id'', ''budget'', ''period'']),
      (''users'', [''id'', ''oidc_sub'', ''email'', ''name'', ''profile_id'', ''profile_expires_at'', ''profile_after_expiry'',
         ''revoke_key_at_expiry'', ''is_admin'', ''created_at'', ''updated_at'']),
      (''api_keys'', [''id'', ''user_id'', ''key_ref'', ''key_prefix'', ''expires_at'', ''created_at'', ''synced_profile_id'', ''synced_rev'',
         ''synced_owner_name'', ''synced_owner_email'', ''sync_error'', ''sync_failed_at'', ''missing_since'']),
      (''sessions'', [''id'', ''user_id'', ''token'', ''id_token'', ''expires_at'', ''created_at'']),
      (''audit_events'', [''id'', ''created_at'', ''action'', ''actor_email'', ''subject_email'', ''subject_id'', ''detail'']),
      (''expiry_notices'', [''id'', ''api_key_id'', ''days_before'', ''sent_at''])]"

text \<open>The uniqueness that \<open>schema_inv\<close> asks for.\<close>

definition unique_rows :: "database \<Rightarrow> bool" where
  "unique_rows D \<longleftrightarrow>
     uniq_on pf_id (profiles D) \<and> uniq_on pf_name (profiles D) \<and> one_default (profiles D)
     \<and> uniq_on pq_id (quotas D) \<and> uniq_on (\<lambda>q. (pq_profile q, pq_period q)) (quotas D)
     \<and> uniq_on us_id (users D) \<and> uniq_on us_sub (users D)
     \<and> uniq_on ak_id (api_keys D) \<and> uniq_on ak_user (api_keys D)
     \<and> uniq_on se_id (sessions D) \<and> uniq_on se_token (sessions D)
     \<and> uniq_on au_id (audit_log D)
     \<and> uniq_on en_id (notices D) \<and> uniq_on (\<lambda>x. (en_key x, en_days x)) (notices D)"

section \<open>The life of a database\<close>

definition no_tables :: sql_db where
  "no_tables = \<lparr>sq_tables = Map.empty, sq_indexes = []\<rparr>"

text \<open>Which tables there are, with their columns and unique indexes.\<close>

definition shape_of :: "sql_db \<Rightarrow> (string \<Rightarrow> (string list \<times> ((sql_row \<Rightarrow> bool) \<times> string list) list) option) \<times> (string \<times> string) list" where
  "shape_of d = (\<lambda>t. map_option (\<lambda>tb. (tb_columns tb, tb_unique tb)) (sq_tables d t), sq_indexes d)"

definition tables_ok :: "sql_db \<Rightarrow> bool" where
  "tables_ok d \<longleftrightarrow> (\<forall>t tb. sq_tables d t = Some tb \<longrightarrow> table_ok tb)"

text \<open>
  A database that has had the first \<open>k\<close> migrations.  Before, between and after them any version of the program
  may have written any rows that the unique indexes admit.
\<close>

inductive life :: "(string \<Rightarrow> string) \<Rightarrow> nat \<Rightarrow> sql_db \<Rightarrow> bool" for sha where
  new: "life sha 0 no_tables"
| up: "life sha k d \<Longrightarrow> k < length (migrations sha) \<Longrightarrow> mg_up (migrations sha ! k) d = Inr d' \<Longrightarrow> life sha (Suc k) d'"
| rows: "life sha k d \<Longrightarrow> shape_of d' = shape_of d \<Longrightarrow> tables_ok d' \<Longrightarrow> life sha k d'"

section \<open>Statements do the same to every database of a shape\<close>

text \<open>
  A table is sound if its indexes hold and are over its own columns.  A statement is tame if it makes the same
  shape of all databases of one shape, and keeps sound tables sound.
\<close>

definition depends_on :: "(sql_row \<Rightarrow> bool) \<Rightarrow> string list \<Rightarrow> bool" where
  "depends_on P cs \<longleftrightarrow> (\<forall>r r'. (\<forall>c \<in> set cs. r c = r' c) \<longrightarrow> P r = P r')"

definition own_indexes :: "string list \<times> ((sql_row \<Rightarrow> bool) \<times> string list) list \<Rightarrow> bool" where
  "own_indexes x \<longleftrightarrow> (\<forall>(P, cs) \<in> set (snd x). set cs \<subseteq> set (fst x) \<and> depends_on P cs)"

definition sound_table :: "sql_table \<Rightarrow> bool" where
  "sound_table tb \<longleftrightarrow> table_ok tb \<and> own_indexes (tb_columns tb, tb_unique tb)"

definition sound :: "sql_db \<Rightarrow> bool" where
  "sound d \<longleftrightarrow> (\<forall>t tb. sq_tables d t = Some tb \<longrightarrow> sound_table tb)"

definition tame :: "stmt \<Rightarrow> bool" where
  "tame s \<longleftrightarrow>
     (\<forall>d e d' e'. shape_of d = shape_of e \<longrightarrow> s d = Inr d' \<longrightarrow> s e = Inr e' \<longrightarrow> shape_of d' = shape_of e')
     \<and> (\<forall>d d'. sound d \<longrightarrow> s d = Inr d' \<longrightarrow> sound d')"

named_theorems tame

lemma tameI:
  assumes "\<And>d e d' e'. shape_of d = shape_of e \<Longrightarrow> s d = Inr d' \<Longrightarrow> s e = Inr e' \<Longrightarrow> shape_of d' = shape_of e'"
    and "\<And>d d'. sound d \<Longrightarrow> s d = Inr d' \<Longrightarrow> sound d'"
  shows "tame s"
  using assms unfolding tame_def by blast

lemma tameD:
  assumes "tame s"
  shows "shape_of d = shape_of e \<Longrightarrow> s d = Inr d' \<Longrightarrow> s e = Inr e' \<Longrightarrow> shape_of d' = shape_of e'"
    and "sound d \<Longrightarrow> s d = Inr d' \<Longrightarrow> sound d'"
  using assms unfolding tame_def by blast+

lemma tame_seq [tame]:
  assumes "tame a" and "tame b"
  shows "tame (\<lambda>d. case a d of Inl e \<Rightarrow> Inl (g e) | Inr d' \<Rightarrow> b d')"
  by (rule tameI; clarsimp split: sum.splits) (metis assms tameD)+

lemma tame_stmts [tame]:
  assumes "\<And>s. s \<in> set ss \<Longrightarrow> tame s"
  shows "tame (stmts msg ss)"
  using assms
proof (induction ss)
  case Nil
  then show ?case by (intro tameI) auto
next
  case (Cons s ss)
  then have "tame (\<lambda>d. case s d of Inl e \<Rightarrow> Inl (msg @ e) | Inr d' \<Rightarrow> stmts msg ss d')" by (intro tame_seq) auto
  moreover have "stmts msg (s # ss) = (\<lambda>d. case s d of Inl e \<Rightarrow> Inl (msg @ e) | Inr d' \<Rightarrow> stmts msg ss d')" by (rule ext) simp
  ultimately show ?case by simp
qed

lemma shape_put:
  "shape_of (put_table t tb d) = ((fst (shape_of d))(t \<mapsto> (tb_columns tb, tb_unique tb)), snd (shape_of d))"
  by (auto simp: shape_of_def put_table_def fun_eq_iff)

lemma shape_table: "sq_tables d t = Some tb \<Longrightarrow> fst (shape_of d) t = Some (tb_columns tb, tb_unique tb)"
  by (simp add: shape_of_def)

lemma sound_put: "sound d \<Longrightarrow> sound_table tb \<Longrightarrow> sound (put_table t tb d)"
  by (auto simp: sound_def put_table_def)

lemma sound_lookup: "sound d \<Longrightarrow> sq_tables d t = Some tb \<Longrightarrow> sound_table tb"
  by (auto simp: sound_def)

text \<open>A statement on one table: what it does to that table's columns and indexes, and that it keeps the table sound.\<close>

lemma tame_on_table:
  assumes "\<And>tb tb'. f tb = Inr tb' \<Longrightarrow> (tb_columns tb', tb_unique tb') = g (tb_columns tb, tb_unique tb)"
    and "\<And>tb tb'. sound_table tb \<Longrightarrow> set used \<subseteq> set (tb_columns tb) \<Longrightarrow> f tb = Inr tb' \<Longrightarrow> sound_table tb'"
  shows "tame (on_table t used f)"
proof (rule tameI)
  fix d e d' e' assume same: "shape_of d = shape_of e" and d: "on_table t used f d = Inr d'" and e: "on_table t used f e = Inr e'"
  obtain tb tb' where tb: "sq_tables d t = Some tb" "f tb = Inr tb'" "d' = put_table t tb' d" using d by (rule on_table_cases)
  obtain tc tc' where tc: "sq_tables e t = Some tc" "f tc = Inr tc'" "e' = put_table t tc' e" using e by (rule on_table_cases)
  have "(tb_columns tb, tb_unique tb) = (tb_columns tc, tb_unique tc)" using shape_table tb(1) tc(1) same by (metis option.inject)
  then have "(tb_columns tb', tb_unique tb') = (tb_columns tc', tb_unique tc')" using assms(1) tb(2) tc(2) by metis
  then show "shape_of d' = shape_of e'" using same tb(3) tc(3) by (simp add: shape_put)
next
  fix d d' assume d: "sound d" "on_table t used f d = Inr d'"
  then obtain tb tb' where tb: "sq_tables d t = Some tb" "f tb = Inr tb'" "d' = put_table t tb' d" by (elim on_table_cases)
  have "set used \<subseteq> set (tb_columns tb)" using d(2) tb(1) by (auto simp: on_table_def split: if_splits)
  then show "sound d'" using assms(2) [OF sound_lookup [OF d(1) tb(1)] _ tb(2)] sound_put [OF d(1)] tb(3) by simp
qed

lemma own_indexesD:
  "own_indexes (cols, us) \<Longrightarrow> (P, cs) \<in> set us \<Longrightarrow> set cs \<subseteq> set cols"
  "own_indexes (cols, us) \<Longrightarrow> (P, cs) \<in> set us \<Longrightarrow> depends_on P cs"
  by (auto simp: own_indexes_def)

lemma depends_onD: "depends_on P cs \<Longrightarrow> (\<And>c. c \<in> set cs \<Longrightarrow> r c = r' c) \<Longrightarrow> P r = P r'"
  unfolding depends_on_def by blast

lemma table_okI: "(\<And>P cs. (P, cs) \<in> set (tb_unique tb) \<Longrightarrow> unique_ok (P, cs) (tb_rows tb)) \<Longrightarrow> table_ok tb"
  by (auto simp: table_ok_def list_all_iff)

lemma table_okD: "table_ok tb \<Longrightarrow> (P, cs) \<in> set (tb_unique tb) \<Longrightarrow> unique_ok (P, cs) (tb_rows tb)"
  by (auto simp: table_ok_def list_all_iff)

text \<open>An index sees no difference between rows that agree on its columns, renamed or not.\<close>

lemma unique_ok_map:
  assumes "unique_ok (P, cs) rows" and "\<And>r. key_of cs' (h r) = key_of cs r" and "\<And>r. P' (h r) = P r"
  shows "unique_ok (P', cs') (map h rows)"
  using assms by (simp add: unique_ok_def filter_map o_def)

lemma add_column_tame [tame]: "tame (add_column t c v)"
  unfolding add_column_def
proof (rule tame_on_table [where g = "\<lambda>(cols, us). (cols @ [c], us)"])
  fix tb tb' assume s: "sound_table tb" and
    tb': "(if c \<in> set (tb_columns tb) then Inl (''duplicate column name: '' @ c)
     else Inr (tb\<lparr>tb_columns := tb_columns tb @ [c], tb_rows := map (\<lambda>r. r(c := v)) (tb_rows tb)\<rparr>)) = Inr tb'"
  have own: "own_indexes (tb_columns tb, tb_unique tb)" and ok: "table_ok tb" using s by (auto simp: sound_table_def)
  have new: "c \<notin> set (tb_columns tb)" and t: "tb' = tb\<lparr>tb_columns := tb_columns tb @ [c], tb_rows := map (\<lambda>r. r(c := v)) (tb_rows tb)\<rparr>"
    using tb' by (auto split: if_splits)
  have "unique_ok (P, cs) (map (\<lambda>r. r(c := v)) (tb_rows tb))" if u: "(P, cs) \<in> set (tb_unique tb)" for P cs
  proof (rule unique_ok_map [OF table_okD [OF ok u]])
    have "c \<notin> set cs" using own_indexesD(1) [OF own u] new by auto
    then show "key_of cs (r(c := v)) = key_of cs r" for r by (auto simp: key_of_def)
    show "P (r(c := v)) = P r" for r
      by (rule depends_onD [OF own_indexesD(2) [OF own u]]) (use \<open>c \<notin> set cs\<close> in auto)
  qed
  then have "table_ok tb'" unfolding t by (intro table_okI) simp
  then show "sound_table tb'" using own unfolding t by (auto simp: sound_table_def own_indexes_def)
qed (auto split: if_splits)

lemma drop_column_tame [tame]: "tame (drop_column t c)"
  unfolding drop_column_def
  by (rule tame_on_table [where g = "\<lambda>(cols, us). (filter (\<lambda>x. x \<noteq> c) cols, us)"])
     (fastforce simp: sound_table_def own_indexes_def table_ok_def list_ex_iff split: if_splits)+

lemma rename_column_tame [tame]: "tame (rename_column t c c')"
  unfolding rename_column_def
proof (rule tame_on_table [where g = "\<lambda>(cols, us). (map (\<lambda>x. if x = c then c' else x) cols,
      map (\<lambda>(P, cs). (\<lambda>r. P (r(c := r c')), map (\<lambda>x. if x = c then c' else x) cs)) us)"])
  let ?h = "\<lambda>r. r(c' := r c)" and ?n = "\<lambda>x. if x = c then c' else x"
  fix tb tb' assume s: "sound_table tb" and
    tb': "(if c' \<in> set (tb_columns tb) then Inl (''duplicate column name: '' @ c')
     else Inr (tb\<lparr>tb_columns := map ?n (tb_columns tb),
        tb_unique := map (\<lambda>(P, cs). (\<lambda>r. P (r(c := r c')), map ?n cs)) (tb_unique tb),
        tb_rows := map ?h (tb_rows tb)\<rparr>)) = Inr tb'"
  have own: "own_indexes (tb_columns tb, tb_unique tb)" and ok: "table_ok tb" using s by (auto simp: sound_table_def)
  have new: "c' \<notin> set (tb_columns tb)"
    and t: "tb' = tb\<lparr>tb_columns := map ?n (tb_columns tb),
        tb_unique := map (\<lambda>(P, cs). (\<lambda>r. P (r(c := r c')), map ?n cs)) (tb_unique tb), tb_rows := map ?h (tb_rows tb)\<rparr>"
    using tb' by (auto split: if_splits)
  have 1: "unique_ok (\<lambda>r. P (r(c := r c')), map ?n cs) (map ?h (tb_rows tb))" if u: "(P, cs) \<in> set (tb_unique tb)" for P cs
  proof (rule unique_ok_map [OF table_okD [OF ok u]])
    have fresh: "c' \<notin> set cs" using own_indexesD(1) [OF own u] new by auto
    then show "key_of (map ?n cs) (?h r) = key_of cs r" for r by (auto simp: key_of_def)
    show "P ((?h r)(c := (?h r) c')) = P r" for r
      by (rule depends_onD [OF own_indexesD(2) [OF own u]]) (use fresh in auto)
  qed
  have 2: "set (map ?n cs) \<subseteq> set (map ?n (tb_columns tb)) \<and> depends_on (\<lambda>r. P (r(c := r c'))) (map ?n cs)"
    if u: "(P, cs) \<in> set (tb_unique tb)" for P cs
  proof
    show "set (map ?n cs) \<subseteq> set (map ?n (tb_columns tb))" using own_indexesD(1) [OF own u] by auto
    show "depends_on (\<lambda>r. P (r(c := r c'))) (map ?n cs)"
      unfolding depends_on_def
      by (intro allI impI, rule depends_onD [OF own_indexesD(2) [OF own u]]) auto
  qed
  show "sound_table tb'" using 1 2 unfolding t by (fastforce simp: sound_table_def own_indexes_def intro!: table_okI)
qed (auto split: if_splits)

text \<open>Statements that only change rows, and check the indexes when they may collide.\<close>

lemma shape_lookup:
  assumes "shape_of d = shape_of e" and "sq_tables d t = Some tb"
  obtains tc where "sq_tables e t = Some tc" "tb_columns tc = tb_columns tb" "tb_unique tc = tb_unique tb"
proof -
  have "fst (shape_of e) t = Some (tb_columns tb, tb_unique tb)" using assms shape_table by metis
  then show thesis using that by (auto simp: shape_of_def)
qed

lemma shape_none: "shape_of d = shape_of e \<Longrightarrow> (sq_tables d t = None) = (sq_tables e t = None)"
  by (metis shape_lookup option.distinct(1) option.exhaust)

lemma sound_shape: "sound d \<Longrightarrow> shape_of d' = shape_of d \<Longrightarrow> tables_ok d' \<Longrightarrow> sound d'"
  unfolding sound_def tables_ok_def sound_table_def by (metis shape_lookup)

lemma tame_rows:
  assumes "\<And>tb tb'. f tb = Inr tb' \<Longrightarrow> tb_columns tb' = tb_columns tb \<and> tb_unique tb' = tb_unique tb
      \<and> (table_ok tb \<longrightarrow> table_ok tb')"
  shows "tame (on_table t used f)"
  by (rule tame_on_table [where g = id]) (use assms in \<open>auto simp: sound_table_def\<close>)

lemma update_rows_tame [tame]: "tame (update_rows t used cond f)"
  unfolding update_rows_def by (rule tame_rows) (auto simp: Let_def split: if_splits)

lemma unique_ok_filter:
  assumes "unique_ok u rows"
  shows "unique_ok u (filter Q rows)"
proof -
  obtain P cs where u: "u = (P, cs)" by fastforce
  have "filter (\<lambda>r. P r \<and> SqlNull \<notin> set (key_of cs r)) (filter Q rows)
      = filter Q (filter (\<lambda>r. P r \<and> SqlNull \<notin> set (key_of cs r)) rows)"
    by (simp add: conj_commute)
  then show ?thesis using assms distinct_map_filter unfolding u unique_ok_def prod.case by metis
qed

lemma delete_rows_tame [tame]: "tame (delete_rows t used cond)"
  unfolding delete_rows_def by (rule tame_rows) (auto simp: table_ok_def list_all_iff unique_ok_filter)

lemma add_rows_keeps:
  "add_rows b rs tb = Inr tb' \<Longrightarrow> tb_columns tb' = tb_columns tb \<and> tb_unique tb' = tb_unique tb \<and> (table_ok tb \<longrightarrow> table_ok tb')"
  by (induction b rs tb rule: add_rows.induct) (auto simp: Let_def split: if_splits)

lemma insert_select_tame [tame]: "tame (insert_select b t cols src used f)"
proof -
  have t: "tame (on_table t cols (add_rows b rs))" for rs by (rule tame_rows) (rule add_rows_keeps)
  have ok: "has_columns src used d" and run: "on_table t cols (add_rows b (concat (map f (rows_of src d)))) d = Inr d'"
    if "insert_select b t cols src used f d = Inr d'" for d d' using that by (auto simp: insert_select_def split: if_splits)
  have same: "shape_of d' = shape_of d" if "insert_select b t cols src used f d = Inr d'" for d d'
    by (rule on_table_cases [OF run [OF that]])
       (use shape_table in \<open>auto simp: shape_put dest!: add_rows_keeps intro!: prod_eqI ext\<close>)
  show ?thesis by (rule tameI) (use same tameD(2) [OF t] run in \<open>metis+\<close>)
qed

lemma carry_grants_tame [tame]: "tame carry_grants"
proof -
  have run: "update_rows ''users'' [''oidc_sub'', ''is_admin''] (\<lambda>_ r. r ''oidc_sub'' \<in> set (anchored d))
             (\<lambda>r. r(''is_admin'' := SqlInt 1)) d = Inr d'" if "carry_grants d = Inr d'" for d d'
    using that by (auto simp: carry_grants_def split: if_splits)
  have same: "shape_of d' = shape_of d" if "carry_grants d = Inr d'" for d d'
    by (rule on_table_cases [OF run [OF that, unfolded update_rows_def]])
       (use shape_table in \<open>auto simp: shape_put Let_def split: if_splits intro!: prod_eqI ext\<close>)
  show ?thesis by (rule tameI) (use same tameD(2) [OF update_rows_tame] run in \<open>metis+\<close>)
qed

text \<open>Tables and indexes.\<close>

lemma create_table_tame [tame]:
  assumes "\<And>cs. cs \<in> set us \<Longrightarrow> set cs \<subseteq> set cols"
  shows "tame (create_table b t cols us)"
proof (rule tameI)
  fix d e d' e' assume same: "shape_of d = shape_of e" and d: "create_table b t cols us d = Inr d'"
    and e: "create_table b t cols us e = Inr e'"
  show "shape_of d' = shape_of e'"
    using same d e shape_none [OF same, of t]
    by (cases "sq_tables d t"; cases "sq_tables e t") (auto simp: create_table_def shape_put split: if_splits)
next
  fix d d' assume "sound d" "create_table b t cols us d = Inr d'"
  then show "sound d'" using assms
    by (auto simp: create_table_def sound_table_def own_indexes_def table_ok_def unique_ok_def list_all_iff depends_on_def
        split: option.splits if_splits intro!: sound_put)
qed

lemma drop_table_tame [tame]: "tame (drop_table b t)"
proof (rule tameI)
  fix d e d' e' assume same: "shape_of d = shape_of e" and d: "drop_table b t d = Inr d'" and e: "drop_table b t e = Inr e'"
  have gone: "shape_of (x\<lparr>sq_tables := (sq_tables x)(t := None), sq_indexes := filter (\<lambda>x. snd x \<noteq> t) (sq_indexes x)\<rparr>)
      = ((fst (shape_of x))(t := None), filter (\<lambda>x. snd x \<noteq> t) (snd (shape_of x)))" for x
    by (auto simp: shape_of_def)
  show "shape_of d' = shape_of e'"
    using same d e shape_none [OF same, of t]
    by (cases "sq_tables d t"; cases "sq_tables e t") (auto simp: drop_table_def gone split: if_splits)
qed (auto simp: drop_table_def sound_def split: option.splits if_splits)

lemma create_index_tame [tame]: "tame (create_index b i t)"
  by (rule tameI) (auto simp: create_index_def shape_of_def sound_def split: if_splits)

lemma drop_index_tame [tame]: "tame (drop_index b i)"
  by (rule tameI) (auto simp: drop_index_def shape_of_def sound_def split: if_splits)

lemma create_unique_tame [tame]:
  assumes "depends_on P cs"
  shows "tame (create_unique i t cs P)"
proof -
  let ?f = "\<lambda>tb. if unique_ok (P, cs) (tb_rows tb) then Inr (tb\<lparr>tb_unique := (P, cs) # tb_unique tb\<rparr>)
                                     else Inl ''UNIQUE constraint failed''"
  have 1: "tame (on_table t cs ?f)"
    by (rule tame_on_table [where g = "\<lambda>(cols, us). (cols, (P, cs) # us)"])
       (use assms in \<open>fastforce simp: sound_table_def own_indexes_def table_ok_def split: if_splits\<close>)+
  let ?s = "\<lambda>d. case on_table t cs ?f d of Inl e \<Rightarrow> Inl e | Inr d' \<Rightarrow> create_index False i t d'"
  have 2: "tame ?s" by (intro tame_seq 1 create_index_tame)
  have at: "create_unique i t cs P d = (if i \<in> fst ` set (snd (shape_of d)) then Inr d else ?s d)" for d
    by (simp add: create_unique_def shape_of_def)
  show ?thesis
  proof (rule tameI)
    fix d e d' e' assume same: "shape_of d = shape_of e" and d: "create_unique i t cs P d = Inr d'"
      and e: "create_unique i t cs P e = Inr e'"
    show "shape_of d' = shape_of e'"
    proof (cases "i \<in> fst ` set (snd (shape_of e))")
      case True
      then show ?thesis using same d e at [of d] at [of e] by simp
    next
      case False
      then show ?thesis using tameD(1) [OF 2 same] d e at [of d] at [of e] same by simp
    qed
  next
    fix d d' assume "sound d" "create_unique i t cs P d = Inr d'"
    then show "sound d'" using tameD(2) [OF 2, of d d'] at [of d] by (cases "i \<in> fst ` set (snd (shape_of d))") simp_all
  qed
qed

lemma depends_True [simp]: "depends_on (\<lambda>_. True) cs"
  by (simp add: depends_on_def)

lemma depends_is_marked [simp]: "depends_on is_marked [''is_default'']"
  by (simp add: depends_on_def is_marked_def)

text \<open>So every migration is tame.\<close>

lemma migrations_tame:
  assumes "m \<in> set (migrations sha)"
  shows "tame (mg_up m)"
proof -
  have init: "tame init_up" unfolding init_up_def [abs_def] by (intro tame_seq tame_stmts create_table_tame) (auto intro!: create_table_tame)
  have constraints: "tame constraints_up" unfolding constraints_up_def [abs_def] by (intro tame) (auto intro!: tame)
  show ?thesis using assms init constraints
    unfolding migrations_def
    by (auto simp: m_init_def m_constraints_def m_profile_quotas_def m_audit_def m_notices_def
        m_stacked_quotas_def m_budget_quotas_def m_admin_grants_def m_profile_expiry_def m_limit_sync_def
        m_key_ref_def m_synced_owner_def m_admin_flag_def m_key_missing_def grant_columns_def intro!: tame)
qed

section \<open>What the migrations make of nothing\<close>

primrec stage :: "(string \<Rightarrow> string) \<Rightarrow> nat \<Rightarrow> sql_db option" where
  "stage sha 0 = Some no_tables"
| "stage sha (Suc k) =
     (case stage sha k of
        None \<Rightarrow> None
      | Some d \<Rightarrow> (case mg_up (migrations sha ! k) d of Inl e \<Rightarrow> None | Inr d' \<Rightarrow> Some d'))"

lemma installs: "case stage sha 14 of None \<Rightarrow> False | Some d \<Rightarrow> list_all (\<lambda>(t, cs). has_columns t cs d) model_columns"
  by code_simp

text \<open>That a unique index over some columns covers both of two rows.\<close>

definition indexed :: "sql_db \<Rightarrow> sql_row \<Rightarrow> sql_row \<Rightarrow> string \<times> string list \<Rightarrow> bool" where
  "indexed d r r' x \<longleftrightarrow>
     (case sq_tables d (fst x) of
        None \<Rightarrow> False
      | Some tb \<Rightarrow> list_ex (\<lambda>(P, cs). cs = snd x \<and> P r \<and> P r') (tb_unique tb))"

lemma stage_indexes:
  "case stage sha 14 of None \<Rightarrow> False | Some d \<Rightarrow> list_all (indexed d r r') [(''profiles'', [''id'']), (''profiles'', [''name'']),
     (''profile_quotas'', [''id'']), (''profile_quotas'', [''profile_id'', ''period'']), (''users'', [''id'']), (''users'', [''oidc_sub'']),
     (''api_keys'', [''id'']), (''api_keys'', [''user_id'']), (''sessions'', [''id'']), (''sessions'', [''token'']), (''audit_events'', [''id'']),
     (''expiry_notices'', [''id'']), (''expiry_notices'', [''api_key_id'', ''days_before''])]"
  by code_simp

text \<open>The index on the default is about marked rows; a row that is marked stands for all of them.\<close>

definition marked_row :: sql_row where "marked_row = blank_row(''is_default'' := SqlInt 1)"

lemma stage_default_index:
  "case stage sha 14 of None \<Rightarrow> False | Some d \<Rightarrow> indexed d marked_row marked_row (''profiles'', [''is_default''])"
  by code_simp

lemma stage_defined:
  assumes "k \<le> 14"
  obtains e where "stage sha k = Some e"
proof -
  have "stage sha (k + n) = None" if "stage sha k = None" for n using that by (induction n) simp_all
  from this [of "14 - k"] have "stage sha k \<noteq> None" using installs [of sha] assms by (auto split: option.splits)
  then show thesis using that by auto
qed

section \<open>Any database that was brought up\<close>

lemma life_shape:
  assumes "life sha k d"
  shows "k \<le> 14 \<and> (\<exists>e. stage sha k = Some e \<and> shape_of d = shape_of e) \<and> sound d"
  using assms
proof induction
  case new
  then show ?case by (simp add: sound_def no_tables_def)
next
  case (up k d d')
  have k: "Suc k \<le> 14" "migrations sha ! k \<in> set (migrations sha)"
    using up.hyps(2) nth_mem [OF up.hyps(2)] by (simp add: migrations_def, blast)
  obtain e where e: "stage sha k = Some e" "shape_of d = shape_of e" "sound d" using up.IH by blast
  obtain e' where e': "stage sha (Suc k) = Some e'" using stage_defined k(1) by blast
  then have "mg_up (migrations sha ! k) e = Inr e'" using e(1) by (simp split: sum.splits)
  then have "shape_of d' = shape_of e'" "sound d'"
    using tameD [OF migrations_tame [OF k(2)]] e(2,3) up.hyps(3) by blast+
  then show ?case using k(1) e' by blast
next
  case (rows k d d')
  then show ?case using sound_shape by metis
qed

lemma unique_ok_apart:
  assumes "unique_ok (P, cs) rows" and "i < j" and "j < length rows" and "P (rows ! i)" and "P (rows ! j)"
    and "SqlNull \<notin> set (key_of cs (rows ! i))"
  shows "key_of cs (rows ! i) \<noteq> key_of cs (rows ! j)"
proof
  assume same: "key_of cs (rows ! i) = key_of cs (rows ! j)"
  let ?Q = "\<lambda>r. P r \<and> SqlNull \<notin> set (key_of cs r)"
  have split: "rows = take j rows @ rows ! j # drop (Suc j) rows" using assms(3) by (simp add: id_take_nth_drop)
  have "rows ! i \<in> set (take j rows)" using assms(2,3) by (auto simp: in_set_conv_nth intro!: exI [of _ i])
  then have "rows ! i \<in> set (filter ?Q (take j rows))" using assms(4,6) by simp
  moreover have "filter ?Q rows = filter ?Q (take j rows) @ rows ! j # filter ?Q (drop (Suc j) rows)"
    by (subst split) (use assms(5,6) same in simp)
  ultimately have "rows ! i \<in> set (filter ?Q (take j rows))"
    "distinct (map (key_of cs) (filter ?Q (take j rows)) @ [key_of cs (rows ! j)])"
    using assms(1) by (auto simp: unique_ok_def)
  then have "key_of cs (rows ! j) \<notin> key_of cs ` set (filter ?Q (take j rows))" "rows ! i \<in> set (filter ?Q (take j rows))" by simp_all
  then show False using same by (metis image_eqI)
qed

text \<open>Two records of a table are stored in rows that no unique index confuses.\<close>

lemma holds_apart:
  assumes "holds d t f xs n" and "sound d" and "i < j" and "j < length xs"
  shows "\<exists>r r'. list_all (\<lambda>(c, v). r c = v) (f (xs ! i)) \<and> list_all (\<lambda>(c, v). r' c = v) (f (xs ! j))
    \<and> (\<forall>cs. indexed d r r' (t, cs) \<longrightarrow> SqlNull \<notin> set (key_of cs r) \<longrightarrow> key_of cs r \<noteq> key_of cs r')"
proof -
  obtain tb where tb: "sq_tables d t = Some tb"
    and rows: "list_all2 (\<lambda>x r. list_all (\<lambda>(c, v). c \<in> set (tb_columns tb) \<and> r c = v) (f x)) xs (tb_rows tb)"
    using assms(1) by (auto simp: holds_def split: option.splits)
  have len: "length (tb_rows tb) = length xs" using rows by (simp add: list_all2_lengthD)
  have ok: "table_ok tb" using assms(2) tb by (auto simp: sound_def sound_table_def)
  let ?r = "tb_rows tb ! i" and ?r' = "tb_rows tb ! j"
  have "list_all (\<lambda>(c, v). ?r c = v) (f (xs ! i))" "list_all (\<lambda>(c, v). ?r' c = v) (f (xs ! j))"
    using list_all2_nthD [OF rows, of i] list_all2_nthD [OF rows, of j] assms(3,4) by (auto simp: list_all_iff)
  moreover have "key_of cs ?r \<noteq> key_of cs ?r'"
    if x: "indexed d ?r ?r' (t, cs)" "SqlNull \<notin> set (key_of cs ?r)" for cs
  proof -
    obtain P where P: "(P, cs) \<in> set (tb_unique tb)" "P ?r" "P ?r'"
      using x(1) tb by (auto simp: indexed_def list_ex_iff)
    show ?thesis using unique_ok_apart [OF table_okD [OF ok P(1)] assms(3) _ P(2,3) x(2)] assms(4) len by simp
  qed
  ultimately show ?thesis by blast
qed

lemma holds_uniq:
  assumes "holds d t f xs n" and "sound d" and "\<And>r r'. indexed d r r' (t, cs)"
    and "\<And>x. list_all (\<lambda>c. map_of (f x) c \<noteq> None \<and> map_of (f x) c \<noteq> Some SqlNull) cs \<and> distinct (map fst (f x))"
    and "\<And>x y. g x = g y \<Longrightarrow> map (map_of (f x)) cs = map (map_of (f y)) cs"
  shows "uniq_on g xs"
proof -
  have at: "r c = v" if "list_all (\<lambda>(c, v). r c = v) (f x)" "map_of (f x) c = Some v" for r x c v
    using that by (auto simp: list_all_iff dest: map_of_SomeD)
  have key: "map Some (key_of cs r) = map (map_of (f x)) cs" if r: "list_all (\<lambda>(c, v). r c = v) (f x)" for r x
  proof -
    have "Some (r c) = map_of (f x) c" if "c \<in> set cs" for c
    proof -
      have "\<forall>c \<in> set cs. map_of (f x) c \<noteq> None \<and> map_of (f x) c \<noteq> Some SqlNull"
        using assms(4) [of x, THEN conjunct1] by (simp only: list_all_iff)
      then have "map_of (f x) c \<noteq> None" using that by blast
      then obtain v where "map_of (f x) c = Some v" by (rule not_None_eq [THEN iffD1, THEN exE])
      then show ?thesis using at [OF r] by simp
    qed
    then show ?thesis by (simp add: key_of_def)
  qed
  have apart: "g (xs ! i) \<noteq> g (xs ! j)" if ij: "i < j" "j < length xs" for i j
  proof
    assume same: "g (xs ! i) = g (xs ! j)"
    obtain r r' where r: "list_all (\<lambda>(c, v). r c = v) (f (xs ! i))" "list_all (\<lambda>(c, v). r' c = v) (f (xs ! j))"
      "\<And>cs. indexed d r r' (t, cs) \<Longrightarrow> SqlNull \<notin> set (key_of cs r) \<Longrightarrow> key_of cs r \<noteq> key_of cs r'"
      using holds_apart [OF assms(1,2) ij] by blast
    have "Some SqlNull \<notin> set (map Some (key_of cs r))"
      unfolding key [OF r(1)] using assms(4) [of "xs ! i"] by (auto simp: list_all_iff)
    then have "SqlNull \<notin> set (key_of cs r)" by auto
    moreover have "map Some (key_of cs r) = map Some (key_of cs r')"
      unfolding key [OF r(1)] key [OF r(2)] by (rule assms(5) [OF same])
    ultimately show False using r(3) [of cs] assms(3) by simp
  qed
  show ?thesis unfolding uniq_on_def distinct_conv_nth
  proof (intro allI impI)
    fix i j assume ij: "i < length (map g xs)" "j < length (map g xs)" "i \<noteq> j"
    then have "g (xs ! i) \<noteq> g (xs ! j)"
      using apart [of i j] apart [of j i] by (cases i j rule: linorder_cases) auto
    then show "map g xs ! i \<noteq> map g xs ! j" using ij by simp
  qed
qed

lemma indexed_shape:
  assumes "shape_of d = shape_of e" and "indexed e r r' x"
  shows "indexed d r r' x"
proof -
  obtain tb where tb: "sq_tables e (fst x) = Some tb" using assms(2) by (auto simp: indexed_def split: option.splits)
  obtain tc where "sq_tables d (fst x) = Some tc" "tb_unique tc = tb_unique tb"
    using shape_lookup [OF assms(1) [symmetric] tb] .
  then show ?thesis using assms(2) tb by (simp add: indexed_def)
qed

lemma columns_shape:
  assumes "shape_of d = shape_of e" and "has_columns t cs e"
  shows "has_columns t cs d"
proof -
  obtain tb where tb: "sq_tables e t = Some tb" using assms(2) by (auto simp: has_columns_def split: option.splits)
  obtain tc where "sq_tables d t = Some tc" "tb_columns tc = tb_columns tb"
    using shape_lookup [OF assms(1) [symmetric] tb] .
  then show ?thesis using assms(2) tb by (simp add: has_columns_def)
qed

lemma indexed_agree:
  assumes "indexed d m m' (t, cs)" and "sound d" and "\<And>c. c \<in> set cs \<Longrightarrow> r c = m c" and "\<And>c. c \<in> set cs \<Longrightarrow> r' c = m' c"
  shows "indexed d r r' (t, cs)"
proof -
  obtain tb P where tb: "sq_tables d t = Some tb" "(P, cs) \<in> set (tb_unique tb)" "P m" "P m'"
    using assms(1) by (auto simp: indexed_def list_ex_iff split: option.splits)
  have "own_indexes (tb_columns tb, tb_unique tb)" using sound_lookup [OF assms(2) tb(1)] by (simp add: sound_table_def)
  then have "depends_on P cs" using tb(2) by (rule own_indexesD(2))
  then have "P r" "P r'" using tb(3,4) assms(3,4) by (metis depends_onD)+
  then show ?thesis using tb(1,2) by (auto simp: indexed_def list_ex_iff)
qed

lemma life_end:
  assumes "life sha 14 d"
  shows "sound d"
    and "list_all (\<lambda>(t, cs). has_columns t cs d) model_columns"
    and "x \<in> set [(''profiles'', [''id'']), (''profiles'', [''name'']),
       (''profile_quotas'', [''id'']), (''profile_quotas'', [''profile_id'', ''period'']), (''users'', [''id'']), (''users'', [''oidc_sub'']),
       (''api_keys'', [''id'']), (''api_keys'', [''user_id'']), (''sessions'', [''id'']), (''sessions'', [''token'']), (''audit_events'', [''id'']),
       (''expiry_notices'', [''id'']), (''expiry_notices'', [''api_key_id'', ''days_before''])] \<Longrightarrow> indexed d r r' x"
    and "indexed d marked_row marked_row (''profiles'', [''is_default''])"
proof -
  obtain e where e: "stage sha 14 = Some e" "shape_of d = shape_of e" "sound d" using life_shape [OF assms] by blast
  show "sound d" by (rule e(3))
  show "list_all (\<lambda>(t, cs). has_columns t cs d) model_columns"
    using installs [of sha] e(1) columns_shape [OF e(2)] by (auto simp: list_all_iff)
  show "indexed d r r' x" if "x \<in> set [(''profiles'', [''id'']), (''profiles'', [''name'']),
       (''profile_quotas'', [''id'']), (''profile_quotas'', [''profile_id'', ''period'']), (''users'', [''id'']), (''users'', [''oidc_sub'']),
       (''api_keys'', [''id'']), (''api_keys'', [''user_id'']), (''sessions'', [''id'']), (''sessions'', [''token'']), (''audit_events'', [''id'']),
       (''expiry_notices'', [''id'']), (''expiry_notices'', [''api_key_id'', ''days_before''])]"
    using stage_indexes [where sha = sha and r = r and r' = r'] that e(1) indexed_shape [OF e(2)] unfolding list_all_iff by (simp only: option.case)
  show "indexed d marked_row marked_row (''profiles'', [''is_default''])"
    using stage_default_index [of sha] e(1) indexed_shape [OF e(2)] by simp
qed

lemma one_default_held:
  assumes "life sha 14 d" and "holds d ''profiles'' (profile_row cd) ps n"
  shows "one_default ps"
proof -
  have "False" if ij: "i < j" "j < length ps" "pf_default (ps ! i)" "pf_default (ps ! j)" for i j
  proof -
    obtain r r' where r: "list_all (\<lambda>(c, v). r c = v) (profile_row cd (ps ! i))" "list_all (\<lambda>(c, v). r' c = v) (profile_row cd (ps ! j))"
      "\<And>cs. indexed d r r' (''profiles'', cs) \<Longrightarrow> SqlNull \<notin> set (key_of cs r) \<Longrightarrow> key_of cs r \<noteq> key_of cs r'"
      using holds_apart [OF assms(2) life_end(1) [OF assms(1)] ij(1,2)] by blast
    have "r ''is_default'' = SqlInt 1" "r' ''is_default'' = SqlInt 1"
      using r(1,2) ij(3,4) by (simp_all add: profile_row_def sql_bool_def)
    moreover from this have "indexed d r r' (''profiles'', [''is_default''])"
      by (intro indexed_agree [OF life_end(4,1) [OF assms(1)]]) (simp_all add: marked_row_def)
    ultimately show False using r(3) [of "[''is_default'']"] by (simp add: key_of_def)
  qed
  then have "i = j" if "i < length ps" "j < length ps" "pf_default (ps ! i)" "pf_default (ps ! j)" for i j
    using that by (metis linorder_neqE_nat)
  then show ?thesis unfolding one_default_def at_most_one_def by (metis in_set_conv_nth)
qed

lemma life_unique:
  assumes "life sha 14 d" and "reads_as cd d D"
  shows "unique_rows D"
proof -
  note h = assms(2) [unfolded reads_as_def]
  note u = holds_uniq [OF _ life_end(1) [OF assms(1)] life_end(3) [OF assms(1)]]
  have p: "holds d ''profiles'' (profile_row cd) (profiles D) (next_profile D)"
    and qs: "holds d ''profile_quotas'' (quota_row cd) (quotas D) (next_quota D)"
    and usr: "holds d ''users'' (stored_user cd) (users D) (next_user D)"
    and k: "holds d ''api_keys'' (key_row cd) (api_keys D) (next_key D)"
    and ss: "holds d ''sessions'' (stored_session cd) (sessions D) (next_session D)"
    and a: "holds d ''audit_events'' (audit_row cd) (audit_log D) (next_audit D)"
    and n: "holds d ''expiry_notices'' (notice_row cd) (notices D) (next_notice D)"
    using h by blast+
  have "uniq_on pf_id (profiles D)" by (rule u [OF p, where cs = "[''id'']"]) (simp_all add: profile_row_def)
  moreover have "uniq_on pf_name (profiles D)" by (rule u [OF p, where cs = "[''name'']"]) (simp_all add: profile_row_def)
  moreover have "uniq_on pq_id (quotas D)" by (rule u [OF qs, where cs = "[''id'']"]) (simp_all add: quota_row_def)
  moreover have "uniq_on (\<lambda>q. (pq_profile q, pq_period q)) (quotas D)"
    by (rule u [OF qs, where cs = "[''profile_id'', ''period'']"]) (simp_all add: quota_row_def)
  moreover have "uniq_on us_id (users D)" by (rule u [OF usr, where cs = "[''id'']"]) (simp_all add: stored_user_def)
  moreover have "uniq_on us_sub (users D)" by (rule u [OF usr, where cs = "[''oidc_sub'']"]) (simp_all add: stored_user_def)
  moreover have "uniq_on ak_id (api_keys D)" by (rule u [OF k, where cs = "[''id'']"]) (simp_all add: key_row_def)
  moreover have "uniq_on ak_user (api_keys D)" by (rule u [OF k, where cs = "[''user_id'']"]) (simp_all add: key_row_def)
  moreover have "uniq_on se_id (sessions D)" by (rule u [OF ss, where cs = "[''id'']"]) (simp_all add: stored_session_def)
  moreover have "uniq_on se_token (sessions D)" by (rule u [OF ss, where cs = "[''token'']"]) (simp_all add: stored_session_def)
  moreover have "uniq_on au_id (audit_log D)" by (rule u [OF a, where cs = "[''id'']"]) (simp_all add: audit_row_def)
  moreover have "uniq_on en_id (notices D)" by (rule u [OF n, where cs = "[''id'']"]) (simp_all add: notice_row_def)
  moreover have "uniq_on (\<lambda>x. (en_key x, en_days x)) (notices D)"
    by (rule u [OF n, where cs = "[''api_key_id'', ''days_before'']"]) (simp_all add: notice_row_def)
  ultimately show ?thesis using one_default_held [OF assms(1) p] unfolding unique_rows_def by simp
qed

section \<open>The migrator brings it up\<close>

lemma migrate_skip:
  "mg_name ` set xs \<subseteq> set (md_applied s) \<Longrightarrow> migrate n (xs @ ys) s = migrate n ys s"
  by (induction xs) simp_all

lemma names_apart:
  assumes "distinct (map f xs)"
  shows "f ` set (drop k xs) \<inter> set (map f (take k xs)) = {}"
proof -
  have "set (take k (map f xs)) \<inter> set (drop k (map f xs)) = {}"
    by (rule set_take_disj_set_drop_if_distinct [OF assms]) simp
  then show ?thesis unfolding take_map drop_map by auto
qed

lemma migrate_life:
  assumes "migrate n ms s = (Finished, names, s')" and "ms = drop k (migrations sha)" and "life sha k (md_db s)"
    and "distinct (map mg_name ms)" and "mg_name ` set ms \<inter> set (md_applied s) = {}"
  shows "life sha 14 (md_db s')"
  using assms
proof (induction ms arbitrary: n k s names)
  case Nil
  then have "14 \<le> k" by (simp add: migrations_def)
  then show ?case using Nil.prems life_shape [OF Nil.prems(3)] by simp
next
  case (Cons m ms)
  have k: "k < length (migrations sha)" "migrations sha ! k = m" "ms = drop (Suc k) (migrations sha)"
    using Cons.prems(2) by (metis drop_all list.distinct(1) not_less, metis hd_drop_conv_nth list.distinct(1) list.sel(1) drop_all not_less,
        metis drop_Suc list.sel(3) tl_drop)
  have "mg_name m \<notin> set (md_applied s)" using Cons.prems(5) by simp
  then obtain j d names' where j: "n = Suc j" "mg_up m (md_db s) = Inr d"
      "migrate j ms (s\<lparr>md_db := d, md_applied := md_applied s @ [mg_name m]\<rparr>) = (Finished, names', s')"
    using Cons.prems(1) by (auto split: nat.splits sum.splits prod.splits)
  have "life sha (Suc k) d" using life.up [OF Cons.prems(3) k(1)] j(2) k(2) by simp
  then show ?case using Cons.IH [OF j(3) k(3)] Cons.prems(4,5) by auto
qed

text \<open>
  C10.  An upgraded database has the schema that the program relies on: whatever database the first migrations and
  the versions of the program since then have left, once the migrations have run, every table has the columns its
  struct is stored in, and whatever records the tables hold satisfy the uniqueness in \<open>schema_inv\<close>: of ids, of
  names, subjects and tokens, of a user's key, of a profile's windows, of notices, and of the default profile.
\<close>

theorem upgraded_schema:
  assumes "life sha k (md_db s)" and "md_applied s = map mg_name (take k (migrations sha))"
    and "run_migrations sha s = (None, scrubbed, s')"
  shows "list_all (\<lambda>(t, cs). has_columns t cs (md_db s')) model_columns
    \<and> (reads_as cd (md_db s') D \<longrightarrow> unique_rows D)"
proof -
  have names: "distinct (map mg_name (migrations sha))"
    by code_simp
  obtain r ns s2 where run: "migrate (length (migrations sha)) (migrations sha) s = (r, ns, s2)" by (metis surj_pair)
  have fin: "r = Finished" "s2 = s'"
    using assms(3) run migrate_completes [of "migrations sha" "length (migrations sha)" s]
    by (auto simp: run_migrations_def split: migrate_end.splits)
  let ?rest = "drop k (migrations sha)"
  have 1: "migrate (length (migrations sha)) ?rest s = (Finished, ns, s')"
    using migrate_skip [of "take k (migrations sha)" s "length (migrations sha)" ?rest] run fin assms(2) by simp
  have 2: "distinct (map mg_name ?rest)" using names by (simp flip: drop_map)
  have 3: "mg_name ` set ?rest \<inter> set (md_applied s) = {}"
    unfolding assms(2) by (rule names_apart [OF names])
  have "life sha 14 (md_db s')" by (rule migrate_life [OF 1 refl assms(1) 2 3])
  then show ?thesis using life_end(2) [of sha "md_db s'"] life_unique [of sha "md_db s'" cd D] by simp
qed

text \<open>
  A fresh install is the empty database: the migrations run through on a file without tables, and what
  they leave holds no records, with every counter at its start.  From there the seed of the default profile
  makes a first reachable database.
\<close>

theorem fresh_install:
  "case run_migrations sha \<lparr>md_db = no_tables, md_applied = []\<rparr> of
     (e, scrubbed, s) \<Rightarrow> e = None \<and> scrubbed \<and> reads_as cd (md_db s) empty_db"
  by code_simp

section \<open>A database of the first version\<close>

definition first_user :: sql_row where
  "first_user = blank_row(''id'' := SqlInt 1, ''oidc_sub'' := SqlText ''s'', ''email'' := SqlText ''e'', ''name'' := SqlText ''n'')"

definition first_version :: migrated where
  "first_version =
     (let d = projr (init_up no_tables)
      in \<lparr>md_db = put_table ''users'' ((the (sq_tables d ''users''))\<lparr>tb_rows := [first_user], tb_next := 2\<rparr>) d,
          md_applied = [''20240001'']\<rparr>)"

definition plain_codec :: codec where
  "plain_codec = \<lparr>cd_time = (\<lambda>_. SqlNull), cd_models = (\<lambda>_. SqlNull)\<rparr>"

definition first_records :: database where
  "first_records = empty_db\<lparr>users := [\<lparr>us_id = 1, us_sub = ''s'', us_email = ''e'', us_name = ''n'', us_profile = None,
     us_expires = None, us_after = None, us_revoke = False, us_admin = False, us_created = 0, us_updated = 0\<rparr>], next_user := 2\<rparr>"

definition brought_up :: "string option \<times> bool \<times> migrated" where
  "brought_up = run_migrations (\<lambda>_. replicate 32 (CHR ''x'')) first_version"

lemma brought_up_fine: "fst brought_up = None" "reads_as plain_codec (md_db (snd (snd brought_up))) first_records"
  by code_simp+

lemma upgraded_schema_witness:
  "unique_rows first_records \<and> list_all (\<lambda>(t, cs). has_columns t cs (md_db (snd (snd brought_up)))) model_columns"
proof -
  let ?sha = "\<lambda>_ :: string. replicate 32 (CHR ''x'')"
  have m: "migrations ?sha ! 0 = m_init" "0 < length (migrations ?sha)" by (simp_all add: migrations_def)
  have "mg_up m_init no_tables = Inr (projr (init_up no_tables))" by (simp add: m_init_def init_up_def create_table_def no_tables_def put_table_def)
  then have one: "life ?sha (Suc 0) (projr (init_up no_tables))" using life.up [OF life.new m(2)] m(1) by simp
  have "life ?sha (Suc 0) (md_db first_version)"
  proof (rule life.rows [OF one])
    show "shape_of (md_db first_version) = shape_of (projr (init_up no_tables))"
      by (simp add: first_version_def Let_def shape_put) (simp add: shape_of_def init_up_def create_table_def no_tables_def put_table_def fun_eq_iff)
    show "tables_ok (md_db first_version)"
      by (auto simp: tables_ok_def first_version_def Let_def init_up_def create_table_def no_tables_def put_table_def table_ok_def
          unique_ok_def split: if_splits)
  qed
  moreover have "md_applied first_version = map mg_name (take (Suc 0) (migrations ?sha))"
    by (simp add: first_version_def Let_def migrations_def m_init_def)
  moreover have "run_migrations ?sha first_version = (None, fst (snd brought_up), snd (snd brought_up))"
    using brought_up_fine(1) by (simp add: brought_up_def prod_eq_iff)
  ultimately show ?thesis using upgraded_schema brought_up_fine(2) by blast
qed

end
