(* ===== verification/Metrics.thy ===== *)
theory Metrics
  imports World
begin

text \<open>
  \<open>internal/metrics/metrics.go\<close>: the registry as the value of each series, what is registered at the start, and
  what the effects of handlers and jobs, a served request and a scrape do to it.  The token of the endpoint
  is in \<open>Pages\<close>; the histogram of durations keeps only how many observations it had.
\<close>

section \<open>The registry\<close>

record registry =
  rg_requests :: "string \<times> string \<times> nat \<rightharpoonup> nat" \<comment> \<open>route, method and status\<close>
  rg_durations :: "string \<rightharpoonup> nat"
  rg_operations :: "string \<times> string \<rightharpoonup> nat" \<comment> \<open>action and outcome\<close>
  rg_marked :: "string \<rightharpoonup> nat"
  rg_removed :: nat
  rg_active :: nat
  rg_expiring :: nat

definition bump :: "'a \<Rightarrow> ('a \<rightharpoonup> nat) \<Rightarrow> ('a \<rightharpoonup> nat)" where
  "bump k m = m(k \<mapsto> (case m k of None \<Rightarrow> 1 | Some n \<Rightarrow> Suc n))"

definition operation_series :: "(string \<times> string) list" where
  "operation_series = List.product [''generate'', ''extend'', ''delete'', ''revoke''] [''success'', ''provider_error'', ''store_error'']"

definition missing_series :: "string list" where
  "missing_series = [source_dashboard, source_extend, source_sync]"

text \<open>\<open>init\<close>: the series that exist, at zero, before anything happened.\<close>

definition init_registry :: registry where
  "init_registry =
     \<lparr>rg_requests = Map.empty, rg_durations = Map.empty,
      rg_operations = map_of (map (\<lambda>k. (k, 0)) operation_series),
      rg_marked = map_of (map (\<lambda>k. (k, 0)) missing_series),
      rg_removed = 0, rg_active = 0, rg_expiring = 0\<rparr>"

section \<open>What changes it\<close>

fun count_effect :: "effect \<Rightarrow> registry \<Rightarrow> registry" where
  "count_effect (KeyOperation a x) r = r\<lparr>rg_operations := bump (a, x) (rg_operations r)\<rparr>"
| "count_effect (KeyMarkedMissing s) r = r\<lparr>rg_marked := bump s (rg_marked r)\<rparr>"
| "count_effect KeyMissingRemoved r = r\<lparr>rg_removed := Suc (rg_removed r)\<rparr>"
| "count_effect _ r = r"

definition count_effects :: "effect list \<Rightarrow> registry \<Rightarrow> registry" where
  "count_effects es r = fold count_effect es r"

text \<open>\<open>statusRecorder\<close>: the last code the handler wrote, 200 without any.\<close>

definition recorded_status :: "nat list \<Rightarrow> nat" where
  "recorded_status codes = (if codes = [] then 200 else last codes)"

definition route_label :: "string \<Rightarrow> string" where
  "route_label route = (if route = [] then ''other'' else route)"

text \<open>\<open>Middleware\<close>, after the handler: the template of the route, the method and the codes written.\<close>

definition count_request :: "string \<Rightarrow> string \<Rightarrow> nat list \<Rightarrow> registry \<Rightarrow> registry" where
  "count_request route method codes r =
     r\<lparr>rg_requests := bump (route_label route, method, recorded_status codes) (rg_requests r),
       rg_durations := bump (route_label route) (rg_durations r)\<rparr>"

definition set_key_gauges :: "nat \<Rightarrow> nat \<Rightarrow> registry \<Rightarrow> registry" where
  "set_key_gauges active expiring r = r\<lparr>rg_active := active, rg_expiring := expiring\<rparr>"

text \<open>\<open>Collect\<close>: the gauge of missing keys is left out until its count is set, and of a scrape whose count fails.\<close>

definition collect_missing :: "(database \<Rightarrow> db_error + nat) option \<Rightarrow> database \<Rightarrow> nat option" where
  "collect_missing counting d =
     (case counting of
        None \<Rightarrow> None
      | Some q \<Rightarrow> (case q d of Inl _ \<Rightarrow> None | Inr n \<Rightarrow> Some n))"

section \<open>What the series say\<close>

text \<open>A series of key operations counts the events of its labels, and exists from the start or from the first event.\<close>

lemma bump_other: "k \<noteq> k' \<Longrightarrow> bump k' m k = m k"
  by (simp add: bump_def)

lemma operations_counted:
  "rg_operations (count_effects es r) (a, x) =
     (case rg_operations r (a, x) of
        Some n \<Rightarrow> Some (n + count_list es (KeyOperation a x))
      | None \<Rightarrow> if KeyOperation a x \<in> set es then Some (count_list es (KeyOperation a x)) else None)"
proof (induction es arbitrary: r)
  case Nil
  then show ?case by (simp add: count_effects_def split: option.split)
next
  case (Cons e es)
  have "count_effects (e # es) r = count_effects es (count_effect e r)" by (simp add: count_effects_def)
  moreover have "rg_operations (count_effect e r) (a, x)
      = (if e = KeyOperation a x then Some (case rg_operations r (a, x) of None \<Rightarrow> 1 | Some n \<Rightarrow> Suc n) else rg_operations r (a, x))"
    by (cases e) (auto simp: bump_def)
  ultimately show ?case
    using Cons.IH [of "count_effect e r"] count_notin [of "KeyOperation a x" es]
    by (auto split: option.splits)
qed

text \<open>
  Not every series that a handler counts in is registered at the start: a failure to make an alias counts in
  a series that a scrape does not show before the first one.
\<close>

lemma alias_error_unregistered:
  "rg_operations init_registry (''generate'', ''alias_error'') = None"
  "rg_operations (count_effects [KeyOperation ''generate'' ''alias_error''] init_registry) (''generate'', ''alias_error'') = Some 1"
  by code_simp+

end
