(* ===== verification/Mail.thy ===== *)
theory Mail
  imports Reminder
begin

text \<open>
  The mails of \<open>internal/notify/smtp.go\<close>: \<open>buildMessage\<close> with the encodings of Go's \<open>mime\<close> and \<open>mime/quotedprintable\<close>
  that it uses, and the part of a mail that a relay reads as headers.  The date, and the domain that
  \<open>mail.ParseAddress\<close> reads from the sender, are parameters.
\<close>

section \<open>Encoded words\<close>

text \<open>The length of the character at the start of a text: one for a byte that starts no valid character.\<close>

definition byte_in :: "nat \<Rightarrow> nat \<Rightarrow> string \<Rightarrow> nat \<Rightarrow> bool" where
  "byte_in lo hi s i \<longleftrightarrow> i < length s \<and> lo \<le> (of_char (s ! i) :: nat) \<and> of_char (s ! i) \<le> hi"

definition rune_len :: "string \<Rightarrow> nat" where
  "rune_len s =
     (if byte_in 0xC2 0xDF s 0 \<and> byte_in 0x80 0xBF s 1 then 2
      else if (byte_in 0xE0 0xE0 s 0 \<and> byte_in 0xA0 0xBF s 1 \<or> byte_in 0xED 0xED s 0 \<and> byte_in 0x80 0x9F s 1
               \<or> (byte_in 0xE1 0xEC s 0 \<or> byte_in 0xEE 0xEF s 0) \<and> byte_in 0x80 0xBF s 1) \<and> byte_in 0x80 0xBF s 2 then 3
      else if (byte_in 0xF0 0xF0 s 0 \<and> byte_in 0x90 0xBF s 1 \<or> byte_in 0xF4 0xF4 s 0 \<and> byte_in 0x80 0x8F s 1
               \<or> byte_in 0xF1 0xF3 s 0 \<and> byte_in 0x80 0xBF s 1) \<and> byte_in 0x80 0xBF s 2 \<and> byte_in 0x80 0xBF s 3 then 4
      else 1)"

lemma rune_len_pos: "0 < rune_len s"
  by (simp add: rune_len_def)

definition upper_hex :: "nat \<Rightarrow> char" where
  "upper_hex n = (if n < 10 then char_of (48 + n) else char_of (55 + n))"

definition hex_byte :: "char \<Rightarrow> string" where
  "hex_byte b = [CHR ''='', upper_hex ((of_char b :: nat) div 16), upper_hex ((of_char b :: nat) mod 16)]"

definition printable :: "char \<Rightarrow> bool" where
  "printable b \<longleftrightarrow> 32 \<le> (of_char b :: nat) \<and> (of_char b :: nat) \<le> 126"

definition q_plain :: "char \<Rightarrow> bool" where
  "q_plain b \<longleftrightarrow> printable b \<and> b \<noteq> CHR ''='' \<and> b \<noteq> CHR ''?'' \<and> b \<noteq> CHR ''_''"

definition q_byte :: "char \<Rightarrow> string" where
  "q_byte b = (if b = CHR '' '' then ''_'' else if q_plain b then [b] else hex_byte b)"

definition open_word :: string where "open_word = ''=?UTF-8?q?''"
definition max_content :: nat where "max_content = 63"

text \<open>\<open>qEncode\<close>: characters are not split, and a word that would grow too long is closed.\<close>

function q_content :: "nat \<Rightarrow> string \<Rightarrow> string" where
  "q_content cur s =
     (if s = [] then []
      else let n = (if q_plain (hd s) then 1 else rune_len s);
               len = (if q_plain (hd s) then 1 else 3 * n);
               fits = cur + len \<le> max_content
           in (if fits then [] else ''?= '' @ open_word) @ concat (map q_byte (take n s))
              @ q_content ((if fits then cur else 0) + len) (drop n s))"
  by auto
termination
  by (relation "measure (\<lambda>(_, s). length s)") (auto simp: rune_len_pos intro!: diff_less)

declare q_content.simps [simp del]

definition needs_encoding :: "string \<Rightarrow> bool" where
  "needs_encoding s \<longleftrightarrow> list_ex (\<lambda>b. \<not> printable b \<and> b \<noteq> CHR 0x09) s"

definition q_encode :: "string \<Rightarrow> string" where
  "q_encode s = (if needs_encoding s then open_word @ q_content 0 s @ ''?='' else s)"

section \<open>Quoted-printable\<close>

text \<open>The writer: what is written, the line being filled, and whether the last byte was a carriage return.\<close>

record qp_writer =
  qp_out :: string
  qp_line :: string
  qp_cr :: bool

definition crlf :: string where "crlf = [CHR 0x0D, CHR 0x0A]"
definition line_max :: nat where "line_max = 76"

definition qp_flush :: "string \<Rightarrow> qp_writer \<Rightarrow> qp_writer" where
  "qp_flush e w = w\<lparr>qp_out := qp_out w @ qp_line w @ e, qp_line := []\<rparr>"

definition qp_soft :: "qp_writer \<Rightarrow> qp_writer" where "qp_soft = qp_flush (''='' @ crlf)"

definition qp_encode :: "char \<Rightarrow> qp_writer \<Rightarrow> qp_writer" where
  "qp_encode b w =
     (let w' = (if line_max - 1 - length (qp_line w) < 3 then qp_soft w else w)
      in w'\<lparr>qp_line := qp_line w' @ hex_byte b\<rparr>)"

definition qp_blank :: "char \<Rightarrow> bool" where "qp_blank b \<longleftrightarrow> b = CHR '' '' \<or> b = CHR 0x09"
definition is_break :: "char \<Rightarrow> bool" where "is_break b \<longleftrightarrow> b = CHR 0x0D \<or> b = CHR 0x0A"

text \<open>\<open>checkLastByte\<close>: blanks at the end of a line are encoded.\<close>

definition qp_check_last :: "qp_writer \<Rightarrow> qp_writer" where
  "qp_check_last w =
     (if qp_line w \<noteq> [] \<and> qp_blank (last (qp_line w))
      then qp_encode (last (qp_line w)) (w\<lparr>qp_line := butlast (qp_line w)\<rparr>) else w)"

definition qp_put :: "char \<Rightarrow> qp_writer \<Rightarrow> qp_writer" where
  "qp_put b w =
     (if is_break b then
        if qp_cr w \<and> b = CHR 0x0A then w\<lparr>qp_cr := False\<rparr>
        else let w' = qp_flush crlf (qp_check_last w) in if b = CHR 0x0D then w'\<lparr>qp_cr := True\<rparr> else w'
      else let w' = (if length (qp_line w) = line_max - 1 then qp_soft w else w)
           in w'\<lparr>qp_line := qp_line w' @ [b], qp_cr := False\<rparr>)"

definition qp_byte :: "char \<Rightarrow> qp_writer \<Rightarrow> qp_writer" where
  "qp_byte b w =
     (if printable b \<and> b \<noteq> CHR ''='' \<or> qp_blank b \<or> is_break b then qp_put b w else qp_encode b w)"

definition quoted_printable :: "string \<Rightarrow> string" where
  "quoted_printable s =
     qp_out (qp_flush [] (qp_check_last (fold qp_byte s \<lparr>qp_out = [], qp_line = [], qp_cr = False\<rparr>)))"

lemma encoding_examples:
  "q_encode (''Schl'' @ [CHR 0xC3, CHR 0xBC] @ ''ssel'') = ''=?UTF-8?q?Schl=C3=BCssel?=''"
  "q_encode ''Your key'' = ''Your key''"
  "quoted_printable (''a=b'' @ [CHR 0x0A] @ ''c '') = ''a=3Db'' @ crlf @ ''c=20''"
proof -
  have "q_content 0 (''Schl'' @ [CHR 0xC3, CHR 0xBC] @ ''ssel'') = ''Schl=C3=BCssel''"
    by (simp add: q_content.simps Let_def q_plain_def printable_def max_content_def rune_len_def byte_in_def q_byte_def hex_byte_def
        upper_hex_def char_of_def) code_simp
  then show "q_encode (''Schl'' @ [CHR 0xC3, CHR 0xBC] @ ''ssel'') = ''=?UTF-8?q?Schl=C3=BCssel?=''"
    by (simp add: q_encode_def needs_encoding_def printable_def open_word_def)
  show "q_encode ''Your key'' = ''Your key''" by code_simp
  show "quoted_printable (''a=b'' @ [CHR 0x0A] @ ''c '') = ''a=3Db'' @ crlf @ ''c=20''" by code_simp
qed

section \<open>A mail\<close>

text \<open>\<open>messageID\<close>: sixteen random bytes at the domain of the sender.\<close>

definition message_id :: "string \<Rightarrow> string option \<Rightarrow> string" where
  "message_id bytes address =
     (let domain = (case address of
            None \<Rightarrow> ''localhost''
          | Some a \<Rightarrow> if CHR ''@'' \<in> set a then rev (takeWhile (\<lambda>c. c \<noteq> CHR ''@'') (rev a)) else ''localhost'')
      in ''<'' @ hex_encode bytes @ ''@'' @ domain @ ''>'')"

definition mail_headers :: "string \<Rightarrow> string \<Rightarrow> string \<Rightarrow> message \<Rightarrow> string list" where
  "mail_headers from_addr date mid m =
     [''From: '' @ from_addr, ''To: '' @ msg_to m, ''Subject: '' @ q_encode (msg_subject m), ''Date: '' @ date,
      ''Message-ID: '' @ mid, ''MIME-Version: 1.0'', ''Content-Type: text/plain; charset=UTF-8'',
      ''Content-Transfer-Encoding: quoted-printable'']"

definition build_message :: "string \<Rightarrow> string \<Rightarrow> string \<Rightarrow> message \<Rightarrow> string option" where
  "build_message from_addr date mid m =
     (if \<not> address_ok from_addr \<or> \<not> address_ok (msg_to m) then None
      else Some (concat (map (\<lambda>h. h @ crlf) (mail_headers from_addr date mid m)) @ crlf @ quoted_printable (msg_body m)))"

section \<open>No header but the program's\<close>

text \<open>
  What reads a mail takes the lines before the first empty one as headers; here a line ends at any carriage
  return or line feed, which is how the most lenient relay reads it.
\<close>

fun header_lines :: "nat \<Rightarrow> string \<Rightarrow> string list" where
  "header_lines 0 b = []"
| "header_lines (Suc n) b =
     (let l = takeWhile (\<lambda>c. \<not> is_break c) b
      in if l = [] then [] else l # header_lines n (drop 2 (dropWhile (\<lambda>c. \<not> is_break c) b)))"

definition one_line :: "string \<Rightarrow> bool" where
  "one_line s \<longleftrightarrow> (\<forall>c \<in> set s. \<not> is_break c)"

lemma one_line_append [simp]: "one_line (a @ b) \<longleftrightarrow> one_line a \<and> one_line b"
  by (auto simp: one_line_def)

lemma one_line_concat: "(\<And>x. x \<in> set xs \<Longrightarrow> one_line x) \<Longrightarrow> one_line (concat xs)"
  by (auto simp: one_line_def)

lemma address_one_line: "address_ok a \<longleftrightarrow> one_line a"
  by (auto simp: address_ok_def one_line_def is_break_def)

lemma printable_one_line: "printable b \<Longrightarrow> \<not> is_break b"
  by (auto simp: printable_def is_break_def)

lemma hex_byte_one_line: "one_line (hex_byte b)"
proof -
  have "\<forall>n \<in> set [0..<16]. \<not> is_break (upper_hex n)" by code_simp
  moreover have "(of_char b :: nat) div 16 < 16" by (rule less_mult_imp_div_less) simp
  ultimately show ?thesis by (simp add: hex_byte_def one_line_def is_break_def)
qed

lemma q_byte_one_line: "one_line (q_byte b)"
proof -
  have "\<not> is_break b" if "q_plain b" using that printable_one_line by (simp add: q_plain_def)
  then show ?thesis using hex_byte_one_line by (simp add: q_byte_def one_line_def is_break_def)
qed

lemma q_content_one_line: "one_line (q_content cur s)"
proof (induction cur s rule: q_content.induct)
  case (1 cur s)
  have "one_line (concat (map q_byte xs))" for xs by (rule one_line_concat) (auto simp: q_byte_one_line)
  moreover have "one_line (''?= '' @ open_word)" by (simp add: open_word_def one_line_def is_break_def)
  ultimately show ?case
    using 1 by (subst q_content.simps) (auto simp: Let_def one_line_def)
qed

lemma q_encode_one_line: "one_line (q_encode s)"
proof (cases "needs_encoding s")
  case True
  then show ?thesis using q_content_one_line by (simp add: q_encode_def) (simp add: open_word_def one_line_def is_break_def)
next
  case False
  then have "\<not> is_break c" if "c \<in> set s" for c
    using that printable_one_line [of c] by (auto simp: needs_encoding_def list_ex_iff is_break_def)
  then show ?thesis using False by (simp add: q_encode_def one_line_def)
qed

lemma header_lines_read:
  assumes "\<And>h. h \<in> set hs \<Longrightarrow> one_line h \<and> h \<noteq> []" and "length hs < n"
  shows "header_lines n (concat (map (\<lambda>h. h @ crlf) hs) @ crlf @ body) = hs"
  using assms
proof (induction hs arbitrary: n)
  case Nil
  then show ?case by (cases n) (simp_all add: crlf_def is_break_def)
next
  case (Cons h hs)
  then obtain k where k: "n = Suc k" "length hs < k" by (cases n) auto
  have h: "\<And>c. c \<in> set h \<Longrightarrow> \<not> is_break c" "h \<noteq> []" using Cons.prems(1) [of h] by (auto simp: one_line_def)
  let ?rest = "concat (map (\<lambda>h. h @ crlf) hs) @ crlf @ body"
  have "takeWhile (\<lambda>c. \<not> is_break c) (h @ crlf @ ?rest) = h" "dropWhile (\<lambda>c. \<not> is_break c) (h @ crlf @ ?rest) = crlf @ ?rest"
    using h(1) by (simp_all add: takeWhile_append dropWhile_append crlf_def is_break_def)
  then show ?case using k h(2) Cons.IH [OF Cons.prems(1), of k] by (simp add: crlf_def)
qed

text \<open>
  C30.  Nobody adds a header to a mail of the portal: whatever the address that the login system gave, the
  name in the text and the subject, a mail that is built has the eight headers that the program writes, in
  its order, and no others.
\<close>

theorem mail_headers_only:
  assumes "build_message from_addr date mid m = Some b" and "one_line date" and "one_line mid"
  shows "header_lines (length b) b = mail_headers from_addr date mid m"
proof -
  have a: "one_line from_addr" "one_line (msg_to m)"
    and b: "b = concat (map (\<lambda>h. h @ crlf) (mail_headers from_addr date mid m)) @ crlf @ quoted_printable (msg_body m)"
    using assms(1) by (auto simp: build_message_def address_one_line split: if_splits)
  have ok: "one_line h \<and> h \<noteq> []" if "h \<in> set (mail_headers from_addr date mid m)" for h
    using that a assms(2,3) q_encode_one_line [of "msg_subject m"]
    by (auto simp: mail_headers_def) (simp_all add: one_line_def is_break_def)
  have "length (mail_headers from_addr date mid m) < length b" by (simp add: b mail_headers_def crlf_def)
  then show ?thesis using header_lines_read [OF ok] b by metis
qed

definition demo_mail :: message where
  "demo_mail = \<lparr>msg_to = ''a@b.c'', msg_subject = ''Schl'' @ [CHR 0xC3, CHR 0xBC, CHR 0x0D, CHR 0x0A] @ ''Bcc: x'',
     msg_body = ''Bcc: y='' @ [CHR 0x0A] @ ''z ''\<rparr>"

lemma demo_mail_built:
  "build_message ''p@b.c'' ''now'' ''<1@b.c>'' demo_mail
     = Some (the (build_message ''p@b.c'' ''now'' ''<1@b.c>'' demo_mail))"
  by (simp add: build_message_def address_ok_def demo_mail_def)

lemma mail_headers_only_witness:
  "header_lines (length (the (build_message ''p@b.c'' ''now'' ''<1@b.c>'' demo_mail)))
       (the (build_message ''p@b.c'' ''now'' ''<1@b.c>'' demo_mail))
     = mail_headers ''p@b.c'' ''now'' ''<1@b.c>'' demo_mail"
  by (rule mail_headers_only [OF demo_mail_built]) (simp_all add: one_line_def is_break_def)

end
