(* ===== verification/OidcIssuer.thy ===== *)
theory OidcIssuer
  imports Gate
begin

text \<open>
  Two ends of a login: \<open>NewProvider\<close> of \<open>oidc.go\<close>, which sets up the client from the configuration and the
  issuer's discovery document, and the issuer of \<open>internal/oidc/oidctest\<close> that the tests log in against.
  \<open>go-oidc\<close>, \<open>oauth2\<close> and the signing of \<open>go-jose\<close> are parameters.
\<close>

section \<open>The client\<close>

record oauth_client =
  oc_id :: string
  oc_secret :: string
  oc_redirect :: string
  oc_scopes :: "string list"

text \<open>What the libraries do for a client: the discovery, the address to log in at, the exchange and the verification.\<close>

record oidc_library =
  ol_connect :: "string \<Rightarrow> string option" \<comment> \<open>an issuer; the error\<close>
  ol_auth_url :: "oauth_client \<Rightarrow> string \<Rightarrow> string"
  ol_exchange :: "oauth_client \<Rightarrow> string \<Rightarrow> string + string option"
  ol_verify :: "string \<Rightarrow> bool \<Rightarrow> string \<Rightarrow> string + (string \<times> json) list" \<comment> \<open>a client id; whether expiry is skipped\<close>

definition oauth_client_of :: "config \<Rightarrow> oauth_client" where
  "oauth_client_of c = \<lparr>oc_id = cf_client_id c, oc_secret = cf_client_secret c, oc_redirect = cf_redirect_url c,
     oc_scopes = [''openid'', ''profile'', ''email''] @ cf_extra_scopes c\<rparr>"

text \<open>
  The logout endpoint, from the answer to a second GET of the discovery document: a status with the JSON it
  holds.  Without a usable answer there is none, and no error.
\<close>

definition end_session_endpoint :: "(nat \<times> json option) option \<Rightarrow> string" where
  "end_session_endpoint answer =
     (case answer of
        Some (status, Some (JObj fs)) \<Rightarrow>
          if status = 200 then (case string_field ''end_session_endpoint'' fs of Some s \<Rightarrow> s | None \<Rightarrow> []) else []
      | _ \<Rightarrow> [])"

definition new_provider :: "oidc_library \<Rightarrow> (nat \<times> json option) option \<Rightarrow> config \<Rightarrow> string + idp" where
  "new_provider L answer c =
     (case ol_connect L (cf_issuer c) of
        Some e \<Rightarrow> Inl (''create OIDC provider: '' @ e)
      | None \<Rightarrow> Inr \<lparr>idp_auth_url = ol_auth_url L (oauth_client_of c), idp_exchange = ol_exchange L (oauth_client_of c),
                     idp_verify = ol_verify L (cf_client_id c) False, idp_verify_logout = ol_verify L (cf_client_id c) True,
                     idp_end_session = end_session_endpoint answer\<rparr>)"

section \<open>The issuer\<close>

record identity =
  id_sub :: string
  id_email :: string
  id_name :: string
  id_preferred :: string
  id_extra :: "(string \<times> json) list" \<comment> \<open>a map\<close>

record issuer =
  is_url :: string
  is_codes :: "(string \<times> identity) list"

definition issue_code :: "string \<Rightarrow> identity \<Rightarrow> issuer \<Rightarrow> issuer" where
  "issue_code code c m = m\<lparr>is_codes := (code, c) # filter (\<lambda>x. fst x \<noteq> code) (is_codes m)\<rparr>"

definition unix :: "time \<Rightarrow> json" where
  "unix t = JNum (of_int (t div second))"

text \<open>\<open>SignIDToken\<close>: the extra claims under the standard ones, in the order \<open>encoding/json\<close> writes a map in.\<close>

definition standard_claims :: "issuer \<Rightarrow> identity \<Rightarrow> string \<Rightarrow> time \<Rightarrow> time \<Rightarrow> (string \<times> json) list" where
  "standard_claims m c aud expiry now =
     [(''iss'', JStr (is_url m)), (''sub'', JStr (id_sub c)), (''aud'', JStr aud), (''exp'', unix expiry), (''iat'', unix now),
      (''auth_time'', unix now), (''email'', JStr (id_email c)), (''name'', JStr (id_name c)),
      (''preferred_username'', JStr (id_preferred c))]"

definition id_token_claims :: "issuer \<Rightarrow> identity \<Rightarrow> string \<Rightarrow> time \<Rightarrow> time \<Rightarrow> (string \<times> json) list" where
  "id_token_claims m c aud expiry now =
     (let std = standard_claims m c aud expiry now
      in sort_key fst (std @ filter (\<lambda>x. fst x \<notin> fst ` set std) (id_extra c)))"

text \<open>\<open>SignLogoutToken\<close>; its id is made of the clock.\<close>

definition logout_token_claims :: "issuer \<Rightarrow> string \<Rightarrow> string \<Rightarrow> bool \<Rightarrow> time \<Rightarrow> (string \<times> json) list" where
  "logout_token_claims m sub aud with_nonce now =
     sort_key fst ([(''iss'', JStr (is_url m)), (''sub'', JStr sub), (''aud'', JStr aud), (''iat'', unix now),
       (''jti'', JStr (''jti-'' @ format_int now)), (''events'', JObj [(backchannel_event, JObj [])])]
       @ (if with_nonce then [(''nonce'', JStr ''must-not-be-here'')] else []))"

definition discovery_document :: "issuer \<Rightarrow> json" where
  "discovery_document m =
     JObj [(''issuer'', JStr (is_url m)),
           (''authorization_endpoint'', JStr (is_url m @ ''/protocol/openid-connect/auth'')),
           (''token_endpoint'', JStr (is_url m @ ''/protocol/openid-connect/token'')),
           (''jwks_uri'', JStr (is_url m @ ''/protocol/openid-connect/certs'')),
           (''end_session_endpoint'', JStr (is_url m @ ''/protocol/openid-connect/logout'')),
           (''backchannel_logout_supported'', JBool True),
           (''response_types_supported'', JArr [JStr ''code'']),
           (''subject_types_supported'', JArr [JStr ''public'']),
           (''id_token_signing_alg_values_supported'', JArr [JStr ''RS256'']),
           (''scopes_supported'', JArr [JStr ''openid'', JStr ''email'', JStr ''profile''])]"

text \<open>The public key: modulus and exponent as big-endian bytes.\<close>

fun big_bytes :: "nat \<Rightarrow> string" where
  "big_bytes n = (if n = 0 then [] else big_bytes (n div 256) @ [char_of (n mod 256)])"

declare big_bytes.simps [simp del]

definition certs_document :: "string \<Rightarrow> nat \<Rightarrow> nat \<Rightarrow> json" where
  "certs_document key_id n e =
     JObj [(''keys'', JArr [JObj [(''kty'', JStr ''RSA''), (''kid'', JStr key_id), (''alg'', JStr ''RS256''), (''use'', JStr ''sig''),
        (''n'', JStr (b64_url (big_bytes n))), (''e'', JStr (b64_url (big_bytes e)))]])]"

text \<open>The token endpoint: a code is good for one exchange.  A request is its form, if that parses, and the user of Basic auth.\<close>

record token_request =
  tr_form :: "(string \<times> string) list option"
  tr_basic :: "string option"

definition posted_value :: "(string \<times> string) list \<Rightarrow> string \<Rightarrow> string" where
  "posted_value f k = the_default [] (map_of f k)"

definition token_answer :: "string \<Rightarrow> json" where
  "token_answer token = JObj [(''access_token'', JStr ''mock-access-token''), (''token_type'', JStr ''Bearer''), (''expires_in'', JNum 3600),
     (''id_token'', JStr token)]"

definition token_endpoint ::
  "((string \<times> json) list \<Rightarrow> string + string) \<Rightarrow> token_request \<Rightarrow> time \<Rightarrow> issuer \<Rightarrow> (nat \<times> (string + json)) \<times> issuer" where
  "token_endpoint sign r now m =
     (case tr_form r of
        None \<Rightarrow> ((400, Inl ''bad form''), m)
      | Some f \<Rightarrow>
          let code = posted_value f ''code'';
              m' = m\<lparr>is_codes := filter (\<lambda>x. fst x \<noteq> code) (is_codes m)\<rparr>
          in (case map_of (is_codes m) code of
                None \<Rightarrow> ((400, Inl ''{\"error\":\"invalid_grant\"}''), m')
              | Some c \<Rightarrow>
                  let client = (case tr_basic r of Some i \<Rightarrow> i | None \<Rightarrow> posted_value f ''client_id'')
                  in (case sign (id_token_claims m c client (now + hour) now) of
                        Inl _ \<Rightarrow> ((500, Inl ''sign''), m')
                      | Inr token \<Rightarrow> ((200, Inr (token_answer token)), m'))))"

text \<open>
  The libraries in front of this issuer: how \<open>oauth2\<close> asks for a token and what it reads from the answer, and
  how \<open>go-oidc\<close> verifies one.
\<close>

record test_libraries =
  tl_connect :: "string \<Rightarrow> string option"
  tl_auth_url :: "oauth_client \<Rightarrow> string \<Rightarrow> string"
  tl_sign :: "(string \<times> json) list \<Rightarrow> string + string"
  tl_ask :: "oauth_client \<Rightarrow> string \<Rightarrow> token_request"
  tl_read :: "nat \<times> (string + json) \<Rightarrow> string + string option"
  tl_verify :: "string \<Rightarrow> bool \<Rightarrow> string \<Rightarrow> string + (string \<times> json) list"

definition library_at :: "test_libraries \<Rightarrow> issuer \<Rightarrow> time \<Rightarrow> oidc_library" where
  "library_at T m now =
     \<lparr>ol_connect = tl_connect T, ol_auth_url = tl_auth_url T,
      ol_exchange = (\<lambda>oc code. tl_read T (fst (token_endpoint (tl_sign T) (tl_ask T oc code) now m))),
      ol_verify = tl_verify T\<rparr>"

text \<open>The issuer after an exchange of a code.\<close>

definition exchanged :: "test_libraries \<Rightarrow> oauth_client \<Rightarrow> string \<Rightarrow> time \<Rightarrow> issuer \<Rightarrow> issuer" where
  "exchanged T oc code now m = snd (token_endpoint (tl_sign T) (tl_ask T oc code) now m)"

section \<open>A login at the issuer\<close>

text \<open>A map of claims, none of which is a variant of a standard one in upper case.\<close>

definition extra_ok :: "identity \<Rightarrow> bool" where
  "extra_ok c \<longleftrightarrow> distinct (map fst (id_extra c))
     \<and> list_all (\<lambda>x. to_lower (fst x) \<notin> {''iss'', ''sub'', ''aud'', ''exp'', ''iat'', ''auth_time'', ''email'', ''name'', ''preferred_username''})
         (id_extra c)"

lemma find_only: "x \<in> set xs \<Longrightarrow> P x \<Longrightarrow> (\<And>y. y \<in> set xs \<Longrightarrow> P y \<Longrightarrow> y = x) \<Longrightarrow> find P xs = Some x"
proof (induction xs)
  case (Cons a xs)
  show ?case
  proof (cases "P a")
    case True
    then show ?thesis using Cons.prems(3) [of a] by simp
  next
    case False
    then show ?thesis using Cons.IH Cons.prems by (metis find.simps(2) set_ConsD list.set_intros(2))
  qed
qed simp

lemma id_token_string:
  assumes "extra_ok c" and "(k, JStr v) \<in> set (standard_claims m c aud ex now)"
  shows "string_field k (id_token_claims m c aud ex now) = Some v"
proof -
  let ?cl = "id_token_claims m c aud ex now"
  have low: "to_lower (fst y) = fst y" if "y \<in> set (standard_claims m c aud ex now)" for y
    using that by (auto simp: standard_claims_def to_lower_def lower_char_def)
  have k: "to_lower k = k" using low [OF assms(2)] by simp
  have same: "y = (k, JStr v)" if y: "y \<in> set ?cl" "equal_fold (fst y) k" for y
  proof -
    have at: "to_lower (fst y) = k" using y(2) k by (simp add: equal_fold_def)
    have "y \<notin> set (id_extra c)"
    proof
      assume "y \<in> set (id_extra c)"
      then have "k \<notin> {''iss'', ''sub'', ''aud'', ''exp'', ''iat'', ''auth_time'', ''email'', ''name'', ''preferred_username''}"
        using assms(1) at by (auto simp: extra_ok_def list_all_iff)
      then show False using assms(2) by (auto simp: standard_claims_def)
    qed
    then have std: "y \<in> set (standard_claims m c aud ex now)" using y(1) by (simp add: id_token_claims_def Let_def)
    then have "fst y = k" using low at by simp
    then show ?thesis using std assms(2) by (auto simp: standard_claims_def)
  qed
  have here: "(k, JStr v) \<in> set ?cl" using assms(2) by (simp add: id_token_claims_def Let_def)
  have "find (\<lambda>(n, v). equal_fold n k) (rev ?cl) = Some (k, JStr v)"
  proof (rule find_only)
    show "(k, JStr v) \<in> set (rev ?cl)" using here by (simp only: set_rev)
    show "case (k, JStr v) of (n, v) \<Rightarrow> equal_fold n k" by (simp add: equal_fold_def)
    show "y = (k, JStr v)" if "y \<in> set (rev ?cl)" "case y of (n, v) \<Rightarrow> equal_fold n k" for y
      using same [of y] that by (simp only: set_rev split_beta)
  qed
  then show ?thesis by (simp add: string_field_def json_field_def)
qed

lemma map_of_same:
  "distinct (map fst xs) \<Longrightarrow> distinct (map fst ys) \<Longrightarrow> set xs = set ys \<Longrightarrow> map_of xs = map_of ys"
  by (simp add: map_of_inject_set)

lemma distinct_rev_sort: "distinct (map fst xs) \<Longrightarrow> distinct (map fst (rev (sort_key fst xs)))"
  by (simp add: distinct_map)

lemma map_of_outside: "k \<notin> K \<Longrightarrow> map_of (filter (\<lambda>x. fst x \<notin> K) xs) k = map_of xs k"
  by (induction xs) auto

lemma id_token_extra:
  assumes "extra_ok c" and "k \<notin> fst ` set (standard_claims m c aud ex now)"
  shows "json_key k (id_token_claims m c aud ex now) = map_of (id_extra c) k"
proof -
  let ?std = "standard_claims m c aud ex now" and ?x = "filter (\<lambda>x. fst x \<notin> fst ` set (standard_claims m c aud ex now)) (id_extra c)"
  have d: "distinct (map fst (?std @ ?x))"
  proof -
    have "distinct (map fst ?std)" by (simp add: standard_claims_def)
    moreover have "distinct (map fst ?x)" using assms(1) distinct_map_filter by (auto simp: extra_ok_def)
    moreover have "fst ` set ?std \<inter> fst ` set ?x = {}" 
    proof (rule equals0I)
      fix a assume "a \<in> fst ` set ?std \<inter> fst ` set ?x"
      then obtain x where x: "x \<in> set ?x" "a = fst x" and a: "a \<in> fst ` set ?std" by blast
      have "fst x \<notin> fst ` set ?std" using x(1) unfolding set_filter by blast
      then show False using a x(2) by simp
    qed
    ultimately show ?thesis by (simp only: map_append distinct_append set_map)
  qed
  have "map_of (rev (sort_key fst (?std @ ?x))) = map_of (?std @ ?x)"
    by (rule map_of_same [OF _ d]) (use d in \<open>simp_all only: distinct_rev_sort set_rev set_sort\<close>)
  moreover have "map_of ?std k = None" using assms(2) by (simp only: map_of_eq_None_iff not_False_eq_True)
  moreover have "map_of ?x k = map_of (id_extra c) k" by (rule map_of_outside [OF assms(2)])
  ultimately show ?thesis by (simp add: json_key_def id_token_claims_def Let_def map_add_def)
qed

text \<open>
  The libraries do for one login what they document: the request carries the code and the client's id, the
  token of a successful answer is read and verified, and an answer that is not one is an error.
\<close>

definition libraries_ok :: "test_libraries \<Rightarrow> oauth_client \<Rightarrow> string \<Rightarrow> (string \<times> json) list \<Rightarrow> string \<Rightarrow> bool" where
  "libraries_ok T oc code claims token \<longleftrightarrow>
     (case tr_form (tl_ask T oc code) of
        None \<Rightarrow> False
      | Some f \<Rightarrow> posted_value f ''code'' = code
          \<and> (case tr_basic (tl_ask T oc code) of Some i \<Rightarrow> i | None \<Rightarrow> posted_value f ''client_id'') = oc_id oc)
     \<and> tl_sign T claims = Inr token
     \<and> tl_read T (200, Inr (token_answer token)) = Inr (Some token)
     \<and> isl (tl_read T (400, Inl ''{\"error\":\"invalid_grant\"}''))
     \<and> tl_verify T (oc_id oc) False token = Inr claims"

lemma exchange_issued:
  assumes "map_of (is_codes m) code = Some c" and "libraries_ok T oc code (id_token_claims m c (oc_id oc) (now + hour) now) token"
  shows "ol_exchange (library_at T m now) oc code = Inr (Some token)"
    and "isl (ol_exchange (library_at T (exchanged T oc code now m) later) oc code)"
proof -
  obtain f where f: "tr_form (tl_ask T oc code) = Some f" "posted_value f ''code'' = code"
      "(case tr_basic (tl_ask T oc code) of Some i \<Rightarrow> i | None \<Rightarrow> posted_value f ''client_id'') = oc_id oc"
    using assms(2) by (auto simp: libraries_ok_def split: option.splits)
  have ok: "tl_sign T (id_token_claims m c (oc_id oc) (now + hour) now) = Inr token"
      "tl_read T (200, Inr (token_answer token)) = Inr (Some token)"
      "isl (tl_read T (400, Inl ''{\"error\":\"invalid_grant\"}''))"
    using assms(2) by (auto simp: libraries_ok_def)
  have once: "token_endpoint (tl_sign T) (tl_ask T oc code) now m
      = ((200, Inr (token_answer token)), m\<lparr>is_codes := filter (\<lambda>x. fst x \<noteq> code) (is_codes m)\<rparr>)"
    using f ok(1) assms(1) by (simp add: token_endpoint_def Let_def)
  show "ol_exchange (library_at T m now) oc code = Inr (Some token)" using once ok(2) by (simp add: library_at_def)
  have "map_of (filter (\<lambda>x. fst x \<noteq> code) (is_codes m)) code = None" by (auto simp: map_of_eq_None_iff)
  then have "fst (token_endpoint (tl_sign T) (tl_ask T oc code) later (exchanged T oc code now m)) = (400, Inl ''{\"error\":\"invalid_grant\"}'')"
    using once f by (simp add: exchanged_def token_endpoint_def Let_def)
  then show "isl (ol_exchange (library_at T (exchanged T oc code now m) later) oc code)" using ok(3) by (simp add: library_at_def)
qed

lemma walk_claims_key:
  "json_key k fs = json_key k fs' \<Longrightarrow> walk_claims (JObj fs) (k # ks) = walk_claims (JObj fs') (k # ks)"
  by simp

lemma groups_of_extra:
  assumes "extra_ok c" and "hd (split_on (CHR ''.'') path) \<notin> fst ` set (standard_claims m c aud ex now)"
  shows "group_membership (id_token_claims m c aud ex now) path g = group_membership (id_extra c) path g"
proof -
  have rev: "json_key k (id_extra c) = map_of (id_extra c) k" for k
  proof -
    have d: "distinct (map fst (id_extra c))" using assms(1) by (simp add: extra_ok_def)
    have "map_of (rev (id_extra c)) = map_of (id_extra c)"
      by (rule map_of_same [OF _ d]) (use d in \<open>simp_all add: distinct_map\<close>)
    then show ?thesis by (simp add: json_key_def)
  qed
  obtain k ks where k: "split_on (CHR ''.'') path = k # ks" using split_on_nonempty by (metis list.exhaust)
  then have "json_key k (id_token_claims m c aud ex now) = json_key k (id_extra c)"
    using id_token_extra [OF assms(1), of k m aud ex now] assms(2) rev by simp
  from walk_claims_key [OF this] show ?thesis unfolding group_membership_def k by simp
qed


text \<open>And the issuer's logout tokens end the sessions of their subject, unless they carry a nonce.\<close>

lemma logout_at_issuer:
  assumes "idp_verify_logout P raw = Inr (logout_token_claims m sub aud with_nonce now)" and "sub \<noteq> []"
  shows "validate_logout_token P raw = (if with_nonce then Inl ''logout token must not contain nonce'' else Inr sub)"
  using assms
  by (simp add: validate_logout_token_def logout_token_claims_def string_field_def object_field_def json_field_def
      json_key_def equal_fold_def to_lower_def lower_char_def backchannel_event_def)

section \<open>Somebody of the group logs in\<close>

definition demo_person :: identity where
  "demo_person = \<lparr>id_sub = ''u1'', id_email = ''a@b'', id_name = ''Ann'', id_preferred = [],
     id_extra = [(''groups'', JArr [JStr ''ops''])]\<rparr>"

definition demo_issuer :: issuer where
  "demo_issuer = issue_code ''c1'' demo_person \<lparr>is_url = ''https://i'', is_codes = []\<rparr>"

definition group_settings :: config where
  "group_settings = demo_settings\<lparr>cf_client_id := ''app'', cf_admin_group := ''ops'', cf_admin_claim := ''groups''\<rparr>"

definition demo_token :: "(string \<times> json) list" where
  "demo_token = id_token_claims demo_issuer demo_person ''app'' hour 0"

text \<open>Libraries that know one token.\<close>

definition demo_libraries :: test_libraries where
  "demo_libraries =
     \<lparr>tl_connect = (\<lambda>_. None), tl_auth_url = (\<lambda>_ s. s), tl_sign = (\<lambda>_. Inr ''tok''),
      tl_ask = (\<lambda>oc code. \<lparr>tr_form = Some [(''grant_type'', ''authorization_code''), (''code'', code)], tr_basic = Some (oc_id oc)\<rparr>),
      tl_read = (\<lambda>x. case snd x of Inr (JObj fs) \<Rightarrow> Inr (string_field ''id_token'' fs) | _ \<Rightarrow> Inl ''oauth2''),
      tl_verify = (\<lambda>_ _ t. if t = ''tok'' then Inr demo_token else Inl ''signature'')\<rparr>"

definition demo_callback :: request where
  "demo_callback = (demo_http ''GET'' ''/callback'' [(state_cookie group_settings ''s1'', ''s1'')] [])
     \<lparr>rq_query := [(''state'', ''s1''), (''code'', ''c1'')]\<rparr>"


end
