(* ===== verification/Messages.thy ===== *)
theory Messages
  imports I18n
begin

text \<open>
  The rest of the catalogue of \<open>messages.go\<close>: the texts that the templates print, next to those of theory \<open>I18n\<close>
  that handlers compose, and the look-up \<open>T\<close> over all of them.
\<close>

section \<open>The texts of the templates\<close>

definition texts_app_title :: "(string \<times> string \<times> string) list" where
  "texts_app_title =
    [(''app.title'', ''Keyosk'',
        ''Keyosk''),
     (''nav.admin'', ''Administration'',
        ''Admin''),
     (''nav.dashboard'', [CHR 0xC3, CHR 0x9C] @ ''bersicht'',
        ''Dashboard''),
     (''nav.signout'', ''Abmelden'',
        ''Sign out''),
     (''nav.privacy'', ''Datenschutz'',
        ''Privacy''),
     (''nav.account'', ''Konto'',
        ''Account''),
     (''privacy.title'', ''Datenschutzhinweise'',
        ''Privacy notice''),
     (''privacy.changelang'', ''Sprache '' @ [CHR 0xC3, CHR 0xA4] @ ''ndern'',
        ''Change language''),
     (''lang.label'', ''Sprache'',
        ''Language''),
     (''nav.settings'', ''Kontoeinstellungen'',
        ''Account settings'')]"

definition texts_account_title :: "(string \<times> string \<times> string) list" where
  "texts_account_title =
    [(''account.title'', ''Kontoeinstellungen'',
        ''Account settings''),
     (''account.username'', ''Benutzername'',
        ''Username''),
     (''account.id'', ''Benutzer-ID'',
        ''User ID''),
     (''account.subject'', ''OIDC-Subject'',
        ''OIDC subject''),
     (''account.appearance'', ''Darstellung'',
        ''Appearance''),
     (''account.theme'', ''Farbschema'',
        ''Theme''),
     (''account.browser'', ''Wie im Browser'',
        ''Browser setting''),
     (''account.light'', ''Hell'',
        ''Light''),
     (''account.dark'', ''Dunkel'',
        ''Dark''),
     (''account.save'', ''Speichern'',
        ''Save''),
     (''account.saved'', ''Ihre Einstellungen wurden gespeichert.'',
        ''Your settings have been saved.'')]"

definition texts_dash_intro_title :: "(string \<times> string \<times> string) list" where
  "texts_dash_intro_title =
    [(''dash.intro.title'', ''Worum geht es?'',
        ''What is this?''),
     (''dash.intro.body'', [CHR 0xC3, CHR 0x9C] @ ''ber Keyosk erhalten Sie Ihren pers'' @ [CHR 0xC3, CHR 0xB6] @ ''nlichen API-Schl'' @ [CHR 0xC3, CHR 0xBC] @ ''ssel f'' @ [CHR 0xC3, CHR 0xBC] @ ''r das KI-Gateway. Damit k'' @ [CHR 0xC3, CHR 0xB6] @ ''nnen Sie gro'' @ [CHR 0xC3, CHR 0x9F] @ ''e Sprachmodelle (LLMs) direkt aus eigenen Skripten, Programmen und Werkzeugen nutzen, etwa aus einem Python-Skript, einer Chat-Anwendung wie Open WebUI oder einem Coding-Assistenten im Editor, statt nur '' @ [CHR 0xC3, CHR 0xBC] @ ''ber eine Chat-Webseite.'',
        ''Keyosk issues your personal API key for the AI gateway. With it you can use large language models (LLMs) directly from your own scripts, programs and tools (for example a Python script, a chat app such as Open WebUI, or a coding assistant in your editor) rather than only through a chat website.''),
     (''dash.intro.usage'', ''Das Gateway ist OpenAI-kompatibel, die meisten KI-Werkzeuge funktionieren also damit: Tragen Sie die Basis-URL und Ihren Schl'' @ [CHR 0xC3, CHR 0xBC] @ ''ssel ein. Welche Modelle Sie nutzen k'' @ [CHR 0xC3, CHR 0xB6] @ ''nnen und in welchem Umfang, h'' @ [CHR 0xC3, CHR 0xA4] @ ''ngt von Ihrem Profil ab. Ihr Schl'' @ [CHR 0xC3, CHR 0xBC] @ ''ssel ist pers'' @ [CHR 0xC3, CHR 0xB6] @ ''nlich; bitte geben Sie ihn nicht weiter.'',
        ''The gateway speaks the OpenAI API, so most AI tools work with it: enter the base URL and your key. Which models you can use, and how much, depends on your profile. Your key is personal; please do not share it.''),
     (''dash.successor.title'', ''Dieses Portal wird eingestellt.'',
        ''This portal is being retired.''),
     (''dash.successor.body'', ''Bitte erzeugen Sie Ihren Schl'' @ [CHR 0xC3, CHR 0xBC] @ ''ssel im neuen Portal:'',
        ''Please create your key on the new portal:''),
     (''dash.account'', ''Ihr Konto'',
        ''Your account'')]"

definition texts_dash_error_profile :: "(string \<times> string \<times> string) list" where
  "texts_dash_error_profile =
    [(''dash.error.profile'', ''Ihr Profil konnte gerade nicht geladen werden. Ihre Limits, die verf'' @ [CHR 0xC3, CHR 0xBC] @ ''gbaren Modelle und das Verl'' @ [CHR 0xC3, CHR 0xA4] @ ''ngerungsdatum werden deshalb nicht angezeigt. Bitte laden Sie die Seite sp'' @ [CHR 0xC3, CHR 0xA4] @ ''ter neu.'',
        ''Your profile could not be loaded just now, so your limits, the models you can use and the extension date are not shown. Please reload the page later.''),
     (''dash.error.key'', ''Ihr API-Schl'' @ [CHR 0xC3, CHR 0xBC] @ ''ssel konnte gerade nicht geladen werden. Bitte laden Sie die Seite sp'' @ [CHR 0xC3, CHR 0xA4] @ ''ter neu.'',
        ''Your API key could not be loaded just now. Please reload the page later.''),
     (''dash.key.missing'', ''Das Gateway kennt Ihren API-Schl'' @ [CHR 0xC3, CHR 0xBC] @ ''ssel nicht mehr, er funktioniert deshalb derzeit nicht. Taucht er nicht wieder auf, wird er bald entfernt. Sie k'' @ [CHR 0xC3, CHR 0xB6] @ ''nnen jederzeit einen neuen erstellen.'',
        ''The gateway no longer recognises your API key, so it does not work for now. If it does not reappear, it will be removed soon. You can generate a new one at any time.''),
     (''dash.error.usage'', ''Ein Teil Ihrer Verbrauchsdaten konnte gerade nicht abgerufen werden. Die Angaben unten sind daher m'' @ [CHR 0xC3, CHR 0xB6] @ ''glicherweise unvollst'' @ [CHR 0xC3, CHR 0xA4] @ ''ndig.'',
        ''Some of your usage data could not be retrieved just now, so the figures below may be incomplete.'')]"

definition texts_dash_name :: "(string \<times> string \<times> string) list" where
  "texts_dash_name =
    [(''dash.name'', ''Name'',
        ''Name''),
     (''dash.email'', ''E-Mail'',
        ''Email''),
     (''dash.profile'', ''Profil'',
        ''Profile''),
     (''dash.profile.help'', ''Ihr Profil bestimmt, welche Modelle Sie nutzen k'' @ [CHR 0xC3, CHR 0xB6] @ ''nnen, wie lange Ihr Schl'' @ [CHR 0xC3, CHR 0xBC] @ ''ssel gilt und wie viel Sie pro Zeitraum verbrauchen d'' @ [CHR 0xC3, CHR 0xBC] @ ''rfen. Es wird von der Administration zugewiesen.'',
        ''Your profile decides which models you can use, how long your key lasts and how much you may use per period. An administrator assigns it.'')]"

definition texts_dash_usagelimit :: "(string \<times> string \<times> string) list" where
  "texts_dash_usagelimit =
    [(''dash.usagelimit'', ''Nutzungslimit'',
        ''Usage limit''),
     (''dash.usagelimit.note'', ''Anfragen schlagen fehl, sobald das Limit erreicht ist, und funktionieren nach dem n'' @ [CHR 0xC3, CHR 0xA4] @ ''chsten Zur'' @ [CHR 0xC3, CHR 0xBC] @ ''cksetzen automatisch wieder (UTC: t'' @ [CHR 0xC3, CHR 0xA4] @ ''glich um Mitternacht, w'' @ [CHR 0xC3, CHR 0xB6] @ ''chentlich am Montag, monatlich am Ersten).'',
        ''Requests fail once the limit is reached and resume automatically at the next reset (UTC boundaries: daily at midnight UTC, weekly on Monday, monthly on the 1st).''),
     (''dash.usagelimit.help'', ''Ihr Kontingent zur fairen Nutzung. Anfragen schlagen fehl, sobald es aufgebraucht ist, und funktionieren nach dem n'' @ [CHR 0xC3, CHR 0xA4] @ ''chsten Zur'' @ [CHR 0xC3, CHR 0xBC] @ ''cksetzen automatisch wieder. Die Zur'' @ [CHR 0xC3, CHR 0xBC] @ ''cksetzung erfolgt zu UTC-Zeiten.'',
        ''Your fair-use allowance. Requests stop working once it is used up and start again automatically at the next reset. Resets happen on UTC boundaries.''),
     (''dash.quota.note'', ''Anfragen schlagen fehl, sobald das Limit erreicht ist, und funktionieren beim n'' @ [CHR 0xC3, CHR 0xA4] @ ''chsten Zur'' @ [CHR 0xC3, CHR 0xBC] @ ''cksetzen automatisch wieder (UTC: t'' @ [CHR 0xC3, CHR 0xA4] @ ''glich um Mitternacht UTC, w'' @ [CHR 0xC3, CHR 0xB6] @ ''chentlich montags, monatlich am 1.).'',
        ''Requests fail once the limit is reached and resume automatically at the next reset (UTC boundaries: daily at midnight UTC, weekly on Monday, monthly on the 1st).'')]"

definition texts_dash_apikey :: "(string \<times> string \<times> string) list" where
  "texts_dash_apikey =
    [(''dash.apikey'', ''API-Schl'' @ [CHR 0xC3, CHR 0xBC] @ ''ssel'',
        ''API key''),
     (''dash.key'', ''Schl'' @ [CHR 0xC3, CHR 0xBC] @ ''ssel'',
        ''Key''),
     (''dash.expires'', ''G'' @ [CHR 0xC3, CHR 0xBC] @ ''ltig bis'',
        ''Expires''),
     (''dash.expires.help'', ''Wann dieser Schl'' @ [CHR 0xC3, CHR 0xBC] @ ''ssel ung'' @ [CHR 0xC3, CHR 0xBC] @ ''ltig wird. Mit '' @ [CHR 0xE2, CHR 0x80, CHR 0x9E] @ ''Verl'' @ [CHR 0xC3, CHR 0xA4] @ ''ngern'' @ [CHR 0xE2, CHR 0x80, CHR 0x9C] @ '' erhalten Sie jederzeit einen vollen neuen Zeitraum, beliebig oft.'',
        ''When this key stops working. Click Extend for a full new period '' @ [CHR 0xE2, CHR 0x80, CHR 0x94] @ '' you can do that at any time, as often as you like.''),
     (''dash.privacy'', ''Datenschutzhinweise zur API-Nutzung'',
        ''Privacy notice for API use''),
     (''dash.nokey'', ''Sie haben noch keinen API-Schl'' @ [CHR 0xC3, CHR 0xBC] @ ''ssel.'',
        ''You don'' @ [CHR 0x27] @ ''t have an API key yet.''),
     (''dash.generate'', ''API-Schl'' @ [CHR 0xC3, CHR 0xBC] @ ''ssel erzeugen'',
        ''Generate API key''),
     (''dash.extend'', ''Verl'' @ [CHR 0xC3, CHR 0xA4] @ ''ngern'',
        ''Extend''),
     (''dash.extend.until'', ''g'' @ [CHR 0xC3, CHR 0xBC] @ ''ltig bis'',
        ''until''),
     (''dash.regenerate'', ''Neu erzeugen'',
        ''Regenerate''),
     (''dash.delete'', ''L'' @ [CHR 0xC3, CHR 0xB6] @ ''schen'',
        ''Delete''),
     (''dash.days'', ''Tage'',
        ''days''),
     (''dash.copy'', ''Kopieren'',
        ''Copy''),
     (''dash.copied'', ''Kopiert!'',
        ''Copied!'')]"

definition texts_dash_newkey_warning :: "(string \<times> string \<times> string) list" where
  "texts_dash_newkey_warning =
    [(''dash.newkey.warning'', ''Speichern Sie Ihren API-Schl'' @ [CHR 0xC3, CHR 0xBC] @ ''ssel jetzt.'',
        ''Save your API key now.''),
     (''dash.newkey.note'', ''Er wird nach dem Verlassen dieser Seite nicht erneut angezeigt.'',
        ''It will not be shown again after you leave this page.'')]"

definition texts_dash_usage :: "(string \<times> string \<times> string) list" where
  "texts_dash_usage =
    [(''dash.usage'', ''Schl'' @ [CHR 0xC3, CHR 0xBC] @ ''ssel verwenden'',
        ''Using your key''),
     (''dash.usage.note'', ''Konfigurieren Sie Ihren KI-Client mit diesen Einstellungen:'',
        ''Configure your AI client with these settings:''),
     (''dash.usage.nokey'', ''Sobald Sie oben einen Schl'' @ [CHR 0xC3, CHR 0xBC] @ ''ssel erzeugt haben, konfigurieren Sie Ihren KI-Client mit diesen Einstellungen:'',
        ''Once you have generated a key above, configure your AI client with these settings:''),
     (''dash.baseurl'', ''Basis-URL'',
        ''Base URL''),
     (''dash.models'', ''Verf'' @ [CHR 0xC3, CHR 0xBC] @ ''gbare Modelle'',
        ''Available models''),
     (''dash.usagestats'', ''Ihr Verbrauch'',
        ''Your usage''),
     (''dash.usagestats.note'', ''Ihr Kontingent wird in Kosten gemessen; die Verlaufsgrafik zeigt die Tokens, die Sie in den letzten 30 Tagen mit all Ihren Schl'' @ [CHR 0xC3, CHR 0xBC] @ ''sseln verbraucht haben, und l'' @ [CHR 0xC3, CHR 0xA4] @ ''uft mit einem neu erzeugten Schl'' @ [CHR 0xC3, CHR 0xBC] @ ''ssel weiter. Das Kontingent gilt f'' @ [CHR 0xC3, CHR 0xBC] @ ''r Sie, nicht f'' @ [CHR 0xC3, CHR 0xBC] @ ''r den einzelnen Schl'' @ [CHR 0xC3, CHR 0xBC] @ ''ssel: Ein neu erzeugter Schl'' @ [CHR 0xC3, CHR 0xBC] @ ''ssel setzt es nicht zur'' @ [CHR 0xC3, CHR 0xBC] @ ''ck.'',
        ''Your allowance is measured in cost; the history chart shows the tokens you used over the last 30 days with all your keys, and carries on when you generate a new key. The allowance applies to you rather than to a single key, so generating a new key does not reset it.''),
     (''dash.usagestats.total'', ''Gesamt'',
        ''Total''),
     (''admin.form.quota.add'', ''Fenster hinzuf'' @ [CHR 0xC3, CHR 0xBC] @ ''gen'',
        ''Add window''),
     (''admin.form.quota.amount'', ''Betrag'',
        ''Amount''),
     (''admin.form.quota.unit'', ''Einheit:'',
        ''Unit:'')]"

definition texts_dash_quota_of :: "(string \<times> string \<times> string) list" where
  "texts_dash_quota_of =
    [(''dash.quota.of'', ''von'',
        ''of''),
     (''dash.quota.costnote'', ''Das Kontingent wird in Kosten gemessen, nicht in Tokens: Teurere Modelle verbrauchen es schneller.'',
        ''Your allowance is measured in cost, not tokens: pricier models use it up faster.''),
     (''dash.quota.used'', ''verbraucht'',
        ''used''),
     (''dash.quota.resets'', ''Zur'' @ [CHR 0xC3, CHR 0xBC] @ ''cksetzung'',
        ''Resets''),
     (''dash.quota.unlimited'', ''F'' @ [CHR 0xC3, CHR 0xBC] @ ''r dieses Profil gilt kein Verbrauchslimit.'',
        ''This profile has no usage limit.''),
     (''dash.usagestats.none'', ''Bisher wurde noch kein Verbrauch verzeichnet.'',
        ''No usage recorded yet.''),
     (''dash.tokens'', ''Tokens'',
        ''tokens''),
     (''dash.usagestats.bymodel'', ''Nach Modell'',
        ''By model''),
     (''dash.col.model'', ''Modell'',
        ''Model''),
     (''dash.col.model.unknown'', ''unbekannt'',
        ''unknown''),
     (''dash.col.requests'', ''Anfragen'',
        ''Requests''),
     (''dash.col.input'', ''Eingabe-Tokens'',
        ''Input tokens''),
     (''dash.col.output'', ''Ausgabe-Tokens'',
        ''Output tokens''),
     (''dash.col.total'', ''Gesamt'',
        ''Total''),
     (''dash.models.help'', ''Die Modelle, die Ihr Schl'' @ [CHR 0xC3, CHR 0xBC] @ ''ssel verwenden darf. Klicken Sie auf ein Modell, um den Namen zu kopieren '' @ [CHR 0xE2, CHR 0x80, CHR 0x94] @ '' das Beispiel darunter wechselt zu diesem Modell.'',
        ''The models your key may use. Click one to copy its name; the example below switches to it.''),
     (''dash.models.curltitle'', ''Beispielanfrage f'' @ [CHR 0xC3, CHR 0xBC] @ ''r'',
        ''Example request for''),
     (''dash.models.curlnote'', ''Der Schl'' @ [CHR 0xC3, CHR 0xBC] @ ''ssel wird aus der Umgebungsvariablen OPENAI_API_KEY gelesen '' @ [CHR 0xE2, CHR 0x80, CHR 0x94] @ '' setzen Sie sie zuerst, damit er weder im Code noch in der Shell-History landet.'',
        ''The key is read from the OPENAI_API_KEY environment variable '' @ [CHR 0xE2, CHR 0x80, CHR 0x94] @ '' set it first so it stays out of your code and shell history.''),
     (''dash.baseurl.help'', ''Richten Sie Ihren KI-Client auf diese Adresse und hinterlegen Sie Ihren API-Schl'' @ [CHR 0xC3, CHR 0xBC] @ ''ssel. Die Schnittstelle ist OpenAI-kompatibel, funktioniert also mit den '' @ [CHR 0xC3, CHR 0xBC] @ ''blichen Werkzeugen.'',
        ''Point your AI client at this address and give it your API key. It speaks the OpenAI API, so any OpenAI-compatible tool works.'')]"

definition texts_dash_confirm_regenerate :: "(string \<times> string \<times> string) list" where
  "texts_dash_confirm_regenerate =
    [(''dash.confirm.regenerate'', ''Damit wird Ihr aktueller Schl'' @ [CHR 0xC3, CHR 0xBC] @ ''ssel ung'' @ [CHR 0xC3, CHR 0xBC] @ ''ltig und ein neuer erzeugt. Fortfahren?'',
        ''This will revoke your current key and generate a new one. Continue?''),
     (''dash.confirm.delete'', ''API-Schl'' @ [CHR 0xC3, CHR 0xBC] @ ''ssel l'' @ [CHR 0xC3, CHR 0xB6] @ ''schen? Sie verlieren sofort den Zugriff.'',
        ''Delete your API key? You will lose access immediately.'')]"

definition texts_dash_expiry_expired :: "(string \<times> string \<times> string) list" where
  "texts_dash_expiry_expired =
    [(''dash.expiry.expired'', ''Ihr Schl'' @ [CHR 0xC3, CHR 0xBC] @ ''ssel ist abgelaufen.'',
        ''Your key has expired.''),
     (''dash.expiry.expired.note'', ''Erzeugen Sie einen neuen, um den Zugriff wiederherzustellen.'',
        ''Generate a new one to restore access.''),
     (''dash.expiry.today'', ''Ihr Schl'' @ [CHR 0xC3, CHR 0xBC] @ ''ssel l'' @ [CHR 0xC3, CHR 0xA4] @ ''uft heute ab.'',
        ''Your key expires today.''),
     (''dash.expiry.today.note'', ''Verl'' @ [CHR 0xC3, CHR 0xA4] @ ''ngern Sie ihn, um den Zugriff zu behalten.'',
        ''Extend it to keep your access.''),
     (''dash.expiry.soon.note'', ''Verl'' @ [CHR 0xC3, CHR 0xA4] @ ''ngern Sie ihn jetzt, um Unterbrechungen zu vermeiden.'',
        ''Extend it now to avoid interruption.'')]"

definition texts_dash_time_in :: "(string \<times> string \<times> string) list" where
  "texts_dash_time_in =
    [(''dash.time.in'', ''in'',
        ''in''),
     (''dash.time.now'', ''jeden Moment'',
        ''any moment now''),
     (''dash.time.minute'', ''Minute'',
        ''minute''),
     (''dash.time.minutes'', ''Minuten'',
        ''minutes''),
     (''dash.time.hour'', ''Stunde'',
        ''hour''),
     (''dash.time.hours'', ''Stunden'',
        ''hours''),
     (''dash.time.day'', ''Tag'',
        ''day''),
     (''dash.time.days'', ''Tagen'',
        ''days''),
     (''badge.daysleft'', ''T '' @ [CHR 0xC3, CHR 0xBC] @ ''brig'',
        ''d left''),
     (''badge.expired'', ''abgelaufen'',
        ''expired''),
     (''badge.today'', ''heute'',
        ''Today''),
     (''badge.left'', ''T '' @ [CHR 0xC3, CHR 0xBC] @ ''brig'',
        ''d left'')]"

definition texts_admin_title :: "(string \<times> string \<times> string) list" where
  "texts_admin_title =
    [(''admin.title'', ''Keyosk '' @ [CHR 0xE2, CHR 0x80, CHR 0x94] @ '' Administration'',
        ''Keyosk '' @ [CHR 0xE2, CHR 0x80, CHR 0x94] @ '' Admin''),
     (''admin.profiles'', ''Profile'',
        ''Profiles''),
     (''admin.users'', ''Benutzende'',
        ''Users''),
     (''admin.audit'', ''Audit-Log'',
        ''Audit log'')]"

definition texts_admin_col_name :: "(string \<times> string \<times> string) list" where
  "texts_admin_col_name =
    [(''admin.col.name'', ''Name'',
        ''Name''),
     (''admin.col.description'', ''Beschreibung'',
        ''Description''),
     (''admin.col.models'', ''Modelle'',
        ''Models''),
     (''admin.col.expiry'', ''G'' @ [CHR 0xC3, CHR 0xBC] @ ''ltigkeit'',
        ''Expiry''),
     (''admin.col.quota'', ''Kontingent'',
        ''Quota''),
     (''admin.col.email'', ''E-Mail'',
        ''Email''),
     (''admin.col.oidcsub'', ''OIDC-Subject'',
        ''OIDC subject''),
     (''admin.col.profile'', ''Profil'',
        ''Profile''),
     (''admin.col.apikey'', ''API-Schl'' @ [CHR 0xC3, CHR 0xBC] @ ''ssel'',
        ''API key''),
     (''admin.col.changeprofile'', ''Profil '' @ [CHR 0xC3, CHR 0xA4] @ ''ndern'',
        ''Change profile''),
     (''admin.col.when'', ''Zeitpunkt'',
        ''When''),
     (''admin.col.action'', ''Aktion'',
        ''Action''),
     (''admin.col.actor'', ''Ausgef'' @ [CHR 0xC3, CHR 0xBC] @ ''hrt von'',
        ''Actor''),
     (''admin.col.subject'', ''Betroffen'',
        ''Subject''),
     (''admin.col.detail'', ''Detail'',
        ''Detail'')]"

definition texts_admin_until :: "(string \<times> string \<times> string) list" where
  "texts_admin_until =
    [(''admin.until'', ''Befristet bis'',
        ''Until''),
     (''admin.until.help'', ''Leer lassen f'' @ [CHR 0xC3, CHR 0xBC] @ ''r eine dauerhafte Zuweisung.'',
        ''Leave empty for a permanent assignment.''),
     (''admin.thenswitch'', ''Danach wechseln zu'',
        ''Then switch to''),
     (''admin.thenrevoke'', ''Stattdessen Schl'' @ [CHR 0xC3, CHR 0xBC] @ ''ssel l'' @ [CHR 0xC3, CHR 0xB6] @ ''schen'',
        ''Delete the key instead''),
     (''admin.user.until'', ''bis %s'',
        ''until %s''),
     (''admin.user.then'', ''danach %s'',
        ''then %s''),
     (''admin.user.thenrevoke'', ''danach wird der Schl'' @ [CHR 0xC3, CHR 0xBC] @ ''ssel gel'' @ [CHR 0xC3, CHR 0xB6] @ ''scht'',
        ''then the key is deleted''),
     (''admin.user.thendefault'', ''danach gilt wieder das Standardprofil'',
        ''then back to the default'')]"

definition texts_admin_all :: "(string \<times> string \<times> string) list" where
  "texts_admin_all =
    [(''admin.all'', ''alle'',
        ''all''),
     (''admin.none'', ''keiner'',
        ''none''),
     (''admin.default'', ''Standard'',
        ''default''),
     (''admin.default.follow'', ''Standardprofil folgen'',
        ''Follow the default''),
     (''admin.default.current'', ''(derzeit: %s)'',
        ''(currently: %s)''),
     (''admin.default.follows'', ''folgt dem Standardprofil'',
        ''follows the default''),
     (''admin.edit'', ''Bearbeiten'',
        ''Edit''),
     (''admin.delete'', ''L'' @ [CHR 0xC3, CHR 0xB6] @ ''schen'',
        ''Delete''),
     (''admin.revoke.key'', ''Schl'' @ [CHR 0xC3, CHR 0xBC] @ ''ssel widerrufen'',
        ''Revoke key''),
     (''admin.actions'', ''Aktionen'',
        ''Actions''),
     (''admin.delete.default'', ''Das Standardprofil kann nicht gel'' @ [CHR 0xC3, CHR 0xB6] @ ''scht werden.'',
        ''The default profile cannot be deleted.''),
     (''admin.revoke.nokey'', ''Kein Schl'' @ [CHR 0xC3, CHR 0xBC] @ ''ssel vorhanden.'',
        ''There is no key.''),
     (''admin.key.missing'', ''fehlt seit'',
        ''missing since''),
     (''admin.key.missing.help'', ''Das Gateway kennt diesen Schl'' @ [CHR 0xC3, CHR 0xBC] @ ''ssel nicht mehr. Der Eintrag wird entfernt, wenn er nach Ablauf der Karenzzeit nicht wieder auftaucht.'',
        ''The gateway no longer has this key. The record is removed if it has not reappeared once the grace period has passed.''),
     (''admin.save'', ''Speichern'',
        ''Save''),
     (''admin.cancel'', ''Abbrechen'',
        ''Cancel''),
     (''admin.noprofiles'', ''Noch keine Profile.'',
        ''No profiles yet.''),
     (''admin.nousers'', ''Noch keine Benutzenden.'',
        ''No users yet.''),
     (''admin.noevents'', ''Noch keine Ereignisse erfasst.'',
        ''No events recorded yet.''),
     (''admin.audit.note'', ''Die 50 j'' @ [CHR 0xC3, CHR 0xBC] @ ''ngsten Schl'' @ [CHR 0xC3, CHR 0xBC] @ ''ssel- und Profil'' @ [CHR 0xC3, CHR 0xA4] @ ''nderungen.'',
        ''The 50 most recent key and profile changes.'')]"

definition texts_admin_admins :: "(string \<times> string \<times> string) list" where
  "texts_admin_admins =
    [(''admin.admins'', ''Administration'',
        ''Admins''),
     (''admin.admins.note'', ''Wer auf diese Seite zugreifen darf. Niemand kann sich die eigenen Rechte entziehen.'',
        ''Who may reach this page. Nobody can remove their own rights.''),
     (''admin.admins.self'', ''Sie'',
        ''you''),
     (''admin.admins.revoke'', ''Entfernen'',
        ''Remove''),
     (''admin.admins.revoke.self'', ''Die eigenen Rechte kann niemand entziehen.'',
        ''Nobody can remove their own rights.''),
     (''admin.admins.none'', ''Kein Konto hat Administratorrechte.'',
        ''No account holds admin rights.''),
     (''admin.admins.group'', ''Administratoren sind die Mitglieder der Gruppe %s im Login-System. Die Mitgliedschaft wird bei jeder Anmeldung gelesen; diese Liste zeigt, wer bei der letzten Anmeldung Mitglied war.'',
        ''Admins are the members of the group %s in the login system. Membership is read at each login, so this list shows who was a member when they last logged in.''),
     (''admin.admins.group.none'', ''Aus dieser Gruppe hat sich noch niemand angemeldet.'',
        ''Nobody from this group has logged in yet.''),
     (''admin.admins.promote'', ''Jemanden zum Administrator machen'',
        ''Make someone an admin''),
     (''admin.admins.promote.note'', ''Nur Personen, die sich schon einmal bei Keyosk angemeldet haben, k'' @ [CHR 0xC3, CHR 0xB6] @ ''nnen ausgew'' @ [CHR 0xC3, CHR 0xA4] @ ''hlt werden. Das Recht wird am Konto hinterlegt, nicht an der E-Mail-Adresse.'',
        ''Only people who have logged in to Keyosk before can be chosen. The right is recorded on the account, not on the email address.''),
     (''admin.admins.filter'', ''Nach Name oder E-Mail filtern'',
        ''Filter by name or email''),
     (''admin.admins.choose'', ''Konto ausw'' @ [CHR 0xC3, CHR 0xA4] @ ''hlen'',
        ''Choose an account''),
     (''admin.admins.grant'', ''Zum Administrator machen'',
        ''Make admin'')]"

definition texts_admin_form_new :: "(string \<times> string \<times> string) list" where
  "texts_admin_form_new =
    [(''admin.form.new'', ''Neues Profil'',
        ''New profile''),
     (''admin.form.edit'', ''Profil bearbeiten:'',
        ''Edit profile:''),
     (''admin.form.create'', ''Profil anlegen'',
        ''Create profile''),
     (''admin.form.update'', ''Profil aktualisieren'',
        ''Update profile''),
     (''admin.form.models'', ''Erlaubte Modelle'',
        ''Allowed models''),
     (''admin.form.models.hint'', ''Leer lassen, um alle Modelle zu erlauben.'',
        ''Leave blank to allow all models.''),
     (''admin.form.tpm'', ''TPM-Limit'',
        ''TPM limit''),
     (''admin.form.rpm'', ''RPM-Limit'',
        ''RPM limit''),
     (''admin.form.validity'', ''G'' @ [CHR 0xC3, CHR 0xBC] @ ''ltigkeit (Tage)'',
        ''Key validity (days)''),
     (''admin.form.validity.hint'', ''Wie lange ein erzeugter Schl'' @ [CHR 0xC3, CHR 0xBC] @ ''ssel gilt. Leer = Server-Standard.'',
        ''How long a generated key lasts. Blank uses the server default.''),
     (''admin.form.quota'', ''Nutzungslimit (Kosten)'',
        ''Usage limit (cost)''),
     (''admin.form.quota.hint'', ''Ausgabenkontingent pro Zeitraum, z. B. 0.10. Leer bedeutet kein Limit.'',
        ''Spend allowance per period, e.g. 0.10. Blank means no limit.''),
     (''admin.form.period'', ''Limit zur'' @ [CHR 0xC3, CHR 0xBC] @ ''cksetzen'',
        ''Limit resets''),
     (''admin.form.period.hint'', ''Anfragen schlagen fehl, sobald das Limit erreicht ist, und funktionieren beim n'' @ [CHR 0xC3, CHR 0xA4] @ ''chsten Zur'' @ [CHR 0xC3, CHR 0xBC] @ ''cksetzen wieder. Zeitpunkte in UTC (t'' @ [CHR 0xC3, CHR 0xA4] @ ''glich = Mitternacht UTC).'',
        ''Requests fail once the limit is hit, then resume automatically at the next reset. Boundaries are UTC (daily = midnight UTC).''),
     (''admin.form.default'', ''Standardprofil'',
        ''Default profile''),
     (''admin.form.default.hint'', ''Um den Standard zu '' @ [CHR 0xC3, CHR 0xA4] @ ''ndern, ein anderes Profil als Standard markieren.'',
        ''To change the default, mark another profile as default.''),
     (''admin.form.unlimited'', ''unbegrenzt'',
        ''unlimited''),
     (''admin.form.serverdefault'', ''Server-Standard'',
        ''server default'')]"

definition texts_period_none :: "(string \<times> string \<times> string) list" where
  "texts_period_none =
    [(''period.none'', ''kein Limit'',
        ''no limit''),
     (''period.hourly'', ''st'' @ [CHR 0xC3, CHR 0xBC] @ ''ndlich'',
        ''hourly''),
     (''period.daily'', ''t'' @ [CHR 0xC3, CHR 0xA4] @ ''glich'',
        ''daily''),
     (''period.weekly'', ''w'' @ [CHR 0xC3, CHR 0xB6] @ ''chentlich'',
        ''weekly''),
     (''period.monthly'', ''monatlich'',
        ''monthly'')]"

definition texts_period_perhour :: "(string \<times> string \<times> string) list" where
  "texts_period_perhour =
    [(''period.perhour'', ''pro Stunde'',
        ''per hour''),
     (''period.perday'', ''pro Tag'',
        ''per day''),
     (''period.perweek'', ''pro Woche'',
        ''per week''),
     (''period.permonth'', ''pro Monat'',
        ''per month'')]"

definition texts_help_tpm :: "(string \<times> string \<times> string) list" where
  "texts_help_tpm =
    [(''help.tpm'', ''Token pro Minute. Begrenzt, wie schnell ein Schl'' @ [CHR 0xC3, CHR 0xBC] @ ''ssel Token verbrauchen darf, und gl'' @ [CHR 0xC3, CHR 0xA4] @ ''ttet Lastspitzen. Das Gesamtvolumen begrenzt das Nutzungslimit.'',
        ''Tokens per minute. Caps how fast a key can consume tokens, smoothing out bursts. It does not limit the total '' @ [CHR 0xE2, CHR 0x80, CHR 0x94] @ '' use the usage limit for that.''),
     (''help.rpm'', ''Anfragen pro Minute. Begrenzt die Anzahl der API-Aufrufe pro Minute, unabh'' @ [CHR 0xC3, CHR 0xA4] @ ''ngig von deren Gr'' @ [CHR 0xC3, CHR 0xB6, CHR 0xC3, CHR 0x9F] @ ''e.'',
        ''Requests per minute. Caps how many API calls a key can make each minute, regardless of their size.''),
     (''help.expiry'', ''Wie lange ein neu erzeugter Schl'' @ [CHR 0xC3, CHR 0xBC] @ ''ssel g'' @ [CHR 0xC3, CHR 0xBC] @ ''ltig bleibt. Nutzende k'' @ [CHR 0xC3, CHR 0xB6] @ ''nnen ihn selbst um einen vollen Zeitraum verl'' @ [CHR 0xC3, CHR 0xA4] @ ''ngern.'',
        ''How long a newly generated key stays valid. Users can extend it themselves for another full period.''),
     (''help.quota'', ''Ausgabenkontingent und wie oft es zur'' @ [CHR 0xC3, CHR 0xBC] @ ''ckgesetzt wird. Anfragen schlagen fehl, sobald es aufgebraucht ist, und funktionieren nach dem Zur'' @ [CHR 0xC3, CHR 0xBC] @ ''cksetzen wieder.'',
        ''Fair-use spend allowance and how often it resets. Requests fail once it is used up, then resume at the next reset.''),
     (''help.models'', ''Beschr'' @ [CHR 0xC3, CHR 0xA4] @ ''nkt dieses Profil auf bestimmte Modelle. Leer lassen, um alle Modelle des Gateways zu erlauben.'',
        ''Restrict this profile to specific models. Leave blank to allow every model the gateway offers.''),
     (''help.validity'', ''Wie viele Tage ein erzeugter Schl'' @ [CHR 0xC3, CHR 0xBC] @ ''ssel gilt. Studierende z. B. 30, Besch'' @ [CHR 0xC3, CHR 0xA4] @ ''ftigte 365. Nutzende k'' @ [CHR 0xC3, CHR 0xB6] @ ''nnen jederzeit um einen vollen Zeitraum verl'' @ [CHR 0xC3, CHR 0xA4] @ ''ngern. Leer = Server-Standard.'',
        ''How many days a generated key lasts. Students might get 30, staff 365. Users can click Extend for another full period at any time. Blank uses the server default.''),
     (''help.usagelimit'', ''Wie viel pro Zeitraum ausgegeben werden darf, in der Einheit, in der das Gateway Modelle bepreist. Ist das Kontingent verbraucht, schlagen Anfragen fehl, bis der Zeitraum zur'' @ [CHR 0xC3, CHR 0xBC] @ ''ckgesetzt wird. Mehrere Fenster gelten gleichzeitig '' @ [CHR 0xE2, CHR 0x80, CHR 0x94] @ '' etwa 0,10 pro Tag und 2 pro Monat '' @ [CHR 0xE2, CHR 0x80, CHR 0x94] @ '', das jeweils engste greift. Ohne Fenster gilt kein Limit. Die Zur'' @ [CHR 0xC3, CHR 0xBC] @ ''cksetzung erfolgt zu festen UTC-Zeitpunkten: t'' @ [CHR 0xC3, CHR 0xA4] @ ''glich um Mitternacht UTC, w'' @ [CHR 0xC3, CHR 0xB6] @ ''chentlich montags, monatlich am 1.'',
        ''How much may be spent per period, in the unit the gateway prices models in. Once spent, requests fail until the period resets. Several windows apply at once '' @ [CHR 0xE2, CHR 0x80, CHR 0x94] @ '' say 0.10 per day and 2 per month '' @ [CHR 0xE2, CHR 0x80, CHR 0x94] @ '' and the tightest one binds. No windows means no limit. Resets happen on fixed UTC boundaries: daily at midnight UTC, weekly on Monday, monthly on the 1st.''),
     (''help.defaultprofile'', ''Gilt f'' @ [CHR 0xC3, CHR 0xBC] @ ''r alle Nutzenden ohne ausdr'' @ [CHR 0xC3, CHR 0xBC] @ ''cklich zugewiesenes Profil. Genau ein Profil ist Standard; ein neues zu markieren verschiebt ihn.'',
        ''Applied to every user who has not been assigned a profile explicitly. Exactly one profile is the default; marking a new one moves it.'')]"

definition texts_flash_profile_created :: "(string \<times> string \<times> string) list" where
  "texts_flash_profile_created =
    [(''flash.profile.created'', ''Profil angelegt'',
        ''Profile created''),
     (''flash.profile.updated'', ''Profil aktualisiert'',
        ''Profile updated''),
     (''flash.profile.deleted'', ''Profil gel'' @ [CHR 0xC3, CHR 0xB6] @ ''scht'',
        ''Profile deleted''),
     (''flash.user.updated'', ''Profil der Person aktualisiert'',
        ''User profile updated''),
     (''flash.key.revoked'', ''Schl'' @ [CHR 0xC3, CHR 0xBC] @ ''ssel widerrufen'',
        ''Key revoked''),
     (''flash.name.required'', ''Name ist erforderlich'',
        ''Name is required''),
     (''flash.period.invalid'', ''Ung'' @ [CHR 0xC3, CHR 0xBC] @ ''ltiger Zeitraum'',
        ''Invalid quota period''),
     (''flash.nokey'', ''Diese Person hat keinen Schl'' @ [CHR 0xC3, CHR 0xBC] @ ''ssel'',
        ''User has no key''),
     (''flash.failed'', ''Aktion fehlgeschlagen'',
        ''Action failed'')]"

section \<open>The catalogue\<close>

definition catalogue :: "(string \<times> string \<times> string) list" where
  "catalogue = messages
     @ texts_app_title
     @ texts_account_title
     @ texts_dash_intro_title
     @ texts_dash_error_profile
     @ texts_dash_name
     @ texts_dash_usagelimit
     @ texts_dash_apikey
     @ texts_dash_newkey_warning
     @ texts_dash_usage
     @ texts_dash_quota_of
     @ texts_dash_confirm_regenerate
     @ texts_dash_expiry_expired
     @ texts_dash_time_in
     @ texts_admin_title
     @ texts_admin_col_name
     @ texts_admin_until
     @ texts_admin_all
     @ texts_admin_admins
     @ texts_admin_form_new
     @ texts_period_none
     @ texts_period_perhour
     @ texts_help_tpm
     @ texts_flash_profile_created"

text \<open>\<open>T\<close>, over the whole catalogue.\<close>

definition message_text :: "lang \<Rightarrow> string \<Rightarrow> string" where
  "message_text l key =
     (case map_of catalogue key of
        None \<Rightarrow> key
      | Some p \<Rightarrow> if text_in l p \<noteq> [] then text_in l p
                  else if text_in lang_en p \<noteq> [] then text_in lang_en p else key)"

text \<open>What a text asks \<open>fmt.Sprintf\<close> for, in order: a string, quoted or not, or a number.\<close>

datatype verb = TextVerb | NumberVerb

fun verbs :: "string \<Rightarrow> verb list" where
  "verbs (c # v # s) =
     (if c = CHR ''%'' \<and> v \<in> {CHR ''s'', CHR ''q''} then TextVerb # verbs s
      else if c = CHR ''%'' \<and> v = CHR ''d'' then NumberVerb # verbs s
      else verbs (v # s))"
| "verbs s = []"

definition good_entry :: "string \<times> string \<times> string \<Rightarrow> bool" where
  "good_entry e = (case e of (k, de, en) \<Rightarrow> de \<noteq> [] \<and> en \<noteq> [] \<and> verbs de = verbs en)"

lemma good_entries: "list_all good_entry catalogue"
  by code_simp

text \<open>Whether strings differ, letter by letter: quicker to evaluate than every pair.\<close>

primrec apart :: "nat \<Rightarrow> string list \<Rightarrow> bool" where
  "apart 0 xs = (xs = [])"
| "apart (Suc n) xs =
     (case xs of
        [] \<Rightarrow> True
      | x # rest \<Rightarrow>
          if rest = [] then True
          else if x = [] then [] \<notin> set rest \<and> apart n rest
          else if apart n (map tl (filter (\<lambda>s. s \<noteq> [] \<and> hd s = hd x) xs))
               then apart n (filter (\<lambda>s. s = [] \<or> hd s \<noteq> hd x) rest) else False)"

lemma distinct_split: "distinct (filter P xs) \<Longrightarrow> distinct (filter (\<lambda>x. \<not> P x) xs) \<Longrightarrow> distinct xs"
  by (induction xs) (auto split: if_splits)

lemma apart_distinct: "apart n xs \<Longrightarrow> distinct xs"
proof (induction n arbitrary: xs)
  case (Suc n)
  show ?case
  proof (cases xs)
    case (Cons x rest)
    show ?thesis
    proof (cases "rest = [] \<or> x = []")
      case True
      then show ?thesis using Suc.IH [of rest] Suc.prems unfolding Cons by (auto split: if_splits)
    next
      case False
      let ?same = "filter (\<lambda>s. s \<noteq> [] \<and> hd s = hd x) xs" and ?other = "filter (\<lambda>s. s = [] \<or> hd s \<noteq> hd x) rest"
      have "apart n (map tl ?same)" "apart n ?other" using Suc.prems Cons False by (auto split: if_splits)
      then have "distinct (map tl ?same)" "distinct ?other" by (blast intro: Suc.IH)+
      then have "distinct ?same" "distinct ?other" by (simp_all only: distinct_map)
      moreover have "?other = filter (\<lambda>s. \<not> (s \<noteq> [] \<and> hd s = hd x)) xs" using Cons False by (simp cong: filter_cong)
      ultimately show ?thesis using distinct_split [of "\<lambda>s. s \<noteq> [] \<and> hd s = hd x" xs] by simp
    qed
  qed simp
qed simp

lemma keys_apart: "apart 400 (map fst catalogue)"
  by code_simp

lemma keys_differ: "distinct (map fst catalogue)"
  by (rule apart_distinct [OF keys_apart])

text \<open>
  C40.  Every text exists in both languages: for each of the 233 entries of the catalogue, \<open>T\<close> gives the German text
  in German and the English one in English, neither is blank, and both ask for the same values in the same
  order, so that no page mixes languages, shows a bare key, or prints a value in the wrong place.
\<close>

theorem texts_in_both_languages:
  "length catalogue = 233
   \<and> list_all (\<lambda>(k, de, en). message_text lang_de k = de \<and> message_text lang_en k = en
        \<and> de \<noteq> [] \<and> en \<noteq> [] \<and> verbs de = verbs en) catalogue"
proof
  show "length catalogue = 233" by code_simp
  have "message_text lang_de k = de \<and> message_text lang_en k = en \<and> de \<noteq> [] \<and> en \<noteq> [] \<and> verbs de = verbs en"
    if e: "(k, de, en) \<in> set catalogue" for k de en
  proof -
    have "good_entry (k, de, en)" using good_entries e by (simp only: list_all_iff)
    moreover have "map_of catalogue k = Some (de, en)" using e keys_differ by simp
    ultimately show ?thesis by (simp add: message_text_def text_in_def good_entry_def lang_de_def lang_en_def)
  qed
  then show "list_all (\<lambda>(k, de, en). message_text lang_de k = de \<and> message_text lang_en k = en
        \<and> de \<noteq> [] \<and> en \<noteq> [] \<and> verbs de = verbs en) catalogue"
    unfolding list_all_iff by (intro ballI) (simp only: split_paired_all prod.case simp_thms)
qed

text \<open>The look-up of the handlers' texts is this one.\<close>

lemma translate_is_message_text: "k \<in> fst ` set messages \<Longrightarrow> translate l k = message_text l k"
  by (auto simp: translate_def message_text_def catalogue_def map_add_def map_of_eq_None_iff split: option.split)

end
