(* ===== verification/AdminRights.thy ===== *)
theory AdminRights
  imports Gate
begin

text \<open>
  Who keeps the panel (\<open>RevokeAdmin\<close> of \<open>admin.go\<close>): an administrator cannot remove their own rights as long as
  the handler can tell who is asking, and what happens when it cannot.
\<close>

section \<open>Own rights\<close>

text \<open>Whether an account holds the panel.\<close>

definition holds_panel :: "database \<Rightarrow> int \<Rightarrow> bool" where
  "holds_panel d i \<longleftrightarrow> (\<exists>u \<in> set (users d). us_id u = i \<and> us_admin u)"

definition panel_holders :: "database \<Rightarrow> int list" where
  "panel_holders d = map us_id (filter us_admin (users d))"

lemma set_user_admin_others:
  "set_user_admin t i f d = Inr (x, d') \<Longrightarrow> j \<noteq> i \<Longrightarrow> holds_panel d' j = holds_panel d j"
  by (auto simp: set_user_admin_def holds_panel_def update_where_def split: if_splits)

lemma actor_users:
  assumes "run_state (actor po r) w = (me, w')"
  shows "users (wdb w') = users (wdb w)"
proof -
  obtain a w1 where g: "run_state (session_get (po_sessions po) (token_from_request (po_sessions po) r)) w = (a, w1)" by fastforce
  then have "w' = w1" using assms by (simp add: actor_def)
  then show ?thesis using session_get_unmoved [OF g] by (simp add: unmoved_def)
qed

lemma record_audit_users: "record_audit t e d = Inr (u, d') \<Longrightarrow> users d' = users d"
  by (auto simp: record_audit_def insert_audit_def Let_def)

lemma admin_audit_users: "users (wdb (snd (run_state (admin_audit po r a s i x) w))) = users (wdb w)"
proof -
  obtain me w1 where a: "run_state (actor po r) w = (me, w1)" by fastforce
  then have "users (wdb w1) = users (wdb w)" by (rule actor_users)
  then show ?thesis
    using a by (auto simp: admin_audit_def actor_email_def run_store_now run_store split: option.splits sum.splits prod.splits
        dest: record_audit_users)
qed

text \<open>
  C6.  Nobody removes their own rights: whatever account the form names and whichever statements of the store
  fail, an administrator whose session the handler could read still holds the panel after it, so that the last
  one cannot be removed by such a request.
\<close>

theorem own_rights_stay:
  assumes "fst (run_state (actor po r) (snd (run_state (account_from_form r :: ('g, 'p response + user) act) w))) = Some me"
    and "holds_panel (wdb w) (us_id me)"
  shows "holds_panel (wdb (snd (run_state (revoke_admin po r :: ('g, 'p response) act) w))) (us_id me)"
proof -
  have form: "wdb (snd (run_state (account_from_form r :: ('g, 'p response + user) act) w)) = wdb w"
    by (auto simp: account_from_form_def run_query split: option.split)
  obtain a w1 where w1: "run_state (account_from_form r :: ('g, 'p response + user) act) w = (a, w1)" by fastforce
  then have db1: "wdb w1 = wdb w" using form by simp
  obtain me' w2 where "run_state (actor po r) w1 = (me', w2)" by fastforce
  then have w2: "run_state (actor po r) w1 = (Some me, w2)" using assms(1) w1 by simp
  have users2: "users (wdb w2) = users (wdb w)" using actor_users [OF w2] db1 by simp
  have "holds_panel (wdb (snd (run_state (revoke_account po r u :: ('g, 'p response) act) w1))) (us_id me)" for u
  proof (cases "us_id me = us_id u")
    case True
    then show ?thesis using w2 users2 assms(2) by (simp add: revoke_account_def holds_panel_def)
  next
    case False
    let ?w3 = "snd (run_state (store_now (\<lambda>t. set_user_admin t (us_id u) False)) w2)"
    have w3: "holds_panel (wdb ?w3) (us_id me)"
    proof (cases "wfault w2 (wstmt w2)")
      case None
      have before: "holds_panel (wdb w2) (us_id me)" using assms(2) users2 by (simp add: holds_panel_def)
      show ?thesis
      proof (cases "set_user_admin (wclock w2 (wtick w2)) (us_id u) False (wdb w2)")
        case (Inr x)
        obtain d where x: "x = ((), d)" by (cases x) simp
        have "holds_panel d (us_id me)" using before set_user_admin_others [OF Inr [unfolded x] False] by simp
        then show ?thesis using Inr x None by (simp add: run_store_now run_store)
      qed (use before None in \<open>simp add: run_store_now run_store\<close>)
    qed (use assms(2) users2 in \<open>simp add: run_store_now run_store holds_panel_def\<close>)
    obtain s w4 where s: "run_state (store_now (\<lambda>t. set_user_admin t (us_id u) False)) w2 = (s, w4)" by fastforce
    show ?thesis
    proof (cases s)
      case (Inl e)
      then show ?thesis using w2 False s w3 by (simp add: revoke_account_def)
    next
      case (Inr x)
      then show ?thesis
        using w2 False s w3 admin_audit_users [of po r audit_admin_revoked "us_email u" "Some (us_id u)" "''admin revoked''" w4]
        by (simp add: revoke_account_def holds_panel_def split_beta)
    qed
  qed
  then show ?thesis using assms(2) w1 db1
    by (cases "refuse_when_group_managed po :: 'p response option"; cases a) (simp_all add: revoke_admin_def)
qed

section \<open>A session that cannot be read\<close>

text \<open>The demo portal with its user as the only administrator; the store fails at one statement.\<close>

definition admin_world :: "nat \<Rightarrow> fake world" where
  "admin_world n = (logged_in_world 100)
     \<lparr>wdb := (wdb (logged_in_world 100))\<lparr>users := map (\<lambda>u. u\<lparr>us_admin := True\<rparr>) (users (wdb (logged_in_world 100)))\<rparr>,
      wfault := (\<lambda>k. if k = n then Some ''database is locked'' else None)\<rparr>"

definition revoke_self :: request where
  "revoke_self = demo_http ''POST'' ''/admin/admins/revoke'' [(''__Host-session_token'', ''t''), (''__Host-csrf_token'', b64_url ''abcd'')]
     [(''csrf_token'', ''s'' @ b64_url ''abcd''), (''user_id'', ''1'')]"

definition after_revoke :: "nat \<Rightarrow> fake world" where
  "after_revoke n = snd (run_state (serve demo_portal None True revoke_self) (admin_world n))"

lemma own_rights_stay_witness:
  "holds_panel (wdb (snd (run_state (revoke_admin demo_portal revoke_self :: (fake, unit response) act) (admin_world 99)))) 1"
proof -
  let ?me = "demo_user\<lparr>us_admin := True\<rparr>"
  have "fst (run_state (actor demo_portal revoke_self)
      (snd (run_state (account_from_form revoke_self :: (fake, unit response + user) act) (admin_world 99)))) = Some ?me"
    by code_simp
  moreover have "holds_panel (wdb (admin_world 99)) (us_id ?me)" by code_simp
  ultimately show ?thesis using own_rights_stay [of demo_portal revoke_self "admin_world 99" ?me] by (simp add: demo_user_def)
qed


section \<open>Two removals that cross\<close>

text \<open>
  The removal cut where another request can come between: the gate of the panel and the comparison with the own
  account let it pass, later the flag is written.  A state is the database with the removals let pass, as who and
  whom.
\<close>

datatype removal_event = LetPass int int | Removes int int

fun removal_step :: "removal_event \<Rightarrow> database \<times> (int \<times> int) list \<Rightarrow> (database \<times> (int \<times> int) list) option" where
  "removal_step (LetPass a t) (d, fl) = (if holds_panel d a \<and> a \<noteq> t then Some (d, (a, t) # fl) else None)"
| "removal_step (Removes a t) (d, fl) =
     (if (a, t) \<in> set fl then
        (case set_user_admin 0 t False d of
           Inl _ \<Rightarrow> Some (d, remove1 (a, t) fl)
         | Inr (_, d') \<Rightarrow> Some (d', remove1 (a, t) fl))
      else None)"

fun removal_steps :: "removal_event list \<Rightarrow> database \<times> (int \<times> int) list \<Rightarrow> (database \<times> (int \<times> int) list) option" where
  "removal_steps [] s = Some s"
| "removal_steps (e # es) s = (case removal_step e s of None \<Rightarrow> None | Some s' \<Rightarrow> removal_steps es s')"

text \<open>One removal at a time leaves whoever made it.\<close>

lemma single_removal_keeps:
  assumes "removal_steps [LetPass a t, Removes a t] (d, []) = Some (d', fl)"
  shows "holds_panel d' a"
  using assms set_user_admin_others [of 0 t False d "()" _ a]
  by (auto split: if_splits sum.splits)

text \<open>Two administrators who remove each other at the same time leave nobody.\<close>

definition two_admins :: database where
  "two_admins = (wdb (admin_world 99))\<lparr>users := [demo_user\<lparr>us_admin := True\<rparr>, demo_user\<lparr>us_id := 2, us_sub := ''s2'', us_admin := True\<rparr>],
     next_user := 3\<rparr>"

lemma crossing_removals:
  "panel_holders two_admins = [1, 2]"
  "case removal_steps [LetPass 1 2, LetPass 2 1, Removes 1 2, Removes 2 1] (two_admins, []) of
     None \<Rightarrow> False | Some (d, fl) \<Rightarrow> fl = [] \<and> panel_holders d = []"
  by code_simp+

end
