(* ===== verification/KeyRules.thy ===== *)
theory KeyRules
  imports SyncUpheld
begin

text \<open>
  Rules about a single user's key: a user with a working key keeps one through every attempt to replace it,
  a deletion that failed leaves the key where it can be tried again, and an assignment that ends by deleting
  the key is settled only when the key is gone.
\<close>

section \<open>Replacing a key\<close>

text \<open>The user has a key that the gateway honours.\<close>

definition has_working_key :: "fake \<Rightarrow> database \<Rightarrow> int \<Rightarrow> bool" where
  "has_working_key g d uid \<longleftrightarrow> (\<exists>k. get_api_key_by_user uid d = Some k \<and> ak_ref k \<in> live g)"

text \<open>Live keys were issued under numbers that were not given out again.\<close>

definition numbered :: "fake \<Rightarrow> bool" where
  "numbered g \<longleftrightarrow> (\<forall>ref \<in> live g. fake_issued g ref)"

lemma create_fresh:
  assumes "numbered g" and "fake_create now req g = (Inr res, g')"
  shows "res_ref res \<notin> live g \<and> res_ref res \<in> live g'"
proof -
  have "res_ref res = fake_ref (Suc (fk_counter g))"
    using assms(2) by (auto simp: fake_create_def Let_def split: option.splits if_splits)
  then have "\<not> fake_issued g (res_ref res)" by (auto simp: fake_issued_def)
  then show ?thesis using assms(1) live_create [OF assms(2)] by (auto simp: numbered_def)
qed

lemma replaced_key:
  assumes "replace_api_key t k d = Inr (k', d')"
  shows "get_api_key_by_user (ak_user k) d' = Some (k\<lparr>ak_created := t, ak_id := next_key d\<rparr>)"
proof -
  have "find (\<lambda>x. ak_user x = ak_user k) (delete_where (\<lambda>x. ak_user x = ak_user k) (api_keys d)) = None"
    by (simp add: find_None_iff set_delete_where)
  then show ?thesis
    by (simp add: get_api_key_by_user_def replace_api_key_rows [OF assms] find_append)
qed

text \<open>What comes after the replacement touches neither the gateway nor the keys.\<close>

definition aside :: "'g world \<Rightarrow> 'g world \<Rightarrow> bool" where
  "aside w w' \<longleftrightarrow> wgw w' = wgw w \<and> api_keys (wdb w') = api_keys (wdb w)"

lemma aside_working: "aside w w' \<Longrightarrow> has_working_key (wgw w') (wdb w') i = has_working_key (wgw w) (wdb w) i"
  by (simp add: aside_def has_working_key_def get_api_key_by_user_def)

lemma user_audit_aside: "aside w (snd (run_state (user_audit a u s) w))"
  by (auto simp: user_audit_def aside_def run_store_now run_store assignment_keys(3)
      split: option.split sum.split prod.split)

lemma flash_put_aside: "aside w (snd (run_state (flash_put i k) w))"
  by (auto simp: flash_put_def aside_def run_remember split: sum.split)

lemma issued_tail_aside:
  "aside w (snd (run_state (do { emit (KeyOperation ''generate'' ''success''); user_audit a u s; t \<leftarrow> flash_put i k;
      State_Monad.return (case t of Inl _ \<Rightarrow> to_dashboard | Inr token \<Rightarrow> plain (Redirect (''/?k='' @ token))) }) w))"
proof -
  let ?w1 = "w\<lparr>wlog := wlog w @ [KeyOperation ''generate'' ''success'']\<rparr>"
  have "aside ?w1 (snd (run_state (flash_put i k) (snd (run_state (user_audit a u s) ?w1))))"
    using user_audit_aside [of ?w1 a u s] flash_put_aside [of "snd (run_state (user_audit a u s) ?w1)" i k]
    by (simp add: aside_def)
  then show ?thesis by (simp add: split_beta aside_def)
qed

definition works :: "user \<Rightarrow> fake world \<Rightarrow> bool" where
  "works u w \<longleftrightarrow> has_working_key (wgw w) (wdb w) (us_id u)"

lemma works_aside: "aside w w' \<Longrightarrow> works u w' = works u w"
  by (simp add: works_def aside_working)

lemma undo_works:
  assumes create: "fake_create now req g = (Inr res, g')" and del: "fk_delete_err g = None"
    and num: "numbered g" and work: "has_working_key g d i"
  shows "has_working_key (snd (fake_delete (res_ref res) g')) d i"
proof -
  obtain old where old: "get_api_key_by_user i d = Some old" "ak_ref old \<in> live g"
    using work by (auto simp: has_working_key_def)
  have ne: "ak_ref old \<noteq> res_ref res" using old(2) create_fresh [OF num create] by auto
  have del': "fk_delete_err g' = None" using live_create [OF create] del by simp
  show ?thesis using old ne live_delete [OF del', of "res_ref res"] live_create [OF create]
    by (simp add: has_working_key_def)
qed

lemma record_keeps_working:
  assumes create: "fake_create now req (wgw w) = (Inr res, g')"
    and del: "fk_delete_err (wgw w) = None" and num: "numbered (wgw w)" and work: "works u w"
    and same: "wdb w1 = wdb w" "wgw w1 = g'" and po: "po = fake_portal c cs sm i b letter"
  shows "works u (snd (run_state (record_new_key po r u (get_api_key_by_user (us_id u) (wdb w)) p res e) w1))"
proof -
  let ?row = "new_key_row u p res e"
  let ?store = "store_now (\<lambda>t. replace_api_key t ?row)"
  let ?w1 = "w1\<lparr>wtick := Suc (wtick w1), wstmt := Suc (wstmt w1)\<rparr>"
  obtain old where old: "get_api_key_by_user (us_id u) (wdb w) = Some old" "ak_ref old \<in> live (wgw w)"
    using work by (auto simp: has_working_key_def works_def)
  note fresh = create_fresh [OF num create] and lc = live_create [OF create]
  have ne: "ak_ref old \<noteq> res_ref res" using old(2) fresh by auto
  have del': "fk_delete_err g' = None" using lc del by simp
  have undone: "works u w2" if "wdb w2 = wdb w" "wgw w2 = snd (fake_delete (res_ref res) g')" for w2
    using that undo_works [OF create del num] work by (simp add: works_def)
  have failed: ?thesis if run: "run_state ?store w1 = (Inl err, ?w1)" for err
    unfolding record_new_key_def
    by (subst run_state_bind) (simp only: run prod.case sum.case, rule undone,
      simp_all add: run_gateway same po fake_portal_simps split_beta)
  show ?thesis
  proof (cases "wfault w1 (wstmt w1)")
    case (Some x)
    then show ?thesis using failed [of "IOError x"] by (simp add: run_store_now run_store)
  next
    case none: None
    show ?thesis
    proof (cases "replace_api_key (wclock w1 (wtick w1)) ?row (wdb w)")
      case (Inl err)
      then show ?thesis using none failed [of err] by (simp add: run_store_now run_store same)
    next
      case (Inr kd)
      obtain k d' where kd: "kd = (k, d')" by (cases kd)
      note rep = Inr [unfolded kd]
      have run: "run_state ?store w1 = (Inr k, ?w1\<lparr>wdb := d'\<rparr>)"
        using none rep by (simp add: run_store_now run_store same)
      obtain x g2 where d: "fake_delete (ak_ref old) g' = (x, g2)" by fastforce
      have row: "get_api_key_by_user (us_id u) d' = Some (?row\<lparr>ak_created := wclock w1 (wtick w1), ak_id := next_key (wdb w)\<rparr>)"
        using replaced_key [OF rep] by (simp add: new_key_row_def)
      have "res_ref res \<in> live g2" using live_delete [OF del', of "ak_ref old"] fresh ne d by simp
      then have now: "works u (?w1\<lparr>wdb := d', wgw := g2\<rparr>)"
        using row by (simp add: works_def has_working_key_def) (simp add: new_key_row_def)
      have del_run: "run_state (case get_api_key_by_user (us_id u) (wdb w) of None \<Rightarrow> State_Monad.return None
          | Some old \<Rightarrow> gateway (prov_delete (po_keys po) (ak_ref old))) (?w1\<lparr>wdb := d'\<rparr>)
          = (x, ?w1\<lparr>wdb := d', wgw := g2\<rparr>)"
        by (simp add: old run_gateway same d po fake_portal_simps)
      note tail = works_aside [OF issued_tail_aside]
      show ?thesis
        unfolding record_new_key_def
        by (subst run_state_bind) (simp only: run prod.case sum.case, subst run_state_bind,
          simp only: del_run prod.case tail now)
    qed
  qed
qed

lemma create_keeps_working:
  assumes del: "fk_delete_err (wgw w) = None" and num: "numbered (wgw w)" and work: "works u w"
    and po: "po = fake_portal c cs sm i b letter"
  shows "works u (snd (run_state (create_new_key po r u (get_api_key_by_user (us_id u) (wdb w)) p) w))"
proof (cases "new_alias (wrand w (wdraw w)) (us_sub u) (us_name u)")
  case (Inl x)
  then show ?thesis using work by (simp add: create_new_key_def works_def)
next
  case (Inr al)
  let ?w3 = "w\<lparr>wdraw := Suc (wdraw w), wtick := Suc (Suc (wtick w))\<rparr>"
  let ?t = "wclock w (Suc (wtick w))" and ?e = "add_days (wclock w (wtick w)) (key_duration (po_cfg po) (Some p))"
  let ?req = "\<lparr>kr_alias = al, kr_user = litellm_user (po_cfg po) (us_sub u) (us_name u) (us_email u),
     kr_expires_at = ?e, kr_limits = profile_limits (Some p)\<rparr>"
  obtain x g' where create: "fake_create ?t ?req (wgw w) = (x, g')" by fastforce
  show ?thesis
  proof (cases x)
    case (Inl e)
    then have "g' = wgw w" using create fake_unchanged(1) by blast
    then show ?thesis using create work Inl
      by (simp add: create_new_key_def Let_def Inr run_gateway works_def po fake_portal_simps)
  next
    case res: (Inr res)
    have "works u (snd (run_state (record_new_key po r u (get_api_key_by_user (us_id u) (wdb w)) p res ?e)
        (?w3\<lparr>wgw := g'\<rparr>)))"
      by (rule record_keeps_working [OF create [unfolded res] del num work _ _ po]) simp_all
    then show ?thesis
      using create by (simp add: create_new_key_def Let_def Inr res run_gateway po fake_portal_simps del: run_state_bind add: run_state_bind)
  qed
qed

text \<open>
  C4.  A user is never left without a working key by asking for a new one: if the key on record for the
  user works in the gateway, then after the request to generate a key, whatever the store fails to do and
  however the creation in the gateway ends, the key on record for the user is again one that works, the old
  one or the new one.  The gateway deletes what it is told to, and has not yet given out the numbers to come.
\<close>

theorem a_working_key_remains:
  assumes "fk_delete_err (wgw w) = None"
    and "\<And>ref. ref \<in> dom (map_of (fk_keys (wgw w))) \<Longrightarrow> fake_issued (wgw w) ref"
    and "get_api_key_by_user (us_id u) (wdb w) = Some k" and "ak_ref k \<in> dom (map_of (fk_keys (wgw w)))"
    and "run_state (generate_locked (fake_portal c cs sm i b letter) r u) w = (x, w')" (is "run_state ?m w = _")
  shows "\<exists>k'. get_api_key_by_user (us_id u) (wdb w') = Some k' \<and> ak_ref k' \<in> dom (map_of (fk_keys (wgw w')))"
proof -
  let ?po = "fake_portal c cs sm i b letter"
  have num: "numbered (wgw w)" and work: "works u w"
    using assms(2-4) by (simp_all add: numbered_def works_def has_working_key_def live_def)
  let ?w2 = "w\<lparr>wstmt := Suc (Suc (wstmt w))\<rparr>"
  have resolved: "run_state (resolve_profile u) (w\<lparr>wstmt := Suc (wstmt w)\<rparr>)
      = (fst (run_state (resolve_profile u) (w\<lparr>wstmt := Suc (wstmt w)\<rparr>)), ?w2)"
    by (simp add: resolve_profile_def run_query split: option.split)
  have "works u (snd (run_state ?m w))"
  proof (cases "wfault w (wstmt w)")
    case (Some e)
    then show ?thesis using work by (simp add: generate_locked_def select_def run_query works_def)
  next
    case None
    obtain pr where pr: "run_state (resolve_profile u) (w\<lparr>wstmt := Suc (wstmt w)\<rparr>) = (pr, ?w2)"
      using resolved by blast
    show ?thesis
    proof (cases pr)
      case (Inl e)
      then show ?thesis using None pr work
        by (simp add: generate_locked_def select_def run_query works_def)
    next
      case (Inr p)
      have "run_state ?m w
          = run_state (create_new_key ?po r u (get_api_key_by_user (us_id u) (wdb ?w2)) p) ?w2"
        using None pr Inr by (simp add: generate_locked_def select_def run_query)
      moreover have "works u ?w2" using work by (simp add: works_def)
      ultimately show ?thesis
        using create_keeps_working [where w = ?w2 and u = u and p = p, OF _ _ _ refl] assms(1) num by simp
    qed
  qed
  then show ?thesis using assms(5) by (simp add: works_def has_working_key_def live_def)
qed

lemma demo_facts:
  "get_api_key_by_user (us_id demo_user) (wdb (demo_world x)) = Some (demo_key x)"
  "fk_delete_err (wgw (demo_world x)) = None" "fk_keys (wgw (demo_world x)) = [(fake_ref 1, demo_request)]"
  "fake_issued (wgw (demo_world x)) (fake_ref 1)" "ak_ref (demo_key x) = fake_ref 1" "ak_id (demo_key x) = 1"
  by (simp_all add: get_api_key_by_user_def demo_world_def demo_db_def demo_key_def demo_user_def demo_gateway_def
      new_fake_def fake_issued_def)

definition demo_generated :: "fake world" where
  "demo_generated = snd (run_state (generate_locked demo_portal (demo_http [] [] [] []) demo_user :: (fake, page response) act)
     (demo_world None))"

lemma a_working_key_remains_witness:
  "\<exists>k'. get_api_key_by_user (us_id demo_user) (wdb demo_generated) = Some k'
     \<and> ak_ref k' \<in> dom (map_of (fk_keys (wgw demo_generated)))"
  unfolding demo_generated_def demo_portal_def
  by (rule a_working_key_remains [OF _ _ demo_facts(1) _ surjective_pairing]) (use demo_facts(2,3,4) [of None] in \<open>auto simp: demo_facts(5)\<close>)

section \<open>Deleting a key\<close>

lemma get_key_deleted:
  assumes "schema_inv d" and "get_api_key_by_user i d = Some k"
  shows "get_api_key_by_user i (delete_keys (\<lambda>j. ak_id j = ak_id k) d) = None"
proof -
  have k: "k \<in> set (api_keys d)" "ak_user k = i" using assms(2) by (auto simp: get_api_key_by_user_def dest: find_SomeD)
  have "ak_id j = ak_id k" if "j \<in> set (api_keys d)" "ak_user j = i" for j
    using one_key_per_user [OF assms(1) that(1), of "Some k"] assms(2) that(2) by simp
  then show ?thesis
    by (auto simp: get_api_key_by_user_def delete_keys_def Let_def find_None_iff set_delete_where)
qed

lemma user_audit_keeps:
  "wgw (snd (run_state (user_audit a u s) w)) = wgw w"
  "api_keys (wdb (snd (run_state (user_audit a u s) w))) = api_keys (wdb w)"
  using user_audit_aside [of w a u s] by (simp_all add: aside_def)

lemma get_key_eq: "api_keys d' = api_keys d \<Longrightarrow> get_api_key_by_user i d' = get_api_key_by_user i d"
  by (simp add: get_api_key_by_user_def)

lemma user_audit_schema: "schema_inv (wdb w) \<Longrightarrow> schema_inv (wdb (snd (run_state (user_audit a u s) w)))"
  by (auto simp: user_audit_def run_store_now run_store split: option.split sum.split prod.split
      intro: db_step_inv [OF db_step.audit])

text \<open>
  C20.  What deleting a key does.  When the gateway refuses, the portal answers that the key is still active and
  its record stays, so that the user can try again.  When the gateway has deleted it, the user has either no
  key on record any more, or the answer says that the key was revoked and only the record is left.
\<close>

theorem deletion_outcomes:
  assumes "schema_inv (wdb w)" and "wfault w (wstmt w) = None"
    and "get_api_key_by_user (us_id u) (wdb w) = Some k"
    and "prov_delete (po_keys po) (ak_ref k) (wgw w) = (e, g)"
    and "run_state (delete_locked po r u) w = (resp, w')"
  shows "wgw w' = g \<and>
    (case e of
       Some _ \<Rightarrow> wdb w' = wdb w
         \<and> resp = http_error r 500 ''Failed to delete your key; it is still active. Please try again.''
     | None \<Rightarrow>
         get_api_key_by_user (us_id u) (wdb w') = None \<and> resp = to_dashboard
         \<or> get_api_key_by_user (us_id u) (wdb w') = Some k
           \<and> resp = http_error r 500 ''Your key was revoked, but Keyosk could not update its records'')"
proof -
  let ?w1 = "w\<lparr>wstmt := Suc (wstmt w), wgw := g\<rparr>"
  obtain y w2 where audit: "run_state (user_audit audit_key_deleted u (''key '' @ ak_prefix k)) ?w1 = (y, w2)" by (meson surj_pair)
  have w2: "wgw w2 = g" "get_api_key_by_user (us_id u) (wdb w2) = Some k" "schema_inv (wdb w2)"
  proof -
    have api: "wgw w2 = wgw ?w1" "api_keys (wdb w2) = api_keys (wdb ?w1)"
      using user_audit_keeps [of audit_key_deleted u "''key '' @ ak_prefix k" ?w1] unfolding audit by simp_all
    show "wgw w2 = g" using api(1) by simp
    show "get_api_key_by_user (us_id u) (wdb w2) = Some k" using get_key_eq [OF api(2)] assms(3) by simp
    show "schema_inv (wdb w2)"
      using user_audit_schema [of ?w1 audit_key_deleted u "''key '' @ ak_prefix k"] assms(1) unfolding audit by simp
  qed
  show ?thesis
  proof (cases e)
    case (Some err)
    then show ?thesis using assms(2-5)
      by (auto simp: delete_locked_def select_def run_query run_gateway)
  next
    case None
    then show ?thesis using assms(2-5) audit w2 get_key_deleted [OF w2(3,2)]
      by (auto simp: delete_locked_def select_def run_query run_gateway run_store delete_api_key_def
          split: option.splits)
  qed
qed

lemma deletion_outcomes_witness:
  "wgw (snd (run_state (delete_locked demo_portal (demo_http [] [] [] []) demo_user :: (fake, page response) act)
      (demo_world None))) = snd (fake_delete (fake_ref 1) demo_gateway)"
proof -
  have del: "prov_delete (po_keys demo_portal) (ak_ref (demo_key None)) (wgw (demo_world None))
      = (None, snd (fake_delete (fake_ref 1) demo_gateway))"
    using demo_facts(2,3) [of None]
    by (simp add: demo_portal_def fake_portal_simps demo_key_def demo_world_def fake_delete_def)
  have "schema_inv (wdb (demo_world None))" and "wfault (demo_world None) (wstmt (demo_world None)) = None"
    using demo_schema [of None] by (simp_all add: demo_world_def)
  from deletion_outcomes [OF this demo_facts(1) del surjective_pairing] show ?thesis by blast
qed

section \<open>When an assignment ends\<close>

lemma apply_expiry_rows:
  assumes "apply_profile_expiry now i p d = Inr (u, d')"
  shows "api_keys d' = api_keys d"
    "\<And>x. x \<in> set (users d') \<Longrightarrow> us_id x = i \<Longrightarrow> us_profile x = p \<and> us_expires x = None"
proof -
  note rows = assign_users_cases(1) [OF assms [unfolded apply_profile_expiry_def]]
  show "api_keys d' = api_keys d" unfolding rows by simp
  show "us_profile x = p \<and> us_expires x = None" if "x \<in> set (users d')" "us_id x = i" for x
    using that unfolding rows update_where_def by (simp split: if_splits) (elim imageE, simp split: if_splits)
qed

lemma record_audit_keeps:
  assumes "record_audit t e d = Inr (u, d')"
  shows "api_keys d' = api_keys d \<and> users d' = users d"
proof -
  have "d' = add_audit (e\<lparr>au_created := t\<rparr>) d" using assms by (simp add: record_audit_def insert_audit_def)
  then show ?thesis by simp
qed

lemma expiry_audit_keeps:
  assumes "run_state (expiry_audit u s) w = (x, w')"
  shows "wgw w' = wgw w \<and> api_keys (wdb w') = api_keys (wdb w) \<and> users (wdb w') = users (wdb w)"
  using assms by (auto simp: expiry_audit_def run_store_now run_store dest!: record_audit_keeps
      split: option.splits sum.splits)

text \<open>What the end of an assignment leaves: still to be done, or done.\<close>

definition settled :: "user \<Rightarrow> database \<Rightarrow> bool" where
  "settled u d \<longleftrightarrow> (\<forall>x \<in> set (users d). us_id x = us_id u \<longrightarrow> us_profile x = us_after u \<and> us_expires x = None)"

lemma revoke_end_outcome:
  assumes "run_state (revoke_end u) w = (e, w')"
  shows "wgw w' = wgw w \<and> api_keys (wdb w') = api_keys (wdb w)
    \<and> (if e = None then settled u (wdb w') else users (wdb w') = users (wdb w))"
proof -
  let ?w1 = "w\<lparr>wtick := Suc (wtick w), wstmt := Suc (wstmt w)\<rparr>"
  let ?m = "store_now (\<lambda>t. apply_profile_expiry t (us_id u) (us_after u))"
  consider (failed) err where "run_state ?m w = (Inl err, ?w1)"
    | (applied) d' v where "run_state ?m w = (Inr v, ?w1\<lparr>wdb := d'\<rparr>)"
        "apply_profile_expiry (wclock w (wtick w)) (us_id u) (us_after u) (wdb w) = Inr (v, d')"
    by (cases "wfault w (wstmt w)"; cases "apply_profile_expiry (wclock w (wtick w)) (us_id u) (us_after u) (wdb w)")
      (auto simp: run_store_now run_store split: prod.splits)
  then show ?thesis
  proof cases
    case failed
    then show ?thesis using assms by (auto simp: revoke_end_def)
  next
    case applied
    obtain y w2 where audit: "run_state (expiry_audit u ''key deleted'') (?w1\<lparr>wdb := d'\<rparr>) = (y, w2)" by (meson surj_pair)
    have "e = None" "w' = w2" using assms applied(1) audit by (simp_all add: revoke_end_def)
    then show ?thesis
      using expiry_audit_keeps [OF audit] apply_expiry_rows [OF applied(2)] by (simp add: settled_def)
  qed
qed

text \<open>
  C19.  An assignment that ends by deleting the user's key is not cleared before the key is gone: whatever
  fails, either the assignment is still there, so that the next run tries again, or the gateway has confirmed
  the deletion of the key that was on record and none is on record any more.  When the run reports success,
  the user has the profile chosen for afterwards and no deadline.
\<close>

theorem revoked_before_settled:
  assumes "schema_inv (wdb w)" and "run_state (revoke_key P u) w = (e, w')"
  shows "(users (wdb w') = users (wdb w) \<and> e \<noteq> None
     \<or> get_api_key_by_user (us_id u) (wdb w') = None \<and> settled u (wdb w') \<and> e = None)
    \<and> (get_api_key_by_user (us_id u) (wdb w') = get_api_key_by_user (us_id u) (wdb w)
       \<or> (\<exists>k. get_api_key_by_user (us_id u) (wdb w) = Some k \<and> fst (prov_delete P (ak_ref k) (wgw w)) = None))"
proof -
  let ?w1 = "w\<lparr>wstmt := Suc (wstmt w)\<rparr>"
  let ?key = "get_api_key_by_user (us_id u) (wdb w)"
  show ?thesis
  proof (cases "wfault w (wstmt w)")
    case (Some x)
    then show ?thesis using assms(2) by (auto simp: revoke_key_def select_def run_query)
  next
    case read: None
    show ?thesis
    proof (cases ?key)
      case None
      then have "run_state (revoke_end u) ?w1 = (e, w')"
        using assms(2) read by (simp add: revoke_key_def select_def run_query)
      from revoke_end_outcome [OF this] show ?thesis using None get_key_eq [of "wdb w'" "wdb w" "us_id u"]
        by (simp split: if_splits)
    next
      case (Some k)
      obtain a g where del: "prov_delete P (ak_ref k) (wgw w) = (a, g)" by fastforce
      let ?d = "delete_keys (\<lambda>j. ak_id j = ak_id k) (wdb w)"
      let ?w2 = "?w1\<lparr>wgw := g, wstmt := Suc (Suc (wstmt w)), wdb := ?d\<rparr>"
      have run: "(e, w') = (case a of
          Some x \<Rightarrow> (Some (''delete key upstream: '' @ gw_error_text x), ?w1\<lparr>wgw := g\<rparr>)
        | None \<Rightarrow> (case wfault w (Suc (wstmt w)) of
              Some x \<Rightarrow> (Some (''delete local key row: '' @ db_error_text (IOError x)),
                ?w1\<lparr>wgw := g, wstmt := Suc (Suc (wstmt w))\<rparr>)
            | None \<Rightarrow> run_state (revoke_end u) ?w2))"
        using assms(2) read Some del
        by (simp add: revoke_key_def select_def run_query run_gateway run_store delete_api_key_def split: option.splits)
      show ?thesis
      proof (cases "a = None \<and> wfault w (Suc (wstmt w)) = None")
        case True
        then have "run_state (revoke_end u) ?w2 = (e, w')" using run by simp
        note out = revoke_end_outcome [OF this]
        have none: "get_api_key_by_user (us_id u) (wdb w') = None"
          using out get_key_eq [of "wdb w'" ?d] get_key_deleted [OF assms(1) Some] by simp
        have "users ?d = users (wdb w)" by (simp add: delete_keys_def Let_def)
        then show ?thesis using out none Some del True by (auto split: if_splits)
      next
        case False
        then show ?thesis using run Some del by (auto split: option.splits)
      qed
    qed
  qed
qed

lemma revoked_before_settled_witness:
  "get_api_key_by_user 1 (wdb (snd (run_state (revoke_key fake_provider demo_user) (demo_world None)))) = None
   \<and> settled demo_user (wdb (snd (run_state (revoke_key fake_provider demo_user) (demo_world None))))"
proof -
  have sch: "schema_inv (wdb (demo_world None))" using demo_schema [of None] by (simp add: demo_world_def)
  have "fst (run_state (revoke_key fake_provider demo_user) (demo_world None)) = None" by code_simp
  then show ?thesis
    using revoked_before_settled [OF sch surjective_pairing, of fake_provider demo_user] by (simp add: demo_user_def)
qed

end
