(* ===== verification/KeyLock.thy ===== *)
theory KeyLock
  imports Prelude
begin

text \<open>
  \<open>internal/handlers/keylock.go\<close>: the mutex per user that the key handlers hold, as a step relation.
  An entry is an address; its channel holds one token or none, its counter the requests that hold or
  await it.  Requests are numbered.  The two halves of an unlock, giving the token back and dropping the
  reference, are separate steps, as they are in the code.
\<close>

section \<open>State and operations\<close>

datatype phase = Idle | Waiting int nat | Holding int nat | Leaving int nat

record lock_state =
  lk_entries :: "int \<Rightarrow> nat option"
  lk_token :: "nat \<Rightarrow> bool" \<comment> \<open>the channel is full: someone owns the lock\<close>
  lk_refs :: "nat \<Rightarrow> nat"
  lk_next :: nat
  lk_phase :: "nat \<Rightarrow> phase"

definition no_locks :: lock_state where
  "no_locks = \<lparr>lk_entries = (\<lambda>_. None), lk_token = (\<lambda>_. False), lk_refs = (\<lambda>_. 0), lk_next = 0,
     lk_phase = (\<lambda>_. Idle)\<rparr>"

text \<open>The first half of \<open>Lock\<close>, under the mutex: find or make the entry and count the request.\<close>

definition lock_begin :: "nat \<Rightarrow> int \<Rightarrow> lock_state \<Rightarrow> lock_state" where
  "lock_begin t u s =
     (case lk_entries s u of
        None \<Rightarrow> s\<lparr>lk_entries := (lk_entries s)(u \<mapsto> lk_next s), lk_token := (lk_token s)(lk_next s := False),
                  lk_refs := (lk_refs s)(lk_next s := 1), lk_next := Suc (lk_next s),
                  lk_phase := (lk_phase s)(t := Waiting u (lk_next s))\<rparr>
      | Some a \<Rightarrow> s\<lparr>lk_refs := (lk_refs s)(a := Suc (lk_refs s a)), lk_phase := (lk_phase s)(t := Waiting u a)\<rparr>)"

text \<open>The send on the channel.\<close>

definition lock_take :: "nat \<Rightarrow> int \<Rightarrow> nat \<Rightarrow> lock_state \<Rightarrow> lock_state" where
  "lock_take t u a s = s\<lparr>lk_token := (lk_token s)(a := True), lk_phase := (lk_phase s)(t := Holding u a)\<rparr>"

text \<open>The receive in \<open>unlock\<close>.\<close>

definition lock_give :: "nat \<Rightarrow> int \<Rightarrow> nat \<Rightarrow> lock_state \<Rightarrow> lock_state" where
  "lock_give t u a s = s\<lparr>lk_token := (lk_token s)(a := False), lk_phase := (lk_phase s)(t := Leaving u a)\<rparr>"

text \<open>\<open>release\<close>: of the request's reference, whether it held the lock or gave up waiting.\<close>

definition lock_release :: "nat \<Rightarrow> int \<Rightarrow> nat \<Rightarrow> lock_state \<Rightarrow> lock_state" where
  "lock_release t u a s =
     (let n = lk_refs s a - 1
      in s\<lparr>lk_refs := (lk_refs s)(a := n),
           lk_entries := (if n = 0 then (lk_entries s)(u := None) else lk_entries s),
           lk_phase := (lk_phase s)(t := Idle)\<rparr>)"

inductive lock_step :: "lock_state \<Rightarrow> lock_state \<Rightarrow> bool" where
  start: "lk_phase s t = Idle \<Longrightarrow> lock_step s (lock_begin t u s)"
| take: "lk_phase s t = Waiting u a \<Longrightarrow> \<not> lk_token s a \<Longrightarrow> lock_step s (lock_take t u a s)"
| give_up: "lk_phase s t = Waiting u a \<Longrightarrow> lock_step s (lock_release t u a s)"
| give: "lk_phase s t = Holding u a \<Longrightarrow> lock_step s (lock_give t u a s)"
| leave: "lk_phase s t = Leaving u a \<Longrightarrow> lock_step s (lock_release t u a s)"

inductive lock_reachable :: "lock_state \<Rightarrow> bool" where
  init: "lock_reachable no_locks"
| step: "lock_reachable s \<Longrightarrow> lock_step s s' \<Longrightarrow> lock_reachable s'"

section \<open>Invariant\<close>

fun entry_of :: "phase \<Rightarrow> (int \<times> nat) option" where
  "entry_of Idle = None"
| "entry_of (Waiting u a) = Some (u, a)"
| "entry_of (Holding u a) = Some (u, a)"
| "entry_of (Leaving u a) = Some (u, a)"

definition referers :: "lock_state \<Rightarrow> nat \<Rightarrow> nat set" where
  "referers s a = {t. \<exists>u. entry_of (lk_phase s t) = Some (u, a)}"

definition lock_inv :: "lock_state \<Rightarrow> bool" where
  "lock_inv s \<longleftrightarrow>
     (\<forall>t u a. entry_of (lk_phase s t) = Some (u, a) \<longrightarrow> lk_entries s u = Some a)
     \<and> (\<forall>u a. lk_entries s u = Some a \<longrightarrow> a < lk_next s \<and> referers s a \<noteq> {})
     \<and> (\<forall>u v a. lk_entries s u = Some a \<and> lk_entries s v = Some a \<longrightarrow> u = v)
     \<and> (\<forall>a. finite (referers s a) \<and> (a < lk_next s \<longrightarrow> lk_refs s a = card (referers s a)))
     \<and> (\<forall>t u a. lk_phase s t = Holding u a \<longrightarrow> lk_token s a)
     \<and> (\<forall>a. lk_token s a \<longrightarrow> (\<exists>t u. lk_phase s t = Holding u a))
     \<and> (\<forall>t t' u v a. lk_phase s t = Holding u a \<and> lk_phase s t' = Holding v a \<longrightarrow> t = t')"

lemma lock_inv_init: "lock_inv no_locks"
  by (simp add: lock_inv_def no_locks_def referers_def)

lemma lock_invD:
  assumes "lock_inv s"
  shows "\<And>t u a. entry_of (lk_phase s t) = Some (u, a) \<Longrightarrow> lk_entries s u = Some a"
    "\<And>u a. lk_entries s u = Some a \<Longrightarrow> a < lk_next s"
    "\<And>u a. lk_entries s u = Some a \<Longrightarrow> referers s a \<noteq> {}"
    "\<And>u v a. lk_entries s u = Some a \<Longrightarrow> lk_entries s v = Some a \<Longrightarrow> u = v"
    "\<And>a. finite (referers s a)"
    "\<And>a. a < lk_next s \<Longrightarrow> lk_refs s a = card (referers s a)"
    "\<And>t u a. lk_phase s t = Holding u a \<Longrightarrow> lk_token s a"
    "\<And>a. lk_token s a \<Longrightarrow> \<exists>t u. lk_phase s t = Holding u a"
    "\<And>t t' u v a. lk_phase s t = Holding u a \<Longrightarrow> lk_phase s t' = Holding v a \<Longrightarrow> t = t'"
  using assms unfolding lock_inv_def by blast+

lemma lock_invI:
  assumes "\<And>t u a. entry_of (lk_phase s t) = Some (u, a) \<Longrightarrow> lk_entries s u = Some a"
    "\<And>u a. lk_entries s u = Some a \<Longrightarrow> a < lk_next s \<and> referers s a \<noteq> {}"
    "\<And>u v a. lk_entries s u = Some a \<Longrightarrow> lk_entries s v = Some a \<Longrightarrow> u = v"
    "\<And>a. finite (referers s a) \<and> (a < lk_next s \<longrightarrow> lk_refs s a = card (referers s a))"
    "\<And>t u a. lk_phase s t = Holding u a \<Longrightarrow> lk_token s a"
    "\<And>a. lk_token s a \<Longrightarrow> \<exists>t u. lk_phase s t = Holding u a"
    "\<And>t t' u v a. lk_phase s t = Holding u a \<Longrightarrow> lk_phase s t' = Holding v a \<Longrightarrow> t = t'"
  shows "lock_inv s"
  unfolding lock_inv_def using assms by blast

text \<open>How the referers of an entry change when one request changes its phase.\<close>

lemma referers_update:
  "referers (s\<lparr>lk_phase := (lk_phase s)(t := p)\<rparr>) a =
     (case entry_of p of Some (u, b) \<Rightarrow> if a = b then insert t (referers s a) else referers s a - {t}
      | None \<Rightarrow> referers s a - {t})"
  by (auto simp: referers_def split: option.splits)

lemma referers_phase: "lk_phase s = lk_phase s' \<Longrightarrow> referers s a = referers s' a"
  by (simp add: referers_def)

lemma referer_in: "entry_of (lk_phase s t) = Some (u, a) \<Longrightarrow> t \<in> referers s a"
  by (auto simp: referers_def)

lemma referer_only: "entry_of (lk_phase s t) = Some (u, a) \<Longrightarrow> b \<noteq> a \<Longrightarrow> t \<notin> referers s b"
  by (auto simp: referers_def)

lemma idle_not_referer: "lk_phase s t = Idle \<Longrightarrow> t \<notin> referers s a"
  by (auto simp: referers_def)

lemma same_entry:
  assumes "entry_of p = entry_of (lk_phase s t)"
  shows "entry_of (((lk_phase s)(t := p)) x) = entry_of (lk_phase s x)"
  using assms by simp

lemma referers_same:
  assumes "entry_of p = entry_of (lk_phase s t)" and "lk_phase s' = (lk_phase s)(t := p)"
  shows "referers s' = referers s"
  unfolding referers_def assms(2) using assms(1) by (intro ext Collect_cong) auto

lemma lock_take_inv:
  assumes "lock_inv s" and "lk_phase s t = Waiting u a" and "\<not> lk_token s a"
  shows "lock_inv (lock_take t u a s)"
proof -
  let ?s = "lock_take t u a s"
  have sel: "lk_entries ?s = lk_entries s" "lk_next ?s = lk_next s" "lk_refs ?s = lk_refs s"
    by (simp_all add: lock_take_def)
  have ref: "referers ?s = referers s"
    by (rule referers_same [of "Holding u a" s t]) (simp_all add: assms(2) lock_take_def)
  have e: "entry_of (lk_phase ?s x) = entry_of (lk_phase s x)" for x
    using same_entry [of "Holding u a" s t x] assms(2) by (simp add: lock_take_def)
  have none: "lk_phase s x \<noteq> Holding v a" for x v using assms(3) lock_invD(7) [OF assms(1)] by blast
  show ?thesis
  proof (rule lock_invI)
    show "lk_entries ?s u = Some a" if "entry_of (lk_phase ?s t) = Some (u, a)" for t u a
      using lock_invD(1) [OF assms(1)] that unfolding e by (simp add: lock_take_def)
    show "lk_token ?s b" if "lk_phase ?s x = Holding v b" for x v b
      using that lock_invD(7) [OF assms(1), of x v b] by (auto simp: lock_take_def split: if_splits)
    show "\<exists>x v. lk_phase ?s x = Holding v b" if "lk_token ?s b" for b
    proof (cases "b = a")
      case True
      then have "lk_phase ?s t = Holding u b" by (simp add: lock_take_def)
      then show ?thesis by blast
    next
      case False
      then have "lk_token s b" using that by (simp add: lock_take_def)
      then obtain x v where "lk_phase s x = Holding v b" using lock_invD(8) [OF assms(1)] by blast
      moreover from this have "x \<noteq> t" using assms(2) by auto
      ultimately have "lk_phase ?s x = Holding v b" by (simp add: lock_take_def)
      then show ?thesis by blast
    qed
    show "x = y" if "lk_phase ?s x = Holding v b" "lk_phase ?s y = Holding w b" for x y v w b
      using that none lock_invD(9) [OF assms(1), of x v b y w] assms(2)
      by (auto simp: lock_take_def split: if_splits)
  qed (use lock_invD [OF assms(1)] in \<open>simp_all add: ref sel\<close>)
qed

lemma lock_give_inv:
  assumes "lock_inv s" and "lk_phase s t = Holding u a"
  shows "lock_inv (lock_give t u a s)"
proof -
  let ?s = "lock_give t u a s"
  have sel: "lk_entries ?s = lk_entries s" "lk_next ?s = lk_next s" "lk_refs ?s = lk_refs s"
    by (simp_all add: lock_give_def)
  have ref: "referers ?s = referers s"
    by (rule referers_same [of "Leaving u a" s t]) (simp_all add: assms(2) lock_give_def)
  have e: "entry_of (lk_phase ?s x) = entry_of (lk_phase s x)" for x
    using same_entry [of "Leaving u a" s t x] assms(2) by (simp add: lock_give_def)
  have only: "x = t" if "lk_phase s x = Holding v a" for x v
    using lock_invD(9) [OF assms(1) that assms(2)] .
  have old: "lk_phase s x = Holding v b" "b \<noteq> a" if "lk_phase ?s x = Holding v b" for x v b
    using that only [of x v] by (auto simp: lock_give_def split: if_splits)
  show ?thesis
  proof (rule lock_invI)
    show "lk_entries ?s u = Some a" if "entry_of (lk_phase ?s t) = Some (u, a)" for t u a
      using lock_invD(1) [OF assms(1)] that unfolding e by (simp add: lock_give_def)
    show "lk_token ?s b" if "lk_phase ?s x = Holding v b" for x v b
      using old [OF that] lock_invD(7) [OF assms(1), of x v b] by (simp add: lock_give_def)
    show "\<exists>x v. lk_phase ?s x = Holding v b" if "lk_token ?s b" for b
    proof -
      have b: "b \<noteq> a" "lk_token s b" using that by (auto simp: lock_give_def split: if_splits)
      then obtain x v where h: "lk_phase s x = Holding v b" using lock_invD(8) [OF assms(1)] by blast
      then have "x \<noteq> t" using b assms(2) by auto
      then have "lk_phase ?s x = Holding v b" using h by (simp add: lock_give_def)
      then show ?thesis by blast
    qed
    show "x = y" if "lk_phase ?s x = Holding v b" "lk_phase ?s y = Holding w b" for x y v w b
      using old [OF that(1)] old [OF that(2)] lock_invD(9) [OF assms(1)] by blast
  qed (use lock_invD [OF assms(1)] in \<open>simp_all add: ref sel\<close>)
qed

text \<open>The reference a request drops was the last one exactly when nobody else refers to the entry.\<close>

lemma last_reference:
  assumes "lock_inv s" and "entry_of (lk_phase s t) = Some (u, a)"
  shows "lk_refs s a - 1 = card (referers s a - {t})" "lk_refs s a - 1 = 0 \<longleftrightarrow> referers s a - {t} = {}"
proof -
  have "lk_entries s u = Some a" using lock_invD(1) [OF assms] .
  then have "lk_refs s a = card (referers s a)"
    using lock_invD(2,6) [OF assms(1)] by blast
  moreover have "finite (referers s a)" using lock_invD(5) [OF assms(1)] .
  ultimately show "lk_refs s a - 1 = card (referers s a - {t})"
    using referer_in [OF assms(2)] by simp
  then show "lk_refs s a - 1 = 0 \<longleftrightarrow> referers s a - {t} = {}"
    using \<open>finite (referers s a)\<close> by simp
qed

lemma lock_release_inv:
  assumes "lock_inv s" and "entry_of (lk_phase s t) = Some (u, a)" and "\<And>v b. lk_phase s t \<noteq> Holding v b"
  shows "lock_inv (lock_release t u a s)"
proof -
  let ?s = "lock_release t u a s"
  have ref: "referers ?s b = referers s b - {t}" for b
    by (auto simp: referers_def lock_release_def Let_def)
  have other: "referers s b - {t} = referers s b" if "b \<noteq> a" for b
    using referer_only [OF assms(2) that] by blast
  have ph: "lk_phase ?s x = (if x = t then Idle else lk_phase s x)" for x
    by (simp add: lock_release_def Let_def)
  have entries: "lk_entries ?s v = (if v = u \<and> referers s a - {t} = {} then None else lk_entries s v)" for v
    using last_reference(2) [OF assms(1,2)] by (simp add: lock_release_def Let_def)
  have refs: "lk_refs ?s b = (if b = a then card (referers s a - {t}) else lk_refs s b)" for b
    using last_reference(1) [OF assms(1,2)] by (simp add: lock_release_def Let_def)
  have rest: "lk_token ?s = lk_token s" "lk_next ?s = lk_next s" by (simp_all add: lock_release_def Let_def)
  have u: "lk_entries s u = Some a" using lock_invD(1) [OF assms(1,2)] .
  show ?thesis
  proof (rule lock_invI)
    show "lk_entries ?s v = Some b" if "entry_of (lk_phase ?s x) = Some (v, b)" for x v b
    proof -
      have x: "x \<noteq> t" "entry_of (lk_phase s x) = Some (v, b)" using that by (auto simp: ph split: if_splits)
      then have v: "lk_entries s v = Some b" using lock_invD(1) [OF assms(1)] by blast
      have "referers s a - {t} \<noteq> {}" if "v = u"
        using that u v x referer_in [OF x(2)] by auto
      then show ?thesis using v by (simp add: entries)
    qed
    show "b < lk_next ?s \<and> referers ?s b \<noteq> {}" if "lk_entries ?s v = Some b" for v b
    proof -
      have v: "lk_entries s v = Some b" "v = u \<Longrightarrow> referers s a - {t} \<noteq> {}"
        using that by (auto simp: entries split: if_splits)
      have "referers s b - {t} \<noteq> {}"
      proof (cases "b = a")
        case True
        then show ?thesis using v u lock_invD(4) [OF assms(1)] by blast
      next
        case False
        then show ?thesis using other [OF False] lock_invD(3) [OF assms(1) v(1)] by simp
      qed
      then show ?thesis using lock_invD(2) [OF assms(1) v(1)] by (simp add: ref rest)
    qed
    show "v = w" if "lk_entries ?s v = Some b" "lk_entries ?s w = Some b" for v w b
      using that lock_invD(4) [OF assms(1)] by (auto simp: entries split: if_splits)
    show "finite (referers ?s b) \<and> (b < lk_next ?s \<longrightarrow> lk_refs ?s b = card (referers ?s b))" for b
      using lock_invD(5,6) [OF assms(1), of b] other [of b] by (simp add: ref refs rest)
    show "lk_token ?s b" if "lk_phase ?s x = Holding v b" for x v b
      using that lock_invD(7) [OF assms(1)] by (auto simp: ph rest split: if_splits)
    show "\<exists>x v. lk_phase ?s x = Holding v b" if tok: "lk_token ?s b" for b
    proof -
      have "lk_token s b" using tok by (simp add: rest)
      then obtain x v where h: "lk_phase s x = Holding v b" using lock_invD(8) [OF assms(1)] by blast
      then have "x \<noteq> t" using assms(3) by auto
      then have "lk_phase ?s x = Holding v b" using h by (simp add: ph)
      then show ?thesis by blast
    qed
    show "x = y" if "lk_phase ?s x = Holding v b" "lk_phase ?s y = Holding w b" for x y v w b
      using that lock_invD(9) [OF assms(1)] by (auto simp: ph split: if_splits)
  qed
qed

text \<open>A request that starts to wait: the entry of its user, a new one if there is none.\<close>

definition entry_for :: "lock_state \<Rightarrow> int \<Rightarrow> nat" where
  "entry_for s u = (case lk_entries s u of None \<Rightarrow> lk_next s | Some a \<Rightarrow> a)"

lemma unused_entry:
  assumes "lock_inv s" and "lk_next s \<le> a"
  shows "referers s a = {}" "\<not> lk_token s a"
proof -
  show r: "referers s a = {}"
    using lock_invD(1,2) [OF assms(1)] assms(2) by (fastforce simp: referers_def)
  have "lk_phase s t \<noteq> Holding u a" for t u
    using r referer_in [of s t u a] by auto
  then show "\<not> lk_token s a" using lock_invD(8) [OF assms(1)] by blast
qed

lemma lock_begin_simps:
  assumes "lock_inv s" and "lk_phase s t = Idle"
  shows "lk_phase (lock_begin t u s) = (lk_phase s)(t := Waiting u (entry_for s u))"
    and "lk_entries (lock_begin t u s) = (lk_entries s)(u \<mapsto> entry_for s u)"
    and "lk_token (lock_begin t u s) = lk_token s"
    and "lk_refs (lock_begin t u s) = (lk_refs s)(entry_for s u := Suc (card (referers s (entry_for s u))))"
    and "lk_next (lock_begin t u s) = (if lk_entries s u = None then Suc (lk_next s) else lk_next s)"
    and "entry_for s u < lk_next (lock_begin t u s)"
proof -
  have a: "lk_entries s u = Some a \<Longrightarrow> lk_refs s a = card (referers s a) \<and> a < lk_next s" for a
    using lock_invD(2,6) [OF assms(1)] by blast
  have n: "referers s (lk_next s) = {}" "\<not> lk_token s (lk_next s)"
    using unused_entry [OF assms(1)] by blast+
  show "lk_phase (lock_begin t u s) = (lk_phase s)(t := Waiting u (entry_for s u))"
    and "lk_entries (lock_begin t u s) = (lk_entries s)(u \<mapsto> entry_for s u)"
    and "lk_next (lock_begin t u s) = (if lk_entries s u = None then Suc (lk_next s) else lk_next s)"
    by (auto simp: lock_begin_def entry_for_def split: option.split)
  show "lk_token (lock_begin t u s) = lk_token s"
    using n(2) by (auto simp: lock_begin_def entry_for_def fun_eq_iff split: option.split)
  show "lk_refs (lock_begin t u s) = (lk_refs s)(entry_for s u := Suc (card (referers s (entry_for s u))))"
    using n(1) a by (auto simp: lock_begin_def entry_for_def split: option.split)
  show "entry_for s u < lk_next (lock_begin t u s)"
    using a by (auto simp: lock_begin_def entry_for_def split: option.split)
qed

lemma lock_begin_inv:
  assumes "lock_inv s" and "lk_phase s t = Idle"
  shows "lock_inv (lock_begin t u s)"
proof -
  let ?s = "lock_begin t u s" and ?a = "entry_for s u"
  note b = lock_begin_simps [OF assms, of u]
  have ref: "referers ?s c = (if c = ?a then insert t (referers s c) else referers s c)" for c
    using idle_not_referer [OF assms(2), of c] assms(2) by (auto simp: referers_def b(1))
  have new: "lk_entries s v \<noteq> Some ?a" if "v \<noteq> u" for v
    using that lock_invD(2,4) [OF assms(1)] by (fastforce simp: entry_for_def split: option.splits)
  have hold: "lk_phase ?s x = Holding v c \<longleftrightarrow> lk_phase s x = Holding v c" for x v c
    using assms(2) by (simp add: b(1))
  show ?thesis
  proof (rule lock_invI)
    show "lk_entries ?s v = Some c" if at: "entry_of (lk_phase ?s x) = Some (v, c)" for x v c
    proof (cases "x = t")
      case True
      then show ?thesis using at unfolding b(1,2) by auto
    next
      case False
      then have "lk_entries s v = Some c" using at lock_invD(1) [OF assms(1)] by (simp add: b(1))
      then show ?thesis by (auto simp: b(2) entry_for_def)
    qed
    show "c < lk_next ?s \<and> referers ?s c \<noteq> {}" if "lk_entries ?s v = Some c" for v c
    proof (cases "v = u")
      case True
      then have "c = ?a" using that by (simp add: b(2))
      then show ?thesis using b(6) by (simp add: ref)
    next
      case False
      then have v: "lk_entries s v = Some c" using that by (simp add: b(2))
      have "c < lk_next ?s" using lock_invD(2) [OF assms(1) v] by (simp add: b(5))
      moreover have "referers s c \<noteq> {}" using lock_invD(3) [OF assms(1) v] .
      ultimately show ?thesis by (simp add: ref)
    qed
    show "v = w" if "lk_entries ?s v = Some c" "lk_entries ?s w = Some c" for v w c
      using that new lock_invD(4) [OF assms(1), of v c w] by (auto simp: b(2) split: if_splits)
    show "finite (referers ?s c) \<and> (c < lk_next ?s \<longrightarrow> lk_refs ?s c = card (referers ?s c))" for c
    proof (cases "c = ?a")
      case True
      then show ?thesis
        using lock_invD(5) [OF assms(1), of ?a] idle_not_referer [OF assms(2), of ?a]
        by (simp add: ref b(4))
    next
      case False
      then have "c < lk_next ?s \<Longrightarrow> c < lk_next s"
        by (auto simp: b(5) entry_for_def split: if_splits)
      then show ?thesis
        using False lock_invD(5,6) [OF assms(1), of c] by (simp add: ref b(4))
    qed
  qed (use lock_invD(7-9) [OF assms(1)] in \<open>simp_all add: hold b(3)\<close>)
qed

lemma lock_step_inv:
  assumes "lock_step s s'" and "lock_inv s"
  shows "lock_inv s'"
  using assms
proof cases
  case (start t u)
  then show ?thesis using lock_begin_inv assms(2) by simp
next
  case (take t u a)
  then show ?thesis using lock_take_inv assms(2) by simp
next
  case (give_up t u a)
  then show ?thesis using lock_release_inv [OF assms(2), of t u a] by simp
next
  case (give t u a)
  then show ?thesis using lock_give_inv assms(2) by simp
next
  case (leave t u a)
  then show ?thesis using lock_release_inv [OF assms(2), of t u a] by simp
qed

lemma lock_reachable_inv: "lock_reachable s \<Longrightarrow> lock_inv s"
  by (induction rule: lock_reachable.induct) (auto intro: lock_inv_init lock_step_inv)

section \<open>Properties\<close>

definition holds_lock :: "lock_state \<Rightarrow> nat \<Rightarrow> int \<Rightarrow> bool" where
  "holds_lock s t u \<longleftrightarrow> (case lk_phase s t of Holding v a \<Rightarrow> v = u | _ \<Rightarrow> False)"

lemma holds_lockE: "holds_lock s t u \<Longrightarrow> (\<And>a. lk_phase s t = Holding u a \<Longrightarrow> P) \<Longrightarrow> P"
  by (auto simp: holds_lock_def split: phase.splits)

text \<open>
  C16.  Two requests never hold the lock of the same user at once, whatever order the requests start,
  take the lock, give up waiting and let go in, including a start between the two halves of an unlock.
\<close>

theorem key_lock_exclusive:
  assumes "lock_reachable s" and "holds_lock s t u" and "holds_lock s t' u"
  shows "t = t'"
proof -
  note inv = lock_reachable_inv [OF assms(1)]
  obtain a where a: "lk_phase s t = Holding u a" using assms(2) by (rule holds_lockE)
  obtain b where b: "lk_phase s t' = Holding u b" using assms(3) by (rule holds_lockE)
  have "a = b" using lock_invD(1) [OF inv, of t u a] lock_invD(1) [OF inv, of t' u b] a b by simp
  then show ?thesis using lock_invD(9) [OF inv] a b by blast
qed

definition one_holder :: lock_state where
  "one_holder = lock_take 0 7 0 (lock_begin 1 7 (lock_begin 0 7 no_locks))"

lemma one_holder_reachable: "lock_reachable one_holder"
proof -
  have 1: "lock_reachable (lock_begin 0 7 no_locks)"
    by (rule lock_reachable.step [OF lock_reachable.init lock_step.start]) (simp add: no_locks_def)
  have 2: "lock_reachable (lock_begin 1 7 (lock_begin 0 7 no_locks))"
    by (rule lock_reachable.step [OF 1 lock_step.start]) (simp add: no_locks_def lock_begin_def)
  show ?thesis unfolding one_holder_def
    by (rule lock_reachable.step [OF 2 lock_step.take]) (simp_all add: no_locks_def lock_begin_def)
qed

theorem key_lock_exclusive_witness:
  "holds_lock one_holder 0 7 \<and> \<not> holds_lock one_holder 1 7"
proof -
  have "holds_lock one_holder 0 7"
    by (simp add: holds_lock_def one_holder_def no_locks_def lock_begin_def lock_take_def)
  then show ?thesis using key_lock_exclusive [OF one_holder_reachable, of 1 7 0] by auto
qed

text \<open>
  C17.  No waiting request is stuck: whenever a request waits for a user's lock, either it can take the
  lock now, or another request holds it and can give it back.
\<close>

theorem key_lock_live:
  assumes "lock_reachable s" and "lk_phase s t = Waiting u a"
  shows "lock_step s (lock_take t u a s) \<or>
         (\<exists>t'. holds_lock s t' u \<and> lock_step s (lock_give t' u a s) \<and> \<not> lk_token (lock_give t' u a s) a)"
proof (cases "lk_token s a")
  case True
  note inv = lock_reachable_inv [OF assms(1)]
  obtain t' v where h: "lk_phase s t' = Holding v a" using lock_invD(8) [OF inv True] by blast
  have "lk_entries s v = Some a" "lk_entries s u = Some a"
    using lock_invD(1) [OF inv, of t' v a] lock_invD(1) [OF inv, of t u a] h assms(2) by simp_all
  then have "v = u" using lock_invD(4) [OF inv] by blast
  then have "holds_lock s t' u" "lock_step s (lock_give t' u a s)"
    using h by (simp_all add: holds_lock_def lock_step.give)
  moreover have "\<not> lk_token (lock_give t' u a s) a" by (simp add: lock_give_def)
  ultimately show ?thesis by blast
next
  case False
  then show ?thesis using assms(2) by (simp add: lock_step.take)
qed

theorem key_lock_live_witness:
  "lock_step one_holder (lock_take 1 7 0 one_holder) \<or>
    (\<exists>t'. holds_lock one_holder t' 7 \<and> lock_step one_holder (lock_give t' 7 0 one_holder)
          \<and> \<not> lk_token (lock_give t' 7 0 one_holder) 0)"
  by (rule key_lock_live [OF one_holder_reachable])
    (simp add: one_holder_def no_locks_def lock_begin_def lock_take_def)

text \<open>
  The map of locks does not grow: an entry exists exactly for the users whose lock some request
  holds, awaits or is letting go of.
\<close>

theorem key_lock_no_leak:
  assumes "lock_reachable s"
  shows "lk_entries s u \<noteq> None \<longleftrightarrow> (\<exists>t a. entry_of (lk_phase s t) = Some (u, a))"
proof -
  note inv = lock_reachable_inv [OF assms]
  show ?thesis
  proof
    assume "lk_entries s u \<noteq> None"
    then obtain a where a: "lk_entries s u = Some a" by blast
    then obtain t v where t: "entry_of (lk_phase s t) = Some (v, a)"
      using lock_invD(3) [OF inv a] by (auto simp: referers_def)
    then have "v = u" using lock_invD(1) [OF inv t] lock_invD(4) [OF inv a] by blast
    then show "\<exists>t a. entry_of (lk_phase s t) = Some (u, a)" using t by blast
  next
    assume "\<exists>t a. entry_of (lk_phase s t) = Some (u, a)"
    then show "lk_entries s u \<noteq> None" using lock_invD(1) [OF inv] by fastforce
  qed
qed

theorem key_lock_no_leak_witness:
  "lk_entries one_holder 7 \<noteq> None \<longleftrightarrow> (\<exists>t a. entry_of (lk_phase one_holder t) = Some (7, a))"
  by (rule key_lock_no_leak [OF one_holder_reachable])

end
