(* ===== verification/Mutex.thy ===== *)
theory Mutex
  imports KeyLock
begin

text \<open>
  What the lock of \<open>keylock.go\<close> is for: a mutex per user.  The abstract mutex knows only who holds which
  user's lock; every step of the lock with its channels, counters and entries is a step of it, or changes
  nothing that it can see.
\<close>

section \<open>The abstract mutex\<close>

type_synonym holders = "(int \<times> nat) set"

inductive mutex_step :: "holders \<Rightarrow> holders \<Rightarrow> bool" where
  acquire: "u \<notin> fst ` H \<Longrightarrow> mutex_step H (insert (u, t) H)"
| release: "(u, t) \<in> H \<Longrightarrow> mutex_step H (H - {(u, t)})"
| internal: "mutex_step H H"

inductive_cases lock_stepE: "lock_step s s'"

definition held :: "lock_state \<Rightarrow> holders" where
  "held s = {(u, t). holds_lock s t u}"

lemma held_iff: "(u, t) \<in> held s \<longleftrightarrow> (\<exists>a. lk_phase s t = Holding u a)"
  by (auto simp: held_def holds_lock_def split: phase.splits)

text \<open>How a change of one request's phase shows.\<close>

lemma held_update:
  assumes "lk_phase s' = (lk_phase s)(t := p)"
  shows "held s' = {(u, x) \<in> held s. x \<noteq> t} \<union> (case p of Holding u a \<Rightarrow> {(u, t)} | _ \<Rightarrow> {})"
  using assms by (auto simp: held_iff split: phase.splits if_splits)

lemma not_held: "(\<And>u a. lk_phase s t \<noteq> Holding u a) \<Longrightarrow> {(u, x) \<in> held s. x \<noteq> t} = held s"
  by (auto simp: held_iff)

lemma phases_after:
  "lk_phase (lock_begin t u s) = (lk_phase s)(t := Waiting u (case lk_entries s u of None \<Rightarrow> lk_next s | Some a \<Rightarrow> a))"
  "lk_phase (lock_take t u a s) = (lk_phase s)(t := Holding u a)"
  "lk_phase (lock_give t u a s) = (lk_phase s)(t := Leaving u a)"
  "lk_phase (lock_release t u a s) = (lk_phase s)(t := Idle)"
  by (simp_all add: lock_begin_def lock_take_def lock_give_def lock_release_def Let_def split: option.split)

lemma free_token:
  assumes "lock_inv s" and "lk_phase s t = Waiting u a" and "\<not> lk_token s a"
  shows "u \<notin> fst ` held s"
proof
  assume "u \<in> fst ` held s"
  then obtain x b where x: "lk_phase s x = Holding u b" by (auto simp: held_iff)
  then have "b = a" using lock_invD(1) [OF assms(1), of x u b] lock_invD(1) [OF assms(1), of t u a] assms(2) by simp
  then show False using lock_invD(7) [OF assms(1) x] assms(3) by simp
qed

text \<open>
  C36.  The key lock is a mutex per user: seen as the set of who holds whose lock, each of its steps acquires a
  free lock, releases a held one, or changes nothing.
\<close>

theorem key_lock_refines_mutex:
  assumes "lock_reachable s" and "lock_step s s'"
  shows "mutex_step (held s) (held s')"
  using assms(2)
proof (rule lock_stepE)
  fix t u assume "s' = lock_begin t u s" and "lk_phase s t = Idle"
  then have "held s' = held s" using not_held [of s t] held_update [OF phases_after(1), of t u s] by simp
  then show ?thesis by (simp add: mutex_step.internal)
next
  fix t u a assume s': "s' = lock_take t u a s" and t: "lk_phase s t = Waiting u a" and free: "\<not> lk_token s a"
  have "held s' = insert (u, t) (held s)" using s' t not_held [of s t] held_update [OF phases_after(2), of t u a s] by simp
  then show ?thesis using free_token [OF lock_reachable_inv [OF assms(1)] t free] by (simp add: mutex_step.acquire)
next
  fix t u a assume "s' = lock_release t u a s" and "lk_phase s t = Waiting u a"
  then have "held s' = held s" using not_held [of s t] held_update [OF phases_after(4), of t u a s] by simp
  then show ?thesis by (simp add: mutex_step.internal)
next
  fix t u a assume s': "s' = lock_give t u a s" and t: "lk_phase s t = Holding u a"
  have "held s' = held s - {(u, t)}"
    using s' t held_update [OF phases_after(3), of t u a s] by (auto simp: held_iff)
  moreover have "(u, t) \<in> held s" using t by (auto simp: held_iff)
  ultimately show ?thesis by (simp add: mutex_step.release)
next
  fix t u a assume "s' = lock_release t u a s" and "lk_phase s t = Leaving u a"
  then have "held s' = held s" using not_held [of s t] held_update [OF phases_after(4), of t u a s] by simp
  then show ?thesis by (simp add: mutex_step.internal)
qed

lemma key_lock_refines_mutex_witness:
  "mutex_step (held one_holder) (held (lock_give 0 7 0 one_holder))"
  by (rule key_lock_refines_mutex [OF one_holder_reachable])
    (rule lock_step.give, simp add: one_holder_def no_locks_def lock_begin_def lock_take_def)

end
