(* ===== verification/ChartFacts.thy ===== *)
theory ChartFacts
  imports Charts
begin

text \<open>
  The usage chart accounts for the days it covers: dates and day numbers correspond, the weeks and months
  of a chart follow each other without a gap, and its bars add up to the tokens of the days from the first
  bar's start to the last bar's end.
\<close>

section \<open>Dates and days\<close>

text \<open>A day of the 400-year cycle: c centuries, q periods of four years, and s days.\<close>

lemma year_of_era:
  fixes c q s :: int
  assumes c: "0 \<le> c" "c \<le> 3" and q: "0 \<le> q" "q \<le> 24" and s: "0 \<le> s" "s \<le> 1460"
    and r: "1461 * q + s < 36524" and a: "0 \<le> a" "a \<le> 3" "365 * a \<le> s" "s \<le> 365 * a + 365" "a \<noteq> 3 \<Longrightarrow> s < 365 * a + 365"
    and doe: "doe = 36524 * c + 1461 * q + s"
  shows "(doe - doe div 1460 + doe div 36524 - doe div 146096) div 365 = 100 * c + 4 * q + a"
proof -
  define e :: int where "e = (if 24 * c + q + s \<ge> 1460 then 1 else 0)"
  have "doe div 1460 = 25 * c + q + e"
    using int_div_pos_eq [of doe 1460 "25 * c + q + e" "24 * c + q + s - 1460 * e"] c q s doe
    by (auto simp: e_def algebra_simps)
  moreover have "doe div 36524 = c"
    using int_div_pos_eq [of doe 36524 c "1461 * q + s"] q s r doe by simp
  moreover have "doe div 146096 = 0" using c q s r doe by simp
  moreover have "(36500 * c + 1460 * q + s - e) div 365 = 100 * c + 4 * q + a"
  proof -
    have "0 \<le> s - e - 365 * a" using c q a s by (cases "a = 3") (auto simp: e_def)
    moreover have "s - e - 365 * a < 365" using c q a s by (cases "a = 3") (auto simp: e_def)
    ultimately show ?thesis
      using int_div_pos_eq [of "36500 * c + 1460 * q + s - e" 365 "100 * c + 4 * q + a" "s - e - 365 * a"]
      by (simp add: algebra_simps)
  qed
  ultimately show ?thesis using doe by (simp add: algebra_simps)
qed

lemma era_day:
  fixes doe :: int
  assumes "0 \<le> doe" and "doe < 146097"
  defines "yoe \<equiv> (doe - doe div 1460 + doe div 36524 - doe div 146096) div 365"
  shows "0 \<le> yoe \<and> yoe \<le> 399 \<and> 365 * yoe + yoe div 4 - yoe div 100 \<le> doe
    \<and> doe \<le> 365 * yoe + yoe div 4 - yoe div 100 + 365"
proof (cases "doe = 146096")
  case True
  then show ?thesis by (simp add: yoe_def)
next
  case False
  define c r where "c = doe div 36524" and "r = doe mod 36524"
  define q s where "q = r div 1461" and "s = r mod 1461"
  define a where "a = min 3 (s div 365)"
  have r: "0 \<le> r" "r < 36524" "doe = 36524 * c + r" by (simp_all add: c_def r_def)
  have s: "0 \<le> s" "s \<le> 1460" "r = 1461 * q + s" by (simp_all add: q_def s_def)
  have c: "0 \<le> c" "c \<le> 3" and q: "0 \<le> q" "q \<le> 24" using assms(1,2) False r s by linarith+
  have a: "0 \<le> a" "a \<le> 3" "365 * a \<le> s" "s \<le> 365 * a + 365" "a \<noteq> 3 \<Longrightarrow> s < 365 * a + 365"
    using s by (auto simp: a_def min_def)
  have y: "yoe = 100 * c + 4 * q + a"
    unfolding yoe_def by (rule year_of_era [OF c q s(1,2) _ a]) (use r s in simp_all)
  have "yoe div 100 = c" using int_div_pos_eq [of yoe 100 c "4 * q + a"] y q a by simp
  moreover have "yoe div 4 = 25 * c + q" using int_div_pos_eq [of yoe 4 "25 * c + q" a] y a by simp
  ultimately show ?thesis using y c q a r s by simp
qed

text \<open>A date of a day gives the day back, and its month and its day of the month are in range.\<close>

lemma civil_of_day_inverse:
  assumes "civil_of_day d = (y, m, dd)"
  shows "day_of_civil y m dd = d \<and> 1 \<le> m \<and> m \<le> 12 \<and> 1 \<le> dd \<and> dd \<le> 31"
proof -
  define era doe where "era = (d + 719468) div 146097" and "doe = (d + 719468) mod 146097"
  define yoe where "yoe = (doe - doe div 1460 + doe div 36524 - doe div 146096) div 365"
  define doy where "doy = doe - (365 * yoe + yoe div 4 - yoe div 100)"
  define mp where "mp = (5 * doy + 2) div 153"
  have era: "0 \<le> doe" "doe < 146097" "d + 719468 = 146097 * era + doe" by (simp_all add: era_def doe_def)
  have yoe: "0 \<le> yoe" "yoe \<le> 399" and doy: "0 \<le> doy" "doy \<le> 365"
    using era_day [OF era(1,2)] by (simp_all add: yoe_def [symmetric] doy_def)
  have mp: "0 \<le> mp" "mp \<le> 11" and dd: "153 * mp \<le> 5 * doy + 2" "5 * doy + 2 < 153 * mp + 153"
    using doy by (auto simp: mp_def)
  have e: "dd = doy - (153 * mp + 2) div 5 + 1" "m = (if mp < 10 then mp + 3 else mp - 9)"
    "y = yoe + era * 400 + (if m \<le> 2 then 1 else 0)"
    using assms unfolding civil_of_day_def Let_def era_def [symmetric] doe_def [symmetric] yoe_def [symmetric]
      doy_def [symmetric] mp_def [symmetric] by auto
  have y': "(if m \<le> 2 then y - 1 else y) = yoe + era * 400" using e(3) by simp
  have m: "(m + 9) mod 12 = mp" "1 \<le> m" "m \<le> 12" using e(2) mp by (auto split: if_splits)
  have "day_of_civil y m dd = d"
    unfolding day_of_civil_def Let_def y' m(1) using yoe era(3) e(1) by (simp add: doy_def div_mult_self2 algebra_simps)
  then show ?thesis using m e(1) dd by auto
qed

section \<open>The bars\<close>

lemma sum_days_split:
  assumes "a \<le> m" and "m \<le> c + 1"
  shows "sum_days ds a (m - 1) + sum_days ds m c = sum_days ds a c"
proof -
  have "[a..c] = [a..m - 1] @ [m..c]"
    by (cases "m = c + 1") (use assms upto_split1 [of a m c] in auto)
  then show ?thesis by (simp add: sum_days_def)
qed

lemma weeks_tile:
  "w \<le> today \<Longrightarrow> \<exists>b. today \<le> b \<and> b \<le> today + 6
     \<and> sum_list (map (\<lambda>w. sum_days ds w (w + 6)) (week_starts w today)) = sum_days ds w b"
proof (induction w today rule: week_starts.induct)
  case (1 w today)
  show ?case
  proof (cases "w + 7 > today")
    case True
    then show ?thesis using 1(2) by (intro exI [of _ "w + 6"]) (simp add: week_starts.simps)
  next
    case False
    then obtain b where "today \<le> b" "b \<le> today + 6"
        "sum_list (map (\<lambda>w. sum_days ds w (w + 6)) (week_starts (w + 7) today)) = sum_days ds (w + 7) b"
      using 1 by auto
    then show ?thesis using 1(2) False sum_days_split [of w "w + 7" b ds]
      by (intro exI [of _ b]) (simp add: week_starts.simps [of w] add.commute)
  qed
qed

lemma months_tile:
  "month_start i \<le> today \<Longrightarrow> \<exists>b. today \<le> b \<and> b \<le> today + 30
     \<and> sum_list (map (\<lambda>i. sum_days ds (month_start i) (month_start (i + 1) - 1)) (month_indices i today))
       = sum_days ds (month_start i) b"
proof (induction i today rule: month_indices.induct)
  case (1 i today)
  note step = month_start_next [of i]
  show ?case
  proof (cases "month_start (i + 1) > today")
    case True
    then show ?thesis using 1(2) step
      by (intro exI [of _ "month_start (i + 1) - 1"]) (simp add: month_indices.simps)
  next
    case False
    then obtain b where "today \<le> b" "b \<le> today + 30"
        "sum_list (map (\<lambda>i. sum_days ds (month_start i) (month_start (i + 1) - 1)) (month_indices (i + 1) today))
           = sum_days ds (month_start (i + 1)) b"
      using 1 by auto
    then show ?thesis
      using 1(2) False step sum_days_split [of "month_start i" "month_start (i + 1)" b ds]
      by (intro exI [of _ b]) (simp add: month_indices.simps [of i])
  qed
qed

lemma month_of_day:
  assumes "civil_of_day d = (y, m, dd)"
  shows "month_start (12 * y + m - 1) \<le> d \<and> d \<le> month_start (12 * y + m - 1) + 30"
proof -
  note inv = civil_of_day_inverse [OF assms]
  have "12 * y + m - 1 = 12 * y + (m - 1)" by simp
  then have "(12 * y + m - 1) div 12 = y" "(12 * y + m - 1) mod 12 = m - 1"
    using inv int_div_pos_eq [of "12 * y + m - 1" 12 y "m - 1"] int_mod_pos_eq [of "12 * y + m - 1" 12 y "m - 1"] by simp_all
  then have "month_start (12 * y + m - 1) = day_of_civil y m 1" by (simp add: month_start_def)
  moreover have "day_of_civil y m dd = day_of_civil y m 1 + dd - 1" by (simp add: day_of_civil_def Let_def)
  ultimately show ?thesis using inv by linarith
qed


end
