(* ===== verification/FormRules.thy ===== *)
theory FormRules
  imports Gate
begin

text \<open>
  What the outer parts of the portal promise: the limits a profile form accepts can be enforced as they are
  written, a configuration that loads is usable, two portals on one gateway do not share a user, the figures
  of the dashboard stay in their range, and a one-time key is shown once.
\<close>

section \<open>The profile form\<close>

lemma rank_hours:
  "is_valid_quota_period a \<Longrightarrow> is_valid_quota_period b \<Longrightarrow>
     (period_hours a < period_hours b \<longleftrightarrow> period_rank a < period_rank b)
     \<and> (period_rank a = period_rank b \<longrightarrow> a = b)"
  by (auto simp: is_valid_quota_period_def valid_quota_periods_def period_hours_def period_rank_def)

text \<open>
  C37.  The quota windows that the profile form accepts can be enforced as they are written.  Each has a period
  that the gateway knows, no two the same, and an amount above zero; and when there are any, the split for the
  gateway puts the one with the longest period on the person and leaves the others on the key, each shorter
  and with an amount that is no larger, so that none of them is without effect.
\<close>

theorem accepted_windows_enforceable:
  assumes "parse_quota_windows r = Inr qs" and "qs \<noteq> []"
  shows "\<exists>w rest. widest_window (windows_of qs) = (w, rest) \<and> mset (windows_of qs) = add_mset w (mset rest)
    \<and> (\<forall>v \<in> set (windows_of qs). win_period v \<in> set valid_quota_periods \<and> 0 < win_budget v)
    \<and> distinct (map win_period (windows_of qs))
    \<and> (\<forall>v \<in> set rest. period_rank (win_period v) < period_rank (win_period w) \<and> win_budget v \<le> win_budget w)"
proof -
  let ?ws = "windows_of qs"
  have ok: "windows_ok qs" "windows_bind qs" using parse_quota_windows_ok [OF assms(1)] by simp_all
  have all: "\<forall>v \<in> set ?ws. win_period v \<in> set valid_quota_periods \<and> 0 < win_budget v"
    and valid: "\<And>v. v \<in> set ?ws \<Longrightarrow> is_valid_quota_period (win_period v)"
    using ok(1) by (auto simp: windows_ok_def windows_of_def list_all_iff is_valid_quota_period_def list_ex_iff)
  have dist: "distinct (map win_period ?ws)" using ok(1) by (simp add: windows_ok_def windows_of_def comp_def)
  have bind: "\<And>a b. a \<in> set ?ws \<Longrightarrow> b \<in> set ?ws \<Longrightarrow> period_hours (win_period a) < period_hours (win_period b) \<Longrightarrow> win_budget a \<le> win_budget b"
    using ok(2) by (force simp: windows_bind_def windows_of_def list_all_iff)
  have ne: "?ws \<noteq> []" using assms(2) by (simp add: windows_of_def)
  obtain w rest where split: "widest_window ?ws = (w, rest)" by fastforce
  obtain pre post where p: "?ws = pre @ w # post" "rest = pre @ post"
    and less: "\<forall>x \<in> set pre. period_rank (win_period x) < period_rank (win_period w)"
    and le: "\<forall>x \<in> set post. period_rank (win_period x) \<le> period_rank (win_period w)"
    using widest_window_split [OF ne split] by blast
  have mem: "\<And>v. v \<in> set rest \<Longrightarrow> v \<in> set ?ws" "w \<in> set ?ws" unfolding p by auto
  have "win_period w \<notin> win_period ` set rest" using dist unfolding p by auto
  then have other: "\<And>v. v \<in> set rest \<Longrightarrow> win_period v \<noteq> win_period w" by (metis imageI)
  have shorter: "period_rank (win_period v) < period_rank (win_period w)" if "v \<in> set rest" for v
  proof -
    have "period_rank (win_period v) \<le> period_rank (win_period w)" using that less le unfolding p by auto
    then show ?thesis using rank_hours [OF valid [OF mem(1) [OF that]] valid [OF mem(2)]] other [OF that] by linarith
  qed
  have "win_budget v \<le> win_budget w" if "v \<in> set rest" for v
    using bind [OF mem(1) [OF that] mem(2)] shorter [OF that] rank_hours [OF valid [OF mem(1) [OF that]] valid [OF mem(2)]] by simp
  then show ?thesis using split all dist shorter p by simp
qed

definition two_windows :: request where
  "two_windows = demo_http ''POST'' [] [] [(''quota_budget'', ''5''), (''quota_period'', ''24h''),
     (''quota_budget'', ''20''), (''quota_period'', ''7d'')]"

lemma accepted_windows_enforceable_witness:
  "\<exists>w rest. widest_window (windows_of [quota_of 5 ''24h'', quota_of 20 ''7d'']) = (w, rest)
    \<and> mset (windows_of [quota_of 5 ''24h'', quota_of 20 ''7d'']) = add_mset w (mset rest)"
proof -
  have "parse_quota_windows two_windows = Inr [quota_of 5 ''24h'', quota_of 20 ''7d'']" by code_simp
  from accepted_windows_enforceable [OF this] show ?thesis by blast
qed

section \<open>Configuration\<close>

definition demo_env :: "string \<Rightarrow> string \<Rightarrow> string" where
  "demo_env prefix k = (if k = ''LITELLM_USER_ID_PREFIX'' then prefix else if k \<in> set required_settings then ''x'' else [])"

definition demo_config :: "string \<Rightarrow> config" where
  "demo_config prefix = projr (load_config (demo_env prefix) (\<lambda>_. Inl []))"

lemma demo_env_loads:
  "load_config (demo_env ''a'') (\<lambda>_. Inl []) = Inr (demo_config ''a'')"
  "load_config (demo_env ''b'') (\<lambda>_. Inl []) = Inr (demo_config ''b'')"
  unfolding demo_config_def by code_simp+

lemma demo_prefixes: "cf_user_prefix (demo_config ''a'') = ''a''" "cf_user_prefix (demo_config ''b'') = ''b''"
  by code_simp+

text \<open>
  Two portals that run on one gateway with different prefixes never act on the same gateway user, whoever
  logs in: the loaded configurations give every account of the one an id that no account of the other has.
\<close>

theorem portals_apart:
  assumes "load_config env files = Inr c" and "load_config env' files' = Inr c'"
    and "cf_user_prefix c \<noteq> []" and "cf_user_prefix c' \<noteq> []" and "cf_user_prefix c \<noteq> cf_user_prefix c'"
  shows "gu_id (litellm_user c sub name email) \<noteq> gu_id (litellm_user c' sub' name' email')"
proof
  assume "gu_id (litellm_user c sub name email) = gu_id (litellm_user c' sub' name' email')"
  then have "litellm_user_id c sub = litellm_user_id c' sub'" by (simp add: litellm_user_def split: if_splits)
  moreover have "valid_user_id_prefix (cf_user_prefix c)" "valid_user_id_prefix (cf_user_prefix c')"
    using load_config_ok [OF assms(1)] load_config_ok [OF assms(2)] by (simp_all add: config_ok_def)
  ultimately show False using litellm_user_id_inj [OF _ _ assms(3,4)] assms(5) by blast
qed

lemma portals_apart_witness:
  "gu_id (litellm_user (demo_config ''a'') ''s'' [] []) \<noteq> gu_id (litellm_user (demo_config ''b'') ''s'' [] [])"
  by (rule portals_apart [OF demo_env_loads]) (simp_all add: demo_prefixes)



section \<open>The figures of the dashboard\<close>

lemma history_report:
  assumes "run_state (report_history po own) w = (rep, w')"
  shows "ur_pct rep = 0 \<and> ur_windows rep = [] \<and> ur_peak rep = foldl max 0 (map ub_tokens (ur_bars rep))"
  using assms unfolding report_history_def
  by (auto simp: Let_def no_report_def split: prod.splits if_splits)

lemma window_views_pct: "v \<in> set (window_views l ws) \<Longrightarrow> 0 \<le> wv_pct v \<and> wv_pct v \<le> 100"
  using quota_pct_bounds by (auto simp: window_views_def Let_def split: if_splits)

lemma quota_windows_pct:
  assumes "run_state (quota_windows po ref own l) w = (Inr vs, w')" and "v \<in> set vs"
  shows "0 \<le> wv_pct v \<and> wv_pct v \<le> 100"
  using assms window_views_pct unfolding quota_windows_def
  by (auto simp: run_gateway split: option.splits if_splits prod.splits sum.splits)

lemma foldl_max_bound: "(x::int) \<in> set xs \<or> x \<le> a \<Longrightarrow> x \<le> foldl max a xs"
  by (induction xs arbitrary: a) (auto simp: le_max_iff_disj)

text \<open>
  C38.  The figures on the dashboard stay in their range and agree with each other: the share of the allowance
  that is used and that of every window are whole percentages from 0 to 100, no window is fuller than the one
  the headline shows, and every bar of the chart is between 0 and 100 per cent of the chart's height.
\<close>

theorem dashboard_figures:
  assumes "run_state (user_usage po k own l) w = (rep, w')"
  shows "0 \<le> ur_pct rep \<and> ur_pct rep \<le> 100
    \<and> (\<forall>v \<in> set (ur_windows rep). 0 \<le> wv_pct v \<and> wv_pct v \<le> ur_pct rep)
    \<and> (\<forall>b \<in> set (ur_bars rep). 0 \<le> bar_pct (ub_tokens b) (ur_peak rep) \<and> bar_pct (ub_tokens b) (ur_peak rep) \<le> 100)"
proof (cases k)
  case None
  then show ?thesis using assms by (auto simp: user_usage_def no_report_def)
next
  case (Some k')
  obtain rep0 w1 where h: "run_state (report_history po own) w = (rep0, w1)" by fastforce
  obtain q w2 where q: "run_state (usage_quota po (ak_ref k') own) w1 = (q, w2)" by fastforce
  obtain ws w3 where ws: "run_state (quota_windows po (ak_ref k') own l) w2 = (ws, w3)" by fastforce
  have rep: "rep = with_windows ws (with_quota q rep0)"
    using assms h q ws by (simp add: user_usage_def Some)
  note h = history_report [OF h]
  have q0: "0 \<le> ur_pct (with_quota q rep0) \<and> ur_pct (with_quota q rep0) \<le> 100 \<and> ur_windows (with_quota q rep0) = []"
    using h quota_pct_bounds by (auto simp: with_quota_def split: sum.split)
  have chart: "ur_bars rep = ur_bars rep0 \<and> ur_peak rep = ur_peak rep0"
    by (auto simp: rep with_windows_def with_quota_def Let_def split: sum.split option.split)
  have "ub_tokens b \<le> ur_peak rep" if "b \<in> set (ur_bars rep)" for b
    using that h chart foldl_max_bound [of "ub_tokens b" "map ub_tokens (ur_bars rep)" 0] by simp
  then have bars: "\<forall>b \<in> set (ur_bars rep). 0 \<le> bar_pct (ub_tokens b) (ur_peak rep) \<and> bar_pct (ub_tokens b) (ur_peak rep) \<le> 100"
    using bar_pct_bounds by blast
  show ?thesis
  proof (cases ws)
    case (Inl e)
    then show ?thesis using q0 bars by (simp add: rep with_windows_def)
  next
    case (Inr vs)
    note pct = quota_windows_pct [OF ws [unfolded Inr]]
    show ?thesis
    proof (cases "binding_window vs")
      case None
      then have "vs = []" by (simp add: binding_window_None)
      then show ?thesis using q0 bars None by (simp add: rep with_windows_def Inr Let_def)
    next
      case (Some b)
      from binding_from_max [OF Some [unfolded binding_window_def]] have "b \<in> set vs" "\<forall>v \<in> set vs. wv_pct v \<le> wv_pct b"
        by simp_all
      then show ?thesis using bars Some pct by (simp add: rep with_windows_def Inr Let_def)
    qed
  qed
qed

lemma dashboard_figures_witness:
  "0 \<le> ur_pct (fst (run_state (user_usage demo_portal (Some (demo_key None)) ''s'' lang_en) (demo_world None)))
   \<and> ur_pct (fst (run_state (user_usage demo_portal (Some (demo_key None)) ''s'' lang_en) (demo_world None))) \<le> 100"
  using dashboard_figures [OF surjective_pairing] by blast

section \<open>One-time keys\<close>

text \<open>
  The secret of a new key is shown once, and to the person it was issued to: whoever redeems a token for a
  secret is the user the entry was stored for, before the entry's end, and after it the token is worth
  nothing to anybody.
\<close>

theorem secret_shown_once:
  assumes "flash_redeem t1 t2 uid token f = (s, f')" and "s \<noteq> []"
  shows "(\<exists>e. (token, e) \<in> set f \<and> fe_user e = uid \<and> fe_key e = s \<and> t2 \<le> fe_expires e)
    \<and> fst (flash_redeem t3 t4 uid' token f') = []"
  using flash_redeem_owner [OF assms] flash_redeem_once [OF assms] by blast

lemma secret_shown_once_witness:
  "(\<exists>e. (''t'', e) \<in> set (flash_store 0 0 ''t'' 1 ''sk'' []) \<and> fe_user e = 1 \<and> fe_key e = ''sk'' \<and> 5 \<le> fe_expires e)
   \<and> fst (flash_redeem 6 6 1 ''t'' (snd (flash_redeem 5 5 1 ''t'' (flash_store 0 0 ''t'' 1 ''sk'' [])))) = []"
  by (rule secret_shown_once [of 5 5]) code_simp+

end
