(* ===== verification/LiteLLM.thy ===== *)
theory LiteLLM
  imports UsageView Json Quota
begin

text \<open>
  Package \<open>internal/litellm\<close>: the provider that keeps keys and users in a LiteLLM gateway.  The HTTP transport and
  what is behind it are a parameter: a function from a request and the state of the gateway to the answer and
  the new state.  Bodies are JSON values; what \<open>encoding/json\<close> reads from the bytes of an answer comes with it.
\<close>

section \<open>Transport\<close>

record http_call =
  hc_method :: string
  hc_url :: string
  hc_headers :: "(string \<times> string) list"
  hc_body :: "json option"

text \<open>
  An answer: its bytes, the first JSON value in them or the error of the decoder, and whether more than white
  space follows that value.
\<close>

record http_answer =
  ha_status :: nat
  ha_body :: string
  ha_json :: "string + json"
  ha_more :: bool

text \<open>\<open>url.Error\<close>.\<close>

record transport_error =
  te_op :: string
  te_url :: string
  te_msg :: string

text \<open>The gateway behind the transport, and the hash function of \<open>crypto/sha256\<close>.\<close>

record 'g upstream =
  up_send :: "http_call \<Rightarrow> 'g \<Rightarrow> (transport_error + http_answer) \<times> 'g"
  up_sha256 :: "string \<Rightarrow> string"

type_synonym ('g, 'a) call = "('g, 'a) state"

record client =
  cl_base :: string
  cl_master :: string

definition new_client :: "string \<Rightarrow> string \<Rightarrow> client" where
  "new_client base master = \<lparr>cl_base = trim_right (\<lambda>c. c = CHR ''/'') base, cl_master = master\<rparr>"

text \<open>The query of the URL in a transport error is dropped, so that it does not end up in a log.\<close>

definition without_query :: "string \<Rightarrow> string" where
  "without_query u = (case cut_at (CHR ''?'') u of None \<Rightarrow> u | Some (a, _) \<Rightarrow> a)"

definition transport_error_text :: "transport_error \<Rightarrow> string" where
  "transport_error_text e = te_op e @ '' '' @ [CHR 0x22] @ te_url e @ [CHR 0x22] @ '': '' @ te_msg e"

text \<open>\<open>do\<close>.\<close>

definition client_do ::
    "'g upstream \<Rightarrow> client \<Rightarrow> string \<Rightarrow> string \<Rightarrow> json option \<Rightarrow> ('g, gw_error + http_answer) call" where
  "client_do up c meth path body = do {
     r \<leftarrow> State (up_send up \<lparr>hc_method = meth, hc_url = cl_base c @ path,
            hc_headers = [(''Authorization'', ''Bearer '' @ cl_master c), (''Content-Type'', ''application/json'')],
            hc_body = body\<rparr>);
     State_Monad.return (case r of
         Inl e \<Rightarrow> Inl (GwError (transport_error_text (e\<lparr>te_url := without_query (te_url e)\<rparr>)))
       | Inr a \<Rightarrow> Inr a) }"

section \<open>Answers\<close>

definition returned :: "string \<Rightarrow> http_answer \<Rightarrow> string" where
  "returned route a = ''LiteLLM '' @ route @ '' returned '' @ format_nat (ha_status a) @ '': '' @ ha_body a"

text \<open>
  \<open>isLiteLLMNotFound\<close>.  The code compares the text of the error's code; here a number counts by its value.
\<close>

definition is_litellm_not_found :: "http_answer \<Rightarrow> bool" where
  "is_litellm_not_found a =
     (\<not> ha_more a \<and>
      (case ha_json a of
         Inr (JObj fs) \<Rightarrow>
           (case json_field ''error'' fs of
              Some (JObj e) \<Rightarrow>
                (case json_field ''code'' e of
                   Some (JStr s) \<Rightarrow> s = ''404''
                 | Some (JNum x) \<Rightarrow> x = 404
                 | _ \<Rightarrow> False)
            | _ \<Rightarrow> False)
       | _ \<Rightarrow> False))"

text \<open>\<open>keyCallError\<close>.\<close>

definition key_call_error :: "string \<Rightarrow> http_answer \<Rightarrow> gw_error" where
  "key_call_error route a =
     (if ha_status a = 404 \<and> is_litellm_not_found a
      then KeyNotFound (''LiteLLM '' @ route @ '' returned 404: '' @ ha_body a @ '': key not found in the gateway'')
      else GwError (returned route a))"

text \<open>
  \<open>Decode\<close> into a struct: \<open>f\<close> reads its fields, or there is a value of the wrong type.
\<close>

definition fields_of :: "json \<Rightarrow> (string \<times> json) list option" where
  "fields_of v = (case v of JObj fs \<Rightarrow> Some fs | JNull \<Rightarrow> Some [] | _ \<Rightarrow> None)"

definition decode :: "string \<Rightarrow> ((string \<times> json) list \<Rightarrow> 'a option) \<Rightarrow> http_answer \<Rightarrow> gw_error + 'a" where
  "decode what f a =
     (case ha_json a of
        Inl e \<Rightarrow> Inl (GwError (what @ '': '' @ e))
      | Inr v \<Rightarrow>
          (case Option.bind (fields_of v) f of
             None \<Rightarrow> Inl (GwError (what @ '': json: cannot unmarshal''))
           | Some x \<Rightarrow> Inr x))"

definition int_field :: "string \<Rightarrow> (string \<times> json) list \<Rightarrow> int option" where
  "int_field k fs =
     (case json_field k fs of
        None \<Rightarrow> Some 0
      | Some (JNum x) \<Rightarrow> if x = of_int \<lfloor>x\<rfloor> \<and> in_int64 \<lfloor>x\<rfloor> then Some \<lfloor>x\<rfloor> else None
      | Some _ \<Rightarrow> None)"

text \<open>A \<open>map\<close> decodes every entry; of two with one name the later stays.\<close>

definition map_entries :: "(json \<Rightarrow> 'a option) \<Rightarrow> (string \<times> json) list \<Rightarrow> (string \<times> 'a) list option" where
  "map_entries f fs =
     map_option (foldl (\<lambda>m (k, v). al_put k v m) []) (all_some (map (\<lambda>(k, v). map_option (Pair k) (f v)) fs))"

text \<open>\<open>json.Marshal\<close> of a map sorts the keys.\<close>

definition json_map :: "(string \<times> json) list \<Rightarrow> json" where
  "json_map fs = JObj (sort_key fst fs)"

definition json_opt :: "('a \<Rightarrow> json) \<Rightarrow> 'a option \<Rightarrow> json" where
  "json_opt f x = (case x of None \<Rightarrow> JNull | Some y \<Rightarrow> f y)"

definition json_int :: "int \<Rightarrow> json" where "json_int n = JNum (of_int n)"

section \<open>Keys\<close>

record key_params =
  kp_alias :: string
  kp_models :: "string list"
  kp_tpm :: "int option"
  kp_rpm :: "int option"
  kp_max_budget :: "rat option"
  kp_budget_duration :: "string option"
  kp_budget_limits :: "quota_window list"
  kp_user :: string
  kp_duration :: string

definition window_json :: "quota_window \<Rightarrow> json" where
  "window_json w = JObj [(''budget_duration'', JStr (win_period w)), (''max_budget'', JNum (win_budget w))]"

text \<open>The struct's tags say \<open>omitempty\<close> throughout.\<close>

definition key_params_json :: "key_params \<Rightarrow> json" where
  "key_params_json p = JObj
     ((if kp_alias p = [] then [] else [(''key_alias'', JStr (kp_alias p))])
      @ (if kp_models p = [] then [] else [(''models'', JArr (map JStr (kp_models p)))])
      @ (case kp_tpm p of None \<Rightarrow> [] | Some n \<Rightarrow> [(''tpm_limit'', json_int n)])
      @ (case kp_rpm p of None \<Rightarrow> [] | Some n \<Rightarrow> [(''rpm_limit'', json_int n)])
      @ (case kp_max_budget p of None \<Rightarrow> [] | Some b \<Rightarrow> [(''max_budget'', JNum b)])
      @ (case kp_budget_duration p of None \<Rightarrow> [] | Some d \<Rightarrow> [(''budget_duration'', JStr d)])
      @ (if kp_budget_limits p = [] then [] else [(''budget_limits'', JArr (map window_json (kp_budget_limits p)))])
      @ (if kp_user p = [] then [] else [(''user_id'', JStr (kp_user p))])
      @ (if kp_duration p = [] then [] else [(''duration'', JStr (kp_duration p))]))"

text \<open>The lifetime of a key in whole days from now, rounded up past the deadline.\<close>

definition days_text :: "time \<Rightarrow> time \<Rightarrow> string" where
  "days_text now t = format_int (int_of_float (fdiv (hours_of (t - now)) 24) + 1) @ ''d''"

definition key_hash :: "'g upstream \<Rightarrow> string \<Rightarrow> string" where
  "key_hash up key = hex_encode (up_sha256 up key)"

definition created_key :: "(string \<times> json) list \<Rightarrow> (string \<times> string) option" where
  "created_key fs =
     Option.bind (string_field ''key'' fs) (\<lambda>k. map_option (Pair k) (string_field ''token'' fs))"

text \<open>\<open>CreateKey\<close>: the secret and the ref.\<close>

definition client_create_key ::
    "'g upstream \<Rightarrow> client \<Rightarrow> time \<Rightarrow> string \<Rightarrow> key_params \<Rightarrow> time \<Rightarrow> ('g, gw_error + string \<times> string) call" where
  "client_create_key up c now alias params t = do {
     r \<leftarrow> client_do up c ''POST'' ''/key/generate''
            (Some (key_params_json (params\<lparr>kp_alias := alias, kp_duration := days_text now t\<rparr>)));
     State_Monad.return (case r of
         Inl e \<Rightarrow> Inl e
       | Inr a \<Rightarrow>
           if ha_status a \<noteq> 200 then Inl (GwError (returned ''/key/generate'' a))
           else case decode ''decode response'' created_key a of
                  Inl e \<Rightarrow> Inl e
                | Inr (key, token) \<Rightarrow>
                    if key = [] then Inl (GwError ''LiteLLM returned empty key'')
                    else if token = [] then Inr (key, key_hash up key)
                    else Inr (key, token)) }"

text \<open>\<open>DeleteKey\<close>: a key that is not there is what a delete asks for.\<close>

definition client_delete_key :: "'g upstream \<Rightarrow> client \<Rightarrow> string \<Rightarrow> ('g, gw_error option) call" where
  "client_delete_key up c ref = do {
     r \<leftarrow> client_do up c ''POST'' ''/key/delete'' (Some (json_map [(''keys'', JArr [JStr ref])]));
     State_Monad.return (case r of
         Inl e \<Rightarrow> Some e
       | Inr a \<Rightarrow>
           if ha_status a = 200 then None
           else let e = key_call_error ''/key/delete'' a in if is_key_not_found e then None else Some e) }"

text \<open>The end of the calls to \<open>/key/update\<close>.\<close>

definition key_updated :: "gw_error + http_answer \<Rightarrow> gw_error option" where
  "key_updated r =
     (case r of
        Inl e \<Rightarrow> Some e
      | Inr a \<Rightarrow> if ha_status a \<noteq> 200 then Some (key_call_error ''/key/update'' a) else None)"

definition client_update_expiry :: "'g upstream \<Rightarrow> client \<Rightarrow> time \<Rightarrow> string \<Rightarrow> time \<Rightarrow> ('g, gw_error option) call" where
  "client_update_expiry up c now ref t = do {
     r \<leftarrow> client_do up c ''POST'' ''/key/update''
            (Some (json_map [(''key'', JStr ref), (''duration'', JStr (days_text now t))]));
     State_Monad.return (key_updated r) }"

definition client_update_alias :: "'g upstream \<Rightarrow> client \<Rightarrow> string \<Rightarrow> string \<Rightarrow> ('g, gw_error option) call" where
  "client_update_alias up c ref alias = do {
     r \<leftarrow> client_do up c ''POST'' ''/key/update'' (Some (json_map [(''key'', JStr ref), (''key_alias'', JStr alias)]));
     State_Monad.return (key_updated r) }"

text \<open>\<open>effectiveWindows\<close>.\<close>

definition effective_windows :: "limits \<Rightarrow> quota_window list" where
  "effective_windows l = filter (\<lambda>q. win_budget q > 0 \<and> win_period q \<noteq> []) (lim_quotas l)"

text \<open>\<open>UpdateKeyLimits\<close>: every field is sent, null where there is no limit.\<close>

definition key_limits_payload :: "string \<Rightarrow> string \<Rightarrow> limits \<Rightarrow> (string \<times> json) list" where
  "key_limits_payload ref owner l =
     [(''key'', JStr ref), (''tpm_limit'', json_opt json_int (lim_tpm l)), (''rpm_limit'', json_opt json_int (lim_rpm l))]
     @ (if owner \<noteq> [] then [(''user_id'', JStr owner)] else [])
     @ [(''models'', JArr (map JStr (lim_models l)))]
     @ (case effective_windows l of
          [] \<Rightarrow> [(''max_budget'', JNull), (''budget_duration'', JNull), (''budget_limits'', JNull)]
        | [w] \<Rightarrow> [(''max_budget'', JNum (win_budget w)), (''budget_duration'', JStr (win_period w)), (''budget_limits'', JNull)]
        | ws \<Rightarrow> [(''budget_limits'', JArr (map window_json ws)), (''max_budget'', JNull), (''budget_duration'', JNull)])"

definition client_update_limits :: "'g upstream \<Rightarrow> client \<Rightarrow> string \<Rightarrow> string \<Rightarrow> limits \<Rightarrow> ('g, gw_error option) call" where
  "client_update_limits up c ref owner l = do {
     r \<leftarrow> client_do up c ''POST'' ''/key/update'' (Some (json_map (key_limits_payload ref owner l)));
     State_Monad.return (key_updated r) }"

section \<open>Users\<close>

text \<open>\<open>UpsertUser\<close>; the budget is a window or none.\<close>

definition user_payload :: "gw_user \<Rightarrow> quota_window option \<Rightarrow> (string \<times> json) list" where
  "user_payload u budget =
     [(''user_id'', JStr (gu_id u))]
     @ (if gu_name u \<noteq> [] then [(''user_alias'', JStr (gu_name u))] else [])
     @ (if gu_email u \<noteq> [] then [(''user_email'', JStr (gu_email u))] else [])
     @ (case budget of
          Some w \<Rightarrow> [(''max_budget'', JNum (win_budget w)), (''budget_duration'', JStr (win_period w))]
        | None \<Rightarrow> [(''max_budget'', JNull), (''budget_duration'', JNull)])"

definition upsert_user :: "'g upstream \<Rightarrow> client \<Rightarrow> gw_user \<Rightarrow> quota_window option \<Rightarrow> ('g, gw_error option) call" where
  "upsert_user up c u budget = do {
     r \<leftarrow> client_do up c ''POST'' ''/user/new''
            (Some (json_map (user_payload u budget @ [(''auto_create_key'', JBool False)])));
     case r of
       Inl e \<Rightarrow> State_Monad.return (Some e)
     | Inr a \<Rightarrow>
         if ha_status a = 200 then State_Monad.return None
         else if ha_status a \<noteq> 409 then State_Monad.return (Some (GwError (returned ''/user/new'' a)))
         else do {
           r2 \<leftarrow> client_do up c ''POST'' ''/user/update'' (Some (json_map (user_payload u budget)));
           State_Monad.return (case r2 of
               Inl e \<Rightarrow> Some e
             | Inr b \<Rightarrow>
                 if ha_status b \<noteq> 200
                 then Some (GwError (returned ''/user/update'' b @ '' (after /user/new returned 409: '' @ ha_body a @ '')''))
                 else None) } }"

section \<open>Points in time\<close>

text \<open>
  \<open>time.Parse(time.RFC3339, s)\<close>: a date, the time of the day with an optional fraction of a second, of which
  nine digits count, and an offset.  Go also takes an hour of one digit, which no gateway writes.
\<close>

definition in_upto :: "int \<Rightarrow> int option \<Rightarrow> int option" where
  "in_upto m v = (case v of None \<Rightarrow> None | Some n \<Rightarrow> if n \<le> m then Some n else None)"

definition parse_offset :: "string \<Rightarrow> duration option" where
  "parse_offset s =
     (if s = ''Z'' then Some 0
      else case s of
        [sign, a, b, c, d, e] \<Rightarrow>
          (case (in_upto 24 (fixed_digits 2 [a, b]), in_upto 60 (fixed_digits 2 [d, e])) of
             (Some h, Some m) \<Rightarrow>
               if c \<noteq> CHR '':'' then None
               else if sign = CHR ''+'' then Some (h * hour + m * minute)
               else if sign = CHR ''-'' then Some (- (h * hour + m * minute)) else None
           | _ \<Rightarrow> None)
      | _ \<Rightarrow> None)"

definition parse_clock :: "string \<Rightarrow> duration option" where
  "parse_clock s =
     (case map (fixed_digits 2) (split_on (CHR '':'') s) of
        [h, m, sec] \<Rightarrow>
          (case (in_upto 23 h, in_upto 59 m, in_upto 59 sec) of
             (Some h, Some m, Some sec) \<Rightarrow> Some (h * hour + m * minute + sec * second)
           | _ \<Rightarrow> None)
      | _ \<Rightarrow> None)"

text \<open>The fraction and what follows it; a point with no digit after it is none.\<close>

definition parse_fraction :: "string \<Rightarrow> duration \<times> string" where
  "parse_fraction s =
     (case s of
        c # t \<Rightarrow>
          (let ds = takeWhile is_digit t
           in if (c = CHR ''.'' \<or> c = CHR '','') \<and> ds \<noteq> []
              then (digits_int 0 (take 9 (ds @ replicate 9 CHR ''0'')), dropWhile is_digit t)
              else (0, s))
      | [] \<Rightarrow> (0, s))"

definition parse_rfc3339 :: "string \<Rightarrow> time option" where
  "parse_rfc3339 s =
     (if length s < 20 \<or> s ! 10 \<noteq> CHR ''T'' then None
      else case (parse_date (take 10 s), parse_clock (take 8 (drop 11 s)), parse_fraction (drop 19 s)) of
             (Some d, Some c, f, rest) \<Rightarrow> map_option (\<lambda>z. d + c + f - z) (parse_offset rest)
           | _ \<Rightarrow> None)"

lemma parse_rfc3339_examples:
  "parse_rfc3339 ''2024-02-29T01:01:00Z'' = Some (19782 * day + hour + minute)"
  "parse_rfc3339 ''2024-02-29T01:01:00.5+01:00'' = Some (19782 * day + minute + second div 2)"
  "parse_rfc3339 ''2024-02-29T24:00:00Z'' = None" "parse_rfc3339 ''2024-02-29'' = None"
  by code_simp+

text \<open>A reset date that does not parse is left out.\<close>

definition reset_time :: "string option \<Rightarrow> time option" where
  "reset_time s = Option.bind s parse_rfc3339"

section \<open>Reading users and keys\<close>

record owner_info =
  ui_spend :: rat
  ui_max_budget :: "rat option"
  ui_budget_duration :: "string option"
  ui_budget_reset_at :: "string option"

definition owner_info_of :: "(string \<times> json) list \<Rightarrow> owner_info option" where
  "owner_info_of fs =
     (case object_field ''user_info'' fs of
        None \<Rightarrow> None
      | Some i \<Rightarrow>
          (case (number_field ''spend'' i, opt_number_field ''max_budget'' i, opt_string_field ''budget_duration'' i,
                 opt_string_field ''budget_reset_at'' i) of
             (Some s, Some m, Some d, Some r) \<Rightarrow>
               Some \<lparr>ui_spend = s, ui_max_budget = m, ui_budget_duration = d, ui_budget_reset_at = r\<rparr>
           | _ \<Rightarrow> None))"

text \<open>\<open>budgetWindow\<close>; \<open>None\<close> for a spend that was not reported.\<close>

record budget_window =
  bw_duration :: string
  bw_max :: rat
  bw_reset_at :: "string option"
  bw_spend :: "rat option"

text \<open>What \<open>userWindow\<close> and \<open>UserQuota\<close> have in common: \<open>None\<close> for a user that does not exist.\<close>

definition read_user :: "'g upstream \<Rightarrow> client \<Rightarrow> string \<Rightarrow> ('g, gw_error + owner_info option) call" where
  "read_user up c owner = do {
     r \<leftarrow> client_do up c ''GET'' (''/user/info?'' @ query_encode [(''user_id'', owner)]) None;
     State_Monad.return (case r of
         Inl e \<Rightarrow> Inl e
       | Inr a \<Rightarrow>
           if ha_status a = 404 then Inr None
           else if ha_status a \<noteq> 200 then Inl (GwError (returned ''/user/info'' a))
           else case decode ''decode user info'' owner_info_of a of Inl e \<Rightarrow> Inl e | Inr i \<Rightarrow> Inr (Some i)) }"

definition user_window :: "'g upstream \<Rightarrow> client \<Rightarrow> string \<Rightarrow> ('g, gw_error + budget_window option) call" where
  "user_window up c owner = do {
     r \<leftarrow> read_user up c owner;
     State_Monad.return (case r of
         Inl e \<Rightarrow> Inl e
       | Inr None \<Rightarrow> Inr None
       | Inr (Some i) \<Rightarrow>
           (case (ui_max_budget i, ui_budget_duration i) of
              (Some m, Some d) \<Rightarrow>
                Inr (Some \<lparr>bw_duration = d, bw_max = m, bw_reset_at = ui_budget_reset_at i, bw_spend = Some (ui_spend i)\<rparr>)
            | _ \<Rightarrow> Inr None)) }"

definition user_quota :: "'g upstream \<Rightarrow> client \<Rightarrow> string \<Rightarrow> ('g, gw_error + quota) call" where
  "user_quota up c owner = do {
     r \<leftarrow> read_user up c owner;
     State_Monad.return (case r of
         Inl e \<Rightarrow> Inl e
       | Inr None \<Rightarrow> Inr zero_quota
       | Inr (Some i) \<Rightarrow>
           Inr \<lparr>qt_used = ui_spend i, qt_limit = the_default 0 (ui_max_budget i), qt_resets_at = reset_time (ui_budget_reset_at i)\<rparr>) }"

definition key_status_deleted :: string where "key_status_deleted = ''deleted''"

definition key_info_path :: "string \<Rightarrow> string" where
  "key_info_path ref = ''/key/info?'' @ query_encode [(''key'', ref)]"

record key_info =
  ki_status :: string
  ki_spend :: rat
  ki_max_budget :: "rat option"
  ki_budget_reset_at :: "string option"

definition key_info_of :: "(string \<times> json) list \<Rightarrow> key_info option" where
  "key_info_of fs =
     (case object_field ''info'' fs of
        None \<Rightarrow> None
      | Some i \<Rightarrow>
          (case (string_field ''status'' i, number_field ''spend'' i, opt_number_field ''max_budget'' i,
                 opt_string_field ''budget_reset_at'' i) of
             (Some st, Some s, Some m, Some r) \<Rightarrow>
               Some \<lparr>ki_status = st, ki_spend = s, ki_max_budget = m, ki_budget_reset_at = r\<rparr>
           | _ \<Rightarrow> None))"

definition reported_deleted :: gw_error where
  "reported_deleted = KeyNotFound ''LiteLLM /key/info reports the key deleted: key not found in the gateway''"

text \<open>\<open>keyInfo\<close>, and the like start of \<open>keyWindows\<close>: \<open>f\<close> reads the answer and \<open>st\<close> its status.\<close>

definition read_key ::
    "((string \<times> json) list \<Rightarrow> 'a option) \<Rightarrow> ('a \<Rightarrow> string) \<Rightarrow> 'g upstream \<Rightarrow> client \<Rightarrow> string \<Rightarrow> ('g, gw_error + 'a) call" where
  "read_key f st up c ref = do {
     r \<leftarrow> client_do up c ''GET'' (key_info_path ref) None;
     State_Monad.return (case r of
         Inl e \<Rightarrow> Inl e
       | Inr a \<Rightarrow>
           if ha_status a \<noteq> 200 then Inl (key_call_error ''/key/info'' a)
           else case decode ''decode key info'' f a of
                  Inl e \<Rightarrow> Inl e
                | Inr i \<Rightarrow> if st i = key_status_deleted then Inl reported_deleted else Inr i) }"

definition read_key_info :: "'g upstream \<Rightarrow> client \<Rightarrow> string \<Rightarrow> ('g, gw_error + key_info) call" where
  "read_key_info = read_key key_info_of ki_status"

definition key_quota :: "'g upstream \<Rightarrow> client \<Rightarrow> string \<Rightarrow> ('g, gw_error + quota) call" where
  "key_quota up c ref = do {
     r \<leftarrow> read_key_info up c ref;
     State_Monad.return (case r of
         Inl e \<Rightarrow> Inl e
       | Inr i \<Rightarrow>
           Inr \<lparr>qt_used = ki_spend i, qt_limit = the_default 0 (ki_max_budget i), qt_resets_at = reset_time (ki_budget_reset_at i)\<rparr>) }"

section \<open>Windows\<close>

text \<open>The record of a key with its windows.\<close>

record key_body =
  kb_status :: string
  kb_spend :: rat
  kb_limits :: "budget_window list"
  kb_usage :: "(string \<times> rat) list"
  kb_max_budget :: "rat option"
  kb_duration :: "string option"
  kb_reset_at :: "string option"

definition window_of_json :: "json \<Rightarrow> budget_window option" where
  "window_of_json v =
     (case fields_of v of
        None \<Rightarrow> None
      | Some fs \<Rightarrow>
          (case (string_field ''budget_duration'' fs, number_field ''max_budget'' fs, opt_string_field ''reset_at'' fs) of
             (Some d, Some m, Some r) \<Rightarrow> Some \<lparr>bw_duration = d, bw_max = m, bw_reset_at = r, bw_spend = None\<rparr>
           | _ \<Rightarrow> None))"

definition key_body_of :: "(string \<times> json) list \<Rightarrow> key_body option" where
  "key_body_of fs =
     (case object_field ''info'' fs of
        None \<Rightarrow> None
      | Some i \<Rightarrow>
          (case (Option.bind (array_field ''budget_limits'' i) (\<lambda>xs. all_some (map window_of_json xs)),
                 Option.bind (object_field ''budget_limits_usage'' i)
                   (map_entries (\<lambda>v. Option.bind (fields_of v) (number_field ''current_spend''))),
                 opt_string_field ''budget_duration'' i, key_info_of fs) of
             (Some ls, Some us, Some d, Some k) \<Rightarrow>
               Some \<lparr>kb_status = ki_status k, kb_spend = ki_spend k, kb_limits = ls, kb_usage = us,
                     kb_max_budget = ki_max_budget k, kb_duration = d, kb_reset_at = ki_budget_reset_at k\<rparr>
           | _ \<Rightarrow> None))"

text \<open>The end of \<open>keyWindows\<close>: several windows with their figures, or the flat pair.\<close>

definition windows_of_key :: "key_body \<Rightarrow> budget_window list" where
  "windows_of_key b =
     (if kb_limits b \<noteq> []
      then map (\<lambda>w. case map_of (kb_usage b) (bw_duration w) of None \<Rightarrow> w | Some s \<Rightarrow> w\<lparr>bw_spend := Some s\<rparr>) (kb_limits b)
      else case (kb_max_budget b, kb_duration b) of
             (Some m, Some d) \<Rightarrow> [\<lparr>bw_duration = d, bw_max = m, bw_reset_at = kb_reset_at b, bw_spend = Some (kb_spend b)\<rparr>]
           | _ \<Rightarrow> [])"

definition key_windows :: "'g upstream \<Rightarrow> client \<Rightarrow> string \<Rightarrow> ('g, gw_error + budget_window list) call" where
  "key_windows up c ref = do {
     r \<leftarrow> read_key key_body_of kb_status up c ref;
     State_Monad.return (case r of Inl e \<Rightarrow> Inl e | Inr b \<Rightarrow> Inr (windows_of_key b)) }"

text \<open>The end of \<open>Windows\<close>: what is no limit is left out, and the tightest period comes first.\<close>

definition reported_windows :: "budget_window list \<Rightarrow> window_usage list" where
  "reported_windows ws =
     sort_key (\<lambda>u. period_rank (wu_period u))
       (map (\<lambda>w. \<lparr>wu_period = bw_duration w, wu_used = the_default 0 (bw_spend w), wu_limit = bw_max w,
                  wu_resets_at = reset_time (bw_reset_at w), wu_used_known = (bw_spend w \<noteq> None)\<rparr>)
         (filter (\<lambda>w. \<not> (bw_max w \<le> 0 \<or> bw_duration w = [])) ws))"

definition provider_windows :: "'g upstream \<Rightarrow> client \<Rightarrow> string \<Rightarrow> string \<Rightarrow> ('g, gw_error + window_usage list) call" where
  "provider_windows up c ref owner = do {
     r \<leftarrow> key_windows up c ref;
     case r of
       Inl e \<Rightarrow> State_Monad.return (Inl e)
     | Inr ws \<Rightarrow>
         if owner = [] then State_Monad.return (Inr (reported_windows ws))
         else do {
           o' \<leftarrow> user_window up c owner;
           State_Monad.return (case o' of
               Inl e \<Rightarrow> Inl e
             | Inr None \<Rightarrow> Inr (reported_windows ws)
             | Inr (Some w) \<Rightarrow> Inr (reported_windows (ws @ [w]))) } }"

section \<open>The daily activity\<close>

record activity_metrics =
  am_prompt :: int
  am_completion :: int
  am_total :: int
  am_requests :: int

definition metrics_of :: "(string \<times> json) list \<Rightarrow> activity_metrics option" where
  "metrics_of fs =
     (case Option.bind (object_field ''metrics'' fs)
        (\<lambda>m. all_some [int_field ''prompt_tokens'' m, int_field ''completion_tokens'' m, int_field ''total_tokens'' m,
                       int_field ''api_requests'' m]) of
        Some [p, c, t, r] \<Rightarrow> Some \<lparr>am_prompt = p, am_completion = c, am_total = t, am_requests = r\<rparr>
      | _ \<Rightarrow> None)"

text \<open>\<open>dailyActivityPage\<close>: its rows, and whether there are more pages.\<close>

record activity_row =
  ar_date :: string
  ar_metrics :: activity_metrics
  ar_groups :: "(string \<times> activity_metrics) list"

definition activity_row_of :: "json \<Rightarrow> activity_row option" where
  "activity_row_of v =
     (case fields_of v of
        None \<Rightarrow> None
      | Some fs \<Rightarrow>
          (case (string_field ''date'' fs, metrics_of fs,
                 Option.bind (object_field ''breakdown'' fs) (\<lambda>b. Option.bind (object_field ''model_groups'' b)
                   (map_entries (\<lambda>g. Option.bind (fields_of g) metrics_of)))) of
             (Some d, Some m, Some gs) \<Rightarrow> Some \<lparr>ar_date = d, ar_metrics = m, ar_groups = gs\<rparr>
           | _ \<Rightarrow> None))"

definition bool_field :: "string \<Rightarrow> (string \<times> json) list \<Rightarrow> bool option" where
  "bool_field k fs = (case json_field k fs of None \<Rightarrow> Some False | Some (JBool b) \<Rightarrow> Some b | Some _ \<Rightarrow> None)"

definition activity_page_of :: "(string \<times> json) list \<Rightarrow> (activity_row list \<times> bool) option" where
  "activity_page_of fs =
     (case (Option.bind (array_field ''results'' fs) (\<lambda>xs. all_some (map activity_row_of xs)),
            Option.bind (object_field ''metadata'' fs) (bool_field ''has_more'')) of
        (Some rs, Some again) \<Rightarrow> Some (rs, again)
      | _ \<Rightarrow> None)"

definition activity_page_size :: int where "activity_page_size = 1000"
definition activity_max_pages :: nat where "activity_max_pages = 20"

text \<open>\<open>dailyActivity\<close>.\<close>

definition daily_activity ::
    "'g upstream \<Rightarrow> client \<Rightarrow> (string \<times> string) list \<Rightarrow> ('g, gw_error + activity_row list \<times> bool) call" where
  "daily_activity up c q = do {
     r \<leftarrow> client_do up c ''GET'' (''/user/daily/activity?'' @ query_encode q) None;
     State_Monad.return (case r of
         Inl e \<Rightarrow> Inl e
       | Inr a \<Rightarrow>
           if ha_status a \<noteq> 200 then Inl (GwError (returned ''/user/daily/activity'' a))
           else decode ''decode daily activity'' activity_page_of a) }"

text \<open>The maps \<open>tokensByDay\<close> and \<open>byModel\<close>, and what one row adds to them.\<close>

type_synonym activity = "(string \<times> int) list \<times> (string \<times> model_usage) list"

definition new_model :: "string \<Rightarrow> model_usage" where
  "new_model name = \<lparr>mu_model = name, mu_requests = 0, mu_prompt = 0, mu_completion = 0, mu_total = 0\<rparr>"

definition add_metrics :: "activity_metrics \<Rightarrow> model_usage \<Rightarrow> model_usage" where
  "add_metrics g m = m\<lparr>mu_requests := mu_requests m + am_requests g, mu_prompt := mu_prompt m + am_prompt g,
     mu_completion := mu_completion m + am_completion g, mu_total := mu_total m + am_total g\<rparr>"

definition add_group :: "string \<times> activity_metrics \<Rightarrow> (string \<times> model_usage) list \<Rightarrow> (string \<times> model_usage) list" where
  "add_group g ms =
     al_put (fst g) (add_metrics (snd g) (the_default (new_model (fst g)) (map_of ms (fst g)))) ms"

definition add_row :: "activity_row \<Rightarrow> activity \<Rightarrow> activity" where
  "add_row r a =
     (al_put (ar_date r) (the_default 0 (map_of (fst a) (ar_date r)) + am_total (ar_metrics r)) (fst a),
      fold add_group (ar_groups r) (snd a))"

text \<open>The loop of \<open>History\<close>: \<open>n\<close> pages may still be read.\<close>

fun history_pages ::
    "nat \<Rightarrow> 'g upstream \<Rightarrow> client \<Rightarrow> (string \<times> string) list \<Rightarrow> activity \<Rightarrow> ('g, gw_error + activity) call" where
  "history_pages 0 up c q a = State_Monad.return (Inl (GwError
     (''LiteLLM /user/daily/activity has more than '' @ format_nat activity_max_pages @ '' pages'')))"
| "history_pages (Suc n) up c q a = do {
     r \<leftarrow> daily_activity up c (query_set ''page'' (format_nat (activity_max_pages - n)) q);
     case r of
       Inl e \<Rightarrow> State_Monad.return (Inl e)
     | Inr (rows, again) \<Rightarrow>
         if again then history_pages n up c q (fold add_row rows a)
         else State_Monad.return (Inr (fold add_row rows a)) }"

text \<open>The days with traffic in order, and the models, the most used first.\<close>

definition history_of :: "activity \<Rightarrow> history" where
  "history_of a =
     \<lparr>hist_days = sort_key du_day (map (\<lambda>(d, t). \<lparr>du_day = d, du_tokens = t\<rparr>) (filter (\<lambda>(d, t). t > 0) (fst a))),
      hist_models = sort_key (\<lambda>m. - mu_total m) (sort_key mu_model (map snd (snd a)))\<rparr>"

definition history_query :: "time \<Rightarrow> string \<Rightarrow> int \<Rightarrow> (string \<times> string) list" where
  "history_query now owner days =
     [(''user_id'', owner), (''start_date'', format_date (add_days now (- days))), (''end_date'', format_date now),
      (''page_size'', format_int activity_page_size)]"

definition client_history :: "'g upstream \<Rightarrow> client \<Rightarrow> time \<Rightarrow> string \<Rightarrow> int \<Rightarrow> ('g, gw_error + history) call" where
  "client_history up c now owner days =
     (if owner = [] then State_Monad.return (Inr no_history)
      else do {
        r \<leftarrow> history_pages activity_max_pages up c (history_query now owner days) ([], []);
        State_Monad.return (case r of Inl e \<Rightarrow> Inl e | Inr a \<Rightarrow> Inr (history_of a)) })"

section \<open>Models and prices\<close>

text \<open>\<open>/model/info\<close>; \<open>f\<close> reads one model.\<close>

definition model_list ::
    "string \<Rightarrow> ((string \<times> json) list \<Rightarrow> 'a option) \<Rightarrow> 'g upstream \<Rightarrow> client \<Rightarrow> ('g, gw_error + 'a list) call" where
  "model_list what f up c = do {
     r \<leftarrow> client_do up c ''GET'' ''/model/info'' None;
     State_Monad.return (case r of
         Inl e \<Rightarrow> Inl e
       | Inr a \<Rightarrow>
           if ha_status a \<noteq> 200 then Inl (GwError (returned ''/model/info'' a))
           else decode what (\<lambda>fs. Option.bind (array_field ''data'' fs)
                  (\<lambda>xs. all_some (map (\<lambda>v. Option.bind (fields_of v) f) xs))) a) }"

text \<open>\<open>modelInfoResponse\<close>: the name and the mode.\<close>

definition model_info_of :: "(string \<times> json) list \<Rightarrow> (string \<times> string) option" where
  "model_info_of fs =
     Option.bind (string_field ''model_name'' fs) (\<lambda>n.
       map_option (Pair n) (Option.bind (object_field ''model_info'' fs) (string_field ''mode'')))"

definition client_embedding_models :: "'g upstream \<Rightarrow> client \<Rightarrow> ('g, gw_error + (string \<times> bool) list option) call" where
  "client_embedding_models up c = do {
     r \<leftarrow> model_list ''decode model list'' model_info_of up c;
     State_Monad.return (case r of
         Inl e \<Rightarrow> Inl e
       | Inr ms \<Rightarrow> Inr (Some (foldl (\<lambda>m (n, mode). if n \<noteq> [] \<and> mode = ''embedding'' then al_put n True m else m) [] ms))) }"

definition client_list_models :: "'g upstream \<Rightarrow> client \<Rightarrow> ('g, gw_error + string list option) call" where
  "client_list_models up c = do {
     r \<leftarrow> model_list ''decode model list'' model_info_of up c;
     State_Monad.return (case r of
         Inl e \<Rightarrow> Inl e
       | Inr ms \<Rightarrow> Inr (Some (sort (remdups (filter (\<lambda>n. n \<noteq> []) (map fst ms)))))) }"

record priced_model =
  pm_name :: string
  pm_input :: rat
  pm_output :: rat

definition priced_model_of :: "(string \<times> json) list \<Rightarrow> priced_model option" where
  "priced_model_of fs =
     (case (string_field ''model_name'' fs, object_field ''litellm_params'' fs) of
        (Some n, Some p) \<Rightarrow>
          (case (number_field ''input_cost_per_token'' p, number_field ''output_cost_per_token'' p) of
             (Some i, Some o') \<Rightarrow> Some \<lparr>pm_name = n, pm_input = i, pm_output = o'\<rparr>
           | _ \<Rightarrow> None)
      | _ \<Rightarrow> None)"

text \<open>\<open>summarisePricing\<close>: the unpriced models.\<close>

definition summarise_pricing :: "priced_model list \<Rightarrow> string list" where
  "summarise_pricing ms = sort (map pm_name (filter (\<lambda>m. pm_input m \<le> 0 \<and> pm_output m \<le> 0) ms))"

definition client_pricing :: "'g upstream \<Rightarrow> client \<Rightarrow> ('g, gw_error + string list) call" where
  "client_pricing up c = do {
     r \<leftarrow> model_list ''decode model pricing'' priced_model_of up c;
     State_Monad.return (case r of Inl e \<Rightarrow> Inl e | Inr ms \<Rightarrow> Inr (summarise_pricing ms)) }"

section \<open>The provider\<close>

definition user_budget :: "quota_window \<Rightarrow> quota_window option" where
  "user_budget w = (if win_budget w \<le> 0 \<or> win_period w = [] then None else Some w)"

definition to_key_params :: "key_request \<Rightarrow> key_params" where
  "to_key_params req =
     (let ws = effective_windows (kr_limits req);
          p = \<lparr>kp_alias = [], kp_models = lim_models (kr_limits req), kp_tpm = lim_tpm (kr_limits req),
               kp_rpm = lim_rpm (kr_limits req), kp_max_budget = None, kp_budget_duration = None,
               kp_budget_limits = [], kp_user = gu_id (kr_user req), kp_duration = []\<rparr>
      in case ws of
           [] \<Rightarrow> p
         | [w] \<Rightarrow> p\<lparr>kp_max_budget := Some (win_budget w), kp_budget_duration := Some (win_period w)\<rparr>
         | _ \<Rightarrow> p\<lparr>kp_budget_limits := ws\<rparr>)"

definition provider_create :: "'g upstream \<Rightarrow> client \<Rightarrow> time \<Rightarrow> key_request \<Rightarrow> ('g, gw_error + key_result) call" where
  "provider_create up c now req =
     (let (widest, rest) = widest_window (effective_windows (kr_limits req));
          owned = (gu_id (kr_user req) \<noteq> []);
          req' = (if owned then req\<lparr>kr_limits := (kr_limits req)\<lparr>lim_quotas := rest\<rparr>\<rparr> else req)
      in do {
        e \<leftarrow> (if owned then upsert_user up c (kr_user req) (user_budget widest) else State_Monad.return None);
        case e of
          Some e \<Rightarrow> State_Monad.return (Inl e)
        | None \<Rightarrow> do {
            r \<leftarrow> client_create_key up c now (kr_alias req) (to_key_params req') (kr_expires_at req);
            State_Monad.return (case r of
                Inl e \<Rightarrow> Inl e
              | Inr (secret, ref) \<Rightarrow> Inr \<lparr>res_secret = secret, res_ref = ref\<rparr>) } })"

definition provider_limits :: "'g upstream \<Rightarrow> client \<Rightarrow> string \<Rightarrow> gw_user \<Rightarrow> limits \<Rightarrow> ('g, gw_error option) call" where
  "provider_limits up c ref u l =
     (let (widest, rest) = widest_window (effective_windows l)
      in if gu_id u \<noteq> [] then do {
           e \<leftarrow> upsert_user up c u (user_budget widest);
           case e of
             Some e \<Rightarrow> State_Monad.return (Some e)
           | None \<Rightarrow> client_update_limits up c ref (gu_id u) (l\<lparr>lim_quotas := rest\<rparr>) }
         else client_update_limits up c ref (gu_id u) l)"

definition provider_quota :: "'g upstream \<Rightarrow> client \<Rightarrow> string \<Rightarrow> string \<Rightarrow> ('g, gw_error + quota) call" where
  "provider_quota up c ref owner = do {
     q \<leftarrow> (if owner \<noteq> [] then user_quota up c owner else State_Monad.return (Inr zero_quota));
     case q of
       Inl e \<Rightarrow> State_Monad.return (Inl e)
     | Inr q \<Rightarrow> if owner \<noteq> [] \<and> qt_limit q > 0 then State_Monad.return (Inr q) else key_quota up c ref }"

definition provider_check :: "'g upstream \<Rightarrow> client \<Rightarrow> string \<Rightarrow> ('g, gw_error option) call" where
  "provider_check up c ref = do {
     r \<leftarrow> read_key_info up c ref;
     State_Monad.return (case r of Inl e \<Rightarrow> Some e | Inr _ \<Rightarrow> None) }"

text \<open>\<open>NewProvider\<close>.\<close>

definition litellm_provider :: "'g upstream \<Rightarrow> client \<Rightarrow> 'g provider" where
  "litellm_provider up c =
     \<lparr>prov_create = (\<lambda>now req. run_state (provider_create up c now req)),
      prov_delete = (\<lambda>ref. run_state (client_delete_key up c ref)),
      prov_expiry = (\<lambda>now ref t. run_state (client_update_expiry up c now ref t)),
      prov_limits = (\<lambda>ref u l. run_state (provider_limits up c ref u l)),
      prov_alias = (\<lambda>ref a. run_state (client_update_alias up c ref a)),
      prov_check = (\<lambda>ref. run_state (provider_check up c ref))\<rparr>"

definition litellm_reporter :: "'g upstream \<Rightarrow> client \<Rightarrow> 'g reporter" where
  "litellm_reporter up c =
     \<lparr>rep_history = (\<lambda>now owner days. run_state (client_history up c now owner days)),
      rep_windows = (\<lambda>ref owner. run_state (provider_windows up c ref owner)),
      rep_quota = (\<lambda>ref owner. run_state (provider_quota up c ref owner))\<rparr>"

end
