(* ===== verification/LiteLLMFacts.thy ===== *)
theory LiteLLMFacts
  imports LiteLLM
begin

text \<open>
  What the LiteLLM provider sends and concludes: the limits that reach the gateway, the order in which a key and
  its owner's allowance are made, what it takes for a key to count as gone, and the sums of the daily activity.
\<close>

section \<open>Watching the calls\<close>

text \<open>The same gateway, with the calls made to it and its answers.\<close>

type_synonym exchange = "http_call \<times> http_answer option"

definition spy :: "'g upstream \<Rightarrow> ('g \<times> exchange list) upstream" where
  "spy up =
     \<lparr>up_send = (\<lambda>call (g, log).
        case up_send up call g of
          (Inl e, g') \<Rightarrow> (Inl e, (g', log @ [(call, None)]))
        | (Inr a, g') \<Rightarrow> (Inr a, (g', log @ [(call, Some a)]))),
      up_sha256 = up_sha256 up\<rparr>"

definition request_of :: "client \<Rightarrow> string \<Rightarrow> string \<Rightarrow> json option \<Rightarrow> http_call" where
  "request_of c meth path body =
     \<lparr>hc_method = meth, hc_url = cl_base c @ path,
      hc_headers = [(''Authorization'', ''Bearer '' @ cl_master c), (''Content-Type'', ''application/json'')],
      hc_body = body\<rparr>"

lemma client_do_spy:
  assumes "run_state (client_do (spy up) c m p b) s = (r, s')"
  obtains e where "r = Inl (GwError e)" "snd s' = snd s @ [(request_of c m p b, None)]"
    | a where "r = Inr a" "snd s' = snd s @ [(request_of c m p b, Some a)]"
  using assms unfolding client_do_def spy_def request_of_def
  by (cases s) (auto split: prod.splits sum.splits)

section \<open>Limits\<close>

text \<open>The windows that the gateway enforces after a body with them: several, the flat pair, or none.\<close>

definition sent_window :: "json \<Rightarrow> quota_window" where
  "sent_window v =
     (case v of
        JObj [(_, JStr p), (_, JNum b)] \<Rightarrow> \<lparr>win_budget = b, win_period = p\<rparr>
      | _ \<Rightarrow> zero_window)"

definition sent_windows :: "json \<Rightarrow> quota_window list" where
  "sent_windows v =
     (case v of
        JObj fs \<Rightarrow>
          (case map_of fs ''budget_limits'' of
             Some (JArr ws) \<Rightarrow> map sent_window ws
           | _ \<Rightarrow>
               (case (map_of fs ''max_budget'', map_of fs ''budget_duration'') of
                  (Some (JNum b), Some (JStr p)) \<Rightarrow> [\<lparr>win_budget = b, win_period = p\<rparr>]
                | _ \<Rightarrow> []))
      | _ \<Rightarrow> [])"

text \<open>The fields a body sets: a field that is left out keeps its old value in the gateway.\<close>

definition sent_fields :: "json \<Rightarrow> string set" where
  "sent_fields v = (case v of JObj fs \<Rightarrow> fst ` set fs | _ \<Rightarrow> {})"

lemma sent_fields_map [simp]: "sent_fields (json_map fs) = fst ` set fs"
  by (simp add: sent_fields_def json_map_def)

lemma distinct_sort_key [simp]: "distinct (map f (sort_key g xs)) = distinct (map f xs)"
proof -
  have "mset (map f (sort_key g xs)) = mset (map f xs)" by (simp only: mset_map mset_sort)
  then show ?thesis by (rule mset_eq_imp_distinct_iff)
qed

lemma map_of_sorted:
  fixes fs :: "(string \<times> 'v) list"
  assumes "distinct (map fst fs)"
  shows "map_of (sort_key fst fs) = map_of fs"
  using assms by (simp add: map_of_inject_set)

lemma sent_window_json [simp]: "sent_window (window_json w) = w"
  by (simp add: sent_window_def window_json_def)

lemma sent_user_windows:
  "sent_windows (json_map (user_payload u b)) = (case b of None \<Rightarrow> [] | Some w \<Rightarrow> [w])"
  "sent_windows (json_map (user_payload u b @ [(''auto_create_key'', JBool False)])) = (case b of None \<Rightarrow> [] | Some w \<Rightarrow> [w])"
proof -
  have d: "distinct (map fst (user_payload u b))" "distinct (map fst (user_payload u b @ [(''auto_create_key'', JBool False)]))"
    by (auto simp: user_payload_def split: option.split)
  show "sent_windows (json_map (user_payload u b)) = (case b of None \<Rightarrow> [] | Some w \<Rightarrow> [w])"
    unfolding sent_windows_def json_map_def json.case map_of_sorted [OF d(1)]
    by (simp add: user_payload_def split: option.split)
  show "sent_windows (json_map (user_payload u b @ [(''auto_create_key'', JBool False)])) = (case b of None \<Rightarrow> [] | Some w \<Rightarrow> [w])"
    unfolding sent_windows_def json_map_def json.case map_of_sorted [OF d(2)]
    by (simp add: user_payload_def split: option.split)
qed

lemma sent_key_windows: "sent_windows (json_map (key_limits_payload ref owner l)) = effective_windows l"
proof -
  have "distinct (map fst (key_limits_payload ref owner l))"
    by (auto simp: key_limits_payload_def split: list.split)
  from map_of_sorted [OF this] show ?thesis
    unfolding sent_windows_def json_map_def json.case
    by (simp add: key_limits_payload_def comp_def split: list.split)
qed

text \<open>The fields of a key that is created, one by one.\<close>

lemma field_parts:
  "map_of (if P then [] else [(k, v)]) x = (if P \<or> x \<noteq> k then None else Some v)"
  "map_of (case z of None \<Rightarrow> [] | Some y \<Rightarrow> [(k, f y)]) x = (if x \<noteq> k then None else map_option f z)"
  by (auto split: option.split)

lemma sent_param_windows:
  "sent_windows (key_params_json (to_key_params req\<lparr>kp_alias := a, kp_duration := d\<rparr>)) = effective_windows (kr_limits req)"
proof -
  let ?p = "to_key_params req\<lparr>kp_alias := a, kp_duration := d\<rparr>"
  have "sent_windows (key_params_json ?p) =
      (if kp_budget_limits ?p \<noteq> [] then kp_budget_limits ?p
       else case (kp_max_budget ?p, kp_budget_duration ?p) of
              (Some b, Some t) \<Rightarrow> [\<lparr>win_budget = b, win_period = t\<rparr>] | _ \<Rightarrow> [])"
    unfolding sent_windows_def key_params_json_def json.case map_of_append map_add_def field_parts
    by (simp add: comp_def split: option.split)
  then show ?thesis
    by (simp add: to_key_params_def Let_def split: list.split)
qed

text \<open>The call that settled a user: the creation, or the update after a conflict.\<close>

definition user_call :: "client \<Rightarrow> gw_user \<Rightarrow> quota_window option \<Rightarrow> exchange \<Rightarrow> bool" where
  "user_call c u b x \<longleftrightarrow> (\<exists>a path body. x = (request_of c ''POST'' path (Some body), Some a) \<and> ha_status a = 200
     \<and> (path = ''/user/new'' \<and> body = json_map (user_payload u b @ [(''auto_create_key'', JBool False)])
        \<or> path = ''/user/update'' \<and> body = json_map (user_payload u b)))"

lemma user_call_intros:
  "ha_status a = 200 \<Longrightarrow> user_call c u b (request_of c ''POST'' ''/user/new''
     (Some (json_map (user_payload u b @ [(''auto_create_key'', JBool False)]))), Some a)"
  "ha_status a = 200 \<Longrightarrow> user_call c u b (request_of c ''POST'' ''/user/update'' (Some (json_map (user_payload u b))), Some a)"
  unfolding user_call_def by blast+

lemma upsert_spy:
  assumes "run_state (upsert_user (spy up) c u b) s = (None, s')"
  obtains pre x where "snd s' = snd s @ pre @ [x]" "user_call c u b x"
proof -
  let ?new = "client_do (spy up) c ''POST'' ''/user/new'' (Some (json_map (user_payload u b @ [(''auto_create_key'', JBool False)])))"
  let ?upd = "client_do (spy up) c ''POST'' ''/user/update'' (Some (json_map (user_payload u b)))"
  obtain r1 s1 where r1: "run_state ?new s = (r1, s1)" by (meson surj_pair)
  obtain r2 s2 where r2: "run_state ?upd s1 = (r2, s2)" by (meson surj_pair)
  from r1 show thesis
  proof (rule client_do_spy)
    fix e assume "r1 = Inl (GwError e)"
    then show thesis using assms r1 by (simp add: upsert_user_def)
  next
    fix a assume a: "r1 = Inr a"
      and log: "snd s1 = snd s @ [(request_of c ''POST'' ''/user/new'' (Some (json_map (user_payload u b @ [(''auto_create_key'', JBool False)]))), Some a)]"
    show thesis
    proof (cases "ha_status a = 200")
      case True
      then have "s' = s1" using assms r1 a by (simp add: upsert_user_def)
      then show thesis using that [of "[]"] log user_call_intros(1) [OF True] by simp
    next
      case False
      then have "ha_status a = 409 \<and> s' = s2 \<and> (\<exists>b. r2 = Inr b \<and> ha_status b = 200)"
        using assms r1 r2 a by (auto simp: upsert_user_def split: if_splits sum.splits)
      then obtain b' where "s' = s2" "r2 = Inr b'" "ha_status b' = 200" by blast
      then show thesis using client_do_spy [OF r2] log that [of "[_]"] user_call_intros(2) by fastforce
    qed
  qed
qed

lemma update_limits_spy:
  assumes "run_state (client_update_limits (spy up) c ref owner l) s = (None, s')"
  obtains a where "snd s' = snd s @ [(request_of c ''POST'' ''/key/update'' (Some (json_map (key_limits_payload ref owner l))), Some a)]"
    "ha_status a = 200"
proof -
  obtain r1 s1 where r1: "run_state (client_do (spy up) c ''POST'' ''/key/update''
      (Some (json_map (key_limits_payload ref owner l)))) s = (r1, s1)" by (meson surj_pair)
  have "s' = s1" "\<exists>a. r1 = Inr a \<and> ha_status a = 200"
    using assms r1 by (auto simp: client_update_limits_def key_updated_def split: sum.splits if_splits)
  then show thesis using client_do_spy [OF r1] that by fastforce
qed

lemma effective_split:
  assumes "widest_window (effective_windows l) = (w, rest)"
  shows "mset (effective_windows l) =
      mset (case user_budget w of None \<Rightarrow> [] | Some w \<Rightarrow> [w]) + mset (effective_windows (l\<lparr>lim_quotas := rest\<rparr>))"
proof (cases "effective_windows l = []")
  case True
  then have "w = zero_window" "rest = []" using assms by (simp_all add: widest_window_def)
  then show ?thesis using True by (simp add: user_budget_def zero_window_def effective_windows_def)
next
  case False
  then obtain pre post where ws: "effective_windows l = pre @ w # post" "rest = pre @ post"
    using widest_window_split [OF _ assms] by blast
  have "\<forall>q \<in> set (effective_windows l). win_budget q > 0 \<and> win_period q \<noteq> []"
    by (simp add: effective_windows_def)
  then have all: "\<forall>q \<in> set (pre @ w # post). win_budget q > 0 \<and> win_period q \<noteq> []" unfolding ws(1) .
  have "effective_windows (l\<lparr>lim_quotas := rest\<rparr>) = rest"
    unfolding effective_windows_def ws(2) using all by (auto simp: filter_id_conv)
  moreover have "user_budget w = Some w" using all by (simp add: user_budget_def)
  ultimately show ?thesis using ws by simp
qed


text \<open>A gateway that answers every call, for the witnesses.\<close>

definition answer :: "nat \<Rightarrow> json \<Rightarrow> http_answer" where
  "answer n v = \<lparr>ha_status = n, ha_body = [], ha_json = Inr v, ha_more = False\<rparr>"

definition demo_upstream :: "nat \<Rightarrow> json \<Rightarrow> unit upstream" where
  "demo_upstream n v = \<lparr>up_send = (\<lambda>call g. (Inr (answer n v), g)), up_sha256 = (\<lambda>s. s)\<rparr>"

definition demo_client :: client where
  "demo_client = new_client ''https://g/'' ''sk-m''"

definition demo_owner :: gw_user where
  "demo_owner = \<lparr>gu_id = ''u'', gu_name = ''n'', gu_email = []\<rparr>"

definition demo_key_limits :: limits where
  "demo_key_limits = \<lparr>lim_models = [], lim_tpm = None, lim_rpm = Some 5,
     lim_quotas = [\<lparr>win_budget = 1, win_period = ''24h''\<rparr>, \<lparr>win_budget = 5, win_period = ''30d''\<rparr>]\<rparr>"


section \<open>Creating a key\<close>

lemma create_key_spy:
  assumes "run_state (client_create_key (spy up) c now alias p t) s = (Inr kr, s')"
  obtains a where "snd s' = snd s @ [(request_of c ''POST'' ''/key/generate''
      (Some (key_params_json (p\<lparr>kp_alias := alias, kp_duration := days_text now t\<rparr>))), Some a)]" "ha_status a = 200"
proof -
  obtain r1 s1 where r1: "run_state (client_do (spy up) c ''POST'' ''/key/generate''
      (Some (key_params_json (p\<lparr>kp_alias := alias, kp_duration := days_text now t\<rparr>)))) s = (r1, s1)" by (meson surj_pair)
  have "s' = s1" "\<exists>a. r1 = Inr a \<and> ha_status a = 200"
    using assms r1 by (auto simp: client_create_key_def split: sum.splits if_splits)
  then show thesis using client_do_spy [OF r1] that by fastforce
qed


definition demo_key_request :: key_request where
  "demo_key_request = \<lparr>kr_alias = ''a'', kr_user = demo_owner, kr_expires_at = 5 * day, kr_limits = demo_key_limits\<rparr>"


section \<open>What it takes for a key to be gone\<close>

text \<open>The gateway's own word that a key is gone.\<close>

definition says_gone :: "exchange \<Rightarrow> bool" where
  "says_gone x \<longleftrightarrow> (\<exists>a. snd x = Some a \<and>
     (ha_status a = 404 \<and> is_litellm_not_found a
      \<or> ha_status a = 200 \<and> decode ''decode key info'' (\<lambda>fs. map_option ki_status (key_info_of fs)) a = Inr key_status_deleted))"

lemma key_call_error_gone:
  "is_key_not_found (key_call_error route a) \<longleftrightarrow> ha_status a = 404 \<and> is_litellm_not_found a"
  by (simp add: key_call_error_def)

lemma decode_part: "decode what f a = Inr i \<Longrightarrow> decode what (\<lambda>fs. map_option h (f fs)) a = Inr (h i)"
  by (auto simp: decode_def Option.bind_eq_Some_conv split: sum.splits option.splits Option.bind_splits)



section \<open>The sums of the daily activity\<close>

definition row_total :: "activity_row list \<Rightarrow> string \<Rightarrow> int" where
  "row_total rows d = sum_list (map (\<lambda>r. am_total (ar_metrics r)) (filter (\<lambda>r. ar_date r = d) rows))"

text \<open>What the rows say of one model.\<close>

definition entries :: "activity_row list \<Rightarrow> string \<Rightarrow> activity_metrics list" where
  "entries rows n = concat (map (\<lambda>r. map snd (filter (\<lambda>g. fst g = n) (ar_groups r))) rows)"

definition model_sum :: "activity_row list \<Rightarrow> string \<Rightarrow> model_usage" where
  "model_sum rows n = \<lparr>mu_model = n, mu_requests = sum_list (map am_requests (entries rows n)),
     mu_prompt = sum_list (map am_prompt (entries rows n)),
     mu_completion = sum_list (map am_completion (entries rows n)),
     mu_total = sum_list (map am_total (entries rows n))\<rparr>"

definition named_models :: "activity_row list \<Rightarrow> string set" where
  "named_models rows = (\<Union>r \<in> set rows. fst ` set (ar_groups r))"

lemma keys_al_put: "fst ` set (al_put k v m) = insert k (fst ` set m)" "distinct (map fst m) \<Longrightarrow> distinct (map fst (al_put k v m))"
  by (auto simp: al_put_def distinct_map_filter)

lemma absent:
  "n \<notin> f ` set xs \<Longrightarrow> filter (\<lambda>x. f x = n) xs = []"
  by (auto simp: filter_empty_conv)

lemma row_total_simps:
  "row_total (rows @ [r]) d = row_total rows d + (if ar_date r = d then am_total (ar_metrics r) else 0)"
  "d \<notin> ar_date ` set rows \<Longrightarrow> row_total rows d = 0"
  by (simp_all add: row_total_def absent)

lemma fold_add_metrics:
  "fold add_metrics gs m = m\<lparr>mu_requests := mu_requests m + sum_list (map am_requests gs),
     mu_prompt := mu_prompt m + sum_list (map am_prompt gs),
     mu_completion := mu_completion m + sum_list (map am_completion gs),
     mu_total := mu_total m + sum_list (map am_total gs)\<rparr>"
  by (induction gs arbitrary: m) (simp_all add: add_metrics_def algebra_simps)

lemma fold_add_group:
  "map_of (fold add_group gs ms) n =
     (if n \<in> fst ` set gs
      then Some (fold add_metrics (map snd (filter (\<lambda>g. fst g = n) gs)) (the_default (new_model n) (map_of ms n)))
      else map_of ms n)"
proof (induction gs arbitrary: ms)
  case (Cons g gs)
  then show ?case
    by (cases "n \<in> fst ` set gs"; cases "fst g = n") (simp_all add: add_group_def absent)
qed simp

lemma fold_add_group_distinct: "distinct (map fst ms) \<Longrightarrow> distinct (map fst (fold add_group gs ms))"
  by (induction gs arbitrary: ms) (auto simp: add_group_def intro: keys_al_put)

lemma activity_days:
  "map_of (fst (fold add_row rows ([], []))) d = (if d \<in> ar_date ` set rows then Some (row_total rows d) else None)
   \<and> distinct (map fst (fst (fold add_row rows ([], []))))"
proof (induction rows rule: rev_induct)
  case (snoc r rows)
  then show ?case
    by (cases "d = ar_date r"; cases "d \<in> ar_date ` set rows") (simp_all add: add_row_def row_total_simps keys_al_put(2))
qed simp

lemma snd_add_row: "snd (add_row r a) = fold add_group (ar_groups r) (snd a)"
  by (simp add: add_row_def)

lemma activity_models:
  "map_of (snd (fold add_row rows ([], []))) n = (if n \<in> named_models rows then Some (model_sum rows n) else None)
   \<and> distinct (map fst (snd (fold add_row rows ([], []))))"
proof (induction rows rule: rev_induct)
  case (snoc r rows)
  let ?ms = "snd (fold add_row rows ([], []))" and ?new = "map snd (filter (\<lambda>g. fst g = n) (ar_groups r))"
  have "entries rows n = []" if "n \<notin> named_models rows"
    using that by (auto simp: entries_def named_models_def filter_empty_conv image_iff)
  then have start: "the_default (new_model n) (map_of ?ms n) = model_sum rows n"
    using snoc by (simp add: model_sum_def new_model_def)
  have add: "fold add_metrics ?new (model_sum rows n) = model_sum (rows @ [r]) n"
    unfolding fold_add_metrics by (simp add: model_sum_def entries_def)
  have same: "model_sum (rows @ [r]) n = model_sum rows n" if "n \<notin> fst ` set (ar_groups r)"
    using absent [OF that] by (simp add: model_sum_def entries_def)
  have "map_of (snd (fold add_row (rows @ [r]) ([], []))) n =
      (if n \<in> fst ` set (ar_groups r) then Some (model_sum (rows @ [r]) n) else map_of ?ms n)"
    by (simp only: fold_append fold_simps comp_apply id_apply add_row_def snd_conv fold_add_group start add)
  moreover have "distinct (map fst (snd (fold add_row (rows @ [r]) ([], []))))"
    using snoc by (simp add: snd_add_row fold_add_group_distinct)
  moreover have "named_models (rows @ [r]) = named_models rows \<union> fst ` set (ar_groups r)"
    by (auto simp: named_models_def)
  ultimately show ?case using snoc same
    by (cases "n \<in> fst ` set (ar_groups r)"; cases "n \<in> named_models rows") simp_all
qed (simp add: named_models_def)

text \<open>The rows of the pages that were read.\<close>

definition page_rows :: "exchange \<Rightarrow> activity_row list" where
  "page_rows x =
     (case snd x of
        None \<Rightarrow> []
      | Some a \<Rightarrow> (case decode ''decode daily activity'' activity_page_of a of Inl _ \<Rightarrow> [] | Inr (rs, _) \<Rightarrow> rs))"

lemma daily_activity_spy:
  assumes "run_state (daily_activity (spy up) c q) s = (r, s')"
  shows "\<exists>x. snd s' = snd s @ [x] \<and> (\<forall>rows again. r = Inr (rows, again) \<longrightarrow> page_rows x = rows)"
proof -
  obtain r1 s1 where r1: "run_state (client_do (spy up) c ''GET'' (''/user/daily/activity?'' @ query_encode q) None) s = (r1, s1)"
    by (meson surj_pair)
  have "s' = s1" using assms r1 by (simp add: daily_activity_def)
  from r1 show ?thesis
  proof (rule client_do_spy)
    fix e assume "r1 = Inl (GwError e)" "snd s1 = snd s @ [(request_of c ''GET'' (''/user/daily/activity?'' @ query_encode q) None, None)]"
    then show ?thesis using assms r1 by (auto simp: daily_activity_def)
  next
    fix a assume "r1 = Inr a" "snd s1 = snd s @ [(request_of c ''GET'' (''/user/daily/activity?'' @ query_encode q) None, Some a)]"
    then show ?thesis using assms r1 by (auto simp: daily_activity_def page_rows_def split: if_splits)
  qed
qed

lemma history_pages_spy:
  "run_state (history_pages n (spy up) c q a) s = (r, s') \<Longrightarrow>
     \<exists>ys. snd s' = snd s @ ys \<and> length ys \<le> n \<and> (\<forall>a'. r = Inr a' \<longrightarrow> a' = fold add_row (concat (map page_rows ys)) a)"
proof (induction n arbitrary: a s)
  case (Suc n)
  let ?q = "query_set ''page'' (format_nat (activity_max_pages - n)) q"
  obtain p s1 where p: "run_state (daily_activity (spy up) c ?q) s = (p, s1)" by (meson surj_pair)
  from daily_activity_spy [OF p] obtain x
    where x: "snd s1 = snd s @ [x]" "\<And>rows again. p = Inr (rows, again) \<Longrightarrow> page_rows x = rows" by blast
  show ?case
  proof (cases p)
    case (Inl e)
    then show ?thesis using Suc(2) p x by (intro exI [of _ "[x]"]) auto
  next
    case (Inr rw)
    obtain rows again where rw: "rw = (rows, again)" by (cases rw)
    show ?thesis
    proof (cases again)
      case True
      then have "run_state (history_pages n (spy up) c q (fold add_row rows a)) s1 = (r, s')"
        using Suc(2) p Inr rw by simp
      from Suc(1) [OF this] obtain ys where "snd s' = snd s1 @ ys" "length ys \<le> n"
        "\<forall>a'. r = Inr a' \<longrightarrow> a' = fold add_row (concat (map page_rows ys)) (fold add_row rows a)" by blast
      then show ?thesis using x Inr rw by (intro exI [of _ "x # ys"]) simp
    next
      case False
      then show ?thesis using Suc(2) p x Inr rw by (intro exI [of _ "[x]"]) auto
    qed
  qed
qed auto

lemma history_days_spec:
  assumes "\<And>d. map_of (fst a) d = (if d \<in> ar_date ` set rows then Some (row_total rows d) else None)"
    and "distinct (map fst (fst a))"
  shows "(\<forall>d t. \<lparr>du_day = d, du_tokens = t\<rparr> \<in> set (hist_days (history_of a)) \<longleftrightarrow> 0 < t \<and> t = row_total rows d)
    \<and> sorted (map du_day (hist_days (history_of a))) \<and> distinct (map du_day (hist_days (history_of a)))"
proof -
  let ?shown = "filter (\<lambda>(d, t). t > 0) (fst a)"
  have mem: "(d, t) \<in> set (fst a) \<longleftrightarrow> d \<in> ar_date ` set rows \<and> t = row_total rows d" for d t
    using map_of_eq_Some_iff [OF assms(2), of d t] assms(1) [of d] by (cases "d \<in> ar_date ` set rows") auto
  have "(\<lparr>du_day = d, du_tokens = t\<rparr> \<in> set (hist_days (history_of a))) = ((d, t) \<in> set (fst a) \<and> 0 < t)" for d t
    unfolding history_of_def by (auto simp: image_iff Bex_def)
  then have "(\<lparr>du_day = d, du_tokens = t\<rparr> \<in> set (hist_days (history_of a))) = (0 < t \<and> t = row_total rows d)" for d t
    using row_total_simps(2) [of d rows] unfolding mem by (cases "d \<in> ar_date ` set rows") auto
  moreover have "distinct (map fst ?shown)" using assms(2) by (rule distinct_map_filter)
  then have "distinct (map du_day (map (\<lambda>(d, t). \<lparr>du_day = d, du_tokens = t\<rparr>) ?shown))"
    by (simp add: comp_def case_prod_beta)
  then have "distinct (map du_day (hist_days (history_of a)))"
    unfolding history_of_def by simp
  moreover have "sorted (map du_day (hist_days (history_of a)))" by (simp add: history_of_def)
  ultimately show ?thesis by blast
qed

lemma history_models_spec:
  assumes "\<And>n. map_of (snd a) n = (if n \<in> named_models rows then Some (model_sum rows n) else None)"
    and "distinct (map fst (snd a))"
  shows "set (hist_models (history_of a)) = model_sum rows ` named_models rows
    \<and> distinct (map mu_model (hist_models (history_of a))) \<and> sorted (map (\<lambda>m. - mu_total m) (hist_models (history_of a)))"
proof -
  have "(n, m) \<in> set (snd a) \<longleftrightarrow> n \<in> named_models rows \<and> m = model_sum rows n" for n m
    using map_of_eq_Some_iff [OF assms(2), of n m] assms(1) [of n] by (cases "n \<in> named_models rows") auto
  then have e: "x \<in> set (snd a) \<longleftrightarrow> fst x \<in> named_models rows \<and> snd x = model_sum rows (fst x)" for x
    by (cases x) simp
  have mem: "set (map snd (snd a)) = model_sum rows ` named_models rows"
  proof
    show "set (map snd (snd a)) \<subseteq> model_sum rows ` named_models rows" using e by auto
    show "model_sum rows ` named_models rows \<subseteq> set (map snd (snd a))"
      using e [of "(n, model_sum rows n)" for n] by (force simp: image_iff)
  qed
  have "mu_model (snd x) = fst x" if "x \<in> set (snd a)" for x using that e by (simp add: model_sum_def)
  then have "map (mu_model \<circ> snd) (snd a) = map fst (snd a)" by (intro map_cong) simp_all
  then have "distinct (map mu_model (map snd (snd a)))" using assms(2) by (simp only: map_map)
  then show ?thesis using mem by (simp add: history_of_def)
qed


definition demo_page :: json where
  "demo_page = JObj [(''results'', JArr [JObj [(''date'', JStr ''2024-02-29''),
     (''metrics'', JObj [(''total_tokens'', JNum 7)])]])]"


section \<open>Addresses\<close>

lemma escape_plain:
  assumes "c \<in> set (escape_char d)"
  shows "c \<noteq> CHR ''&'' \<and> c \<noteq> CHR ''=''"
proof -
  define n where "n = (of_char d :: int)"
  have nn: "n = int (of_char d)" by (simp add: n_def of_nat_of_char)
  have "0 \<le> n" unfolding nn by (rule of_nat_0_le_iff)
  moreover have "n < 256"
  proof -
    have "int (of_char d) < int 256" unfolding of_nat_less_iff by simp
    then show ?thesis by (simp only: nn of_nat_numeral)
  qed
  ultimately have "hex_val (upper_hex (n div 16)) \<noteq> None" "hex_val (upper_hex (n mod 16)) \<noteq> None"
    by (simp_all add: hex_val_upper)
  moreover have "hex_val CHR ''&'' = None" "hex_val CHR ''='' = None" "\<not> unreserved CHR ''&''" "\<not> unreserved CHR ''=''"
    by code_simp+
  ultimately show ?thesis using assms by (auto simp: escape_char_def Let_def n_def split: if_splits)
qed

lemma query_escape_plain: "CHR ''&'' \<notin> set (query_escape s)" "CHR ''='' \<notin> set (query_escape s)"
  using escape_plain by (auto simp: query_escape_def)

lemma split_on_plain: "c \<notin> set p \<Longrightarrow> split_on c p = [p]"
  by (induction p) auto

lemma split_on_first: "c \<notin> set p \<Longrightarrow> split_on c (p @ c # s) = p # split_on c s"
  by (induction p) auto

lemma split_on_join:
  "ps \<noteq> [] \<Longrightarrow> (\<And>p. p \<in> set ps \<Longrightarrow> c \<notin> set p) \<Longrightarrow> split_on c (join [c] ps) = ps"
proof (induction ps rule: induct_list012)
  case (3 x y zs)
  then show ?case by (simp add: split_on_first)
qed (auto simp: split_on_plain)

lemma parse_escaped_pair: "parse_pair (query_escape k @ ''='' @ query_escape v) = [(k, v)]"
  using cut_at_prefix [OF query_escape_plain(2)] by (simp add: parse_pair_def query_unescape_escape)

lemma parse_escaped_pairs:
  "concat (map parse_pair (map (\<lambda>(k, v). query_escape k @ ''='' @ query_escape v) ps)) = ps"
proof (induction ps)
  case (Cons p ps)
  then show ?case using parse_escaped_pair [of "fst p" "snd p"] by (simp add: case_prod_beta)
qed simp

text \<open>
  What the portal puts into the address of a call is what the gateway reads there: the parameters of every
  query decode to the names and texts they were made of, so that no ref, no user id and no date can add a
  parameter or change another one.
\<close>

theorem addresses_decode:
  "parse_query (query_encode ps) = sort_key fst ps
   \<and> key_info_path ref = ''/key/info?'' @ query_encode [(''key'', ref)]
   \<and> parse_query (query_encode [(''key'', ref)]) = [(''key'', ref)]"
proof -
  have "parse_query (query_encode qs) = sort_key fst qs" for qs
  proof (cases "sort_key fst qs = []")
    case True
    then show ?thesis by (simp add: parse_query_def query_encode_def parse_pair_def)
  next
    case False
    let ?parts = "map (\<lambda>(k, v). query_escape k @ ''='' @ query_escape v) (sort_key fst qs)"
    have "split_on CHR ''&'' (join ''&'' ?parts) = ?parts"
      by (rule split_on_join) (use False query_escape_plain in auto)
    moreover have "concat (map parse_pair ?parts) = sort_key fst qs" by (rule parse_escaped_pairs)
    ultimately show ?thesis by (simp add: parse_query_def query_encode_def)
  qed
  from this [of ps] this [of "[(''key'', ref)]"] show ?thesis by (simp add: key_info_path_def)
qed

end
