(* ===== verification/Spec2Isabelle.thy ===== *)
theory Spec2Isabelle
  imports Lifecycle Upgrade Metrics Mail OidcIssuer Messages AdminRights KeyRules Mutex ChartFacts FormRules LiteLLMFacts
begin

text \<open>
  A model of Keyosk (the Go program in this repository) and what makes it correct.

  \<^bold>\<open>The program.\<close>  Keyosk is a portal where people log in with OpenID Connect and generate, extend and delete
  their own key of a LiteLLM gateway.  Administrators keep profiles of limits and assign them to accounts, some
  until a date.  The parts: a SQLite store (\<open>internal/database\<close>); a gateway behind an interface
  (\<open>internal/keyprovider\<close>, with an in-memory one for tests and the LiteLLM client of \<open>internal/litellm\<close>); the
  HTTP handlers (\<open>internal/handlers\<close>) with login (\<open>internal/oidc\<close>), sessions and request forgery protection
  (\<open>internal/session\<close>); and three jobs: the limit sync (\<open>internal/limitsync\<close>), which brings keys to their
  owner's limits, the end of assignments (\<open>internal/profileexpiry\<close>), and the reminders (\<open>internal/notify\<close>).

  \<^bold>\<open>Reading the model.\<close>  A handler or job is an action of the state monad over a \<open>world\<close> (theory \<open>World\<close>): the
  database \<open>wdb\<close>, the gateway's state \<open>wgw\<close> of a type of its own, the in-process caches \<open>wmem\<close>, a log of what
  else is done (metrics, mails, kicks of the sync), and what the program cannot choose: the clock, the random
  source, cancellations, and which statements of the store fail (\<open>wfault\<close>), each as a function from a counter,
  so that a theorem about every world covers every clock and every pattern of failures.  A transaction of the store is a function from
  the database to an error or a result with the new database; a table is a list of records.  A Go string is a
  list of bytes; an amount of money the rational number that the \<open>float64\<close> denotes, rounded after each operation
  (\<open>Float64\<close>); a point in time the nanoseconds since 1970; ids are unbounded integers; a text that is parsed as
  \<open>int64\<close> is checked for its range.

  \<^bold>\<open>Theories and sources.\<close>
    \<^item> \<open>Prelude\<close>, \<open>GoText\<close>, \<open>Calendar\<close>, \<open>Float64\<close>, \<open>Json\<close>, \<open>NetIp\<close>, \<open>Http\<close>: what the program uses of Go's library.
    \<^item> \<open>Schema\<close>, \<open>DbProfiles\<close>, \<open>DbUsers\<close>, \<open>DbKeys\<close>, \<open>DbLimitSync\<close>, \<open>DbRest\<close>: the tables of \<open>models.go\<close> and the methods of
      \<open>db.go\<close>, \<open>admins.go\<close> and \<open>limitsync.go\<close>.  \<open>DbInvariant\<close> has every write as a step \<open>db_step\<close>.
    \<^item> \<open>KeyProvider\<close>, \<open>Fake\<close>: \<open>keyprovider.go\<close>, \<open>alias.go\<close> and \<open>fake.go\<close>.  \<open>Quota\<close> and \<open>LiteLLM\<close>: \<open>internal/litellm\<close>.
    \<^item> \<open>Config\<close>: \<open>config.go\<close>.  \<open>Session\<close>: \<open>session.go\<close> and \<open>csrf.go\<close>.  \<open>Oidc\<close>: \<open>oidc.go\<close>; \<open>OidcIssuer\<close>: its set-up, and the issuer of
      \<open>internal/oidc/oidctest\<close> that the tests log in against.
    \<^item> \<open>I18n\<close>, \<open>Messages\<close>: the languages and the catalogue of \<open>internal/i18n\<close>.
    \<^item> \<open>Charts\<close>, \<open>Memory\<close>, \<open>UsageView\<close>, \<open>Portal\<close>: the chart (\<open>usagebars.go\<close>, \<open>budgetfmt.go\<close>), the caches
      (\<open>flash.go\<close>, \<open>modelcache.go\<close>, \<open>usagecache.go\<close>) and the handlers of \<open>ui.go\<close>.
    \<^item> \<open>ProfileForm\<close>, \<open>Admin\<close>, \<open>AdminPanel\<close>: \<open>admin.go\<close>, \<open>admins.go\<close>, \<open>profileaudit.go\<close> and the sync's card.
    \<^item> \<open>Pages\<close>: the account, privacy and theme pages, the middleware and the routes of \<open>cmd/server/router.go\<close>.
    \<^item> \<open>LimitSync\<close>, \<open>ProfileExpiry\<close>, \<open>Reminder\<close>: the jobs; \<open>Mail\<close>: the mails of \<open>smtp.go\<close>.  \<open>KeyLock\<close>: \<open>keylock.go\<close>, as a step relation.
    \<^item> \<open>SyncRace\<close>: the pushes of the sync cut at their calls, interleaved with everything else.  \<open>Process\<close>: \<open>cmd/server\<close>,
      the flags, the commands, the start of the server, and the loops that wake the jobs.  \<open>Lifecycle\<close>: the log level, the
      cleanup, and the process from serving to its exit, as a step relation.  \<open>Migrations\<close>: the
      migrations up and down as SQL statements on tables of named columns, and the migrator.  \<open>Upgrade\<close>: the columns that
      the structs of \<open>models.go\<close> are stored in.  \<open>Metrics\<close>: \<open>metrics.go\<close>.

  \<^bold>\<open>What the lemmas show.\<close>
    \<^item> \<open>DbProfileFacts\<close>, \<open>DbInvariant\<close>: every write keeps the constraints of the schema, and any reachable database
      has exactly one default profile; saving and deleting a profile do what they say.
    \<^item> \<open>LimitSyncFacts\<close>, \<open>SyncInvariant\<close>, \<open>SyncScenario\<close>: for any gateway that honours the locale \<open>limit_gateway\<close>
      (\<open>KeyProvider\<close>; interpreted for \<open>Fake\<close>), a run ends and leaves each live key with its owner's limits or a
      recorded failure.
    \<^item> \<open>Gate\<close>: what a session authenticates, the gate of the panel, and the protection against forged requests.
    \<^item> \<open>PortalInvariant\<close> has a locale for relations between gateway and database that every handler and job
      keeps; the proofs go through the handlers once.  \<open>KeyBooks\<close> interprets it with "every live key is on record",
      \<open>SyncUpheld\<close> with the invariant of the sync, so that after any sequence of requests and jobs the next run
      brings every key to its limits.  \<open>SyncRace\<close> shows that no change which overtakes a push is lost, in any
      interleaving; \<open>Process\<close> that a resync undoes what was changed in the gateway, and that no kick is lost;
      \<open>Migrations\<close> that an upgrade that is interrupted can be resumed, and leaves no key in plain text; \<open>Upgrade\<close>
      that a database of any earlier version ends with the columns and the uniqueness that the records rely on, and
      that a fresh install is the empty database; \<open>Lifecycle\<close> that the database is not closed under a push.
    \<^item> \<open>AdminRights\<close>: nobody removes their own rights, except when the store fails at one statement.  \<open>OidcIssuer\<close>: a
      login ends as who the issuer says, and only once.  \<open>Messages\<close>: every text exists in both languages.
    \<^item> \<open>KeyRules\<close>: replacing, deleting and revoking one user's key, with every failure of the store.
    \<^item> \<open>Mutex\<close>: the key lock refines a mutex per user.  \<open>Mail\<close>: no address or subject adds a header.  \<open>ChartFacts\<close>, \<open>FormRules\<close>: the chart, the form, the figures, the
      configuration and the one-time keys.
    \<^item> \<open>LiteLLMFacts\<close>: what the LiteLLM provider sends, in which order, and what it concludes from answers.

  \<^bold>\<open>Parameters.\<close>  The gateway (for the LiteLLM client: the HTTP transport, with what \<open>encoding/json\<close> reads from an
  answer), the identity provider (\<open>go-oidc\<close>, \<open>oauth2\<close>, \<open>go-jose\<close>), the signature of the forgery protection, SHA-256, the SMTP relay, and which
  characters outside ASCII are letters.  Witnesses use concrete ones.

  \<^bold>\<open>Bounds and fuel.\<close>  The rounds of a sync run are counted down from one more than the number of keys, and
  \<open>sync_run_terminates\<close> shows that this is enough on any gateway.  The pages of the usage history are counted down
  from the 20 that the code allows.  All other loops recurse on their data or on a measure.

  \<^bold>\<open>Not modelled.\<close>  The opening of the SQLite file and the SQL texts of the store's methods (which are
  modelled by what their statements do); of the migrations the types of columns, \<open>NOT NULL\<close> and foreign keys; the
  HTML templates, of which the handlers' data is modelled; log lines; the metric readers for tests; the
  interleaving of the calls of two requests of one user (the key lock keeps those on its key apart); and \<open>int64\<close>
  overflow of sums of tokens, which are far below it.
\<close>

end
